(* ===== verification/Prelude.thy ===== *)
theory Prelude
  imports
    Main
    "HOL-Library.Char_ord"
    "HOL-Library.List_Lexorder"
    "HOL-Library.Product_Lexorder"
    "HOL-Library.AList"
    "HOL-Library.Sublist"
begin

text \<open>
  Shared vocabulary of the development: the time line of \<open>app/core/clock.py\<close>, rows kept in
  lists with a primary key (the session of SQLAlchemy as explicit state), Python strings, JSON
  values, and the two kinds of exceptions the routes and the control-surface client raise.
  The collections \<open>tbl_simps\<close> and \<open>route_defs\<close> carry the proofs of the components.
\<close>

named_theorems tbl_simps "lookup, update and deletion in keyed tables"
named_theorems route_defs "definitions a route proof unfolds"

section \<open>Time\<close>

text \<open>
  \<open>utcnow()\<close> gives a naive UTC datetime with microsecond resolution, counted here in
  microseconds from 1970-01-01 00:00 (Python datetimes know no leap seconds, so the start of
  every clock hour is a multiple of an hour).  A \<open>timedelta\<close> is a difference of two such values.
\<close>

type_synonym datetime = int
type_synonym timedelta = int

definition seconds :: "int \<Rightarrow> timedelta" where "seconds n = n * 1000000"
definition minutes :: "int \<Rightarrow> timedelta" where "minutes n = seconds (60 * n)"
definition hours :: "int \<Rightarrow> timedelta" where "hours n = minutes (60 * n)"
definition days :: "int \<Rightarrow> timedelta" where "days n = hours (24 * n)"

lemmas time_defs = seconds_def minutes_def hours_def days_def

section \<open>Rows with a primary key\<close>

text \<open>
  A table is the list of its rows; \<open>key\<close> reads the primary key.  \<open>tbl_get\<close> is \<open>db.get(Model, k)\<close>,
  \<open>tbl_upd\<close> the assignment to attributes of one row, \<open>tbl_del\<close> the deletion of one row.
\<close>

definition tbl_get :: "('r \<Rightarrow> 'k) \<Rightarrow> 'k \<Rightarrow> 'r list \<Rightarrow> 'r option" where
  "tbl_get key k rows = find (\<lambda>r. key r = k) rows"

definition tbl_upd :: "('r \<Rightarrow> 'k) \<Rightarrow> 'k \<Rightarrow> ('r \<Rightarrow> 'r) \<Rightarrow> 'r list \<Rightarrow> 'r list" where
  "tbl_upd key k f rows = map (\<lambda>r. if key r = k then f r else r) rows"

definition tbl_del :: "('r \<Rightarrow> 'k) \<Rightarrow> 'k \<Rightarrow> 'r list \<Rightarrow> 'r list" where
  "tbl_del key k rows = filter (\<lambda>r. key r \<noteq> k) rows"

definition keys_distinct :: "('r \<Rightarrow> 'k) \<Rightarrow> 'r list \<Rightarrow> bool" where
  "keys_distinct key rows \<longleftrightarrow> distinct (map key rows)"

lemma tbl_get_Nil [simp]: "tbl_get key k [] = None"
  by (simp add: tbl_get_def)

lemma tbl_get_Cons [simp]:
  "tbl_get key k (r # rs) = (if key r = k then Some r else tbl_get key k rs)"
  by (simp add: tbl_get_def)

lemma tbl_get_SomeD: "tbl_get key k rows = Some r \<Longrightarrow> r \<in> set rows \<and> key r = k"
  by (induction rows) (auto split: if_splits)

lemma tbl_get_None_iff: "tbl_get key k rows = None \<longleftrightarrow> (\<forall>r\<in>set rows. key r \<noteq> k)"
  by (induction rows) auto

lemma tbl_get_append:
  "tbl_get key k (xs @ ys) = (case tbl_get key k xs of None \<Rightarrow> tbl_get key k ys | Some r \<Rightarrow> Some r)"
  by (induction xs) auto

lemma tbl_get_mem:
  "keys_distinct key rows \<Longrightarrow> r \<in> set rows \<Longrightarrow> tbl_get key (key r) rows = Some r"
  by (induction rows) (auto simp: keys_distinct_def)

lemma tbl_upd_Nil [simp]: "tbl_upd key k f [] = []"
  by (simp add: tbl_upd_def)

lemma tbl_upd_Cons [simp]:
  "tbl_upd key k f (r # rs) = (if key r = k then f r else r) # tbl_upd key k f rs"
  by (simp add: tbl_upd_def)

lemma tbl_get_upd [tbl_simps]:
  assumes "\<And>r. key (f r) = key r"
  shows "tbl_get key j (tbl_upd key k f rows) =
    (if j = k then map_option f (tbl_get key j rows) else tbl_get key j rows)"
  using assms by (induction rows) auto

lemma tbl_get_upd_other:
  assumes "\<And>r. key (f r) = key r"
  shows "tbl_get key j (tbl_upd key' k f rows) =
    map_option (\<lambda>r. if key' r = k then f r else r) (tbl_get key j rows)"
  using assms by (induction rows) auto

lemma set_tbl_upd: "set (tbl_upd key k f rows) = (\<lambda>r. if key r = k then f r else r) ` set rows"
  by (simp add: tbl_upd_def)

lemma map_tbl_upd [tbl_simps]:
  "(\<And>r. g (f r) = g r) \<Longrightarrow> map g (tbl_upd key k f rows) = map g rows"
  by (induction rows) auto

lemma tbl_upd_id: "tbl_get key k rows = None \<Longrightarrow> tbl_upd key k f rows = rows"
  by (induction rows) (auto split: if_splits)

lemma keys_distinct_upd [tbl_simps]:
  "(\<And>r. key (f r) = key r) \<Longrightarrow> keys_distinct key (tbl_upd key k f rows) = keys_distinct key rows"
  by (simp add: keys_distinct_def map_tbl_upd)

lemma tbl_del_Nil [simp]: "tbl_del key k [] = []"
  by (simp add: tbl_del_def)

lemma set_tbl_del [simp]: "set (tbl_del key k rows) = {r \<in> set rows. key r \<noteq> k}"
  by (simp add: tbl_del_def)

lemma tbl_get_del [tbl_simps]:
  "tbl_get key j (tbl_del key k rows) = (if j = k then None else tbl_get key j rows)"
  by (induction rows) (auto simp: tbl_del_def)

lemma keys_distinct_del: "keys_distinct key rows \<Longrightarrow> keys_distinct key (tbl_del key k rows)"
  by (simp add: keys_distinct_def tbl_del_def distinct_map_filter)

lemma keys_distinct_filter: "keys_distinct key rows \<Longrightarrow> keys_distinct key (filter P rows)"
  by (simp add: keys_distinct_def distinct_map_filter)

lemma keys_distinct_snoc [tbl_simps]:
  "keys_distinct key (rows @ [r]) \<longleftrightarrow> keys_distinct key rows \<and> tbl_get key (key r) rows = None"
  by (auto simp: keys_distinct_def tbl_get_None_iff image_iff)

lemma keys_distinct_Nil [simp]: "keys_distinct key []"
  by (simp add: keys_distinct_def)

lemma keys_distinct_single [simp]: "keys_distinct key [r]"
  by (simp add: keys_distinct_def)

lemma keys_distinct_inj:
  "keys_distinct key rows \<Longrightarrow> r \<in> set rows \<Longrightarrow> r' \<in> set rows \<Longrightarrow> key r = key r' \<Longrightarrow> r = r'"
  by (metis option.inject tbl_get_mem)

section \<open>Python strings\<close>

text \<open>
  A \<open>str\<close> is a list of characters, restricted to the code points below 256 that Isabelle's \<open>char\<close>
  has; a \<open>bytes\<close> value is a list of bytes, in the same type.  The character classes below are the
  ones Python gives these code points.
\<close>

type_synonym pystr = string
type_synonym bytes = string

text \<open>A literal that contains the dash U+2014 is kept in its UTF-8 form.\<close>

definition em_dash :: bytes where "em_dash = [CHR 0xE2, CHR 0x80, CHR 0x94]"

definition code :: "char \<Rightarrow> nat" where
  "code c = of_char c"

text \<open>\<open>str.isspace\<close> (also \<open>\s\<close>, and what \<open>str.strip\<close> removes).\<close>

definition is_space :: "char \<Rightarrow> bool" where
  "is_space c \<longleftrightarrow> code c \<in> {9, 10, 11, 12, 13, 28, 29, 30, 31, 32, 133, 160}"

definition is_digit :: "char \<Rightarrow> bool" where
  "is_digit c \<longleftrightarrow> 48 \<le> code c \<and> code c \<le> 57"

definition is_ascii_alpha :: "char \<Rightarrow> bool" where
  "is_ascii_alpha c \<longleftrightarrow> (65 \<le> code c \<and> code c \<le> 90) \<or> (97 \<le> code c \<and> code c \<le> 122)"

definition is_ascii_alnum :: "char \<Rightarrow> bool" where
  "is_ascii_alnum c \<longleftrightarrow> is_ascii_alpha c \<or> is_digit c"

text \<open>\<open>\w\<close>: letters and numeric characters of the Latin-1 range, and the underscore.\<close>

definition is_word :: "char \<Rightarrow> bool" where
  "is_word c \<longleftrightarrow> is_ascii_alnum c \<or> code c = 95 \<or>
     code c \<in> {170, 178, 179, 181, 185, 186, 188, 189, 190} \<or>
     (192 \<le> code c \<and> code c \<noteq> 215 \<and> code c \<noteq> 247)"

text \<open>\<open>str.lower\<close> on one character.\<close>

definition lower_char :: "char \<Rightarrow> char" where
  "lower_char c =
     (if (65 \<le> code c \<and> code c \<le> 90) \<or> (192 \<le> code c \<and> code c \<le> 222 \<and> code c \<noteq> 215)
      then char_of (code c + 32) else c)"

definition lower :: "pystr \<Rightarrow> pystr" where
  "lower s = map lower_char s"

text \<open>\<open>str.lstrip\<close>, \<open>str.rstrip\<close>, \<open>str.strip\<close>, with the set of characters to remove.\<close>

definition lstrip_of :: "(char \<Rightarrow> bool) \<Rightarrow> pystr \<Rightarrow> pystr" where
  "lstrip_of P s = dropWhile P s"

definition rstrip_of :: "(char \<Rightarrow> bool) \<Rightarrow> pystr \<Rightarrow> pystr" where
  "rstrip_of P s = rev (dropWhile P (rev s))"

definition strip :: "pystr \<Rightarrow> pystr" where
  "strip s = rstrip_of is_space (lstrip_of is_space s)"

text \<open>\<open>sep.join(parts)\<close> and \<open>s.split(c)\<close> for a one-character separator.\<close>

fun join :: "pystr \<Rightarrow> pystr list \<Rightarrow> pystr" where
  "join sep [] = []"
| "join sep [x] = x"
| "join sep (x # xs) = x @ sep @ join sep xs"

fun split_on :: "char \<Rightarrow> pystr \<Rightarrow> pystr list" where
  "split_on c [] = [[]]"
| "split_on c (x # xs) =
     (if x = c then [] # split_on c xs
      else (case split_on c xs of [] \<Rightarrow> [[x]] | y # ys \<Rightarrow> (x # y) # ys))"

lemma split_on_nonempty [simp]: "split_on c s \<noteq> []"
  by (induction s) (auto split: list.splits)

lemma split_on_no_sep: "c \<notin> set s \<Longrightarrow> split_on c s = [s]"
  by (induction s) auto

lemma split_on_app: "c \<notin> set s \<Longrightarrow> split_on c (s @ c # t) = s # split_on c t"
  by (induction s) auto

lemma split_on_join:
  "xs \<noteq> [] \<Longrightarrow> (\<And>x. x \<in> set xs \<Longrightarrow> c \<notin> set x) \<Longrightarrow> split_on c (join [c] xs) = xs"
proof (induction "[c]" xs rule: join.induct)
  case (2 x)
  then show ?case by (simp add: split_on_no_sep)
next
  case (3 x y ys)
  then show ?case by (simp add: split_on_app)
qed simp

lemma join_Cons: "xs \<noteq> [] \<Longrightarrow> join sep (x # xs) = x @ sep @ join sep xs"
  by (cases xs) auto

lemma set_join: "set (join sep xs) \<subseteq> set sep \<union> (\<Union>x\<in>set xs. set x)"
  by (induction sep xs rule: join.induct) auto

text \<open>\<open>str.splitlines()\<close>: the line breaks below 256, a carriage return and a line feed together being one.\<close>

definition is_line_break :: "char \<Rightarrow> bool" where
  "is_line_break c \<longleftrightarrow> code c \<in> {10, 11, 12, 13, 28, 29, 30, 133}"

fun splitlines_from :: "bool \<Rightarrow> pystr \<Rightarrow> pystr \<Rightarrow> pystr list" where
  "splitlines_from cr acc [] = (if acc = [] then [] else [rev acc])"
| "splitlines_from cr acc (c # cs) =
     (if cr \<and> code c = 10 then splitlines_from False acc cs
      else if is_line_break c then rev acc # splitlines_from (code c = 13) [] cs
      else splitlines_from False (c # acc) cs)"

definition splitlines :: "pystr \<Rightarrow> pystr list" where
  "splitlines s = splitlines_from False [] s"

lemma splitlines_from_append:
  "code n = 10 \<Longrightarrow> (cr \<longrightarrow> acc = []) \<Longrightarrow>
   splitlines_from cr acc (x @ n # y) = splitlines_from cr acc (x @ [n]) @ splitlines y"
proof (induction x arbitrary: cr acc)
  case Nil
  then show ?case by (auto simp: splitlines_def is_line_break_def)
qed (auto simp: splitlines_def is_line_break_def)

lemma splitlines_append: "code n = 10 \<Longrightarrow> splitlines (x @ n # y) = splitlines (x @ [n]) @ splitlines y"
  unfolding splitlines_def using splitlines_from_append[of n False "[]" x y] by (simp add: splitlines_def)

lemma splitlines_Nil [simp]: "splitlines [] = []"
  by (simp add: splitlines_def)

text \<open>\<open>str(n)\<close> and formatting an integer into a string.\<close>

fun nat_digits :: "nat \<Rightarrow> pystr" where
  "nat_digits n = (if n < 10 then [char_of (48 + n)] else nat_digits (n div 10) @ [char_of (48 + n mod 10)])"

declare nat_digits.simps [simp del]

definition str_of_int :: "int \<Rightarrow> pystr" where
  "str_of_int i = (if i < 0 then ''-'' @ nat_digits (nat (- i)) else nat_digits (nat i))"

text \<open>
  \<open>repr(s)\<close>: double quotes only when the string has a single quote and no double quote, backslash
  escapes, and \<open>\x..\<close> for the characters that do not print.
\<close>

definition hex_digit :: "nat \<Rightarrow> char" where
  "hex_digit n = char_of (if n < 10 then 48 + n else 87 + n)"

definition repr_char :: "char \<Rightarrow> char \<Rightarrow> pystr" where
  "repr_char q c =
     (let n = code c
      in if c = q \<or> n = 92 then [CHR 92, c]
         else if n = 9 then [CHR 92, CHR ''t''] else if n = 10 then [CHR 92, CHR ''n'']
         else if n = 13 then [CHR 92, CHR ''r'']
         else if n < 32 \<or> (127 \<le> n \<and> n \<le> 160) \<or> n = 173
         then [CHR 92, CHR ''x'', hex_digit (n div 16), hex_digit (n mod 16)] else [c])"

definition py_repr :: "pystr \<Rightarrow> pystr" where
  "py_repr s =
     (let q = (if CHR 39 \<in> set s \<and> CHR 34 \<notin> set s then CHR 34 else CHR 39)
      in [q] @ concat (map (repr_char q) s) @ [q])"

section \<open>JSON values\<close>

text \<open>What \<open>json.loads\<close> yields and \<open>json.dumps\<close> prints; an object keeps its insertion order.\<close>

datatype json =
    JNull
  | JBool bool
  | JInt int
  | JStr pystr
  | JList "json list"
  | JObj "(pystr \<times> json) list"

text \<open>\<open>d.get(key)\<close> with default \<open>None\<close>: an absent key reads as \<open>JNull\<close>.\<close>

definition jget :: "pystr \<Rightarrow> (pystr \<times> json) list \<Rightarrow> json" where
  "jget k d = (case map_of d k of None \<Rightarrow> JNull | Some v \<Rightarrow> v)"

section \<open>Exceptions\<close>

text \<open>
  \<open>fastapi.HTTPException(status, detail)\<close>: an exception leaves a route without a commit.  The
  rate limiter's detail also carries \<open>retry_after_seconds\<close>.  An exception nothing catches is the 500
  that FastAPI answers.
\<close>

datatype http_error = HTTPException int pystr | HTTPRetry int pystr int

definition internal_error :: http_error where
  "internal_error = HTTPException 500 ''Internal Server Error''"

text \<open>
  \<open>hmac.compare_digest\<close> on two strings: it raises a \<open>TypeError\<close> unless both are ASCII.
\<close>

definition is_ascii :: "pystr \<Rightarrow> bool" where
  "is_ascii s \<longleftrightarrow> (\<forall>c\<in>set s. code c < 128)"

definition compare_digest :: "pystr \<Rightarrow> pystr \<Rightarrow> http_error + bool" where
  "compare_digest a b = (if is_ascii a \<and> is_ascii b then Inr (a = b) else Inl internal_error)"

datatype ctl_error = PostfixControlError pystr

end
