(* ===== verification/Py_Float.thy ===== *)
theory Py_Float
  imports Prelude Complex_Main "HOL-Library.Log_Nat"
begin

text \<open>
  Python's \<open>float\<close> as the rationals it can hold: every arithmetic operation of the source on floats
  is the exact rational operation followed by \<open>fl\<close>, the rounding of IEEE-754 binary64 (53 significant
  bits, to nearest, ties to even).  Overflow, subnormals and NaN are outside the model; the values
  the program computes with floats (token counts and seconds) stay far from those ranges.
  The locale \<open>float_rounding\<close> states the three facts about rounding that the components use and
  is interpreted on \<open>fl\<close> at the end.
\<close>

section \<open>Rounding to an integer, ties to even\<close>

definition round_even :: "rat \<Rightarrow> int" where
  "round_even x =
     (let f = \<lfloor>x\<rfloor>; d = x - of_int f
      in if d < 1/2 then f else if d > 1/2 then f + 1 else if even f then f else f + 1)"

lemma round_even_int [simp]: "round_even (of_int n) = n"
  by (simp add: round_even_def)

lemma round_even_near: "\<bar>of_int (round_even x) - x\<bar> \<le> 1/2"
proof -
  have "0 \<le> x - of_int \<lfloor>x\<rfloor>" "x - of_int \<lfloor>x\<rfloor> < 1" by linarith+
  then show ?thesis by (simp add: round_even_def Let_def abs_if) linarith
qed

lemma round_even_bounds: "\<lfloor>x\<rfloor> \<le> round_even x \<and> round_even x \<le> \<lfloor>x\<rfloor> + 1"
  by (auto simp: round_even_def Let_def)

lemma round_even_mono:
  assumes "x \<le> y" shows "round_even x \<le> round_even y"
proof (cases "\<lfloor>x\<rfloor> = \<lfloor>y\<rfloor>")
  case True
  then show ?thesis using assms by (auto simp: round_even_def Let_def)
next
  case False
  with assms have "\<lfloor>x\<rfloor> + 1 \<le> \<lfloor>y\<rfloor>" by (metis floor_mono order_le_less zless_imp_add1_zle)
  then show ?thesis using round_even_bounds [of x] round_even_bounds [of y] by linarith
qed

section \<open>The binary exponent\<close>

text \<open>For \<open>x > 0\<close>, the \<open>e\<close> with \<open>2\<^sup>e \<le> x < 2\<^sup>e\<^sup>+\<^sup>1\<close>, from the bit lengths of numerator and denominator.\<close>

definition expo :: "rat \<Rightarrow> int" where
  "expo x = (let (p, q) = quotient_of x; e = bitlen p - bitlen q
             in if x < 2 powi e then e - 1 else e)"

lemma bitlen_powi:
  assumes "0 < p"
  shows "(2::rat) powi (bitlen p - 1) \<le> of_int p" and "of_int p < (2::rat) powi (bitlen p)"
proof -
  have b: "2 ^ nat (bitlen p - 1) \<le> p \<and> p < 2 ^ nat (bitlen p)"
    using bitlen_bounds assms by blast
  have pos: "0 < bitlen p" using assms bitlen_le_iff_power [of p 0] by fastforce
  have "(2::rat) powi (bitlen p - 1) = of_int (2 ^ nat (bitlen p - 1))"
    using pos by (simp add: power_int_def)
  then show "(2::rat) powi (bitlen p - 1) \<le> of_int p" using b by (metis of_int_le_iff)
  have "(2::rat) powi (bitlen p) = of_int (2 ^ nat (bitlen p))"
    using pos by (simp add: power_int_def)
  then show "of_int p < (2::rat) powi (bitlen p)" using b by (metis of_int_less_iff)
qed

lemma expo_bounds:
  assumes "0 < x"
  shows "2 powi (expo x) \<le> x" and "x < 2 powi (expo x + 1)"
proof -
  obtain p q where pq: "quotient_of x = (p, q)" by (metis surj_pair)
  have q: "0 < q" using quotient_of_denom_pos [OF pq] .
  have x: "x = of_int p / of_int q" using quotient_of_div [OF pq] .
  have p: "0 < p" using assms q x by (simp add: zero_less_divide_iff)
  define e where "e = bitlen p - bitlen q"
  have up: "x < 2 powi (e + 1)"
  proof -
    have "x \<le> of_int p / 2 powi (bitlen q - 1)"
      unfolding x using bitlen_powi(1) [OF q] p q by (intro divide_left_mono) auto
    also have "\<dots> < 2 powi (bitlen p) / 2 powi (bitlen q - 1)"
      using bitlen_powi(2) [OF p] by (simp add: divide_strict_right_mono)
    also have "\<dots> = 2 powi (e + 1)"
      by (simp add: e_def algebra_simps flip: power_int_diff)
    finally show ?thesis .
  qed
  have lo: "2 powi (e - 1) \<le> x"
  proof -
    have "(2::rat) powi (e - 1) = 2 powi (bitlen p - 1) / 2 powi (bitlen q)"
      by (simp add: e_def algebra_simps flip: power_int_diff)
    also have "\<dots> \<le> of_int p / 2 powi (bitlen q)"
      using bitlen_powi(1) [OF p] by (simp add: divide_right_mono)
    also have "\<dots> \<le> x"
      unfolding x using bitlen_powi(2) [OF q] p q by (intro divide_left_mono) auto
    finally show ?thesis .
  qed
  have eq: "expo x = (if x < 2 powi e then e - 1 else e)"
    by (simp add: expo_def pq e_def)
  show "2 powi (expo x) \<le> x" using lo eq by auto
  show "x < 2 powi (expo x + 1)" using up eq by auto
qed

lemma expo_mono:
  assumes "0 < x" "x \<le> y" shows "expo x \<le> expo y"
proof (rule ccontr)
  assume "\<not> expo x \<le> expo y"
  then have "expo y + 1 \<le> expo x" by simp
  then have "(2::rat) powi (expo y + 1) \<le> 2 powi (expo x)" by (rule power_int_increasing) simp
  then show False using expo_bounds [of x] expo_bounds [of y] assms by linarith
qed

section \<open>Rounding to a float\<close>

definition ulp :: "rat \<Rightarrow> rat" where
  "ulp x = 2 powi (expo \<bar>x\<bar> - 52)"

definition fl :: "rat \<Rightarrow> rat" where
  "fl x = (if x = 0 then 0 else of_int (round_even (x / ulp x)) * ulp x)"

lemma ulp_pos [simp]: "0 < ulp x"
  by (simp add: ulp_def)

lemma fl_0 [simp]: "fl 0 = 0"
  by (simp add: fl_def)

lemma fl_error: "\<bar>fl x - x\<bar> \<le> \<bar>x\<bar> / 2 ^ 53"
proof (cases "x = 0")
  case False
  have "fl x - x = (of_int (round_even (x / ulp x)) - x / ulp x) * ulp x"
    using ulp_pos [of x] False by (simp add: fl_def left_diff_distrib less_imp_neq [OF ulp_pos, symmetric])
  then have "\<bar>fl x - x\<bar> = \<bar>of_int (round_even (x / ulp x)) - x / ulp x\<bar> * ulp x"
    by (simp add: abs_mult less_imp_le [OF ulp_pos] del: mult_cancel_right)
  also have "\<dots> \<le> 1/2 * ulp x"
    by (rule mult_right_mono) (use round_even_near in \<open>auto simp: less_imp_le\<close>)
  also have "\<dots> = 2 powi (expo \<bar>x\<bar>) / 2 ^ 53"
    by (simp add: ulp_def power_int_diff)
  also have "\<dots> \<le> \<bar>x\<bar> / 2 ^ 53"
    using expo_bounds(1) [of "\<bar>x\<bar>"] False by (simp add: divide_right_mono)
  finally show ?thesis .
qed simp

lemma fl_le_powi:
  assumes "0 < x" "x \<le> 2 powi (e + 1)" "expo x \<le> e" shows "fl x \<le> 2 powi (e + 1)"
proof -
  have "x / ulp x \<le> 2 powi 53"
  proof -
    have "x \<le> 2 powi (expo x + 1)" using expo_bounds(2) [OF assms(1)] by simp
    also have "\<dots> = 2 powi 53 * ulp x"
      using assms(1) by (simp add: ulp_def add.commute del: power_int_numeral flip: power_int_add)
    finally show ?thesis by (simp add: pos_divide_le_eq)
  qed
  then have "round_even (x / ulp x) \<le> round_even (of_int (2 ^ 53))"
    by (intro round_even_mono) simp
  then have "fl x \<le> of_int (2 ^ 53) * ulp x"
    using assms(1) ulp_pos [of x] unfolding fl_def round_even_int
    by (simp add: mult_right_mono del: of_int_power of_int_numeral)
  also have "\<dots> = 2 powi 53 * ulp x" by simp
  also have "\<dots> = 2 powi (expo x + 1)"
    using assms(1) by (simp add: ulp_def add.commute del: power_int_numeral flip: power_int_add)
  also have "\<dots> \<le> 2 powi (e + 1)" using assms(3) by (intro power_int_increasing) auto
  finally show ?thesis .
qed

lemma fl_ge_powi:
  assumes "0 < x" shows "2 powi (expo x) \<le> fl x"
proof -
  have "2 powi 52 \<le> x / ulp x"
  proof -
    have "2 powi 52 * ulp x = 2 powi (expo x)"
      using assms by (simp add: ulp_def del: power_int_numeral flip: power_int_add)
    also have "\<dots> \<le> x" using expo_bounds(1) [OF assms] .
    finally show ?thesis by (simp add: pos_le_divide_eq)
  qed
  then have "round_even (of_int (2 ^ 52)) \<le> round_even (x / ulp x)"
    by (intro round_even_mono) simp
  then have "of_int (2 ^ 52) * ulp x \<le> fl x"
    using assms ulp_pos [of x] unfolding fl_def round_even_int
    by (simp add: mult_right_mono del: of_int_power of_int_numeral)
  moreover have "of_int (2 ^ 52) * ulp x = 2 powi (expo x)"
  proof -
    have "of_int (2 ^ 52) * ulp x = 2 powi 52 * ulp x" by simp
    also have "\<dots> = 2 powi (expo x)"
      using assms by (simp add: ulp_def del: power_int_numeral flip: power_int_add)
    finally show ?thesis .
  qed
  ultimately show ?thesis by simp
qed

lemma fl_mono_pos:
  assumes "0 < x" "x \<le> y" shows "fl x \<le> fl y"
proof (cases "expo x = expo y")
  case True
  then have u: "ulp x = ulp y" using assms by (simp add: ulp_def)
  have "round_even (x / ulp x) \<le> round_even (y / ulp x)"
    using assms ulp_pos [of x] by (intro round_even_mono divide_right_mono) (auto simp: less_imp_le)
  then show ?thesis using assms ulp_pos [of y] u by (simp add: fl_def mult_right_mono)
next
  case False
  then have lt: "expo x < expo y" using expo_mono [OF assms] by simp
  have "fl x \<le> 2 powi (expo x + 1)"
    using assms(1) expo_bounds(2) [OF assms(1)] by (intro fl_le_powi) auto
  also have "\<dots> \<le> 2 powi (expo y)" using lt by (intro power_int_increasing) auto
  also have "\<dots> \<le> fl y" using assms by (intro fl_ge_powi) auto
  finally show ?thesis .
qed

lemma round_even_minus: "round_even (- x) = - round_even x"
proof (cases "x = of_int \<lfloor>x\<rfloor>")
  case True
  then show ?thesis by (metis of_int_minus round_even_int)
next
  case False
  then have f: "\<lfloor>- x\<rfloor> = - \<lfloor>x\<rfloor> - 1" by (simp add: floor_minus ceiling_altdef)
  have "- x - of_int \<lfloor>- x\<rfloor> = 1 - (x - of_int \<lfloor>x\<rfloor>)" by (simp add: f)
  then show ?thesis by (auto simp: round_even_def Let_def f)
qed

lemma fl_minus: "fl (- x) = - fl x"
  by (simp add: fl_def ulp_def round_even_minus minus_divide_left [symmetric])

lemma fl_nonneg: "0 \<le> x \<Longrightarrow> 0 \<le> fl x"
  using fl_ge_powi [of x] by (cases "x = 0") (auto intro: order_trans [rotated])

lemma fl_mono:
  assumes "x \<le> y" shows "fl x \<le> fl y"
proof -
  consider "0 < x" | "x \<le> 0" "0 \<le> y" | "y < 0" by linarith
  then show ?thesis
  proof cases
    case 1
    then show ?thesis using assms by (rule fl_mono_pos)
  next
    case 2
    then show ?thesis using fl_nonneg [of y] fl_nonneg [of "- x"] fl_minus [of x] by simp
  next
    case 3
    then have "fl (- y) \<le> fl (- x)" using assms by (intro fl_mono_pos) auto
    then show ?thesis by (simp add: fl_minus)
  qed
qed

lemma fl_int_pos:
  assumes "0 < n" "n \<le> 2 ^ 53" shows "fl (of_int n) = of_int n"
proof -
  define e where "e = expo (of_int n)"
  have n: "(0::rat) < of_int n" using assms by simp
  have u: "ulp (of_int n) = 2 powi (e - 52)" using assms by (simp add: ulp_def e_def)
  have "e < 54"
  proof (rule ccontr)
    assume "\<not> e < 54"
    then have "(2::rat) powi 54 \<le> 2 powi e" by (intro power_int_increasing) auto
    also have "\<dots> \<le> of_int n" using expo_bounds(1) [OF n] by (simp add: e_def)
    finally have "2 ^ 54 \<le> n" by simp
    then show False using assms by simp
  qed
  moreover have "n = 2 ^ 53" if "e = 53"
  proof -
    have "(2::rat) powi 53 \<le> of_int n" using expo_bounds(1) [OF n] that by (simp add: e_def)
    then show ?thesis using assms by simp
  qed
  ultimately consider "e \<le> 52" | "e = 53" "n = 2 ^ 53" by linarith
  then obtain m where m: "of_int n / ulp (of_int n) = of_int m"
  proof cases
    case 1
    have "of_int n / ulp (of_int n) = of_int n * 2 powi (52 - e)"
      by (simp add: u divide_inverse flip: power_int_minus)
    also have "\<dots> = of_int (n * 2 ^ nat (52 - e))" using 1 by (simp add: power_int_def)
    finally show ?thesis by (rule that)
  next
    case 2
    have "of_int n / ulp (of_int n) = of_int (2 ^ 52)" unfolding u using 2 by simp
    then show ?thesis by (rule that)
  qed
  have "fl (of_int n) = of_int m * ulp (of_int n)" using assms by (simp add: fl_def m)
  also have "\<dots> = of_int n"
    using less_imp_neq [OF ulp_pos, of "of_int n"] unfolding m [symmetric] by simp
  finally show ?thesis .
qed

lemma fl_int: "\<bar>n\<bar> \<le> 2 ^ 53 \<Longrightarrow> fl (of_int n) = of_int n"
  using fl_int_pos [of n] fl_int_pos [of "- n"] fl_minus [of "of_int n"]
  by (cases "n = 0"; cases "0 < n") auto

text \<open>Evaluation takes the short way on the integers a float holds exactly.\<close>

lemma fl_code [code]:
  "fl x = (let (p, q) = quotient_of x in
     if q = 1 \<and> \<bar>p\<bar> \<le> 2 ^ 53 then x
     else if x = 0 then 0 else of_int (round_even (x / ulp x)) * ulp x)"
proof -
  obtain p q where pq: "quotient_of x = (p, q)" by fastforce
  have "fl x = x" if "q = 1" "\<bar>p\<bar> \<le> 2 ^ 53"
    using quotient_of_div [OF pq] fl_int [OF that(2)] that(1) by simp
  then show ?thesis by (simp add: pq fl_def)
qed

lemma expo_unique:
  assumes "2 powi e \<le> x" "x < 2 powi (e + 1)" shows "expo x = e"
proof -
  have x: "0 < x" using assms(1) by (meson less_le_trans zero_less_numeral zero_less_power_int)
  have "(2::rat) powi e < 2 powi (expo x + 1)" using assms(1) expo_bounds(2) [OF x] by linarith
  moreover have "(2::rat) powi (expo x) < 2 powi (e + 1)" using assms(2) expo_bounds(1) [OF x] by linarith
  ultimately show ?thesis
    by (metis linorder_not_le one_le_numeral power_int_increasing zle_add1_eq_le order_antisym)
qed

lemma expo_scale: "0 < x \<Longrightarrow> expo (x * 2 powi k) = expo x + k"
  using expo_bounds [of x] by (intro expo_unique) (simp_all add: power_int_add)

lemma fl_scale: "fl (x * 2 powi k) = fl x * 2 powi k"
proof (cases "x = 0")
  case False
  then have "ulp (x * 2 powi k) = ulp x * 2 powi k"
    using expo_scale [of "\<bar>x\<bar>" k] by (simp add: ulp_def abs_mult algebra_simps flip: power_int_add)
  then show ?thesis using False by (simp add: fl_def)
qed simp

lemma round_even_ulp_bound: "\<bar>round_even (x / ulp x)\<bar> \<le> 2 ^ 53"
proof -
  have "\<bar>x\<bar> \<le> 2 powi 53 * ulp x" if "x \<noteq> 0"
  proof -
    have "\<bar>x\<bar> \<le> 2 powi (expo \<bar>x\<bar> + 1)" using expo_bounds(2) [of "\<bar>x\<bar>"] that by simp
    also have "\<dots> = 2 powi 53 * ulp x"
      by (simp add: ulp_def add.commute del: power_int_numeral flip: power_int_add)
    finally show ?thesis .
  qed
  then have "\<bar>x / ulp x\<bar> \<le> 2 ^ 53"
    by (cases "x = 0") (simp_all add: abs_divide pos_divide_le_eq less_imp_le [OF ulp_pos])
  then have "x / ulp x \<le> of_int (2 ^ 53)" "of_int (- (2 ^ 53)) \<le> x / ulp x"
    unfolding abs_le_iff by auto
  then have "round_even (x / ulp x) \<le> 2 ^ 53" "- (2 ^ 53) \<le> round_even (x / ulp x)"
    using round_even_mono round_even_int by metis+
  then show ?thesis by (simp add: abs_le_iff)
qed

lemma fl_idem [simp]: "fl (fl x) = fl x"
proof (cases "x = 0")
  case False
  then show ?thesis
    using fl_scale [of "of_int (round_even (x / ulp x))" "expo \<bar>x\<bar> - 52"]
      fl_int [OF round_even_ulp_bound [of x]]
    by (simp add: fl_def [of x]) (simp add: ulp_def)
qed simp

section \<open>The interface the components use\<close>

locale float_rounding =
  fixes rnd :: "rat \<Rightarrow> rat"
  assumes rnd_mono: "x \<le> y \<Longrightarrow> rnd x \<le> rnd y"
    and rnd_int: "\<bar>n\<bar> \<le> 2 ^ 53 \<Longrightarrow> rnd (of_int n) = of_int n"
    and rnd_error: "\<bar>rnd x - x\<bar> \<le> \<bar>x\<bar> / 2 ^ 53"
begin

lemma rnd_0 [simp]: "rnd 0 = 0"
  using rnd_int [of 0] by simp

lemma rnd_1 [simp]: "rnd 1 = 1"
  using rnd_int [of 1] by simp

lemma rnd_nonneg: "0 \<le> x \<Longrightarrow> 0 \<le> rnd x"
  using rnd_mono [of 0 x] by simp

lemma rnd_le_int: "\<bar>n\<bar> \<le> 2 ^ 53 \<Longrightarrow> x \<le> of_int n \<Longrightarrow> rnd x \<le> of_int n"
  using rnd_mono [of x "of_int n"] rnd_int [of n] by simp

lemma rnd_ge_int: "\<bar>n\<bar> \<le> 2 ^ 53 \<Longrightarrow> of_int n \<le> x \<Longrightarrow> of_int n \<le> rnd x"
  using rnd_mono [of "of_int n" x] rnd_int [of n] by simp

lemma rnd_upper: "0 \<le> x \<Longrightarrow> rnd x \<le> x * (1 + 1 / 2 ^ 53)"
  using rnd_error [of x] unfolding abs_le_iff by (simp add: field_simps)

lemma rnd_upper_add: "0 \<le> x \<Longrightarrow> rnd x \<le> x + x / 2 ^ 53"
  using rnd_error [of x] unfolding abs_le_iff by linarith

text \<open>A product of two rounded factors, rounded.\<close>

lemma rnd_product_upper:
  assumes "0 \<le> x" "0 \<le> y" shows "rnd (rnd x * rnd y) \<le> x * y * (1 + 1 / 2 ^ 53) ^ 3"
proof -
  let ?k = "1 + 1 / 2 ^ 53 :: rat"
  have "rnd x * rnd y \<le> (x * ?k) * (y * ?k)"
    using assms by (intro mult_mono rnd_upper rnd_nonneg) auto
  then have "rnd (rnd x * rnd y) \<le> rnd (x * ?k * (y * ?k))" by (rule rnd_mono)
  also have "\<dots> \<le> x * ?k * (y * ?k) * ?k" using assms by (intro rnd_upper) auto
  also have "\<dots> = x * y * ?k ^ 3" by (simp add: power3_eq_cube)
  finally show ?thesis .
qed

text \<open>
  A balance with a cap: adding a rounded amount and capping moves it up by at most that amount and
  one rounding error, and it stays in range; taking one unit away rounds once more.
\<close>

lemma capped_add:
  assumes T: "0 \<le> T" "T \<le> of_int C" and C: "0 \<le> C" "C \<le> 2 ^ 53" and x: "0 \<le> x"
  shows "0 \<le> min (of_int C) (rnd (T + x))"
    and "min (of_int C) (rnd (T + x)) \<le> of_int C"
    and "min (of_int C) (rnd (T + x)) \<le> T + x + of_int C / 2 ^ 53"
proof -
  have p: "0 \<le> T + x" using T x by simp
  show "0 \<le> min (of_int C) (rnd (T + x))" using C rnd_nonneg [OF p] by simp
  show "min (of_int C) (rnd (T + x)) \<le> of_int C" by simp
  show "min (of_int C) (rnd (T + x)) \<le> T + x + of_int C / 2 ^ 53"
  proof (cases "T + x \<le> of_int C")
    case True
    then have "(T + x) / 2 ^ 53 \<le> of_int C / 2 ^ 53" by (simp add: divide_right_mono)
    moreover note rnd_upper_add [OF p]
    ultimately show ?thesis by linarith
  next
    case False
    moreover have "(0::rat) \<le> of_int C / 2 ^ 53" using C by simp
    ultimately have "of_int C \<le> T + x + of_int C / 2 ^ 53" by linarith
    then show ?thesis by (rule min.coboundedI1)
  qed
qed

lemma take_one:
  assumes T: "1 \<le> T" "T \<le> of_int C" and C: "C \<le> 2 ^ 53"
  shows "0 \<le> rnd (T - 1)" and "rnd (T - 1) \<le> of_int C" and "rnd (T - 1) \<le> T - 1 + of_int C / 2 ^ 53"
proof -
  have p: "0 \<le> T - 1" using T by simp
  have c: "(1::rat) \<le> of_int C" using T by linarith
  then have "1 \<le> C" by simp
  then have a: "\<bar>C\<bar> \<le> 2 ^ 53" using C by simp
  show "0 \<le> rnd (T - 1)" using rnd_nonneg [OF p] .
  show "rnd (T - 1) \<le> of_int C" using T by (intro rnd_le_int [OF a]) simp
  have "(T - 1) / 2 ^ 53 \<le> of_int C / 2 ^ 53" using T by (intro divide_right_mono) auto
  moreover note rnd_upper_add [OF p]
  ultimately show "rnd (T - 1) \<le> T - 1 + of_int C / 2 ^ 53" by linarith
qed

end

interpretation float: float_rounding fl
  by unfold_locales (rule fl_mono, assumption, rule fl_int, assumption, rule fl_error)

end
