(* ===== verification/Models.thy ===== *)
theory Models
  imports Prelude Py_Float
begin

text \<open>
  The rows of \<open>backend/app/models/\<close>: one record per table, the field names of the source with a
  table prefix, and the record \<open>db\<close> of all tables, the explicit state that the session \<open>db\<close> of the
  source stands for.  A route that commits returns the new \<open>db\<close>; a route that raises returns the
  one of its last commit.  Singleton tables (row 1) are options: \<open>None\<close> until first use.
  Columns that only feed the web UI (\<open>updated_at\<close>, relationship attributes) are not modelled.
\<close>

section \<open>Enumerations (\<open>models/enums.py\<close>)\<close>

datatype tls_mode = Starttls | Implicit

datatype test_result = Test_unknown | Test_success | Test_failure

datatype mail_status = Queued | Sent | Deferred | Bounced | Rejected

datatype validation_result = Val_pass | Val_fail

section \<open>Rows\<close>

record local_smtp_user =
  lu_id :: int
  lu_name :: pystr
  lu_username :: pystr
  lu_password_hash :: pystr
  lu_enabled :: bool
  lu_created_at :: datetime
  lu_password_last_rotated_at :: "datetime option"
  lu_rate_limit_per_hour :: "int option"
  lu_rate_limit_burst :: "int option"
  lu_streak_started_at :: "datetime option"
  lu_streak_last_at :: "datetime option"

record user_sender_permission =
  pm_local_smtp_user_id :: int
  pm_sender_id :: int
  pm_granted_at :: datetime
  pm_granted_by_admin_id :: "int option"

record sender =
  sn_id :: int
  sn_address :: pystr
  sn_upstream_account_id :: int
  sn_enabled :: bool
  sn_description :: "pystr option"
  sn_created_at :: datetime

record upstream_account =
  ua_id :: int
  ua_name :: pystr
  ua_host :: pystr
  ua_port :: int
  ua_tls_mode :: tls_mode
  ua_username :: pystr
  ua_encrypted_password :: bytes
  ua_enabled :: bool
  ua_last_test_at :: "datetime option"
  ua_last_test_result :: "test_result option"
  ua_last_test_error :: "pystr option"
  ua_rate_limit_per_hour :: "int option"
  ua_tls_skip_verify :: bool
  ua_created_at :: datetime

record admin_user =
  ad_id :: int
  ad_email :: pystr
  ad_password_hash :: pystr
  ad_totp_secret_encrypted :: "bytes option"
  ad_totp_last_used_step :: "int option"
  ad_is_active :: bool
  ad_created_at :: datetime
  ad_last_login_at :: "datetime option"

record admin_session =
  se_id :: int
  se_admin_user_id :: int
  se_token_hash :: pystr
  se_created_at :: datetime
  se_expires_at :: datetime
  se_revoked_at :: "datetime option"
  se_ip_address :: "pystr option"
  se_user_agent :: "pystr option"

record audit_log =
  al_id :: int
  al_timestamp :: datetime
  al_admin_user_id :: "int option"
  al_action :: pystr
  al_target_type :: "pystr option"
  al_target_id :: "int option"
  al_detail :: "(pystr \<times> json) list option"
  al_ip_address :: "pystr option"

record config_generation =
  cg_id :: int
  cg_generated_at :: datetime
  cg_triggered_by_admin_id :: "int option"
  cg_checksum :: pystr
  cg_maps_checksum :: pystr
  cg_validation_result :: validation_result
  cg_validation_detail :: "pystr option"
  cg_applied :: bool
  cg_reload_triggered :: bool

record mail_log =
  ml_id :: int
  ml_queue_id :: pystr
  ml_timestamp :: datetime
  ml_local_smtp_user_id :: "int option"
  ml_envelope_sender :: pystr
  ml_recipients :: "pystr list"
  ml_upstream_account_id :: "int option"
  ml_status :: mail_status
  ml_error :: "pystr option"

record mail_log_ingest_state =
  is_byte_offset :: int
  is_maillog_inode :: "int option"

record rate_limit_counter =
  rc_local_smtp_user_id :: int
  rc_window_start :: datetime
  rc_count :: int

record burst_bucket =
  bb_local_smtp_user_id :: int
  bb_tokens :: rat
  bb_last_refill_at :: datetime

record relay_settings =
  rs_connection_test_interval_minutes :: "int option"
  rs_update_check_enabled :: bool
  rs_notify_recipients :: "pystr list"
  rs_notify_sender_id :: "int option"
  rs_notify_from_name :: "pystr option"
  rs_notify_on_health_degraded :: bool
  rs_notify_on_upstream_test_failure :: bool
  rs_notify_on_app_update_available :: bool
  rs_notify_on_postfix_update_available :: bool
  rs_mail_log_retention_days :: "int option"
  rs_audit_log_retention_days :: "int option"
  rs_tls_acme_enabled :: bool
  rs_tls_domain :: "pystr option"
  rs_tls_contact_email :: "pystr option"
  rs_tls_dns_provider :: pystr
  rs_tls_cloudflare_api_token_encrypted :: "bytes option"
  rs_tls_cloudflare_zone_id :: "pystr option"
  rs_notify_on_rate_limit_abuse :: bool
  rs_rate_limit_abuse_auto_disable_enabled :: bool
  rs_rate_limit_abuse_threshold_minutes :: int
  rs_accent_color :: "pystr option"
  rs_logo_image :: "bytes option"
  rs_logo_content_type :: "pystr option"

record background_job_state =
  bj_connection_test_last_run_at :: "datetime option"
  bj_update_check_last_run_at :: "datetime option"
  bj_retention_cleanup_last_run_at :: "datetime option"
  bj_latest_app_version :: "pystr option"
  bj_latest_app_version_checked_at :: "datetime option"
  bj_latest_postfix_version :: "pystr option"
  bj_latest_postfix_version_checked_at :: "datetime option"
  bj_app_update_last_emailed_version :: "pystr option"
  bj_app_update_acknowledged_version :: "pystr option"
  bj_postfix_update_last_emailed_version :: "pystr option"
  bj_postfix_update_acknowledged_version :: "pystr option"
  bj_health_degraded_active :: bool
  bj_upstream_test_failure_active :: bool
  bj_cert_renewal_last_checked_at :: "datetime option"
  bj_cert_last_renewal_attempt_at :: "datetime option"
  bj_cert_last_renewal_error :: "pystr option"
  bj_rate_limit_cleanup_last_run_at :: "datetime option"
  bj_rate_limit_abuse_active :: bool

record tls_certificate_state =
  tc_source :: pystr
  tc_domain :: "pystr option"
  tc_cert_pem :: "pystr option"
  tc_encrypted_key_pem :: "bytes option"
  tc_not_before :: "datetime option"
  tc_not_after :: "datetime option"
  tc_issued_at :: "datetime option"
  tc_acme_account_key_encrypted :: "bytes option"
  tc_acme_account_uri :: "pystr option"

record tls_pending_manual_challenge =
  tp_domain :: pystr
  tp_contact_email :: "pystr option"
  tp_record_name :: pystr
  tp_record_value :: pystr
  tp_order_json :: pystr
  tp_encrypted_cert_key_pem :: bytes
  tp_encrypted_account_key_pem :: bytes
  tp_account_uri :: pystr
  tp_directory_url :: pystr
  tp_created_at :: datetime
  tp_expires_at :: datetime

section \<open>The database\<close>

record db =
  local_users :: "local_smtp_user list"
  permissions :: "user_sender_permission list"
  senders :: "sender list"
  accounts :: "upstream_account list"
  admins :: "admin_user list"
  sessions :: "admin_session list"
  audits :: "audit_log list"
  generations :: "config_generation list"
  mail_logs :: "mail_log list"
  ingest_state :: "mail_log_ingest_state option"
  counters :: "rate_limit_counter list"
  buckets :: "burst_bucket list"
  settings_row :: "relay_settings option"
  job_state :: "background_job_state option"
  tls_state :: "tls_certificate_state option"
  tls_pending :: "tls_pending_manual_challenge option"

definition empty_db :: db where
  "empty_db = \<lparr>local_users = [], permissions = [], senders = [], accounts = [], admins = [],
     sessions = [], audits = [], generations = [], mail_logs = [], ingest_state = None,
     counters = [], buckets = [], settings_row = None, job_state = None, tls_state = None,
     tls_pending = None\<rparr>"

section \<open>Singleton rows (\<open>core/settings_store.py\<close>)\<close>

text \<open>The column defaults of the models, as the INSERT of \<open>get_or_create_singleton\<close> fills them in.\<close>

definition default_relay_settings :: relay_settings where
  "default_relay_settings =
    \<lparr>rs_connection_test_interval_minutes = None, rs_update_check_enabled = False,
     rs_notify_recipients = [], rs_notify_sender_id = None, rs_notify_from_name = None,
     rs_notify_on_health_degraded = True, rs_notify_on_upstream_test_failure = True,
     rs_notify_on_app_update_available = True, rs_notify_on_postfix_update_available = True,
     rs_mail_log_retention_days = None, rs_audit_log_retention_days = None,
     rs_tls_acme_enabled = False, rs_tls_domain = None, rs_tls_contact_email = None,
     rs_tls_dns_provider = ''cloudflare'', rs_tls_cloudflare_api_token_encrypted = None,
     rs_tls_cloudflare_zone_id = None, rs_notify_on_rate_limit_abuse = False,
     rs_rate_limit_abuse_auto_disable_enabled = False, rs_rate_limit_abuse_threshold_minutes = 10,
     rs_accent_color = None, rs_logo_image = None, rs_logo_content_type = None\<rparr>"

definition default_job_state :: background_job_state where
  "default_job_state =
    \<lparr>bj_connection_test_last_run_at = None, bj_update_check_last_run_at = None,
     bj_retention_cleanup_last_run_at = None, bj_latest_app_version = None,
     bj_latest_app_version_checked_at = None, bj_latest_postfix_version = None,
     bj_latest_postfix_version_checked_at = None, bj_app_update_last_emailed_version = None,
     bj_app_update_acknowledged_version = None, bj_postfix_update_last_emailed_version = None,
     bj_postfix_update_acknowledged_version = None, bj_health_degraded_active = False,
     bj_upstream_test_failure_active = False, bj_cert_renewal_last_checked_at = None,
     bj_cert_last_renewal_attempt_at = None, bj_cert_last_renewal_error = None,
     bj_rate_limit_cleanup_last_run_at = None, bj_rate_limit_abuse_active = False\<rparr>"

definition default_tls_state :: tls_certificate_state where
  "default_tls_state =
    \<lparr>tc_source = ''self_signed'', tc_domain = None, tc_cert_pem = None, tc_encrypted_key_pem = None,
     tc_not_before = None, tc_not_after = None, tc_issued_at = None,
     tc_acme_account_key_encrypted = None, tc_acme_account_uri = None\<rparr>"

text \<open>
  \<open>get_or_create_singleton\<close>: the row if there is one, otherwise the defaults are inserted and
  read back.
\<close>

definition get_or_create_singleton :: "'r option \<Rightarrow> 'r \<Rightarrow> 'r \<times> 'r option" where
  "get_or_create_singleton row defaults =
     (case row of Some r \<Rightarrow> (r, row) | None \<Rightarrow> (defaults, Some defaults))"

definition get_relay_settings :: "db \<Rightarrow> relay_settings \<times> db" where
  "get_relay_settings d =
     (let (r, row) = get_or_create_singleton (settings_row d) default_relay_settings
      in (r, d\<lparr>settings_row := row\<rparr>))"

definition get_background_job_state :: "db \<Rightarrow> background_job_state \<times> db" where
  "get_background_job_state d =
     (let (r, row) = get_or_create_singleton (job_state d) default_job_state
      in (r, d\<lparr>job_state := row\<rparr>))"

definition get_tls_certificate_state :: "db \<Rightarrow> tls_certificate_state \<times> db" where
  "get_tls_certificate_state d =
     (let (r, row) = get_or_create_singleton (tls_state d) default_tls_state
      in (r, d\<lparr>tls_state := row\<rparr>))"

definition get_tls_pending_manual_challenge :: "db \<Rightarrow> tls_pending_manual_challenge option" where
  "get_tls_pending_manual_challenge d = tls_pending d"

definition upsert_tls_pending_manual_challenge :: "db \<Rightarrow> tls_pending_manual_challenge \<Rightarrow> db" where
  "upsert_tls_pending_manual_challenge d row = d\<lparr>tls_pending := Some row\<rparr>"

definition clear_tls_pending_manual_challenge :: "db \<Rightarrow> db" where
  "clear_tls_pending_manual_challenge d = d\<lparr>tls_pending := None\<rparr>"

text \<open>The row a singleton reader returns, without the insert.\<close>

definition the_settings :: "db \<Rightarrow> relay_settings" where
  "the_settings d = fst (get_relay_settings d)"

definition the_jobs :: "db \<Rightarrow> background_job_state" where
  "the_jobs d = fst (get_background_job_state d)"

lemma get_relay_settings_eq:
  "get_relay_settings d = (the_settings d, d\<lparr>settings_row := Some (the_settings d)\<rparr>)"
  by (cases "settings_row d")
     (simp_all add: get_relay_settings_def the_settings_def get_or_create_singleton_def)

lemma get_background_job_state_eq:
  "get_background_job_state d = (the_jobs d, d\<lparr>job_state := Some (the_jobs d)\<rparr>)"
  by (cases "job_state d")
     (simp_all add: get_background_job_state_def the_jobs_def get_or_create_singleton_def)

lemma the_settings_simps [simp]:
  "settings_row d = Some r \<Longrightarrow> the_settings d = r"
  "settings_row d = None \<Longrightarrow> the_settings d = default_relay_settings"
  by (simp_all add: the_settings_def get_relay_settings_def get_or_create_singleton_def)

lemma the_jobs_simps [simp]:
  "job_state d = Some r \<Longrightarrow> the_jobs d = r"
  "job_state d = None \<Longrightarrow> the_jobs d = default_job_state"
  by (simp_all add: the_jobs_def get_background_job_state_def get_or_create_singleton_def)

lemma the_jobs_cong: "job_state d' = job_state d \<Longrightarrow> the_jobs d' = the_jobs d"
  by (cases "job_state d") simp_all

text \<open>
  The interface of the singleton readers, for every table they serve: reading twice gives the same
  row, and the read leaves every other table alone.
\<close>

locale singleton_store =
  fixes getter :: "db \<Rightarrow> 'r \<times> db"
    and row :: "db \<Rightarrow> 'r option"
  assumes stores: "row (snd (getter d)) = Some (fst (getter d))"
    and keeps: "row d = Some r \<Longrightarrow> getter d = (r, d)"
begin

lemma reread: "getter (snd (getter d)) = (fst (getter d), snd (getter d))"
  by (rule keeps) (rule stores)

lemma idem: "snd (getter (snd (getter d))) = snd (getter d)"
  by (simp add: reread)

end

interpretation relay_store: singleton_store get_relay_settings settings_row
  by unfold_locales
    (simp_all add: get_relay_settings_def get_or_create_singleton_def Let_def split: option.splits prod.splits)

interpretation job_store: singleton_store get_background_job_state job_state
  by unfold_locales
    (simp_all add: get_background_job_state_def get_or_create_singleton_def Let_def split: option.splits prod.splits)

interpretation tls_store: singleton_store get_tls_certificate_state tls_state
  by unfold_locales
    (simp_all add: get_tls_certificate_state_def get_or_create_singleton_def Let_def split: option.splits prod.splits)

section \<open>The audit trail (\<open>core/audit.py\<close>)\<close>

text \<open>
  \<open>record_audit\<close> adds one row and flushes; the id is the one the database assigns, the timestamp
  the column default.  The structured log line it also emits is output only.
\<close>

definition record_audit ::
  "int \<Rightarrow> datetime \<Rightarrow> int option \<Rightarrow> pystr \<Rightarrow> pystr option \<Rightarrow> int option \<Rightarrow>
   (pystr \<times> json) list option \<Rightarrow> pystr option \<Rightarrow> db \<Rightarrow> db" where
  "record_audit new_id now admin_user_id action target_type target_id detail ip_address d =
     d\<lparr>audits := audits d @
        [\<lparr>al_id = new_id, al_timestamp = now, al_admin_user_id = admin_user_id, al_action = action,
          al_target_type = target_type, al_target_id = target_id, al_detail = detail,
          al_ip_address = ip_address\<rparr>]\<rparr>"

lemma record_audit_simps [simp]:
  "local_users (record_audit i n a c t k e p d) = local_users d"
  "permissions (record_audit i n a c t k e p d) = permissions d"
  "senders (record_audit i n a c t k e p d) = senders d"
  "accounts (record_audit i n a c t k e p d) = accounts d"
  "admins (record_audit i n a c t k e p d) = admins d"
  "sessions (record_audit i n a c t k e p d) = sessions d"
  "generations (record_audit i n a c t k e p d) = generations d"
  "mail_logs (record_audit i n a c t k e p d) = mail_logs d"
  "ingest_state (record_audit i n a c t k e p d) = ingest_state d"
  "counters (record_audit i n a c t k e p d) = counters d"
  "buckets (record_audit i n a c t k e p d) = buckets d"
  "settings_row (record_audit i n a c t k e p d) = settings_row d"
  "job_state (record_audit i n a c t k e p d) = job_state d"
  "tls_state (record_audit i n a c t k e p d) = tls_state d"
  "tls_pending (record_audit i n a c t k e p d) = tls_pending d"
  by (simp_all add: record_audit_def)

lemma audits_record_audit [simp]:
  "set (audits d) \<subseteq> set (audits (record_audit i n a c t k e p d))"
  by (auto simp: record_audit_def)

end
