(* ===== verification/Secrets.thy ===== *)
theory Secrets
  imports Models
begin

text \<open>
  \<open>core/encryption.py\<close> and the key commands of \<open>cli.py\<close>.  AES-256-GCM itself (the \<open>cryptography\<close>
  package) is the record \<open>aead\<close> of two functions, given key and nonce; \<open>aead_ok\<close> is its documented
  behaviour, that decryption under the same key and nonce gives the plaintext back.  Nonces come from
  \<open>os.urandom\<close> and are arguments.
\<close>

section \<open>Byte formats\<close>

text \<open>\<open>str.encode("utf-8")\<close> and \<open>bytes.decode("utf-8")\<close>, for the code points a \<open>pystr\<close> holds.\<close>

definition utf8_char :: "char \<Rightarrow> bytes" where
  "utf8_char c = (if code c < 128 then [c] else [char_of (192 + code c div 64), char_of (128 + code c mod 64)])"

definition utf8_encode :: "pystr \<Rightarrow> bytes" where
  "utf8_encode s = concat (map utf8_char s)"

fun utf8_decode :: "bytes \<Rightarrow> pystr option" where
  "utf8_decode [] = Some []"
| "utf8_decode (b # bs) =
     (if code b < 128 then map_option ((#) b) (utf8_decode bs)
      else case bs of [] \<Rightarrow> None
      | c # cs \<Rightarrow>
          if 194 \<le> code b \<and> code b \<le> 195 \<and> 128 \<le> code c \<and> code c < 192
          then map_option ((#) (char_of ((code b - 192) * 64 + (code c - 128)))) (utf8_decode cs)
          else None)"

lemma code_less: "code c < 256"
  by (simp add: code_def)

lemma code_char_of: "n < 256 \<Longrightarrow> code (char_of n) = n"
  by (simp add: code_def)

lemma char_of_code [simp]: "char_of (code c) = c"
  by (simp add: code_def)

lemma utf8_decode_char: "utf8_decode (utf8_char c @ bs) = map_option ((#) c) (utf8_decode bs)"
proof (cases "code c < 128")
  case True
  then show ?thesis by (simp add: utf8_char_def)
next
  case False
  have lt: "code c < 256" by (rule code_less)
  then have "code c div 64 \<in> {2, 3}" using False by auto
  moreover have "192 + code c div 64 < 256" "128 + code c mod 64 < 256" using lt by auto
  moreover have "(192 + code c div 64 - 192) * 64 + (128 + code c mod 64 - 128) = code c"
    by (simp add: mult.commute)
  ultimately show ?thesis using False by (auto simp: utf8_char_def code_char_of)
qed

lemma utf8_roundtrip: "utf8_decode (utf8_encode s) = Some s"
  by (induction s) (simp_all add: utf8_encode_def utf8_decode_char)

text \<open>\<open>base64.b64encode\<close> and \<open>base64.b64decode(s, validate=True)\<close>.\<close>

definition b64_char :: "nat \<Rightarrow> char" where
  "b64_char n = char_of (if n < 26 then 65 + n else if n < 52 then 71 + n else if n < 62 then n - 4
     else if n = 62 then 43 else 47)"

definition b64_value :: "char \<Rightarrow> nat option" where
  "b64_value c = (let n = code c in
     if 65 \<le> n \<and> n \<le> 90 then Some (n - 65) else if 97 \<le> n \<and> n \<le> 122 then Some (n - 71)
     else if 48 \<le> n \<and> n \<le> 57 then Some (n + 4) else if n = 43 then Some 62
     else if n = 47 then Some 63 else None)"

definition pad_char :: char where "pad_char = CHR 61"

fun b64encode :: "bytes \<Rightarrow> pystr" where
  "b64encode [] = []"
| "b64encode [a] = [b64_char (code a div 4), b64_char (code a mod 4 * 16), pad_char, pad_char]"
| "b64encode [a, b] =
     [b64_char (code a div 4), b64_char (code a mod 4 * 16 + code b div 16),
      b64_char (code b mod 16 * 4), pad_char]"
| "b64encode (a # b # c # rest) =
     b64_char (code a div 4) # b64_char (code a mod 4 * 16 + code b div 16) #
     b64_char (code b mod 16 * 4 + code c div 64) # b64_char (code c mod 64) # b64encode rest"

text \<open>One group of four characters; padding is only allowed in the last one.\<close>

definition b64_group :: "char \<Rightarrow> char \<Rightarrow> char \<Rightarrow> char \<Rightarrow> bool \<Rightarrow> bytes option" where
  "b64_group p q r s final_group =
     (case (b64_value p, b64_value q) of
        (Some x, Some y) \<Rightarrow>
          if final_group \<and> r = pad_char \<and> s = pad_char then Some [char_of (x * 4 + y div 16)]
          else (case b64_value r of None \<Rightarrow> None
            | Some z \<Rightarrow>
                if final_group \<and> s = pad_char
                then Some [char_of (x * 4 + y div 16), char_of (y mod 16 * 16 + z div 4)]
                else (case b64_value s of None \<Rightarrow> None
                  | Some v \<Rightarrow> Some [char_of (x * 4 + y div 16), char_of (y mod 16 * 16 + z div 4),
                                   char_of (z mod 4 * 64 + v)]))
      | _ \<Rightarrow> None)"

fun b64decode :: "pystr \<Rightarrow> bytes option" where
  "b64decode [] = Some []"
| "b64decode (p # q # r # s # rest) =
     (case (b64_group p q r s (rest = []), b64decode rest) of
        (Some x, Some y) \<Rightarrow> Some (x @ y) | _ \<Rightarrow> None)"
| "b64decode _ = None"

lemma code_b64_char:
  "n < 64 \<Longrightarrow> code (b64_char n) = (if n < 26 then 65 + n else if n < 52 then 71 + n
     else if n < 62 then n - 4 else if n = 62 then 43 else 47)"
  by (simp add: b64_char_def code_char_of)

lemma b64_value_char: "n < 64 \<Longrightarrow> b64_value (b64_char n) = Some n"
  by (auto simp: b64_value_def code_b64_char Let_def)

lemma b64_char_not_pad [simp]: "n < 64 \<Longrightarrow> b64_char n \<noteq> pad_char"
proof
  assume n: "n < 64" and "b64_char n = pad_char"
  then have "code (b64_char n) = 61" by (simp add: pad_char_def code_def)
  then show False using n by (auto simp: code_b64_char split: if_splits)
qed

lemma b64_char_not_space: "n < 64 \<Longrightarrow> \<not> is_space (b64_char n)"
  by (auto simp: is_space_def code_b64_char split: if_splits)

lemma pad_not_space: "\<not> is_space pad_char"
  by (simp add: pad_char_def is_space_def code_def)

lemma byte_split:
  fixes a b c :: nat
  assumes "a < 256" "b < 256" "c < 256"
  shows "a div 4 < 64" "a mod 4 * 16 < 64" "a mod 4 * 16 + b div 16 < 64" "b mod 16 * 4 < 64"
    "b mod 16 * 4 + c div 64 < 64" "c mod 64 < 64"
    "a div 4 * 4 + a mod 4 * 16 div 16 = a"
    "a div 4 * 4 + (a mod 4 * 16 + b div 16) div 16 = a"
    "(a mod 4 * 16 + b div 16) mod 16 * 16 + b mod 16 * 4 div 4 = b"
    "(a mod 4 * 16 + b div 16) mod 16 * 16 + (b mod 16 * 4 + c div 64) div 4 = b"
    "(b mod 16 * 4 + c div 64) mod 4 * 64 + c mod 64 = c"
proof -
  have lt: "a div 4 < 64" "b div 16 < 16" "c div 64 < 4" using assms by (simp_all add: less_mult_imp_div_less)
  have md: "a mod 4 < 4" "b mod 16 < 16" "c mod 64 < 64" by simp_all
  have join: "(x * n + y) div n = x" "(x * n + y) mod n = y" if "y < n" for x y n :: nat
    using that by simp_all
  show "a div 4 < 64" "c mod 64 < 64" by (rule lt md)+
  show "a mod 4 * 16 < 64" using md by linarith
  show "a mod 4 * 16 + b div 16 < 64" using md lt by linarith
  show "b mod 16 * 4 < 64" using md by linarith
  show "b mod 16 * 4 + c div 64 < 64" using md lt by linarith
  show "a div 4 * 4 + a mod 4 * 16 div 16 = a" by simp
  show "a div 4 * 4 + (a mod 4 * 16 + b div 16) div 16 = a" unfolding join(1) [OF lt(2)] by simp
  show "(a mod 4 * 16 + b div 16) mod 16 * 16 + b mod 16 * 4 div 4 = b" unfolding join(2) [OF lt(2)] by simp
  show "(a mod 4 * 16 + b div 16) mod 16 * 16 + (b mod 16 * 4 + c div 64) div 4 = b"
    unfolding join(2) [OF lt(2)] join(1) [OF lt(3)] by simp
  show "(b mod 16 * 4 + c div 64) mod 4 * 64 + c mod 64 = c" unfolding join(2) [OF lt(3)] by simp
qed

lemma b64_group_chars:
  assumes "x < 64" "y < 64"
  shows "b64_group (b64_char x) (b64_char y) pad_char pad_char True = Some [char_of (x * 4 + y div 16)]"
    and "z < 64 \<Longrightarrow> b64_group (b64_char x) (b64_char y) (b64_char z) pad_char True =
      Some [char_of (x * 4 + y div 16), char_of (y mod 16 * 16 + z div 4)]"
    and "z < 64 \<Longrightarrow> v < 64 \<Longrightarrow> b64_group (b64_char x) (b64_char y) (b64_char z) (b64_char v) f =
      Some [char_of (x * 4 + y div 16), char_of (y mod 16 * 16 + z div 4), char_of (z mod 4 * 64 + v)]"
  using assms by (simp_all add: b64_group_def b64_value_char)

lemma b64_roundtrip: "b64decode (b64encode bs) = Some bs"
proof (induction bs rule: b64encode.induct)
  case (2 a)
  note bs = byte_split [OF code_less [of a] code_less [of a] code_less [of a]]
  show ?case
    by (simp only: b64encode.simps b64decode.simps b64_group_chars(1) [OF bs(1,2)] bs char_of_code
        prod.case option.case append.simps simp_thms)
next
  case (3 a b)
  note bs = byte_split [OF code_less [of a] code_less [of b] code_less [of b]]
  show ?case
    by (simp only: b64encode.simps b64decode.simps b64_group_chars(2) [OF bs(1,3,4)] bs char_of_code
        prod.case option.case append.simps simp_thms)
next
  case (4 a b c rest)
  note bs = byte_split [OF code_less [of a] code_less [of b] code_less [of c]]
  show ?case
    by (simp only: b64encode.simps b64decode.simps b64_group_chars(3) [OF bs(1,3,5,6)] bs char_of_code
        4 prod.case option.case append.simps)
qed simp

section \<open>Keys and secrets\<close>

datatype secret_error =
    EncryptionKeyNotConfigured pystr
  | DecryptionFailed pystr
  | UnicodeDecodeError

text \<open>\<open>str(exc)\<close>\<close>

definition secret_text :: "secret_error \<Rightarrow> pystr" where
  "secret_text e = (case e of EncryptionKeyNotConfigured t \<Rightarrow> t | DecryptionFailed t \<Rightarrow> t | UnicodeDecodeError \<Rightarrow> [])"

record aead =
  aes_encrypt :: "bytes \<Rightarrow> bytes \<Rightarrow> bytes \<Rightarrow> bytes"
  aes_decrypt :: "bytes \<Rightarrow> bytes \<Rightarrow> bytes \<Rightarrow> bytes option"

definition aead_ok :: "aead \<Rightarrow> bool" where
  "aead_ok A \<longleftrightarrow> (\<forall>k n p. aes_decrypt A k n (aes_encrypt A k n p) = Some p)"

definition NONCE_SIZE :: nat where "NONCE_SIZE = 12"

text \<open>
  The configured key sources: the content of the key file when the setting names an existing file,
  and the environment variable.
\<close>

record key_settings =
  ks_key_file :: "pystr option"
  ks_encryption_key :: "pystr option"

definition key_of_b64 :: "pystr \<Rightarrow> pystr \<Rightarrow> secret_error + bytes" where
  "key_of_b64 what s =
     (case b64decode s of
        None \<Rightarrow> Inl (EncryptionKeyNotConfigured (what @ '' is not valid base64.''))
      | Some key \<Rightarrow>
          if length key \<noteq> 32
          then Inl (EncryptionKeyNotConfigured (what @ '' must decode to exactly 32 bytes (AES-256); got '' @
                 str_of_int (int (length key)) @ ''.''))
          else Inr key)"

definition load_key :: "key_settings \<Rightarrow> secret_error + bytes" where
  "load_key ks =
     (let from_file = (case ks_key_file ks of None \<Rightarrow> [] | Some content \<Rightarrow> strip content);
          key_b64 = (if from_file \<noteq> [] then from_file
                     else case ks_encryption_key ks of None \<Rightarrow> [] | Some k \<Rightarrow> k)
      in if key_b64 = [] then Inl (EncryptionKeyNotConfigured ''No encryption key configured.'')
         else key_of_b64 ''RELAY_ENCRYPTION_KEY'' key_b64)"

definition is_encryption_key_configured :: "key_settings \<Rightarrow> bool" where
  "is_encryption_key_configured ks = (case load_key ks of Inl _ \<Rightarrow> False | Inr _ \<Rightarrow> True)"

definition parse_key_file :: "pystr \<Rightarrow> pystr \<Rightarrow> secret_error + bytes" where
  "parse_key_file path content = key_of_b64 path (strip content)"

definition generate_encryption_key :: "bytes \<Rightarrow> pystr" where
  "generate_encryption_key random32 = b64encode random32"

definition encrypt_with_key :: "aead \<Rightarrow> bytes \<Rightarrow> pystr \<Rightarrow> bytes \<Rightarrow> bytes" where
  "encrypt_with_key A nonce plaintext key = nonce @ aes_encrypt A key nonce (utf8_encode plaintext)"

definition decrypt_with_key :: "aead \<Rightarrow> bytes \<Rightarrow> bytes \<Rightarrow> secret_error + pystr" where
  "decrypt_with_key A blob key =
     (case aes_decrypt A key (take NONCE_SIZE blob) (drop NONCE_SIZE blob) of
        None \<Rightarrow> Inl (DecryptionFailed ''Ciphertext failed authentication'')
      | Some plaintext \<Rightarrow> (case utf8_decode plaintext of None \<Rightarrow> Inl UnicodeDecodeError | Some s \<Rightarrow> Inr s))"

definition encrypt_secret :: "aead \<Rightarrow> key_settings \<Rightarrow> bytes \<Rightarrow> pystr \<Rightarrow> secret_error + bytes" where
  "encrypt_secret A ks nonce plaintext =
     (case load_key ks of Inl e \<Rightarrow> Inl e | Inr key \<Rightarrow> Inr (encrypt_with_key A nonce plaintext key))"

definition decrypt_secret :: "aead \<Rightarrow> key_settings \<Rightarrow> bytes \<Rightarrow> secret_error + pystr" where
  "decrypt_secret A ks blob =
     (case load_key ks of Inl e \<Rightarrow> Inl e | Inr key \<Rightarrow> decrypt_with_key A blob key)"

lemma decrypt_encrypt:
  "aead_ok A \<Longrightarrow> length nonce = NONCE_SIZE \<Longrightarrow>
   decrypt_with_key A (encrypt_with_key A nonce s key) key = Inr s"
  by (simp add: decrypt_with_key_def encrypt_with_key_def aead_ok_def utf8_roundtrip)

lemma decrypt_encrypted:
  assumes "aead_ok A" "length n = NONCE_SIZE" "encrypt_secret A ks n p = Inr blob"
  shows "decrypt_secret A ks blob = Inr p"
  using assms by (auto simp: encrypt_secret_def decrypt_secret_def decrypt_encrypt split: sum.splits)

lemma b64encode_no_space: "\<forall>c\<in>set (b64encode bs). \<not> is_space c"
proof (induction bs rule: b64encode.induct)
  case (2 a)
  note bs = byte_split [OF code_less [of a] code_less [of a] code_less [of a]]
  show ?case by (simp add: b64_char_not_space bs pad_not_space)
next
  case (3 a b)
  note bs = byte_split [OF code_less [of a] code_less [of b] code_less [of b]]
  show ?case by (simp add: b64_char_not_space bs pad_not_space)
next
  case (4 a b c rest)
  note bs = byte_split [OF code_less [of a] code_less [of b] code_less [of c]]
  show ?case using 4 by (simp add: b64_char_not_space bs)
qed simp

lemma dropWhile_none: "\<forall>c\<in>set s. \<not> P c \<Longrightarrow> dropWhile P s = s"
  by (cases s) auto

lemma strip_no_space: "\<forall>c\<in>set s. \<not> is_space c \<Longrightarrow> strip s = s"
  by (simp add: strip_def rstrip_of_def lstrip_of_def dropWhile_none)

lemma strip_trailing_newline: "\<forall>c\<in>set s. \<not> is_space c \<Longrightarrow> strip (s @ [CHR 10]) = s"
proof (cases s)
  case Nil
  then show ?thesis by (simp add: strip_def rstrip_of_def lstrip_of_def is_space_def code_def)
next
  case (Cons x xs)
  assume ns: "\<forall>c\<in>set s. \<not> is_space c"
  have "is_space (CHR 10)" by (simp add: is_space_def code_def)
  moreover have "dropWhile is_space (s @ [CHR 10]) = s @ [CHR 10]" using ns Cons by simp
  ultimately show ?thesis using ns by (simp add: strip_def rstrip_of_def lstrip_of_def dropWhile_none)
qed

text \<open>
  A generated key works: the line that \<open>generate-encryption-key\<close> prints, saved as a key file or
  put in the environment, loads as the 32 random bytes; and whatever string is encrypted under the
  configured key decrypts to itself.
\<close>

lemma generated_key_roundtrip:
  assumes "aead_ok A" "length random32 = 32" "length nonce = NONCE_SIZE"
    and "ks_key_file ks = Some (generate_encryption_key random32 @ [CHR 10]) \<or>
      ks_key_file ks = None \<and> ks_encryption_key ks = Some (generate_encryption_key random32)"
  shows "load_key ks = Inr random32 \<and>
    parse_key_file path (generate_encryption_key random32 @ [CHR 10]) = Inr random32 \<and>
    (\<exists>blob. encrypt_secret A ks nonce s = Inr blob \<and> decrypt_secret A ks blob = Inr s)"
proof -
  let ?k = "b64encode random32"
  have ne: "?k \<noteq> []" using b64_roundtrip [of random32] assms(2) by auto
  have st: "strip (?k @ [CHR 10]) = ?k" using strip_trailing_newline [OF b64encode_no_space] .
  have key: "key_of_b64 what ?k = Inr random32" for what
    using assms(2) by (simp add: key_of_b64_def b64_roundtrip)
  have load: "load_key ks = Inr random32"
    using assms(4) ne by (auto simp: load_key_def generate_encryption_key_def st key)
  then show ?thesis
    using decrypt_encrypt [OF assms(1,3)]
    by (simp add: parse_key_file_def generate_encryption_key_def st key encrypt_secret_def decrypt_secret_def)
qed

text \<open>A stand-in cipher for the witnesses: the key and a tag of the nonce in front of the plaintext.\<close>

definition demo_aead :: aead where
  "demo_aead = \<lparr>aes_encrypt = (\<lambda>k n p. k @ p),
     aes_decrypt = (\<lambda>k n c. if take (length k) c = k then Some (drop (length k) c) else None)\<rparr>"

lemma demo_aead_ok: "aead_ok demo_aead"
  by (simp add: aead_ok_def demo_aead_def)

end
