(* ===== verification/Key_Rotation.thy ===== *)
theory Key_Rotation
  imports Secrets
begin

text \<open>
  \<open>relay rotate-encryption-key\<close> (\<open>cli.py\<close>): every stored secret is decrypted with the old key and
  encrypted with the new one, in one transaction.  \<open>encrypted_columns\<close> lists what the name search
  over the metadata finds: the columns of the models whose name contains \<open>encrypted\<close>.  A column is
  read as the list of its values that are not NULL, in row order, and written by replacing them.
\<close>

section \<open>Columns\<close>

record column =
  col_name :: pystr
  col_blobs :: "db \<Rightarrow> bytes list"
  col_put :: "bytes list \<Rightarrow> db \<Rightarrow> db"

definition blobs_in :: "('r \<Rightarrow> bytes option) \<Rightarrow> 'r list \<Rightarrow> bytes list" where
  "blobs_in get rows = List.map_filter get rows"

fun put_blobs :: "('r \<Rightarrow> bytes option) \<Rightarrow> (bytes \<Rightarrow> 'r \<Rightarrow> 'r) \<Rightarrow> bytes list \<Rightarrow> 'r list \<Rightarrow> 'r list" where
  "put_blobs get put bs [] = []"
| "put_blobs get put bs (r # rs) =
     (case (get r, bs) of
        (Some _, b # bs') \<Rightarrow> put b r # put_blobs get put bs' rs
      | _ \<Rightarrow> r # put_blobs get put bs rs)"

definition table_column ::
  "pystr \<Rightarrow> (db \<Rightarrow> 'r list) \<Rightarrow> ('r list \<Rightarrow> db \<Rightarrow> db) \<Rightarrow> ('r \<Rightarrow> bytes option) \<Rightarrow> (bytes \<Rightarrow> 'r \<Rightarrow> 'r) \<Rightarrow> column" where
  "table_column name rows set_rows get put =
     \<lparr>col_name = name, col_blobs = (\<lambda>d. blobs_in get (rows d)),
      col_put = (\<lambda>bs d. set_rows (put_blobs get put bs (rows d)) d)\<rparr>"

text \<open>A singleton table as a list of at most one row.\<close>

definition single :: "'r option \<Rightarrow> 'r list" where
  "single x = (case x of None \<Rightarrow> [] | Some r \<Rightarrow> [r])"

definition unsingle :: "'r list \<Rightarrow> 'r option" where
  "unsingle rs = (case rs of [] \<Rightarrow> None | r # _ \<Rightarrow> Some r)"

definition upstream_password_column :: column where
  "upstream_password_column = table_column ''upstream_accounts.encrypted_password'' accounts
     (\<lambda>rs d. d\<lparr>accounts := rs\<rparr>) (\<lambda>r. Some (ua_encrypted_password r)) (\<lambda>b r. r\<lparr>ua_encrypted_password := b\<rparr>)"

definition totp_column :: column where
  "totp_column = table_column ''admin_users.totp_secret_encrypted'' admins
     (\<lambda>rs d. d\<lparr>admins := rs\<rparr>) ad_totp_secret_encrypted (\<lambda>b r. r\<lparr>ad_totp_secret_encrypted := Some b\<rparr>)"

definition cloudflare_token_column :: column where
  "cloudflare_token_column = table_column ''relay_settings.tls_cloudflare_api_token_encrypted''
     (\<lambda>d. single (settings_row d)) (\<lambda>rs d. d\<lparr>settings_row := unsingle rs\<rparr>)
     rs_tls_cloudflare_api_token_encrypted (\<lambda>b r. r\<lparr>rs_tls_cloudflare_api_token_encrypted := Some b\<rparr>)"

definition tls_key_column :: column where
  "tls_key_column = table_column ''tls_certificate_state.encrypted_key_pem''
     (\<lambda>d. single (tls_state d)) (\<lambda>rs d. d\<lparr>tls_state := unsingle rs\<rparr>)
     tc_encrypted_key_pem (\<lambda>b r. r\<lparr>tc_encrypted_key_pem := Some b\<rparr>)"

definition acme_key_column :: column where
  "acme_key_column = table_column ''tls_certificate_state.acme_account_key_encrypted''
     (\<lambda>d. single (tls_state d)) (\<lambda>rs d. d\<lparr>tls_state := unsingle rs\<rparr>)
     tc_acme_account_key_encrypted (\<lambda>b r. r\<lparr>tc_acme_account_key_encrypted := Some b\<rparr>)"

definition pending_cert_key_column :: column where
  "pending_cert_key_column = table_column ''tls_pending_manual_challenges.encrypted_cert_key_pem''
     (\<lambda>d. single (tls_pending d)) (\<lambda>rs d. d\<lparr>tls_pending := unsingle rs\<rparr>)
     (\<lambda>r. Some (tp_encrypted_cert_key_pem r)) (\<lambda>b r. r\<lparr>tp_encrypted_cert_key_pem := b\<rparr>)"

definition pending_account_key_column :: column where
  "pending_account_key_column = table_column ''tls_pending_manual_challenges.encrypted_account_key_pem''
     (\<lambda>d. single (tls_pending d)) (\<lambda>rs d. d\<lparr>tls_pending := unsingle rs\<rparr>)
     (\<lambda>r. Some (tp_encrypted_account_key_pem r)) (\<lambda>b r. r\<lparr>tp_encrypted_account_key_pem := b\<rparr>)"

definition encrypted_columns :: "column list" where
  "encrypted_columns =
     [totp_column, cloudflare_token_column, tls_key_column, acme_key_column, pending_cert_key_column,
      pending_account_key_column, upstream_password_column]"

section \<open>The command\<close>

fun rotate_blobs :: "aead \<Rightarrow> bytes \<Rightarrow> bytes \<Rightarrow> (nat \<Rightarrow> bytes) \<Rightarrow> nat \<Rightarrow> bytes list \<Rightarrow>
  secret_error + (bytes list \<times> nat)" where
  "rotate_blobs A old new nonces i [] = Inr ([], i)"
| "rotate_blobs A old new nonces i (b # bs) =
     (case decrypt_with_key A b old of
        Inl e \<Rightarrow> Inl e
      | Inr plaintext \<Rightarrow>
          (case rotate_blobs A old new nonces (Suc i) bs of
             Inl e \<Rightarrow> Inl e
           | Inr (bs', j) \<Rightarrow> Inr (encrypt_with_key A (nonces i) plaintext new # bs', j)))"

text \<open>The loop over the columns, with the count per column that the command prints.\<close>

fun rotate_columns :: "aead \<Rightarrow> bytes \<Rightarrow> bytes \<Rightarrow> (nat \<Rightarrow> bytes) \<Rightarrow> nat \<Rightarrow> column list \<Rightarrow> db \<Rightarrow>
  secret_error + ((pystr \<times> nat) list \<times> db)" where
  "rotate_columns A old new nonces i [] d = Inr ([], d)"
| "rotate_columns A old new nonces i (C # Cs) d =
     (case rotate_blobs A old new nonces i (col_blobs C d) of
        Inl e \<Rightarrow> Inl e
      | Inr (bs, j) \<Rightarrow>
          (case rotate_columns A old new nonces j Cs (col_put C bs d) of
             Inl e \<Rightarrow> Inl e
           | Inr (counts, d') \<Rightarrow> Inr ((col_name C, length bs) # counts, d')))"

text \<open>The whole command; an error leaves by the rollback.\<close>

definition rotate_encryption_key ::
  "aead \<Rightarrow> (nat \<Rightarrow> bytes) \<Rightarrow> pystr \<Rightarrow> pystr \<Rightarrow> db \<Rightarrow> (secret_error + (pystr \<times> nat) list) \<times> db" where
  "rotate_encryption_key A nonces old_file new_file d =
     (case (parse_key_file ''old'' old_file, parse_key_file ''new'' new_file) of
        (Inl e, _) \<Rightarrow> (Inl e, d)
      | (Inr _, Inl e) \<Rightarrow> (Inl e, d)
      | (Inr old, Inr new) \<Rightarrow>
          (case rotate_columns A old new nonces 0 encrypted_columns d of
             Inl e \<Rightarrow> (Inl e, d)
           | Inr (counts, d') \<Rightarrow> (Inr counts, d')))"

section \<open>The columns are independent\<close>

text \<open>What the rotation needs of a column list: a written column reads back, the others are kept.\<close>

locale column_family =
  fixes cols :: "column list"
  assumes put_get: "C \<in> set cols \<Longrightarrow> length bs = length (col_blobs C d) \<Longrightarrow> col_blobs C (col_put C bs d) = bs"
    and put_other: "i < length cols \<Longrightarrow> j < length cols \<Longrightarrow> i \<noteq> j \<Longrightarrow>
      col_blobs (cols ! j) (col_put (cols ! i) bs d) = col_blobs (cols ! j) d"
begin

definition plain :: "aead \<Rightarrow> bytes \<Rightarrow> db \<Rightarrow> (secret_error + pystr) list list" where
  "plain A k d = map (\<lambda>C. map (\<lambda>b. decrypt_with_key A b k) (col_blobs C d)) cols"

lemma rotate_blobs_plain:
  assumes "aead_ok A" "\<And>i. length (nonces i) = NONCE_SIZE"
  shows "rotate_blobs A old new nonces i bs = Inr (bs', j) \<Longrightarrow>
    map (\<lambda>b. decrypt_with_key A b new) bs' = map (\<lambda>b. decrypt_with_key A b old) bs \<and>
    (\<forall>b\<in>set bs. \<exists>p. decrypt_with_key A b old = Inr p)"
proof (induction bs arbitrary: i bs' j)
  case (Cons b bs)
  then obtain p bs1 where p: "decrypt_with_key A b old = Inr p"
    and r: "rotate_blobs A old new nonces (Suc i) bs = Inr (bs1, j)"
    and bs': "bs' = encrypt_with_key A (nonces i) p new # bs1"
    by (auto split: sum.splits prod.splits)
  show ?case using Cons.IH [OF r] decrypt_encrypt [OF assms(1,2), of i p new] by (simp add: p bs')
qed simp

lemma rotate_blobs_fails:
  "(\<exists>e. rotate_blobs A old new nonces i bs = Inl e) \<longleftrightarrow> (\<exists>b\<in>set bs. \<exists>e. decrypt_with_key A b old = Inl e)"
proof (induction bs arbitrary: i)
  case (Cons b bs)
  have IH: "(\<exists>e. rotate_blobs A old new nonces (Suc i) bs = Inl e) \<longleftrightarrow>
      (\<exists>b\<in>set bs. \<exists>e. decrypt_with_key A b old = Inl e)" by (rule Cons.IH)
  show ?case
  proof (cases "decrypt_with_key A b old")
    case (Inr p)
    then show ?thesis
      using IH by (cases "rotate_blobs A old new nonces (Suc i) bs") (auto split: prod.splits)
  qed simp
qed simp

lemma rotate_blobs_length: "rotate_blobs A old new nonces i bs = Inr (bs', j) \<Longrightarrow> length bs' = length bs"
  by (induction bs arbitrary: i bs' j) (auto split: sum.splits prod.splits)

text \<open>Columns not yet visited keep their values, visited ones have their plaintexts under the new key.\<close>

lemma rotate_columns_plain:
  assumes "aead_ok A" "\<And>i. length (nonces i) = NONCE_SIZE"
  shows "n \<le> length cols \<Longrightarrow> rotate_columns A old new nonces i (drop n cols) d = Inr (counts, d') \<Longrightarrow>
    (\<forall>k<length cols. if k < n then col_blobs (cols ! k) d' = col_blobs (cols ! k) d
       else map (\<lambda>b. decrypt_with_key A b new) (col_blobs (cols ! k) d') =
            map (\<lambda>b. decrypt_with_key A b old) (col_blobs (cols ! k) d) \<and>
            (\<forall>b\<in>set (col_blobs (cols ! k) d). \<exists>p. decrypt_with_key A b old = Inr p))"
proof (induction "length cols - n" arbitrary: n i d counts)
  case 0
  then show ?case by auto
next
  case (Suc m)
  then have n: "n < length cols" by simp
  have drop: "drop n cols = cols ! n # drop (Suc n) cols" using Cons_nth_drop_Suc [OF n] by simp
  obtain bs j counts' where b: "rotate_blobs A old new nonces i (col_blobs (cols ! n) d) = Inr (bs, j)"
    and r: "rotate_columns A old new nonces j (drop (Suc n) cols) (col_put (cols ! n) bs d) = Inr (counts', d')"
    using Suc.prems(2) unfolding drop by (auto split: sum.splits prod.splits)
  have IH: "\<forall>k<length cols. if k < Suc n then col_blobs (cols ! k) d' = col_blobs (cols ! k) (col_put (cols ! n) bs d)
       else map (\<lambda>b. decrypt_with_key A b new) (col_blobs (cols ! k) d') =
            map (\<lambda>b. decrypt_with_key A b old) (col_blobs (cols ! k) (col_put (cols ! n) bs d)) \<and>
            (\<forall>b\<in>set (col_blobs (cols ! k) (col_put (cols ! n) bs d)). \<exists>p. decrypt_with_key A b old = Inr p)"
    using Suc.hyps(1) [of "Suc n", OF _ _ r] Suc.hyps(2) n by auto
  have here: "col_blobs (cols ! n) (col_put (cols ! n) bs d) = bs"
    using put_get n rotate_blobs_length [OF b] by simp
  have other: "col_blobs (cols ! k) (col_put (cols ! n) bs d) = col_blobs (cols ! k) d"
    if "k < length cols" "k \<noteq> n" for k
    using put_other [OF n that(1)] that(2) by simp
  show ?case
  proof (intro allI impI)
    fix k assume k: "k < length cols"
    show "if k < n then col_blobs (cols ! k) d' = col_blobs (cols ! k) d
       else map (\<lambda>b. decrypt_with_key A b new) (col_blobs (cols ! k) d') =
            map (\<lambda>b. decrypt_with_key A b old) (col_blobs (cols ! k) d) \<and>
            (\<forall>b\<in>set (col_blobs (cols ! k) d). \<exists>p. decrypt_with_key A b old = Inr p)"
      using IH [rule_format, OF k] here other [OF k] rotate_blobs_plain [OF assms b]
      by (cases "k = n") (auto simp: less_Suc_eq)
  qed
qed

lemma rotate_columns_fails:
  "n \<le> length cols \<Longrightarrow> (\<exists>e. rotate_columns A old new nonces i (drop n cols) d = Inl e) \<longleftrightarrow>
    (\<exists>k\<in>{n..<length cols}. \<exists>b\<in>set (col_blobs (cols ! k) d). \<exists>e. decrypt_with_key A b old = Inl e)"
proof (induction "length cols - n" arbitrary: n i d)
  case (Suc m)
  then have n: "n < length cols" by simp
  have drop: "drop n cols = cols ! n # drop (Suc n) cols" using Cons_nth_drop_Suc [OF n] by simp
  have range: "{n..<length cols} = insert n {Suc n..<length cols}" using n by auto
  show ?case
  proof (cases "rotate_blobs A old new nonces i (col_blobs (cols ! n) d)")
    case (Inl e)
    moreover have "\<exists>b\<in>set (col_blobs (cols ! n) d). \<exists>e. decrypt_with_key A b old = Inl e"
      using rotate_blobs_fails Inl by blast
    ultimately show ?thesis unfolding drop range by simp
  next
    case (Inr p)
    obtain bs j where p: "p = (bs, j)" by fastforce
    have "\<not> (\<exists>b\<in>set (col_blobs (cols ! n) d). \<exists>e. decrypt_with_key A b old = Inl e)"
      using rotate_blobs_fails [of A old new nonces i "col_blobs (cols ! n) d"] Inr by simp
    moreover have "col_blobs (cols ! k) (col_put (cols ! n) bs d) = col_blobs (cols ! k) d"
      if "k \<in> {Suc n..<length cols}" for k
      using put_other [OF n, of k] that by simp
    moreover have "(\<exists>e. rotate_columns A old new nonces i (drop n cols) d = Inl e) \<longleftrightarrow>
        (\<exists>e. rotate_columns A old new nonces j (drop (Suc n) cols) (col_put (cols ! n) bs d) = Inl e)"
      unfolding drop by (simp add: Inr p split: sum.splits prod.splits)
    ultimately show ?thesis
      using Suc.hyps(1) [of "Suc n" j "col_put (cols ! n) bs d"] Suc.hyps(2) n unfolding range by auto
  qed
qed simp

end

lemma put_blobs_get:
  assumes "\<And>b r. get (put b r) = Some b"
  shows "length bs = length (blobs_in get rows) \<Longrightarrow> blobs_in get (put_blobs get put bs rows) = bs"
proof (induction rows arbitrary: bs)
  case (Cons r rs)
  then show ?case
    using assms by (cases "get r"; cases bs) (auto simp: blobs_in_def map_filter_simps)
qed (simp add: blobs_in_def map_filter_simps)

lemma put_blobs_other:
  assumes "\<And>b r. get' (put b r) = get' r"
  shows "blobs_in get' (put_blobs get put bs rows) = blobs_in get' rows"
proof (induction rows arbitrary: bs)
  case (Cons r rs)
  then show ?case
    using assms by (cases "get r"; cases bs) (auto simp: blobs_in_def map_filter_simps split: option.splits)
qed (simp add: blobs_in_def map_filter_simps)

lemma put_blobs_length: "length (put_blobs get put bs rows) = length rows"
  by (induction rows arbitrary: bs) (auto split: option.splits list.splits)

lemma single_unsingle: "length rs = length (single x) \<Longrightarrow> single (unsingle rs) = rs"
  by (cases x; cases rs) (auto simp: single_def unsingle_def)

lemmas column_defs = totp_column_def cloudflare_token_column_def tls_key_column_def acme_key_column_def
  pending_cert_key_column_def pending_account_key_column_def upstream_password_column_def table_column_def

lemma all_less_7: "(\<forall>i<(7::nat). P i) \<longleftrightarrow> P 0 \<and> P 1 \<and> P 2 \<and> P 3 \<and> P 4 \<and> P 5 \<and> P 6"
proof -
  have "(i < 7) = (i \<in> {0, 1, 2, 3, 4, 5, 6})" for i :: nat by auto
  then show ?thesis by auto
qed

lemma columns_put_get:
  "C \<in> set encrypted_columns \<Longrightarrow> length bs = length (col_blobs C d) \<Longrightarrow> col_blobs C (col_put C bs d) = bs"
  by (auto simp: encrypted_columns_def column_defs put_blobs_get single_unsingle put_blobs_length)

lemma columns_put_other:
  "\<forall>i<7. \<forall>j<7. i \<noteq> j \<longrightarrow>
    col_blobs (encrypted_columns ! j) (col_put (encrypted_columns ! i) bs d) = col_blobs (encrypted_columns ! j) d"
  unfolding all_less_7
  by (simp add: encrypted_columns_def column_defs put_blobs_other single_unsingle put_blobs_length)

interpretation secrets: column_family encrypted_columns
  using columns_put_get columns_put_other by unfold_locales (auto simp: encrypted_columns_def)

section \<open>The property\<close>

text \<open>Everything in the database that is not an encrypted value.\<close>

definition without_secrets :: "db \<Rightarrow> db" where
  "without_secrets d =
     d\<lparr>accounts := map (\<lambda>r. r\<lparr>ua_encrypted_password := []\<rparr>) (accounts d),
       admins := map (\<lambda>r. r\<lparr>ad_totp_secret_encrypted := map_option (\<lambda>_. []) (ad_totp_secret_encrypted r)\<rparr>) (admins d),
       settings_row := map_option (\<lambda>r. r\<lparr>rs_tls_cloudflare_api_token_encrypted :=
          map_option (\<lambda>_. []) (rs_tls_cloudflare_api_token_encrypted r)\<rparr>) (settings_row d),
       tls_state := map_option (\<lambda>r. r\<lparr>tc_encrypted_key_pem := map_option (\<lambda>_. []) (tc_encrypted_key_pem r),
          tc_acme_account_key_encrypted := map_option (\<lambda>_. []) (tc_acme_account_key_encrypted r)\<rparr>) (tls_state d),
       tls_pending := map_option (\<lambda>r. r\<lparr>tp_encrypted_cert_key_pem := [],
          tp_encrypted_account_key_pem := []\<rparr>) (tls_pending d)\<rparr>"

lemma map_put_blobs:
  assumes "\<And>b b' r. get r = Some b' \<Longrightarrow> f (put b r) = f r"
  shows "map f (put_blobs get put bs rows) = map f rows"
  using assms by (induction rows arbitrary: bs) (auto split: option.splits list.splits)

lemma unsingle_put:
  assumes "\<And>b b' r. get r = Some b' \<Longrightarrow> f (put b r) = f r"
  shows "map_option f (unsingle (put_blobs get put bs (single x))) = map_option f x"
  using assms by (cases x) (auto simp: single_def unsingle_def split: option.splits list.splits)

lemma put_keeps_rest: "C \<in> set encrypted_columns \<Longrightarrow> without_secrets (col_put C bs d) = without_secrets d"
  by (auto simp: encrypted_columns_def column_defs without_secrets_def map_put_blobs unsingle_put)

lemma rotate_keeps_rest:
  "set Cs \<subseteq> set encrypted_columns \<Longrightarrow> rotate_columns A old new nonces i Cs d = Inr (counts, d') \<Longrightarrow>
   without_secrets d' = without_secrets d"
  by (induction Cs arbitrary: i d counts) (auto simp: put_keeps_rest split: sum.splits prod.splits)

text \<open>The plaintexts of all stored secrets under a key, column by column.\<close>

definition stored_secrets :: "aead \<Rightarrow> bytes \<Rightarrow> db \<Rightarrow> (secret_error + pystr) list list" where
  "stored_secrets A k d = map (\<lambda>C. map (\<lambda>b. decrypt_with_key A b k) (col_blobs C d)) encrypted_columns"

text \<open>
  C21. Key rotation is all or nothing and covers every encrypted column: with two valid key files, it
  succeeds exactly when every stored secret decrypts under the old key; then every one decrypts under
  the new key to the same plaintext, and nothing else in the database changed.  Otherwise, an error
  leaves the database exactly as it was.
\<close>

theorem rotation_all_or_nothing:
  assumes "aead_ok A" "\<And>i. length (nonces i) = NONCE_SIZE"
    and "parse_key_file ''old'' old_file = Inr old" "parse_key_file ''new'' new_file = Inr new"
    and "rotate_encryption_key A nonces old_file new_file d = (res, d')"
  shows "(isl res \<longleftrightarrow> (\<exists>s\<in>set (concat (stored_secrets A old d)). isl s)) \<and>
    (if isl res then d' = d
     else stored_secrets A new d' = stored_secrets A old d \<and> without_secrets d' = without_secrets d)"
proof (cases "rotate_columns A old new nonces 0 encrypted_columns d")
  case (Inl e)
  then have "\<exists>k\<in>{0..<length encrypted_columns}. \<exists>b\<in>set (col_blobs (encrypted_columns ! k) d).
      \<exists>e. decrypt_with_key A b old = Inl e"
    using secrets.rotate_columns_fails [of 0 A old new nonces 0 d] by simp
  then have "\<exists>C\<in>set encrypted_columns. \<exists>b\<in>set (col_blobs C d). isl (decrypt_with_key A b old)"
    by (metis atLeastLessThan_iff nth_mem sum.disc(1))
  then show ?thesis using Inl assms(3-5) by (auto simp: rotate_encryption_key_def stored_secrets_def)
next
  case (Inr p)
  obtain counts d1 where p: "p = (counts, d1)" by fastforce
  have res: "res = Inr counts" "d' = d1" using Inr p assms(3-5) by (auto simp: rotate_encryption_key_def)
  have all: "map (\<lambda>b. decrypt_with_key A b new) (col_blobs C d1) =
        map (\<lambda>b. decrypt_with_key A b old) (col_blobs C d) \<and>
      (\<forall>b\<in>set (col_blobs C d). \<exists>p. decrypt_with_key A b old = Inr p)" if "C \<in> set encrypted_columns" for C
    using secrets.rotate_columns_plain [where n = 0 and nonces = nonces and i = 0 and old = old and new = new
        and d = d and counts = counts and d' = d1, OF assms(1,2)] Inr p that
    by (auto simp: in_set_conv_nth)
  moreover have "without_secrets d1 = without_secrets d"
    using rotate_keeps_rest [of encrypted_columns] Inr p by blast
  ultimately show ?thesis using res by (auto simp: stored_secrets_def) fastforce+
qed

definition demo_key_file :: "char \<Rightarrow> pystr" where
  "demo_key_file c = generate_encryption_key (replicate 32 c) @ [CHR 10]"

theorem rotation_all_or_nothing_witness:
  "let A = demo_aead; n = (\<lambda>_. replicate 12 (CHR ''n'')); old = replicate 32 (CHR ''a''); new = replicate 32 (CHR ''b'');
       d = empty_db\<lparr>settings_row := Some (default_relay_settings
             \<lparr>rs_tls_cloudflare_api_token_encrypted := Some (encrypt_with_key A (n 0) ''token'' old)\<rparr>)\<rparr>;
       (res, d') = rotate_encryption_key A n (demo_key_file (CHR ''a'')) (demo_key_file (CHR ''b'')) d
   in \<not> isl res \<and> stored_secrets A new d' = stored_secrets A old d"
proof -
  let ?n = "\<lambda>_::nat. replicate 12 (CHR ''n'')" and ?old = "replicate 32 (CHR ''a'')" and ?new = "replicate 32 (CHR ''b'')"
  let ?d = "empty_db\<lparr>settings_row := Some (default_relay_settings
             \<lparr>rs_tls_cloudflare_api_token_encrypted := Some (encrypt_with_key demo_aead (?n 0) ''token'' ?old)\<rparr>)\<rparr>"
  have keys: "parse_key_file ''old'' (demo_key_file (CHR ''a'')) = Inr ?old"
    "parse_key_file ''new'' (demo_key_file (CHR ''b'')) = Inr ?new"
    by (simp_all add: parse_key_file_def demo_key_file_def generate_encryption_key_def key_of_b64_def
        strip_trailing_newline [OF b64encode_no_space] b64_roundtrip)
  obtain res d' where r: "rotate_encryption_key demo_aead ?n (demo_key_file (CHR ''a'')) (demo_key_file (CHR ''b'')) ?d = (res, d')"
    by fastforce
  have "stored_secrets demo_aead ?old ?d = [[], [Inr ''token''], [], [], [], [], []]"
    by (simp add: stored_secrets_def encrypted_columns_def column_defs blobs_in_def map_filter_simps single_def
        empty_db_def decrypt_encrypt demo_aead_ok NONCE_SIZE_def)
  then show ?thesis
    using rotation_all_or_nothing [where nonces = ?n, OF demo_aead_ok _ keys r] r by (simp add: NONCE_SIZE_def)
qed

end
