(* ===== verification/Login_Limit.thy ===== *)
theory Login_Limit
  imports Models
begin

text \<open>
  \<open>core/rate_limit.py\<close>: the login rate limiter, whose only state is the audit log.  The thresholds
  and the window are settings (\<open>config.py\<close>), \<open>default_limiter\<close> their defaults.
\<close>

section \<open>The limiter\<close>

definition LOGIN_SUCCESS :: pystr where "LOGIN_SUCCESS = ''admin_login.success''"
definition LOGIN_FAILURE :: pystr where "LOGIN_FAILURE = ''admin_login.failure''"
definition ACCOUNT_WIDE_FACTOR :: int where "ACCOUNT_WIDE_FACTOR = 4"

record limiter_settings =
  rate_limit_thresholds :: "(int \<times> int) list"
  rate_limit_window_seconds :: int

definition default_limiter :: limiter_settings where
  "default_limiter = \<lparr>rate_limit_thresholds = [(5, 60), (10, 5 * 60), (15, 15 * 60)],
     rate_limit_window_seconds = 60 * 60\<rparr>"

record rate_limit_status =
  locked :: bool
  retry_after_seconds :: int

definition record_login_attempt ::
  "int \<Rightarrow> datetime \<Rightarrow> pystr \<Rightarrow> int option \<Rightarrow> pystr option \<Rightarrow> bool \<Rightarrow> db \<Rightarrow> db" where
  "record_login_attempt new_id now email admin_user_id ip_address success d =
     d\<lparr>audits := audits d @
        [\<lparr>al_id = new_id, al_timestamp = now, al_admin_user_id = admin_user_id,
          al_action = (if success then LOGIN_SUCCESS else LOGIN_FAILURE),
          al_target_type = Some ''admin_user'', al_target_id = admin_user_id,
          al_detail = Some [(''email'', JStr email)], al_ip_address = ip_address\<rparr>]\<rparr>"

definition lockout_seconds_for :: "limiter_settings \<Rightarrow> int \<Rightarrow> int \<Rightarrow> int option" where
  "lockout_seconds_for cfg failure_count factor =
     fold (\<lambda>(threshold, secs) lockout. if failure_count \<ge> threshold * factor then Some secs else lockout)
       (rate_limit_thresholds cfg) None"

text \<open>The newest timestamp of a nonempty list of rows (\<open>order_by(timestamp.desc())\<close>, first).\<close>

definition newest :: "datetime list \<Rightarrow> datetime" where
  "newest ts = fold max (tl ts) (hd ts)"

text \<open>\<open>int(delta.total_seconds())\<close>, truncated towards zero.\<close>

definition whole_seconds :: "timedelta \<Rightarrow> int" where
  "whole_seconds t = (if t < 0 then - ((- t) div seconds 1) else t div seconds 1)"

definition worst_case :: "limiter_settings \<Rightarrow> (audit_log \<Rightarrow> bool) \<Rightarrow> datetime \<Rightarrow> int \<Rightarrow> db \<Rightarrow> int" where
  "worst_case cfg filters now factor d =
     (let failures = map al_timestamp (filter (\<lambda>a. al_action a = LOGIN_FAILURE \<and> filters a) (audits d))
      in if failures = [] then 0
         else (case lockout_seconds_for cfg (int (length failures)) factor of
                 None \<Rightarrow> 0
               | Some lockout \<Rightarrow> max 0 (whole_seconds (newest failures + seconds lockout - now))))"

definition check_rate_limit ::
  "limiter_settings \<Rightarrow> datetime \<Rightarrow> int option \<Rightarrow> pystr option \<Rightarrow> db \<Rightarrow> rate_limit_status" where
  "check_rate_limit cfg now admin_user_id ip_address d =
     (let window_start = now - seconds (rate_limit_window_seconds cfg)
      in case admin_user_id of
        None \<Rightarrow>
          (if ip_address = None \<or> ip_address = Some [] then \<lparr>locked = False, retry_after_seconds = 0\<rparr>
           else let retry_after = worst_case cfg (\<lambda>a. al_admin_user_id a = None \<and>
                      al_ip_address a = ip_address \<and> al_timestamp a \<ge> window_start) now 1 d
                in \<lparr>locked = retry_after > 0, retry_after_seconds = retry_after\<rparr>)
      | Some admin_id \<Rightarrow>
          (let successes = map al_timestamp (filter (\<lambda>a. al_action a = LOGIN_SUCCESS \<and>
                 al_admin_user_id a = Some admin_id) (audits d));
               since = (if successes = [] then window_start else max (newest successes) window_start);
               account = (\<lambda>a. al_admin_user_id a = Some admin_id \<and> al_timestamp a \<ge> since);
               wide = worst_case cfg account now ACCOUNT_WIDE_FACTOR d;
               retry_after = (if ip_address = None \<or> ip_address = Some [] then wide
                 else max wide (worst_case cfg (\<lambda>a. account a \<and> al_ip_address a = ip_address) now 1 d))
           in \<lparr>locked = retry_after > 0, retry_after_seconds = retry_after\<rparr>))"

section \<open>Which rows matter\<close>

definition only_rows :: "(audit_log \<Rightarrow> bool) \<Rightarrow> db \<Rightarrow> db" where
  "only_rows P d = d\<lparr>audits := filter P (audits d)\<rparr>"

lemma worst_case_only:
  assumes "\<And>a. al_action a = LOGIN_FAILURE \<Longrightarrow> filters a \<Longrightarrow> P a"
  shows "worst_case cfg filters now factor (only_rows P d) = worst_case cfg filters now factor d"
proof -
  have "filter (\<lambda>a. al_action a = LOGIN_FAILURE \<and> filters a) (filter P (audits d)) =
      filter (\<lambda>a. al_action a = LOGIN_FAILURE \<and> filters a) (audits d)"
    unfolding filter_filter using assms by (intro filter_cong) auto
  then show ?thesis by (simp add: worst_case_def only_rows_def)
qed

lemma success_differs [simp]: "LOGIN_SUCCESS \<noteq> LOGIN_FAILURE" "LOGIN_FAILURE \<noteq> LOGIN_SUCCESS"
  by (simp_all add: LOGIN_SUCCESS_def LOGIN_FAILURE_def)

definition relevant_rows :: "int option \<Rightarrow> pystr option \<Rightarrow> audit_log \<Rightarrow> bool" where
  "relevant_rows who ip a \<longleftrightarrow>
     (al_action a = LOGIN_FAILURE \<or> al_action a = LOGIN_SUCCESS) \<and> al_admin_user_id a = who \<and>
     (who = None \<longrightarrow> al_ip_address a = ip)"

text \<open>
  The counters are independent: the answer for a known account is computed from the login rows
  of that account alone, and for an unknown address from the failures of unknown addresses from the
  same source alone.  So guessing against other accounts, spraying unknown addresses or any other
  audited action never locks an account out, and guessing at an account never blocks the others.
\<close>

lemma limiter_independence:
  "check_rate_limit cfg now who ip (only_rows (relevant_rows who ip) d) = check_rate_limit cfg now who ip d"
proof (cases who)
  case None
  have "worst_case cfg (\<lambda>a. al_admin_user_id a = None \<and> al_ip_address a = ip \<and> P a) now 1
      (only_rows (relevant_rows None ip) d) =
    worst_case cfg (\<lambda>a. al_admin_user_id a = None \<and> al_ip_address a = ip \<and> P a) now 1 d" for P
    by (rule worst_case_only) (simp add: relevant_rows_def)
  then show ?thesis by (simp add: None check_rate_limit_def Let_def)
next
  case (Some i)
  have "filter (\<lambda>a. al_action a = LOGIN_SUCCESS \<and> al_admin_user_id a = Some i)
        (filter (relevant_rows (Some i) ip) (audits d)) =
      filter (\<lambda>a. al_action a = LOGIN_SUCCESS \<and> al_admin_user_id a = Some i) (audits d)"
    unfolding filter_filter by (intro filter_cong) (auto simp: relevant_rows_def)
  then have "audits (only_rows (relevant_rows (Some i) ip) d) = filter (relevant_rows (Some i) ip) (audits d)"
    and s: "filter (\<lambda>a. al_action a = LOGIN_SUCCESS \<and> al_admin_user_id a = Some i)
        (audits (only_rows (relevant_rows (Some i) ip) d)) =
      filter (\<lambda>a. al_action a = LOGIN_SUCCESS \<and> al_admin_user_id a = Some i) (audits d)"
    by (simp_all add: only_rows_def)
  have "worst_case cfg (\<lambda>a. al_admin_user_id a = Some i \<and> P a) now f (only_rows (relevant_rows (Some i) ip) d) =
    worst_case cfg (\<lambda>a. al_admin_user_id a = Some i \<and> P a) now f d" for P f
    by (rule worst_case_only) (simp add: relevant_rows_def)
  then show ?thesis by (simp add: Some check_rate_limit_def s Let_def conj_assoc)
qed

lemma lockout_default:
  "lockout_seconds_for default_limiter n f =
    (if n \<ge> 15 * f then Some 900 else if n \<ge> 10 * f then Some 300 else if n \<ge> 5 * f then Some 60 else None)"
  by (simp add: lockout_seconds_for_def default_limiter_def)

lemma worst_case_nonneg: "0 \<le> worst_case cfg filters now f d"
  by (simp add: worst_case_def Let_def split: option.splits)

lemma worst_case_few:
  assumes "length (filter (\<lambda>a. al_action a = LOGIN_FAILURE \<and> filters a) (audits d)) < 5 * nat f" "0 < f"
  shows "worst_case default_limiter filters now f d = 0"
  using assms by (auto simp: worst_case_def lockout_default Let_def)

text \<open>
  Nobody locks an admin out from elsewhere with a handful of guesses: as long as fewer than twenty
  failures of the account are on record in the window, from all sources together, an admin whose own
  address has fewer than five of them is not locked.
\<close>

lemma no_remote_lockout:
  assumes "length (filter (\<lambda>a. al_action a = LOGIN_FAILURE \<and> al_admin_user_id a = Some i \<and>
      now - hours 1 \<le> al_timestamp a) (audits d)) < 20"
    and "length (filter (\<lambda>a. al_action a = LOGIN_FAILURE \<and> al_admin_user_id a = Some i \<and>
      now - hours 1 \<le> al_timestamp a \<and> al_ip_address a = ip) (audits d)) < 5"
  shows "\<not> locked (check_rate_limit default_limiter now (Some i) ip d)"
proof -
  define since where "since = (let successes = map al_timestamp (filter (\<lambda>a. al_action a = LOGIN_SUCCESS \<and>
      al_admin_user_id a = Some i) (audits d))
    in if successes = [] then now - hours 1 else max (newest successes) (now - hours 1))"
  have since: "now - hours 1 \<le> since" by (simp add: since_def Let_def)
  have len: "length (filter P xs) \<le> length (filter Q xs)" if "\<And>a. P a \<Longrightarrow> Q a" for P Q :: "audit_log \<Rightarrow> bool" and xs
    using that by (induction xs) auto
  have "worst_case default_limiter (\<lambda>a. al_admin_user_id a = Some i \<and> al_timestamp a \<ge> since) now ACCOUNT_WIDE_FACTOR d = 0"
  proof (rule worst_case_few)
    have "length (filter (\<lambda>a. al_action a = LOGIN_FAILURE \<and> al_admin_user_id a = Some i \<and> since \<le> al_timestamp a) (audits d))
        \<le> length (filter (\<lambda>a. al_action a = LOGIN_FAILURE \<and> al_admin_user_id a = Some i \<and>
             now - hours 1 \<le> al_timestamp a) (audits d))"
      using since by (intro len) auto
    then show "length (filter (\<lambda>a. al_action a = LOGIN_FAILURE \<and> al_admin_user_id a = Some i \<and> since \<le> al_timestamp a)
        (audits d)) < 5 * nat ACCOUNT_WIDE_FACTOR" using assms(1) by (simp add: ACCOUNT_WIDE_FACTOR_def)
  qed (simp add: ACCOUNT_WIDE_FACTOR_def)
  moreover have "worst_case default_limiter
      (\<lambda>a. (al_admin_user_id a = Some i \<and> al_timestamp a \<ge> since) \<and> al_ip_address a = ip) now 1 d = 0"
  proof (rule worst_case_few)
    have "length (filter (\<lambda>a. al_action a = LOGIN_FAILURE \<and>
          (al_admin_user_id a = Some i \<and> since \<le> al_timestamp a) \<and> al_ip_address a = ip) (audits d))
        \<le> length (filter (\<lambda>a. al_action a = LOGIN_FAILURE \<and> al_admin_user_id a = Some i \<and>
             now - hours 1 \<le> al_timestamp a \<and> al_ip_address a = ip) (audits d))"
      using since by (intro len) auto
    then show "length (filter (\<lambda>a. al_action a = LOGIN_FAILURE \<and>
          (al_admin_user_id a = Some i \<and> since \<le> al_timestamp a) \<and> al_ip_address a = ip) (audits d)) < 5 * nat 1"
      using assms(2) by simp
  qed simp
  moreover have w: "seconds (rate_limit_window_seconds default_limiter) = hours 1"
    by (simp add: default_limiter_def time_defs)
  ultimately show ?thesis
    by (simp add: check_rate_limit_def w since_def Let_def)
qed

definition demo_failure :: "datetime \<Rightarrow> audit_log" where
  "demo_failure t = \<lparr>al_id = t, al_timestamp = t, al_admin_user_id = Some 1, al_action = LOGIN_FAILURE,
     al_target_type = None, al_target_id = None, al_detail = None, al_ip_address = Some ''6.6.6.6''\<rparr>"

section \<open>How often a guess is looked at\<close>

text \<open>
  The lockout that \<open>k\<close> failures on record cause, less the fraction of a second the truncation gives
  away, and the time that must have passed before guess number \<open>k\<close> (from 0) is looked at.
\<close>

definition lockout_gap :: "nat \<Rightarrow> timedelta" where
  "lockout_gap k = (if k \<ge> 15 then seconds 899 else if k \<ge> 10 then seconds 299 else if k \<ge> 5 then seconds 59 else 0)"

primrec earliest :: "nat \<Rightarrow> timedelta" where
  "earliest 0 = 0"
| "earliest (Suc k) = earliest k + lockout_gap (Suc k)"

text \<open>The failed attempts of one source against one account that are on record.\<close>

definition failures_of :: "int \<Rightarrow> pystr \<Rightarrow> db \<Rightarrow> datetime list" where
  "failures_of i ip d = map al_timestamp (filter (\<lambda>a. al_action a = LOGIN_FAILURE \<and>
     al_admin_user_id a = Some i \<and> al_ip_address a = Some ip) (audits d))"

lemma fold_max_ge: "x \<le> fold max ts (x::int)"
proof (induction ts arbitrary: x)
  case (Cons t ts)
  show ?case using Cons.IH [of "max t x"] by simp
qed simp

lemma newest_le:
  assumes "ts \<noteq> []" "\<forall>t\<in>set ts. t \<le> (b::int)" shows "newest ts \<le> b"
proof -
  have "fold max ts x \<le> b" if "x \<le> b" "\<forall>t\<in>set ts. t \<le> b" for ts and x :: int
    using that by (induction ts arbitrary: x) auto
  then show ?thesis using assms by (cases ts) (auto simp: newest_def)
qed

lemma newest_snoc: "newest (ts @ [t]) = (if ts = [] then t else max t (newest ts))"
  by (cases ts) (simp_all add: newest_def)

lemma earliest_mono: "k \<le> l \<Longrightarrow> earliest k \<le> earliest l"
  by (rule lift_Suc_mono_le) (simp_all add: lockout_gap_def time_defs)

lemma earliest_17: "hours 1 < earliest 17"
  by code_simp

lemma not_locked_gap:
  assumes free: "\<not> locked (check_rate_limit default_limiter now (Some i) (Some ip) d)" and ip: "ip \<noteq> []"
    and recent: "\<forall>t\<in>set (failures_of i ip d). t0 \<le> t" and t0: "now - hours 1 \<le> t0"
    and succ: "\<forall>a\<in>set (audits d). al_action a = LOGIN_SUCCESS \<longrightarrow> al_admin_user_id a = Some i \<longrightarrow> al_timestamp a \<le> t0"
    and ne: "failures_of i ip d \<noteq> []"
  shows "lockout_gap (length (failures_of i ip d)) = 0 \<or>
    newest (failures_of i ip d) + lockout_gap (length (failures_of i ip d)) < now"
proof -
  let ?F = "failures_of i ip d"
  define since where "since = (let successes = map al_timestamp (filter (\<lambda>a. al_action a = LOGIN_SUCCESS \<and>
      al_admin_user_id a = Some i) (audits d))
    in if successes = [] then now - hours 1 else max (newest successes) (now - hours 1))"
  have "since \<le> t0"
    using succ t0 by (auto simp: since_def Let_def intro!: newest_le)
  then have rows: "filter (\<lambda>a. al_action a = LOGIN_FAILURE \<and>
        (al_admin_user_id a = Some i \<and> since \<le> al_timestamp a) \<and> al_ip_address a = Some ip) (audits d) =
      filter (\<lambda>a. al_action a = LOGIN_FAILURE \<and> al_admin_user_id a = Some i \<and> al_ip_address a = Some ip) (audits d)"
    using recent by (intro filter_cong) (auto simp: failures_of_def)
  have w: "seconds (rate_limit_window_seconds default_limiter) = hours 1"
    by (simp add: default_limiter_def time_defs)
  have "worst_case default_limiter
      (\<lambda>a. (al_admin_user_id a = Some i \<and> since \<le> al_timestamp a) \<and> al_ip_address a = Some ip) now 1 d \<le> 0"
    using free ip by (simp add: check_rate_limit_def w since_def Let_def)
  then have "(case lockout_seconds_for default_limiter (int (length ?F)) 1 of None \<Rightarrow> 0
      | Some lockout \<Rightarrow> max 0 (whole_seconds (newest ?F + seconds lockout - now))) \<le> 0"
    using ne unfolding worst_case_def rows failures_of_def Let_def by (simp split: option.splits if_splits)
  then show ?thesis
    by (auto simp: lockout_default lockout_gap_def whole_seconds_def time_defs split: if_splits)
qed

end
