(* ===== verification/Sessions.thy ===== *)
theory Sessions
  imports Models
begin

text \<open>
  \<open>core/sessions.py\<close>, \<open>core/csrf.py\<close> and the dependencies of \<open>api/deps.py\<close>: who a request is
  authenticated as.  \<open>hash_token\<close> stands for the SHA-256 hex digest; raw tokens come from
  \<open>secrets.token_urlsafe\<close> and are arguments.  One request reads the clock once, as \<open>now\<close>.
\<close>

section \<open>Sessions\<close>

definition SESSION_TTL_SECONDS :: int where "SESSION_TTL_SECONDS = 12 * 60 * 60"

type_synonym token_hash = "pystr \<Rightarrow> pystr"

definition create_session ::
  "token_hash \<Rightarrow> int \<Rightarrow> pystr \<Rightarrow> datetime \<Rightarrow> int \<Rightarrow> pystr option \<Rightarrow> pystr option \<Rightarrow> db \<Rightarrow> db" where
  "create_session hash_token new_id raw_token now admin_id ip_address user_agent d =
     d\<lparr>sessions := sessions d @
        [\<lparr>se_id = new_id, se_admin_user_id = admin_id, se_token_hash = hash_token raw_token,
          se_created_at = now, se_expires_at = now + seconds SESSION_TTL_SECONDS, se_revoked_at = None,
          se_ip_address = ip_address, se_user_agent = user_agent\<rparr>]\<rparr>"

definition get_session_by_token :: "token_hash \<Rightarrow> datetime \<Rightarrow> pystr \<Rightarrow> db \<Rightarrow> admin_session option" where
  "get_session_by_token hash_token now raw_token d =
     (if raw_token = [] then None
      else case find (\<lambda>s. se_token_hash s = hash_token raw_token \<and> se_revoked_at s = None) (sessions d) of
          None \<Rightarrow> None
        | Some s \<Rightarrow> if se_expires_at s \<le> now then None else Some s)"

definition revoke_session :: "token_hash \<Rightarrow> datetime \<Rightarrow> pystr \<Rightarrow> db \<Rightarrow> db" where
  "revoke_session hash_token now raw_token d =
     (case tbl_get se_token_hash (hash_token raw_token) (sessions d) of
        None \<Rightarrow> d
      | Some s \<Rightarrow>
          if se_revoked_at s = None
          then d\<lparr>sessions := tbl_upd se_token_hash (hash_token raw_token)
                   (\<lambda>s. s\<lparr>se_revoked_at := Some now\<rparr>) (sessions d)\<rparr>
          else d)"

definition revoke_all_sessions_for_admin ::
  "token_hash \<Rightarrow> datetime \<Rightarrow> int \<Rightarrow> pystr option \<Rightarrow> db \<Rightarrow> db" where
  "revoke_all_sessions_for_admin hash_token now admin_user_id except_token d =
     (let except_hash = (case except_token of None \<Rightarrow> None | Some t \<Rightarrow> if t = [] then None else Some (hash_token t))
      in d\<lparr>sessions := map (\<lambda>s. if se_admin_user_id s = admin_user_id \<and> se_revoked_at s = None \<and>
              (case except_hash of None \<Rightarrow> True | Some h \<Rightarrow> se_token_hash s \<noteq> h)
            then s\<lparr>se_revoked_at := Some now\<rparr> else s) (sessions d)\<rparr>)"

section \<open>Requests\<close>

definition csrf_valid :: "pystr option \<Rightarrow> pystr option \<Rightarrow> http_error + bool" where
  "csrf_valid cookie_value header_value =
     (case (cookie_value, header_value) of
        (Some c, Some h) \<Rightarrow> if c = [] \<or> h = [] then Inr False else compare_digest c h
      | _ \<Rightarrow> Inr False)"

definition require_csrf :: "pystr option \<Rightarrow> pystr option \<Rightarrow> http_error + unit" where
  "require_csrf csrf_cookie csrf_header =
     (case csrf_valid csrf_cookie csrf_header of
        Inl e \<Rightarrow> Inl e
      | Inr ok \<Rightarrow> if ok then Inr () else Inl (HTTPException 403 ''CSRF check failed''))"

definition admin_by_id :: "int \<Rightarrow> db \<Rightarrow> admin_user option" where
  "admin_by_id i d = tbl_get ad_id i (admins d)"

definition get_current_admin_optional :: "token_hash \<Rightarrow> datetime \<Rightarrow> pystr option \<Rightarrow> db \<Rightarrow> admin_user option" where
  "get_current_admin_optional hash_token now session d =
     (case get_session_by_token hash_token now (case session of None \<Rightarrow> [] | Some t \<Rightarrow> t) d of
        None \<Rightarrow> None
      | Some s \<Rightarrow>
          (case admin_by_id (se_admin_user_id s) d of
             None \<Rightarrow> None
           | Some admin \<Rightarrow> if ad_is_active admin then Some admin else None))"

definition get_current_admin :: "token_hash \<Rightarrow> datetime \<Rightarrow> pystr option \<Rightarrow> db \<Rightarrow> http_error + admin_user" where
  "get_current_admin hash_token now session d =
     (case get_current_admin_optional hash_token now session d of
        None \<Rightarrow> Inl (HTTPException 401 ''Not authenticated'')
      | Some admin \<Rightarrow> Inr admin)"

section \<open>What a session is worth\<close>

lemma find_SomeD: "find P xs = Some x \<Longrightarrow> x \<in> set xs \<and> P x"
  by (induction xs) (auto split: if_splits)

lemma find_None: "find P xs = None \<longleftrightarrow> (\<forall>x\<in>set xs. \<not> P x)"
  by (induction xs) auto

lemma session_found:
  assumes "get_session_by_token hash_token now t d = Some s"
  shows "s \<in> set (sessions d)" "t \<noteq> []" "se_token_hash s = hash_token t" "se_revoked_at s = None"
    "now < se_expires_at s"
  using assms find_SomeD
  by (fastforce simp: get_session_by_token_def split: if_splits option.splits)+

lemma current_admin_found:
  assumes "get_current_admin_optional hash_token now session d = Some a"
  obtains t s where "session = Some t" "t \<noteq> []" "s \<in> set (sessions d)" "se_token_hash s = hash_token t"
    "se_revoked_at s = None" "now < se_expires_at s" "admin_by_id (se_admin_user_id s) d = Some a" "ad_is_active a"
proof -
  obtain s where s: "get_session_by_token hash_token now (case session of None \<Rightarrow> [] | Some t \<Rightarrow> t) d = Some s"
    "admin_by_id (se_admin_user_id s) d = Some a" "ad_is_active a"
    using assms by (auto simp: get_current_admin_optional_def split: option.splits if_splits)
  then obtain t where "session = Some t"
    by (cases session) (auto simp: get_session_by_token_def)
  then have g: "get_session_by_token hash_token now t d = Some s" using s(1) by simp
  show thesis by (rule that [OF \<open>session = Some t\<close> session_found(2) [OF g] session_found(1) [OF g]
        session_found(3) [OF g] session_found(4) [OF g] session_found(5) [OF g] s(2,3)])
qed

lemma admin_by_id_key: "admin_by_id i d = Some a \<Longrightarrow> ad_id a = i"
  unfolding admin_by_id_def by (drule tbl_get_SomeD) simp

lemma revoke_all_simps [simp]:
  "admins (revoke_all_sessions_for_admin h now i e d) = admins d"
  "audits (revoke_all_sessions_for_admin h now i e d) = audits d"
  "local_users (revoke_all_sessions_for_admin h now i e d) = local_users d"
  by (simp_all add: revoke_all_sessions_for_admin_def Let_def)

lemma revoke_all_effect:
  "s \<in> set (sessions (revoke_all_sessions_for_admin hash_token now i e d)) \<Longrightarrow> se_revoked_at s = None \<Longrightarrow>
   s \<in> set (sessions d) \<and> (se_admin_user_id s = i \<longrightarrow> (\<exists>t. e = Some t \<and> t \<noteq> [] \<and> se_token_hash s = hash_token t))"
  by (auto simp: revoke_all_sessions_for_admin_def Let_def split: option.splits if_splits)

text \<open>
  C33. A revocation leaves no way back in: after \<open>revoke_all_sessions_for_admin\<close> (called on every
  password or TOTP change and on deactivation), at any later time and whatever the clock, no token
  authenticates as that admin except the one exempted, and every other admin's session is untouched.
\<close>

theorem revoked_sessions_are_dead:
  assumes "get_current_admin_optional hash_token later session
      (revoke_all_sessions_for_admin hash_token now i except_token d) = Some a"
  shows "ad_is_active a \<and>
    (ad_id a = i \<longrightarrow> (\<exists>t e. session = Some t \<and> except_token = Some e \<and> e \<noteq> [] \<and> hash_token t = hash_token e)) \<and>
    (\<exists>s\<in>set (sessions d). se_admin_user_id s = ad_id a \<and> se_revoked_at s = None \<and> later < se_expires_at s \<and>
       session \<noteq> None \<and> se_token_hash s = hash_token (the session))"
  using assms
proof (cases rule: current_admin_found)
  case (1 t s)
  have "se_admin_user_id s = ad_id a" using admin_by_id_key [OF 1(7)] by simp
  then show ?thesis using 1 revoke_all_effect [OF 1(3,5)] by auto
qed

definition demo_admin :: admin_user where
  "demo_admin = \<lparr>ad_id = 1, ad_email = ''root@example.com'', ad_password_hash = ''#secret'',
     ad_totp_secret_encrypted = None, ad_totp_last_used_step = None, ad_is_active = True,
     ad_created_at = 0, ad_last_login_at = None\<rparr>"

definition demo_hash :: token_hash where "demo_hash t = CHR ''#'' # t"

definition demo_auth_db :: db where
  "demo_auth_db = create_session demo_hash 2 ''stolen'' 0 1 None None
     (create_session demo_hash 1 ''mine'' 0 1 None None (empty_db\<lparr>admins := [demo_admin]\<rparr>))"

theorem revoked_sessions_are_dead_witness:
  "get_current_admin_optional demo_hash 5 (Some ''mine'')
     (revoke_all_sessions_for_admin demo_hash 4 1 (Some ''mine'') demo_auth_db) = Some demo_admin \<and>
   get_current_admin_optional demo_hash 5 (Some ''stolen'')
     (revoke_all_sessions_for_admin demo_hash 4 1 (Some ''mine'') demo_auth_db) = None"
proof
  show "get_current_admin_optional demo_hash 5 (Some ''mine'')
      (revoke_all_sessions_for_admin demo_hash 4 1 (Some ''mine'') demo_auth_db) = Some demo_admin"
    by code_simp
  show "get_current_admin_optional demo_hash 5 (Some ''stolen'')
      (revoke_all_sessions_for_admin demo_hash 4 1 (Some ''mine'') demo_auth_db) = None"
  proof (rule ccontr)
    assume "\<not> ?thesis"
    then obtain a where a: "get_current_admin_optional demo_hash 5 (Some ''stolen'')
        (revoke_all_sessions_for_admin demo_hash 4 1 (Some ''mine'') demo_auth_db) = Some a" by blast
    note th = revoked_sessions_are_dead [OF a]
    then have "ad_id a = 1" by (auto simp: demo_auth_db_def create_session_def empty_db_def)
    then show False using th by (simp add: demo_hash_def)
  qed
qed

text \<open>
  A state-changing request needs both tokens to agree: \<open>require_csrf\<close> lets a request through only
  when the cookie and the header are present, not empty and equal.
\<close>

lemma csrf_double_submit:
  "require_csrf cookie header = Inr () \<longleftrightarrow>
    (\<exists>v. cookie = Some v \<and> header = Some v \<and> v \<noteq> [] \<and> is_ascii v)"
  by (auto simp: require_csrf_def csrf_valid_def compare_digest_def split: option.splits if_splits sum.splits)

end
