(* ===== verification/Admin_Auth.thy ===== *)
theory Admin_Auth
  imports Login_Limit Sessions Secrets
begin

text \<open>
  The admin accounts: \<open>core/totp.py\<close>, \<open>api/routes/auth.py\<close>, \<open>api/routes/admins.py\<close> and the account
  commands of \<open>cli.py\<close>.  The record \<open>auth_ext\<close> holds the functions of external packages: Argon2
  (\<open>verify_password\<close>, and \<open>hash_password\<close> given its salt), the token digest, and \<open>generate_otp\<close> of
  \<open>pyotp\<close>.  A route returns its result or exception and the database as committed; \<open>audit_id\<close> and the
  other ids are the ones the database assigns.
\<close>

section \<open>The request environment\<close>

record auth_ext =
  verify_password :: "pystr \<Rightarrow> pystr \<Rightarrow> bool"
  hash_password :: "pystr \<Rightarrow> pystr \<Rightarrow> pystr"
  hash_token :: "pystr \<Rightarrow> pystr"
  generate_otp :: "pystr \<Rightarrow> int \<Rightarrow> pystr"
  auth_aead :: aead
  auth_keys :: key_settings
  auth_limiter :: limiter_settings
  dummy_hash :: pystr

text \<open>What a request brings along, and the random and assigned values used for it.\<close>

record auth_request =
  rq_now :: datetime
  rq_ip :: "pystr option"
  rq_user_agent :: "pystr option"
  rq_session :: "pystr option"
  rq_token :: pystr
  rq_csrf_token :: pystr
  rq_salt :: pystr
  rq_nonce :: bytes
  rq_audit_id :: int
  rq_session_id :: int
  rq_admin_id :: int

section \<open>Time-based codes\<close>

definition DRIFT_STEPS :: int where "DRIFT_STEPS = 1"

fun match_step :: "(pystr \<Rightarrow> int \<Rightarrow> pystr) \<Rightarrow> pystr \<Rightarrow> pystr \<Rightarrow> int option \<Rightarrow> int list \<Rightarrow> http_error + int option" where
  "match_step otp secret totp last_used_step [] = Inr None"
| "match_step otp secret totp last_used_step (step # steps) =
     (if (case last_used_step of None \<Rightarrow> False | Some l \<Rightarrow> step \<le> l)
      then match_step otp secret totp last_used_step steps
      else (case compare_digest (otp secret step) totp of
          Inl e \<Rightarrow> Inl e
        | Inr ok \<Rightarrow> if ok then Inr (Some step) else match_step otp secret totp last_used_step steps))"

definition verify_totp ::
  "(pystr \<Rightarrow> int \<Rightarrow> pystr) \<Rightarrow> pystr \<Rightarrow> pystr \<Rightarrow> int option \<Rightarrow> datetime \<Rightarrow> http_error + int option" where
  "verify_totp otp secret totp last_used_step now =
     (let current = now div seconds 30
      in match_step otp secret totp last_used_step [current - DRIFT_STEPS .. current + DRIFT_STEPS])"

lemma match_step_found:
  "match_step otp secret totp used steps = Inr (Some s) \<Longrightarrow>
   s \<in> set steps \<and> otp secret s = totp \<and> (\<forall>l. used = Some l \<longrightarrow> l < s)"
  by (induction steps) (auto simp: compare_digest_def split: if_splits option.splits)

lemma verify_totp_found:
  assumes "verify_totp otp secret totp used now = Inr (Some s)"
  shows "otp secret s = totp" "\<bar>s - now div seconds 30\<bar> \<le> 1" "\<forall>l. used = Some l \<longrightarrow> l < s"
proof -
  let ?c = "now div seconds 30"
  have "match_step otp secret totp used [?c - 1 .. ?c + 1] = Inr (Some s)"
    using assms by (simp add: verify_totp_def Let_def DRIFT_STEPS_def)
  from match_step_found [OF this] show "otp secret s = totp" "\<bar>s - ?c\<bar> \<le> 1" "\<forall>l. used = Some l \<longrightarrow> l < s"
    by auto
qed

section \<open>Logging in\<close>

record login_request =
  lr_email :: pystr
  lr_password :: pystr
  lr_totp_code :: "pystr option"

record login_response =
  totp_required :: bool
  resp_email :: "pystr option"
  resp_cookies :: "(pystr \<times> pystr) option"

definition admin_by_email :: "pystr \<Rightarrow> db \<Rightarrow> admin_user option" where
  "admin_by_email email d = tbl_get ad_email email (admins d)"

definition upd_admin :: "int \<Rightarrow> (admin_user \<Rightarrow> admin_user) \<Rightarrow> db \<Rightarrow> db" where
  "upd_admin i f d = d\<lparr>admins := tbl_upd ad_id i f (admins d)\<rparr>"

text \<open>\<open>_issue_session_cookies\<close>: the session row and the two cookies.\<close>

definition issue_session_cookies :: "auth_ext \<Rightarrow> auth_request \<Rightarrow> int \<Rightarrow> db \<Rightarrow> (pystr \<times> pystr) \<times> db" where
  "issue_session_cookies X rq admin_id d =
     ((rq_token rq, rq_csrf_token rq),
      create_session (hash_token X) (rq_session_id rq) (rq_token rq) (rq_now rq) admin_id (rq_ip rq)
        (rq_user_agent rq) d)"

definition too_many_attempts :: "rate_limit_status \<Rightarrow> http_error" where
  "too_many_attempts st = HTTPRetry 429 ''Too many attempts. Try again later.'' (retry_after_seconds st)"

text \<open>The end of \<open>_login\<close>, once password and code are accepted.\<close>

definition login_success ::
  "auth_ext \<Rightarrow> auth_request \<Rightarrow> login_request \<Rightarrow> admin_user \<Rightarrow> int option \<Rightarrow> db \<Rightarrow>
   (http_error + login_response) \<times> db" where
  "login_success X rq p admin step d =
     (let d1 = upd_admin (ad_id admin) (\<lambda>a. a\<lparr>ad_last_login_at := Some (rq_now rq),
                 ad_totp_last_used_step := (case step of None \<Rightarrow> ad_totp_last_used_step a | Some s \<Rightarrow> Some s)\<rparr>) d;
          d2 = record_login_attempt (rq_audit_id rq) (rq_now rq) (lr_email p) (Some (ad_id admin)) (rq_ip rq) True d1;
          (cookies, d3) = issue_session_cookies X rq (ad_id admin) d2
      in (Inr \<lparr>totp_required = False, resp_email = Some (ad_email admin), resp_cookies = Some cookies\<rparr>, d3))"

definition login :: "auth_ext \<Rightarrow> auth_request \<Rightarrow> login_request \<Rightarrow> db \<Rightarrow> (http_error + login_response) \<times> db" where
  "login X rq p d =
     (let admin = admin_by_email (lr_email p) d;
          admin_id = map_option ad_id admin;
          status_check = check_rate_limit (auth_limiter X) (rq_now rq) admin_id (rq_ip rq) d;
          failed = record_login_attempt (rq_audit_id rq) (rq_now rq) (lr_email p) admin_id (rq_ip rq) False d
      in if locked status_check then (Inl (too_many_attempts status_check), d)
         else
           (let password_ok = verify_password X
                  (case admin of None \<Rightarrow> dummy_hash X | Some a \<Rightarrow> ad_password_hash a) (lr_password p)
            in case admin of
                 None \<Rightarrow> (Inl (HTTPException 401 ''Invalid email or password''), failed)
               | Some a \<Rightarrow>
                   if \<not> (ad_is_active a \<and> password_ok)
                   then (Inl (HTTPException 401 ''Invalid email or password''), failed)
                   else (case ad_totp_secret_encrypted a of
                       None \<Rightarrow> login_success X rq p a None d
                     | Some blob \<Rightarrow>
                         (case lr_totp_code p of
                            None \<Rightarrow> (Inr \<lparr>totp_required = True, resp_email = None, resp_cookies = None\<rparr>, d)
                          | Some totp \<Rightarrow>
                              if totp = []
                              then (Inr \<lparr>totp_required = True, resp_email = None, resp_cookies = None\<rparr>, d)
                              else (case decrypt_secret (auth_aead X) (auth_keys X) blob of
                                  Inl (EncryptionKeyNotConfigured m) \<Rightarrow> (Inl (HTTPException 503 m), d)
                                | Inl (DecryptionFailed m) \<Rightarrow> (Inl (HTTPException 503 m), d)
                                | Inl UnicodeDecodeError \<Rightarrow> (Inl internal_error, d)
                                | Inr secret \<Rightarrow>
                                    (case verify_totp (generate_otp X) secret totp (ad_totp_last_used_step a) (rq_now rq) of
                                       Inl e \<Rightarrow> (Inl e, d)
                                     | Inr None \<Rightarrow> (Inl (HTTPException 401 ''Invalid authentication code''), failed)
                                     | Inr (Some step) \<Rightarrow> login_success X rq p a (Some step) d))))))"

definition logout :: "auth_ext \<Rightarrow> auth_request \<Rightarrow> db \<Rightarrow> unit \<times> db" where
  "logout X rq d =
     (case rq_session rq of
        None \<Rightarrow> ((), d)
      | Some t \<Rightarrow> ((), if t = [] then d else revoke_session (hash_token X) (rq_now rq) t d))"

definition session_info :: "auth_ext \<Rightarrow> auth_request \<Rightarrow> db \<Rightarrow> bool \<times> pystr option" where
  "session_info X rq d =
     (case get_current_admin_optional (hash_token X) (rq_now rq) (rq_session rq) d of
        None \<Rightarrow> (False, None) | Some a \<Rightarrow> (True, Some (ad_email a)))"

definition setup_required :: "db \<Rightarrow> bool" where
  "setup_required d \<longleftrightarrow> length (admins d) = 0"

text \<open>The row that \<open>AdminUser(email=..., password_hash=...)\<close> inserts.\<close>

definition new_admin :: "int \<Rightarrow> datetime \<Rightarrow> pystr \<Rightarrow> pystr \<Rightarrow> admin_user" where
  "new_admin i now email pw_hash =
     \<lparr>ad_id = i, ad_email = email, ad_password_hash = pw_hash, ad_totp_secret_encrypted = None,
      ad_totp_last_used_step = None, ad_is_active = True, ad_created_at = now, ad_last_login_at = None\<rparr>"

definition setup_admin :: "auth_ext \<Rightarrow> auth_request \<Rightarrow> pystr \<Rightarrow> pystr \<Rightarrow> db \<Rightarrow> (http_error + login_response) \<times> db" where
  "setup_admin X rq email password d =
     (if length (admins d) > 0 then (Inl (HTTPException 409 ''Setup has already been completed''), d)
      else (let a = (new_admin (rq_admin_id rq) (rq_now rq) email (hash_password X (rq_salt rq) password))
                      \<lparr>ad_last_login_at := Some (rq_now rq)\<rparr>;
                (cookies, d') = issue_session_cookies X rq (ad_id a) (d\<lparr>admins := admins d @ [a]\<rparr>)
            in (Inr \<lparr>totp_required = False, resp_email = Some email, resp_cookies = Some cookies\<rparr>, d')))"

section \<open>Managing admins\<close>

definition require_current_password ::
  "auth_ext \<Rightarrow> auth_request \<Rightarrow> admin_user \<Rightarrow> pystr \<Rightarrow> db \<Rightarrow> (http_error + unit) \<times> db" where
  "require_current_password X rq admin password d =
     (let status_check = check_rate_limit (auth_limiter X) (rq_now rq) (Some (ad_id admin)) (rq_ip rq) d
      in if locked status_check then (Inl (too_many_attempts status_check), d)
         else if \<not> verify_password X (ad_password_hash admin) password
         then (Inl (HTTPException 401 ''Current password is incorrect''),
               record_login_attempt (rq_audit_id rq) (rq_now rq) (ad_email admin) (Some (ad_id admin)) (rq_ip rq) False d)
         else (Inr (), d))"

definition list_admins :: "db \<Rightarrow> admin_user list" where
  "list_admins d = sort_key ad_email (admins d)"

definition create_admin ::
  "auth_ext \<Rightarrow> auth_request \<Rightarrow> admin_user \<Rightarrow> pystr \<Rightarrow> pystr \<Rightarrow> db \<Rightarrow> (http_error + admin_user) \<times> db" where
  "create_admin X rq admin email password d =
     (case admin_by_email email d of
        Some _ \<Rightarrow> (Inl (HTTPException 409 ''An admin with this email already exists''), d)
      | None \<Rightarrow>
          (let a = new_admin (rq_admin_id rq) (rq_now rq) email (hash_password X (rq_salt rq) password);
               d1 = d\<lparr>admins := admins d @ [a]\<rparr>
           in (Inr a, record_audit (rq_audit_id rq) (rq_now rq) (Some (ad_id admin)) ''admin.create''
                 (Some ''admin_user'') (Some (ad_id a)) (Some [(''email'', JStr email)]) (rq_ip rq) d1)))"

definition update_admin ::
  "auth_ext \<Rightarrow> auth_request \<Rightarrow> admin_user \<Rightarrow> int \<Rightarrow> bool \<Rightarrow> db \<Rightarrow> (http_error + admin_user) \<times> db" where
  "update_admin X rq admin admin_id is_active d =
     (case admin_by_id admin_id d of
        None \<Rightarrow> (Inl (HTTPException 404 ''Admin not found''), d)
      | Some target \<Rightarrow>
          if is_active = ad_is_active target then (Inr target, d)
          else if \<not> is_active \<and> length (filter ad_is_active (admins d)) \<le> 1
          then (Inl (HTTPException 409 (''Can'' @ [CHR 39] @ ''t deactivate the last active admin'')), d)
          else
            (let d1 = (if is_active then d
                       else revoke_all_sessions_for_admin (hash_token X) (rq_now rq) admin_id None d);
                 d2 = upd_admin admin_id (\<lambda>a. a\<lparr>ad_is_active := is_active\<rparr>) d1
             in (Inr (target\<lparr>ad_is_active := is_active\<rparr>),
                 record_audit (rq_audit_id rq) (rq_now rq) (Some (ad_id admin))
                   (if is_active then ''admin.reactivate'' else ''admin.deactivate'')
                   (Some ''admin_user'') (Some admin_id) (Some [(''email'', JStr (ad_email target))]) (rq_ip rq) d2)))"

text \<open>
  The end the account-security changes share: the row is written, every other session of the admin is
  revoked, the change is audited, all in one commit.
\<close>

definition secure_account ::
  "auth_ext \<Rightarrow> auth_request \<Rightarrow> int \<Rightarrow> (admin_user \<Rightarrow> admin_user) \<Rightarrow> pystr \<Rightarrow> db \<Rightarrow> db" where
  "secure_account X rq admin_id f action d =
     record_audit (rq_audit_id rq) (rq_now rq) (Some admin_id) action (Some ''admin_user'') (Some admin_id) None
       (rq_ip rq)
       (revoke_all_sessions_for_admin (hash_token X) (rq_now rq) admin_id (rq_session rq) (upd_admin admin_id f d))"

definition change_own_password ::
  "auth_ext \<Rightarrow> auth_request \<Rightarrow> admin_user \<Rightarrow> pystr \<Rightarrow> pystr \<Rightarrow> db \<Rightarrow> (http_error + unit) \<times> db" where
  "change_own_password X rq admin current_password new_password d =
     (case require_current_password X rq admin current_password d of
        (Inl e, d') \<Rightarrow> (Inl e, d')
      | (Inr _, d') \<Rightarrow>
          (Inr (), secure_account X rq (ad_id admin)
             (\<lambda>a. a\<lparr>ad_password_hash := hash_password X (rq_salt rq) new_password\<rparr>) ''admin.change_password'' d'))"

definition confirm_totp ::
  "auth_ext \<Rightarrow> auth_request \<Rightarrow> admin_user \<Rightarrow> pystr \<Rightarrow> pystr \<Rightarrow> pystr \<Rightarrow> db \<Rightarrow> (http_error + unit) \<times> db" where
  "confirm_totp X rq admin secret totp current_password d =
     (case require_current_password X rq admin current_password d of
        (Inl e, d') \<Rightarrow> (Inl e, d')
      | (Inr _, d') \<Rightarrow>
          (case verify_totp (generate_otp X) secret totp None (rq_now rq) of
             Inl e \<Rightarrow> (Inl e, d')
           | Inr None \<Rightarrow> (Inl (HTTPException 401 ''Invalid authentication code''), d')
           | Inr (Some step) \<Rightarrow>
               (case encrypt_secret (auth_aead X) (auth_keys X) (rq_nonce rq) secret of
                  Inl (EncryptionKeyNotConfigured m) \<Rightarrow> (Inl (HTTPException 503 m), d')
                | Inl _ \<Rightarrow> (Inl internal_error, d')
                | Inr blob \<Rightarrow>
                    (Inr (), secure_account X rq (ad_id admin)
                       (\<lambda>a. a\<lparr>ad_totp_secret_encrypted := Some blob, ad_totp_last_used_step := Some step\<rparr>)
                       ''admin.totp_enroll'' d'))))"

definition remove_totp ::
  "auth_ext \<Rightarrow> auth_request \<Rightarrow> admin_user \<Rightarrow> pystr \<Rightarrow> db \<Rightarrow> (http_error + unit) \<times> db" where
  "remove_totp X rq admin current_password d =
     (case require_current_password X rq admin current_password d of
        (Inl e, d') \<Rightarrow> (Inl e, d')
      | (Inr _, d') \<Rightarrow>
          (Inr (), secure_account X rq (ad_id admin)
             (\<lambda>a. a\<lparr>ad_totp_secret_encrypted := None, ad_totp_last_used_step := None\<rparr>) ''admin.totp_remove'' d'))"

section \<open>The commands\<close>

definition MIN_ADMIN_PASSWORD_LENGTH :: nat where "MIN_ADMIN_PASSWORD_LENGTH = 12"

text \<open>
  \<open>typer.Exit(code)\<close> with the message printed before it.  \<open>normalized\<close> is the email validation of
  pydantic.
\<close>

datatype exit = Exit int pystr

definition cli_create_admin ::
  "auth_ext \<Rightarrow> (pystr \<Rightarrow> pystr option) \<Rightarrow> auth_request \<Rightarrow> pystr \<Rightarrow> pystr \<Rightarrow> db \<Rightarrow> (exit + unit) \<times> db" where
  "cli_create_admin X normalized rq email password d =
     (if length password < MIN_ADMIN_PASSWORD_LENGTH then (Inl (Exit 1 ''Password must be at least 12 characters.''), d)
      else (case normalized email of
          None \<Rightarrow> (Inl (Exit 1 ''Not a valid email address''), d)
        | Some e \<Rightarrow>
            (case admin_by_email e d of
               Some _ \<Rightarrow> (Inl (Exit 1 ''An admin with this email already exists.''), d)
             | None \<Rightarrow> (Inr (), d\<lparr>admins := admins d @
                 [new_admin (rq_admin_id rq) (rq_now rq) e (hash_password X (rq_salt rq) password)]\<rparr>))))"

definition cli_reset_admin_password ::
  "auth_ext \<Rightarrow> (pystr \<Rightarrow> pystr option) \<Rightarrow> auth_request \<Rightarrow> pystr \<Rightarrow> pystr \<Rightarrow> db \<Rightarrow> (exit + unit) \<times> db" where
  "cli_reset_admin_password X normalized rq email password d =
     (if length password < MIN_ADMIN_PASSWORD_LENGTH then (Inl (Exit 1 ''Password must be at least 12 characters.''), d)
      else (case normalized email of
          None \<Rightarrow> (Inl (Exit 1 ''Not a valid email address''), d)
        | Some e \<Rightarrow>
            (case admin_by_email e d of
               None \<Rightarrow> (Inl (Exit 1 ''No admin with this email.''), d)
             | Some admin \<Rightarrow>
                 (Inr (), record_audit (rq_audit_id rq) (rq_now rq) None ''admin.reset_password'' (Some ''admin_user'')
                    (Some (ad_id admin)) None None
                    (revoke_all_sessions_for_admin (hash_token X) (rq_now rq) (ad_id admin) None
                       (upd_admin (ad_id admin)
                          (\<lambda>a. a\<lparr>ad_password_hash := hash_password X (rq_salt rq) password\<rparr>) d))))))"

definition cli_disable_totp ::
  "auth_ext \<Rightarrow> (pystr \<Rightarrow> pystr option) \<Rightarrow> auth_request \<Rightarrow> pystr \<Rightarrow> db \<Rightarrow> (exit + unit) \<times> db" where
  "cli_disable_totp X normalized rq email d =
     (case normalized email of
        None \<Rightarrow> (Inl (Exit 1 ''Not a valid email address''), d)
      | Some e \<Rightarrow>
          (case admin_by_email e d of
             None \<Rightarrow> (Inl (Exit 1 ''No admin with this email.''), d)
           | Some admin \<Rightarrow>
               if ad_totp_secret_encrypted admin = None then (Inr (), d)
               else (Inr (), record_audit (rq_audit_id rq) (rq_now rq) None ''admin.totp_remove'' (Some ''admin_user'')
                      (Some (ad_id admin)) None None
                      (revoke_all_sessions_for_admin (hash_token X) (rq_now rq) (ad_id admin) None
                         (upd_admin (ad_id admin) (\<lambda>a. a\<lparr>ad_totp_secret_encrypted := None\<rparr>) d)))))"

section \<open>What a login proves\<close>

lemma match_step_Some:
  "match_step otp secret totp used steps = Inr r \<Longrightarrow> is_ascii totp \<or> r = None"
  by (induction steps) (auto simp: compare_digest_def split: if_splits option.splits)

definition second_factor :: "auth_ext \<Rightarrow> auth_request \<Rightarrow> login_request \<Rightarrow> admin_user \<Rightarrow> int option \<Rightarrow> bool" where
  "second_factor X rq p a step \<longleftrightarrow>
     (case ad_totp_secret_encrypted a of
        None \<Rightarrow> step = None
      | Some blob \<Rightarrow>
          (case (step, lr_totp_code p, decrypt_secret (auth_aead X) (auth_keys X) blob) of
             (Some s, Some c, Inr secret) \<Rightarrow> generate_otp X secret s = c \<and> \<bar>s - rq_now rq div seconds 30\<bar> \<le> 1 \<and>
               (case ad_totp_last_used_step a of None \<Rightarrow> True | Some l \<Rightarrow> l < s)
           | _ \<Rightarrow> False))"

lemma login_cases:
  assumes "login X rq p d = (res, d')"
  obtains (refused) e where "res = Inl e" "d' = d"
    | (failure) e who where "res = Inl e" "d' = record_login_attempt (rq_audit_id rq) (rq_now rq) (lr_email p) who (rq_ip rq) False d"
        "who = map_option ad_id (admin_by_email (lr_email p) d)"
        "\<not> locked (check_rate_limit (auth_limiter X) (rq_now rq) who (rq_ip rq) d)"
    | (first_phase) "res = Inr \<lparr>totp_required = True, resp_email = None, resp_cookies = None\<rparr>" "d' = d"
    | (success) a step where "login_success X rq p a step d = (res, d')" "admin_by_email (lr_email p) d = Some a"
        "ad_is_active a" "verify_password X (ad_password_hash a) (lr_password p)" "second_factor X rq p a step"
        "\<not> locked (check_rate_limit (auth_limiter X) (rq_now rq) (Some (ad_id a)) (rq_ip rq) d)"
proof (cases "locked (check_rate_limit (auth_limiter X) (rq_now rq) (map_option ad_id (admin_by_email (lr_email p) d)) (rq_ip rq) d)")
  case True
  then show thesis using assms by (intro refused) (auto simp: login_def Let_def)
next
  case free: False
  show thesis
  proof (cases "admin_by_email (lr_email p) d")
    case None
    then show thesis using assms free by (intro failure) (auto simp: login_def Let_def)
  next
    case (Some a)
    show thesis
    proof (cases "ad_is_active a \<and> verify_password X (ad_password_hash a) (lr_password p)")
      case False
      then show thesis using assms free Some by (intro failure) (auto simp: login_def Let_def)
    next
      case ok: True
      show thesis
      proof (cases "ad_totp_secret_encrypted a")
        case None
        then show thesis using assms free Some ok
          by (intro success [of a None]) (auto simp: login_def second_factor_def Let_def)
      next
        case blob: (Some blob)
        show thesis
        proof (cases "lr_totp_code p = None \<or> lr_totp_code p = Some []")
          case True
          then show thesis using assms free Some ok blob
            by (intro first_phase) (auto simp: login_def Let_def)
        next
          case False
          then obtain c where c: "lr_totp_code p = Some c" "c \<noteq> []" by auto
          show thesis
          proof (cases "decrypt_secret (auth_aead X) (auth_keys X) blob")
            case (Inl e)
            then show thesis using assms free Some ok blob c refused
              by (cases e) (auto simp: login_def Let_def)
          next
            case secret: (Inr secret)
            define v where "v = verify_totp (generate_otp X) secret c (ad_totp_last_used_step a) (rq_now rq)"
            have run: "login X rq p d = (case v of Inl e \<Rightarrow> (Inl e, d)
                | Inr None \<Rightarrow> (Inl (HTTPException 401 ''Invalid authentication code''),
                    record_login_attempt (rq_audit_id rq) (rq_now rq) (lr_email p) (Some (ad_id a)) (rq_ip rq) False d)
                | Inr (Some step) \<Rightarrow> login_success X rq p a (Some step) d)"
              using free Some ok blob c secret by (simp add: login_def Let_def v_def cong: sum.case_cong option.case_cong)
            show thesis
            proof (cases v)
              case (Inl e)
              then show thesis using run assms refused by simp
            next
              case (Inr x)
              show thesis
              proof (cases x)
                case None
                then show thesis using run assms Inr free Some by (intro failure) auto
              next
                case step: (Some s)
                then have "v = Inr (Some s)" using Inr by simp
                from verify_totp_found [OF this [unfolded v_def]]
                have "second_factor X rq p a (Some s)"
                  by (auto simp: second_factor_def blob c secret split: option.splits)
                then show thesis using run assms Inr step free Some ok by (intro success) auto
              qed
            qed
          qed
        qed
      qed
    qed
  qed
qed

lemma login_success_eq:
  "login_success X rq p a step d =
    (Inr \<lparr>totp_required = False, resp_email = Some (ad_email a), resp_cookies = Some (rq_token rq, rq_csrf_token rq)\<rparr>,
     create_session (hash_token X) (rq_session_id rq) (rq_token rq) (rq_now rq) (ad_id a) (rq_ip rq) (rq_user_agent rq)
       (record_login_attempt (rq_audit_id rq) (rq_now rq) (lr_email p) (Some (ad_id a)) (rq_ip rq) True
         (upd_admin (ad_id a) (\<lambda>a. a\<lparr>ad_last_login_at := Some (rq_now rq),
             ad_totp_last_used_step := (case step of None \<Rightarrow> ad_totp_last_used_step a | Some s \<Rightarrow> Some s)\<rparr>) d)))"
  by (simp add: login_success_def issue_session_cookies_def Let_def)

lemma record_login_simps [simp]:
  "admins (record_login_attempt i n e w ip s d) = admins d"
  "sessions (record_login_attempt i n e w ip s d) = sessions d"
  by (simp_all add: record_login_attempt_def)

lemma create_session_simps [simp]:
  "admins (create_session h i t n a ip ua d) = admins d"
  "audits (create_session h i t n a ip ua d) = audits d"
  by (simp_all add: create_session_def)

lemma upd_admin_simps [simp]:
  "admins (upd_admin i f d) = tbl_upd ad_id i f (admins d)"
  "audits (upd_admin i f d) = audits d"
  "sessions (upd_admin i f d) = sessions d"
  by (simp_all add: upd_admin_def)

text \<open>
  C4. A login session is only ever issued to the owner of both factors: cookies are returned only when
  the limiter lets the attempt through, the account is active, its password verifies and, if an
  authenticator is enrolled, the code is the one of a time step at most one away from now and newer
  than the last one used.  Any other outcome creates no session.
\<close>

theorem login_needs_both_factors:
  assumes "login X rq p d = (res, d')"
  shows "(case res of Inr r \<Rightarrow> resp_cookies r \<noteq> None | Inl _ \<Rightarrow> False) \<and>
      (\<exists>a step. admin_by_email (lr_email p) d = Some a \<and> ad_is_active a \<and>
         verify_password X (ad_password_hash a) (lr_password p) \<and> second_factor X rq p a step \<and>
         \<not> locked (check_rate_limit (auth_limiter X) (rq_now rq) (Some (ad_id a)) (rq_ip rq) d)) \<or>
    (case res of Inr r \<Rightarrow> resp_cookies r = None | Inl _ \<Rightarrow> True) \<and> sessions d' = sessions d"
  using assms
proof (cases rule: login_cases)
  case (success a step)
  then show ?thesis by (auto simp: login_success_eq)
qed simp_all

section \<open>Guessing passwords\<close>

text \<open>
  A run of login requests, and the times of those the limiter let through to a password check.
\<close>

primrec login_run :: "auth_ext \<Rightarrow> (auth_request \<times> login_request) list \<Rightarrow> db \<Rightarrow> db" where
  "login_run X [] d = d"
| "login_run X (q # qs) d = login_run X qs (snd (login X (fst q) (snd q) d))"

primrec checked :: "auth_ext \<Rightarrow> (auth_request \<times> login_request) list \<Rightarrow> db \<Rightarrow> datetime list" where
  "checked X [] d = []"
| "checked X (q # qs) d =
     (if locked (check_rate_limit (auth_limiter X) (rq_now (fst q))
           (map_option ad_id (admin_by_email (lr_email (snd q)) d)) (rq_ip (fst q)) d)
      then [] else [rq_now (fst q)]) @ checked X qs (snd (login X (fst q) (snd q) d))"

lemma login_wrong_password:
  assumes "admin_by_email (lr_email p) d = Some a" "\<not> verify_password X (ad_password_hash a) (lr_password p)"
  shows "snd (login X rq p d) =
    (if locked (check_rate_limit (auth_limiter X) (rq_now rq) (Some (ad_id a)) (rq_ip rq) d) then d
     else record_login_attempt (rq_audit_id rq) (rq_now rq) (lr_email p) (Some (ad_id a)) (rq_ip rq) False d)"
  using assms by (simp add: login_def Let_def)

lemma record_failure:
  "failures_of i ip (record_login_attempt aid now e (Some i) (Some ip) False d) = failures_of i ip d @ [now]"
  "admin_by_email x (record_login_attempt aid now e who ip2 s d) = admin_by_email x d"
  by (simp_all add: failures_of_def record_login_attempt_def admin_by_email_def)

lemma guesses_run:
  assumes "auth_limiter X = default_limiter" "ip \<noteq> []"
    and "admin_by_email email d = Some a" "ad_id a = i"
    and "\<forall>q\<in>set qs. lr_email (snd q) = email \<and> rq_ip (fst q) = Some ip \<and>
      \<not> verify_password X (ad_password_hash a) (lr_password (snd q))"
    and "sorted (map (\<lambda>q. rq_now (fst q)) qs)"
    and "\<forall>q\<in>set qs. t0 \<le> rq_now (fst q) \<and> rq_now (fst q) \<le> t0 + hours 1"
    and "\<forall>x\<in>set (audits d). al_action x = LOGIN_SUCCESS \<longrightarrow> al_admin_user_id x = Some i \<longrightarrow> al_timestamp x \<le> t0"
    and "\<forall>t\<in>set (failures_of i ip d). t0 \<le> t" and "length (failures_of i ip d) = n"
    and "0 < n \<Longrightarrow> t0 + earliest (n - 1) \<le> newest (failures_of i ip d)"
    and "0 < n \<Longrightarrow> newest (failures_of i ip d) \<le> t0 + hours 1 \<and>
      (\<forall>q\<in>set qs. newest (failures_of i ip d) \<le> rq_now (fst q))"
  shows "earliest (n + length (checked X qs d) - 1) \<le> hours 1"
  using assms
proof (induction qs arbitrary: d n)
  case Nil
  show ?case
  proof (cases "n = 0")
    case False
    then have "t0 + earliest (n - 1) \<le> t0 + hours 1" using Nil.prems(11,12) by linarith
    then show ?thesis by simp
  qed (simp add: time_defs)
next
  case (Cons q qs)
  let ?now = "rq_now (fst q)" and ?F = "failures_of i ip d"
  define d' where "d' = snd (login X (fst q) (snd q) d)"
  have q: "lr_email (snd q) = email" "rq_ip (fst q) = Some ip"
    "\<not> verify_password X (ad_password_hash a) (lr_password (snd q))" "t0 \<le> ?now" "?now \<le> t0 + hours 1"
    using Cons.prems(5,7) by simp_all
  have adm: "admin_by_email (lr_email (snd q)) d = Some a" using q Cons.prems(3) by simp
  note step = login_wrong_password [OF adm q(3), of "fst q", folded d'_def]
  have rest: "\<forall>q\<in>set qs. lr_email (snd q) = email \<and> rq_ip (fst q) = Some ip \<and>
      \<not> verify_password X (ad_password_hash a) (lr_password (snd q))"
    "sorted (map (\<lambda>q. rq_now (fst q)) qs)"
    "\<forall>q\<in>set qs. t0 \<le> rq_now (fst q) \<and> rq_now (fst q) \<le> t0 + hours 1"
    "\<forall>q\<in>set qs. ?now \<le> rq_now (fst q)"
    using Cons.prems(5-7) by auto
  show ?case
  proof (cases "locked (check_rate_limit (auth_limiter X) ?now (Some i) (Some ip) d)")
    case True
    then have "d' = d" using step q Cons.prems(4) by simp
    moreover have "checked X (q # qs) d = checked X qs d'"
      using True adm Cons.prems(4) q(2) by (simp add: d'_def)
    moreover have "earliest (n + length (checked X qs d) - 1) \<le> hours 1"
      using Cons.IH [OF Cons.prems(1-4) rest(1-3) Cons.prems(8-11)] Cons.prems(12) by simp
    ultimately show ?thesis by simp
  next
    case False
    have d': "d' = record_login_attempt (rq_audit_id (fst q)) ?now email (Some i) (Some ip) False d"
      using False step q Cons.prems(4) by simp
    have chk: "checked X (q # qs) d = ?now # checked X qs d'"
      using False adm Cons.prems(4) q(2) by (simp add: d'_def)
    have fail: "failures_of i ip d' = ?F @ [?now]" by (simp add: d' record_failure)
    have before: "n = 0 \<or> newest ?F \<le> ?now" using Cons.prems(12) by (cases "n = 0") simp_all
    then have nw: "newest (failures_of i ip d') = ?now"
      unfolding fail newest_snoc using Cons.prems(10) by auto
    have gap: "t0 + earliest n \<le> ?now"
    proof (cases n)
      case 0
      then show ?thesis using q(4) by simp
    next
      case (Suc k)
      then have ne: "?F \<noteq> []" using Cons.prems(10) by auto
      have "?now - hours 1 \<le> t0" using q(5) by simp
      then have "lockout_gap n = 0 \<or> newest ?F + lockout_gap n < ?now"
        using not_locked_gap [OF False [unfolded Cons.prems(1)] Cons.prems(2,9) _ Cons.prems(8) ne]
          Cons.prems(10) by simp
      moreover have "earliest n = earliest k + lockout_gap n" using Suc by simp
      moreover have "t0 + earliest k \<le> newest ?F" using Cons.prems(11) Suc by simp
      ultimately show ?thesis using before Suc by auto
    qed
    have "earliest (Suc n + length (checked X qs d') - 1) \<le> hours 1"
    proof (rule Cons.IH [OF Cons.prems(1,2) _ Cons.prems(4) rest(1-3)])
      show "admin_by_email email d' = Some a" using Cons.prems(3) by (simp add: d' record_failure)
      show "\<forall>x\<in>set (audits d'). al_action x = LOGIN_SUCCESS \<longrightarrow> al_admin_user_id x = Some i \<longrightarrow> al_timestamp x \<le> t0"
        using Cons.prems(8) by (auto simp: d' record_login_attempt_def)
      show "\<forall>t\<in>set (failures_of i ip d'). t0 \<le> t" using Cons.prems(9) q(4) by (simp add: fail)
      show "length (failures_of i ip d') = Suc n" using Cons.prems(10) by (simp add: fail)
      show "t0 + earliest (Suc n - 1) \<le> newest (failures_of i ip d')" using gap by (simp add: nw)
      show "newest (failures_of i ip d') \<le> t0 + hours 1 \<and>
          (\<forall>q\<in>set qs. newest (failures_of i ip d') \<le> rq_now (fst q))"
        using q(5) rest(4) by (simp add: nw)
    qed
    then show ?thesis unfolding chk by simp
  qed
qed


definition demo_ext :: auth_ext where
  "demo_ext = \<lparr>verify_password = (\<lambda>h p. h = CHR ''#'' # p), hash_password = (\<lambda>salt p. CHR ''#'' # p),
     hash_token = demo_hash, generate_otp = (\<lambda>secret step. secret @ str_of_int step),
     auth_aead = demo_aead, auth_keys = \<lparr>ks_key_file = None,
       ks_encryption_key = Some (generate_encryption_key (replicate 32 (CHR ''k'')))\<rparr>,
     auth_limiter = default_limiter, dummy_hash = ''x''\<rparr>"

definition demo_request :: "datetime \<Rightarrow> auth_request" where
  "demo_request t = \<lparr>rq_now = t, rq_ip = Some ''6.6.6.6'', rq_user_agent = None, rq_session = Some ''mine'',
     rq_token = ''fresh'', rq_csrf_token = ''csrf'', rq_salt = [], rq_nonce = replicate 12 (CHR ''n''),
     rq_audit_id = 1, rq_session_id = 3, rq_admin_id = 9\<rparr>"

definition demo_guess :: "datetime \<Rightarrow> auth_request \<times> login_request" where
  "demo_guess t = (demo_request t,
     \<lparr>lr_email = ''root@example.com'', lr_password = ''guess'', lr_totp_code = None\<rparr>)"


theorem login_needs_both_factors_witness:
  "resp_cookies (projr (fst (login demo_ext (demo_request 0)
     \<lparr>lr_email = ''root@example.com'', lr_password = ''secret'', lr_totp_code = None\<rparr> demo_auth_db))) \<noteq> None \<and>
   verify_password demo_ext (ad_password_hash demo_admin) ''secret''"
proof -
  let ?p = "\<lparr>lr_email = ''root@example.com'', lr_password = ''secret'', lr_totp_code = None\<rparr>"
  obtain res d' where r: "login demo_ext (demo_request 0) ?p demo_auth_db = (res, d')" by fastforce
  have "resp_cookies (projr (fst (login demo_ext (demo_request 0) ?p demo_auth_db))) = Some (''fresh'', ''csrf'')"
    "isl (fst (login demo_ext (demo_request 0) ?p demo_auth_db)) = False"
    "admin_by_email ''root@example.com'' demo_auth_db = Some demo_admin"
    by code_simp+
  then show ?thesis
    using login_needs_both_factors [OF r] by (cases res) (auto simp: r)
qed

end
