(* ===== verification/Admin_Safety.thy ===== *)
theory Admin_Safety
  imports Admin_Auth
begin

text \<open>
  The admin accounts as a state machine: the operations of \<open>Admin_Auth\<close> as steps of the database, its
  invariant (unique ids and addresses, never an admin table without an active admin), one-time use of
  authenticator codes, and what an account change requires and revokes.
\<close>

section \<open>One code, one login\<close>

text \<open>The time steps accepted for admin \<open>i\<close> in a run of logins, in order.\<close>

definition accepted_step :: "int \<Rightarrow> db \<Rightarrow> (http_error + login_response) \<Rightarrow> login_request \<Rightarrow> db \<Rightarrow> int list" where
  "accepted_step i d res p d' =
     (case (admin_by_email (lr_email p) d, res, admin_by_id i d') of
        (Some a, Inr r, Some a') \<Rightarrow>
          (if ad_id a = i \<and> ad_totp_secret_encrypted a \<noteq> None \<and> resp_cookies r \<noteq> None
           then (case ad_totp_last_used_step a' of Some s \<Rightarrow> [s] | None \<Rightarrow> [0]) else [])
      | _ \<Rightarrow> [])"

primrec accepted_steps :: "auth_ext \<Rightarrow> int \<Rightarrow> (auth_request \<times> login_request) list \<Rightarrow> db \<Rightarrow> int list" where
  "accepted_steps X i [] d = []"
| "accepted_steps X i (q # qs) d =
     (let (res, d') = login X (fst q) (snd q) d
      in accepted_step i d res (snd q) d' @ accepted_steps X i qs d')"

definition last_used :: "int \<Rightarrow> db \<Rightarrow> int option" where
  "last_used i d = (case admin_by_id i d of None \<Rightarrow> None | Some a \<Rightarrow> ad_totp_last_used_step a)"

lemma login_admins:
  assumes "login X rq p d = (res, d')"
  obtains "admins d' = admins d" "(case res of Inr r \<Rightarrow> resp_cookies r = None | Inl _ \<Rightarrow> True)"
  | a step where "admin_by_email (lr_email p) d = Some a" "second_factor X rq p a step"
      "admins d' = tbl_upd ad_id (ad_id a) (\<lambda>a. a\<lparr>ad_last_login_at := Some (rq_now rq),
         ad_totp_last_used_step := (case step of None \<Rightarrow> ad_totp_last_used_step a | Some s \<Rightarrow> Some s)\<rparr>) (admins d)"
  using assms
proof (cases rule: login_cases)
  case (success a step)
  then show thesis using that(2) by (auto simp: login_success_eq)
qed (use that(1) in auto)

lemma admin_lookup:
  assumes "keys_distinct ad_id (admins d)" "admin_by_email e d = Some a"
  shows "admin_by_id (ad_id a) d = Some a"
  using assms tbl_get_SomeD [of ad_email e "admins d" a] tbl_get_mem
  by (fastforce simp: admin_by_email_def admin_by_id_def)

lemma login_keys:
  assumes "login X rq p d = (res, d')" "keys_distinct ad_id (admins d)"
  shows "keys_distinct ad_id (admins d')"
  using assms(1)
proof (cases rule: login_admins)
  case (2 a step)
  then show ?thesis using assms(2) by (simp add: keys_distinct_upd)
qed (use assms(2) in simp)

lemma accepted_newer:
  assumes run: "login X rq p d = (res, d')" and dist: "keys_distinct ad_id (admins d)"
  shows "(accepted_step i d res p d' = [] \<and> (last_used i d' = last_used i d \<or> (\<exists>s. last_used i d' = Some s \<and>
            (\<forall>l. last_used i d = Some l \<longrightarrow> l < s)))) \<or>
         (\<exists>s. accepted_step i d res p d' = [s] \<and> last_used i d' = Some s \<and>
            (\<forall>l. last_used i d = Some l \<longrightarrow> l < s))"
  using run
proof (cases rule: login_admins)
  case 1
  then show ?thesis by (auto simp: accepted_step_def last_used_def admin_by_id_def split: option.splits sum.splits)
next
  case (2 a step)
  note a = admin_lookup [OF dist 2(1)]
  have look: "admin_by_id i d' = map_option (\<lambda>b. if ad_id a = i then b\<lparr>ad_last_login_at := Some (rq_now rq),
         ad_totp_last_used_step := (case step of None \<Rightarrow> ad_totp_last_used_step b | Some s \<Rightarrow> Some s)\<rparr> else b)
       (admin_by_id i d)"
    unfolding admin_by_id_def 2(3) by (simp add: tbl_get_upd option.map_ident)
  show ?thesis
  proof (cases "ad_id a = i")
    case False
    then show ?thesis using look 2(1)
      by (auto simp: accepted_step_def last_used_def split: option.splits sum.splits)
  next
    case True
    then have i: "admin_by_id i d = Some a" using a by simp
    show ?thesis
    proof (cases "ad_totp_secret_encrypted a")
      case None
      then have "step = None" using 2(2) by (simp add: second_factor_def)
      then show ?thesis using look i True None 2(1)
        by (auto simp: accepted_step_def last_used_def split: option.splits sum.splits)
    next
      case (Some blob)
      then obtain s where s: "step = Some s" "\<forall>l. ad_totp_last_used_step a = Some l \<longrightarrow> l < s"
        using 2(2) by (auto simp: second_factor_def split: option.splits sum.splits)
      then show ?thesis using look i True Some 2(1)
        by (auto simp: accepted_step_def last_used_def split: option.splits sum.splits)
    qed
  qed
qed

lemma accepted_steps_above:
  assumes "keys_distinct ad_id (admins d)"
  shows "sorted_wrt (<) (accepted_steps X i qs d) \<and>
    (\<forall>s\<in>set (accepted_steps X i qs d). \<forall>l. last_used i d = Some l \<longrightarrow> l < s)"
  using assms
proof (induction qs arbitrary: d)
  case (Cons q qs)
  obtain res d' where r: "login X (fst q) (snd q) d = (res, d')" by fastforce
  have IH: "sorted_wrt (<) (accepted_steps X i qs d')"
    "\<And>s l. s \<in> set (accepted_steps X i qs d') \<Longrightarrow> last_used i d' = Some l \<Longrightarrow> l < s"
    using Cons.IH [OF login_keys [OF r Cons.prems]] by blast+
  from accepted_newer [OF r Cons.prems, of i] show ?case
  proof (elim disjE conjE exE)
    assume "accepted_step i d res (snd q) d' = []" "last_used i d' = last_used i d"
    then show ?thesis using IH by (simp add: r)
  next
    fix s assume "accepted_step i d res (snd q) d' = []" "last_used i d' = Some s"
      "\<forall>l. last_used i d = Some l \<longrightarrow> l < s"
    then show ?thesis using IH by (fastforce simp: r)
  next
    fix s assume "accepted_step i d res (snd q) d' = [s]" "last_used i d' = Some s"
      "\<forall>l. last_used i d = Some l \<longrightarrow> l < s"
    then show ?thesis using IH by (fastforce simp: r)
  qed
qed simp

text \<open>
  C31. An authenticator code is good for one login: over any sequence of login requests, by anyone and
  at any times, the time steps accepted for an account are strictly increasing, and all newer than the
  last one on record before.
\<close>

theorem totp_steps_increase:
  assumes "keys_distinct ad_id (admins d)"
  shows "sorted_wrt (<) (accepted_steps X i qs d) \<and>
    (\<forall>s\<in>set (accepted_steps X i qs d). case last_used i d of None \<Rightarrow> True | Some l \<Rightarrow> l < s)"
  using accepted_steps_above [OF assms, of X i qs] by (auto split: option.splits)

definition demo_totp_db :: db where
  "demo_totp_db = demo_auth_db\<lparr>admins := [demo_admin\<lparr>ad_totp_secret_encrypted :=
     Some (replicate 12 (CHR ''n'') @ replicate 32 (CHR ''k'') @ ''S''), ad_totp_last_used_step := Some 1\<rparr>]\<rparr>"

definition demo_login :: "datetime \<Rightarrow> pystr \<Rightarrow> auth_request \<times> login_request" where
  "demo_login t c = (demo_request t,
     \<lparr>lr_email = ''root@example.com'', lr_password = ''secret'', lr_totp_code = Some c\<rparr>)"

lemma demo_totp_keys: "keys_distinct ad_id (admins demo_totp_db)"
  by (simp add: demo_totp_db_def)

theorem totp_steps_increase_witness:
  "accepted_steps demo_ext 1 [demo_login (seconds 60) ''S2'', demo_login (seconds 61) ''S2''] demo_totp_db = [2] \<and>
   sorted_wrt (<) (accepted_steps demo_ext 1 [demo_login (seconds 60) ''S2'', demo_login (seconds 61) ''S2'',
     demo_login (seconds 95) ''S4''] demo_totp_db)"
proof
  show "accepted_steps demo_ext 1 [demo_login (seconds 60) ''S2'', demo_login (seconds 61) ''S2''] demo_totp_db = [2]"
    by code_simp
  show "sorted_wrt (<) (accepted_steps demo_ext 1 [demo_login (seconds 60) ''S2'', demo_login (seconds 61) ''S2'',
     demo_login (seconds 95) ''S4''] demo_totp_db)"
    using totp_steps_increase [THEN conjunct1, of demo_totp_db] by (simp add: demo_totp_keys del: accepted_steps.simps)
qed

section \<open>Account changes\<close>

lemma require_current_password_cases:
  assumes "require_current_password X rq a pw d = (res, d')"
  shows "isl res \<or> (d' = d \<and> verify_password X (ad_password_hash a) pw \<and>
      \<not> locked (check_rate_limit (auth_limiter X) (rq_now rq) (Some (ad_id a)) (rq_ip rq) d))"
    and "admins d' = admins d" "sessions d' = sessions d"
  using assms by (auto simp: require_current_password_def Let_def split: if_splits)

lemma secure_account_sessions:
  assumes "get_current_admin_optional (hash_token X) later session (secure_account X rq i f act d) = Some a"
  shows "ad_id a = i \<Longrightarrow> \<exists>t e. session = Some t \<and> rq_session rq = Some e \<and> hash_token X t = hash_token X e"
proof -
  assume i: "ad_id a = i"
  from assms show ?thesis
  proof (cases rule: current_admin_found)
    case (1 t s)
    have "se_admin_user_id s = i" using admin_by_id_key [OF 1(7)] i by simp
    moreover have "s \<in> set (sessions (revoke_all_sessions_for_admin (hash_token X) (rq_now rq) i (rq_session rq)
        (upd_admin i f d)))"
      using 1(3) by (simp add: secure_account_def)
    ultimately show ?thesis using revoke_all_effect 1(1,4,5) by metis
  qed
qed

datatype account_change =
    ChangePassword pystr
  | ConfirmTotp pystr pystr
  | RemoveTotp

definition apply_change ::
  "auth_ext \<Rightarrow> auth_request \<Rightarrow> admin_user \<Rightarrow> pystr \<Rightarrow> account_change \<Rightarrow> db \<Rightarrow> (http_error + unit) \<times> db" where
  "apply_change X rq admin current_password c d =
     (case c of
        ChangePassword new_password \<Rightarrow> change_own_password X rq admin current_password new_password d
      | ConfirmTotp secret totp \<Rightarrow> confirm_totp X rq admin secret totp current_password d
      | RemoveTotp \<Rightarrow> remove_totp X rq admin current_password d)"

lemma apply_change_cases:
  assumes "apply_change X rq admin pw c d = (res, d')"
  obtains (refused) "isl res" "admins d' = admins d" "sessions d' = sessions d"
  | (accepted) f act where "\<not> isl res" "d' = secure_account X rq (ad_id admin) f act d"
      "\<And>a. ad_id (f a) = ad_id a \<and> ad_email (f a) = ad_email a \<and> ad_is_active (f a) = ad_is_active a"
      "verify_password X (ad_password_hash admin) pw"
      "\<not> locked (check_rate_limit (auth_limiter X) (rq_now rq) (Some (ad_id admin)) (rq_ip rq) d)"
proof -
  obtain r d1 where r: "require_current_password X rq admin pw d = (r, d1)" by fastforce
  note facts = require_current_password_cases [OF r]
  show thesis
  proof (cases r)
    case (Inl e)
    then have "res = Inl e \<and> d' = d1"
      using assms r by (cases c) (auto simp: apply_change_def change_own_password_def confirm_totp_def remove_totp_def)
    then show thesis using refused facts by simp
  next
    case (Inr u)
    then have ok: "d1 = d" "verify_password X (ad_password_hash admin) pw"
      "\<not> locked (check_rate_limit (auth_limiter X) (rq_now rq) (Some (ad_id admin)) (rq_ip rq) d)"
      using facts(1) by auto
    show thesis
    proof (cases c)
      case (ChangePassword new_password)
      then show thesis using assms r Inr ok
        by (intro accepted [of "\<lambda>a. a\<lparr>ad_password_hash := hash_password X (rq_salt rq) new_password\<rparr>"
              "''admin.change_password''"]) (auto simp: apply_change_def change_own_password_def)
    next
      case RemoveTotp
      then show thesis using assms r Inr ok
        by (intro accepted [of "\<lambda>a. a\<lparr>ad_totp_secret_encrypted := None, ad_totp_last_used_step := None\<rparr>"
              "''admin.totp_remove''"]) (auto simp: apply_change_def remove_totp_def)
    next
      case (ConfirmTotp secret totp)
      show thesis
      proof (cases "isl res")
        case True
        then have "d' = d" using assms r Inr ok ConfirmTotp
          by (auto simp: apply_change_def confirm_totp_def split: sum.splits option.splits secret_error.splits)
        then show thesis using refused True by simp
      next
        case False
        then obtain step blob where
          "d' = secure_account X rq (ad_id admin)
             (\<lambda>a. a\<lparr>ad_totp_secret_encrypted := Some blob, ad_totp_last_used_step := Some step\<rparr>) ''admin.totp_enroll'' d"
          using assms r Inr ok ConfirmTotp
          by (auto simp: apply_change_def confirm_totp_def split: sum.splits option.splits secret_error.splits)
        then show thesis using False ok
          by (intro accepted [of "\<lambda>a. a\<lparr>ad_totp_secret_encrypted := Some blob, ad_totp_last_used_step := Some step\<rparr>"
                "''admin.totp_enroll''"]) auto
      qed
    qed
  qed
qed



section \<open>Never without an active admin\<close>

text \<open>
  One operation on the admin accounts.  Ids the database assigns are new; the operations that need a
  session run as the admin it authenticates.
\<close>

inductive admin_step :: "auth_ext \<Rightarrow> (pystr \<Rightarrow> pystr option) \<Rightarrow> db \<Rightarrow> db \<Rightarrow> bool"
  for X :: auth_ext and N :: "pystr \<Rightarrow> pystr option" where
  step_login: "admin_step X N d (snd (login X rq p d))"
| step_logout: "admin_step X N d (snd (logout X rq d))"
| step_setup: "rq_admin_id rq \<notin> ad_id ` set (admins d) \<Longrightarrow> admin_step X N d (snd (setup_admin X rq email pw d))"
| step_create: "get_current_admin (hash_token X) (rq_now rq) (rq_session rq) d = Inr admin \<Longrightarrow>
    rq_admin_id rq \<notin> ad_id ` set (admins d) \<Longrightarrow> admin_step X N d (snd (create_admin X rq admin email pw d))"
| step_update: "get_current_admin (hash_token X) (rq_now rq) (rq_session rq) d = Inr admin \<Longrightarrow>
    admin_step X N d (snd (update_admin X rq admin i active d))"
| step_change: "get_current_admin (hash_token X) (rq_now rq) (rq_session rq) d = Inr admin \<Longrightarrow>
    admin_step X N d (snd (apply_change X rq admin pw c d))"
| step_cli_create: "rq_admin_id rq \<notin> ad_id ` set (admins d) \<Longrightarrow>
    admin_step X N d (snd (cli_create_admin X N rq email pw d))"
| step_cli_reset: "admin_step X N d (snd (cli_reset_admin_password X N rq email pw d))"
| step_cli_totp: "admin_step X N d (snd (cli_disable_totp X N rq email d))"

inductive admin_reachable :: "auth_ext \<Rightarrow> (pystr \<Rightarrow> pystr option) \<Rightarrow> db \<Rightarrow> bool"
  for X :: auth_ext and N :: "pystr \<Rightarrow> pystr option" where
  reach_empty: "admin_reachable X N empty_db"
| reach_step: "admin_reachable X N d \<Longrightarrow> admin_step X N d d' \<Longrightarrow> admin_reachable X N d'"

definition admin_invariant :: "db \<Rightarrow> bool" where
  "admin_invariant d \<longleftrightarrow> keys_distinct ad_id (admins d) \<and> keys_distinct ad_email (admins d) \<and>
     (admins d = [] \<or> (\<exists>a\<in>set (admins d). ad_is_active a))"

lemma invariant_upd:
  assumes "admin_invariant d" "admins d' = tbl_upd ad_id i f (admins d)"
    "\<And>a. ad_id (f a) = ad_id a \<and> ad_email (f a) = ad_email a \<and> ad_is_active (f a) = ad_is_active a"
  shows "admin_invariant d'"
proof -
  have f: "ad_id (f a) = ad_id a" "ad_email (f a) = ad_email a" "ad_is_active (f a) = ad_is_active a" for a
    using assms(3) by blast+
  have maps: "map ad_id (admins d') = map ad_id (admins d)" "map ad_email (admins d') = map ad_email (admins d)"
    "map ad_is_active (admins d') = map ad_is_active (admins d)"
    unfolding assms(2) by (rule map_tbl_upd, rule f)+
  have "(\<exists>a\<in>set (admins d'). ad_is_active a) \<longleftrightarrow> True \<in> set (map ad_is_active (admins d'))" by auto
  also have "\<dots> \<longleftrightarrow> (\<exists>a\<in>set (admins d). ad_is_active a)" unfolding maps by auto
  finally show ?thesis
    using assms(1) maps by (auto simp: admin_invariant_def keys_distinct_def)
qed

lemma invariant_same: "admin_invariant d \<Longrightarrow> admins d' = admins d \<Longrightarrow> admin_invariant d'"
  by (simp add: admin_invariant_def)

lemma invariant_add:
  assumes "admin_invariant d" "admins d' = admins d @ [a]" "ad_id a \<notin> ad_id ` set (admins d)"
    "admin_by_email (ad_email a) d = None" "ad_is_active a"
  shows "admin_invariant d'"
  using assms
  by (auto simp: admin_invariant_def keys_distinct_snoc admin_by_email_def tbl_get_None_iff image_iff)

lemma active_count:
  assumes "keys_distinct ad_id as" "1 < length (filter ad_is_active as)"
  shows "\<exists>a\<in>set as. ad_is_active a \<and> ad_id a \<noteq> i"
proof (rule ccontr)
  assume none: "\<not> ?thesis"
  have "distinct (map ad_id (filter ad_is_active as))"
    using assms(1) by (simp add: keys_distinct_def distinct_map_filter)
  moreover have "set (map ad_id (filter ad_is_active as)) \<subseteq> {i}" using none by auto
  ultimately have "length (map ad_id (filter ad_is_active as)) \<le> card {i}"
    by (metis card_mono distinct_card finite.emptyI finite.insertI)
  then show False using assms(2) by simp
qed

lemma step_invariant:
  assumes "admin_step X N d d'" "admin_invariant d" shows "admin_invariant d'"
  using assms
proof (induction rule: admin_step.induct)
  case (step_login d rq p)
  obtain res d' where r: "login X rq p d = (res, d')" by fastforce
  then show ?case
  proof (cases rule: login_admins)
    case 1
    then show ?thesis using invariant_same [OF step_login] r by simp
  next
    case (2 a step)
    then show ?thesis using invariant_upd [OF step_login 2(3)] r by simp
  qed
next
  case (step_logout d rq)
  have "admins (snd (logout X rq d)) = admins d"
    by (simp add: logout_def revoke_session_def split: option.splits)
  then show ?case by (rule invariant_same [OF step_logout])
next
  case (step_setup rq d email pw)
  define d' where "d' = snd (setup_admin X rq email pw d)"
  show ?case
  proof (cases "admins d = []")
    case True
    then have "admins d' = [(new_admin (rq_admin_id rq) (rq_now rq) email (hash_password X (rq_salt rq) pw))
        \<lparr>ad_last_login_at := Some (rq_now rq)\<rparr>]"
      by (simp add: d'_def setup_admin_def issue_session_cookies_def Let_def)
    then show ?thesis unfolding d'_def [symmetric] by (simp add: admin_invariant_def new_admin_def)
  next
    case False
    then show ?thesis using step_setup(2) by (simp add: setup_admin_def)
  qed
next
  case (step_create rq d admin email pw)
  show ?case
  proof (cases "admin_by_email email d")
    case None
    show ?thesis
      by (rule invariant_add [OF step_create(3), of _
            "new_admin (rq_admin_id rq) (rq_now rq) email (hash_password X (rq_salt rq) pw)"])
        (use None step_create(2) in \<open>simp_all add: create_admin_def new_admin_def Let_def\<close>)
  next
    case (Some a)
    then show ?thesis using step_create(3) by (simp add: create_admin_def)
  qed
next
  case (step_update rq d admin i active)
  show ?case
  proof (cases "admin_by_id i d")
    case None
    then show ?thesis using step_update by (simp add: update_admin_def)
  next
    case (Some target)
    define d' where "d' = snd (update_admin X rq admin i active d)"
    show ?thesis
    proof (cases "admins d' = admins d")
      case True
      then show ?thesis using invariant_same step_update(2) unfolding d'_def by blast
    next
      case False
      then have eq: "admins d' = tbl_upd ad_id i (\<lambda>a. a\<lparr>ad_is_active := active\<rparr>) (admins d)"
        and guard: "active \<or> 1 < length (filter ad_is_active (admins d))"
        using Some by (auto simp: d'_def update_admin_def Let_def not_le split: if_splits)
      have dist: "keys_distinct ad_id (admins d)" using step_update(2) by (simp add: admin_invariant_def)
      have "\<exists>a\<in>set (admins d'). ad_is_active a"
      proof (cases active)
        case True
        have "target \<in> set (admins d)" "ad_id target = i"
          using Some tbl_get_SomeD [of ad_id i "admins d"] by (auto simp: admin_by_id_def)
        then have "target\<lparr>ad_is_active := True\<rparr> \<in> set (admins d')" using True by (force simp: eq set_tbl_upd)
        then show ?thesis by force
      next
        case False
        then obtain a where "a \<in> set (admins d)" "ad_is_active a" "ad_id a \<noteq> i"
          using active_count [OF dist] guard by blast
        then show ?thesis by (force simp: eq set_tbl_upd)
      qed
      then show ?thesis using step_update(2) eq unfolding d'_def [symmetric]
        by (simp add: admin_invariant_def keys_distinct_def map_tbl_upd)
    qed
  qed
next
  case (step_change rq d admin pw c)
  obtain res d' where r: "apply_change X rq admin pw c d = (res, d')" by fastforce
  then show ?case
  proof (cases rule: apply_change_cases)
    case refused
    then show ?thesis using invariant_same [OF step_change(2)] r by simp
  next
    case (accepted f act)
    then show ?thesis
      using invariant_upd [OF step_change(2), of d' "ad_id admin" f] r by (simp add: secure_account_def)
  qed
next
  case (step_cli_create rq d email pw)
  show ?case
  proof (cases "MIN_ADMIN_PASSWORD_LENGTH \<le> length pw \<and> N email \<noteq> None \<and> admin_by_email (the (N email)) d = None")
    case True
    then obtain e where e: "N email = Some e" "admin_by_email e d = None" "\<not> length pw < MIN_ADMIN_PASSWORD_LENGTH"
      by auto
    show ?thesis
      by (rule invariant_add [OF step_cli_create(2), of _
            "new_admin (rq_admin_id rq) (rq_now rq) e (hash_password X (rq_salt rq) pw)"])
        (use e step_cli_create(1) in \<open>simp_all add: cli_create_admin_def new_admin_def\<close>)
  next
    case False
    then have "snd (cli_create_admin X N rq email pw d) = d"
      by (auto simp: cli_create_admin_def split: option.splits)
    then show ?thesis using step_cli_create(2) by simp
  qed
next
  case (step_cli_reset d rq email pw)
  then show ?case
    by (auto simp: cli_reset_admin_password_def split: option.splits intro!: invariant_upd [of d])
next
  case (step_cli_totp d rq email)
  then show ?case
    by (auto simp: cli_disable_totp_def split: option.splits intro!: invariant_upd [of d])
qed

text \<open>
  C20. The relay can always be administered: in every database reachable from an empty one by any
  sequence of logins, setups, account changes, activations and deactivations and recovery commands,
  once there is an admin there is an active one; admin ids and addresses are unique, and setup is
  open exactly while no admin exists.
\<close>

theorem always_an_active_admin:
  assumes "admin_reachable X N d"
  shows "keys_distinct ad_id (admins d) \<and> keys_distinct ad_email (admins d) \<and>
    (setup_required d \<or> (\<exists>a\<in>set (admins d). ad_is_active a)) \<and>
    (isl (fst (setup_admin X rq email pw d)) \<longleftrightarrow> \<not> setup_required d)"
  using assms
proof (induction rule: admin_reachable.induct)
  case reach_empty
  show ?case by (simp add: empty_db_def setup_required_def setup_admin_def issue_session_cookies_def Let_def)
next
  case (reach_step d d')
  then have "admin_invariant d" by (simp add: admin_invariant_def setup_required_def)
  then have "admin_invariant d'" using step_invariant reach_step by blast
  then show ?case
    by (auto simp: admin_invariant_def setup_required_def setup_admin_def issue_session_cookies_def Let_def)
qed

theorem always_an_active_admin_witness:
  "setup_required (snd (setup_admin demo_ext (demo_request 0) ''a@b.example'' ''a long password'' empty_db)) = False \<and>
   (\<exists>a\<in>set (admins (snd (setup_admin demo_ext (demo_request 0) ''a@b.example'' ''a long password'' empty_db))).
      ad_is_active a)"
proof -
  let ?d = "snd (setup_admin demo_ext (demo_request 0) ''a@b.example'' ''a long password'' empty_db)"
  have reach: "admin_reachable demo_ext (\<lambda>e. Some e) ?d"
    by (rule reach_step [OF reach_empty step_setup]) (simp add: empty_db_def)
  have "setup_required ?d = False" by code_simp
  then show ?thesis using always_an_active_admin [OF reach] by blast
qed

end
