(* ===== verification/Permissions.thy ===== *)
theory Permissions
  imports Models
begin

text \<open>
  \<open>core/permissions.py\<close>: which local user may send as which address, read from the join of senders,
  permissions, users and upstream accounts, and the two mutations of the permission table.
\<close>

section \<open>The queries\<close>

text \<open>\<open>sender.upstream_account\<close>, the relationship of the model.\<close>

definition account_of :: "db \<Rightarrow> sender \<Rightarrow> upstream_account option" where
  "account_of d s = tbl_get ua_id (sn_upstream_account_id s) (accounts d)"

text \<open>The join of \<open>sender_login_map\<close>, before the ordering.\<close>

definition login_rows :: "db \<Rightarrow> (pystr \<times> pystr) list" where
  "login_rows d =
     [(sn_address s, lu_username u).
        s \<leftarrow> senders d, p \<leftarrow> permissions d, pm_sender_id p = sn_id s,
        u \<leftarrow> local_users d, lu_id u = pm_local_smtp_user_id p,
        a \<leftarrow> accounts d, ua_id a = sn_upstream_account_id s,
        sn_enabled s \<and> lu_enabled u \<and> ua_enabled a]"

definition setdefault_append :: "(pystr \<times> pystr) \<Rightarrow> (pystr \<times> pystr list) list \<Rightarrow> (pystr \<times> pystr list) list" where
  "setdefault_append row result =
     (let (address, username) = row
      in AList.update address ((case map_of result address of None \<Rightarrow> [] | Some us \<Rightarrow> us) @ [username]) result)"

definition sender_login_map :: "db \<Rightarrow> (pystr \<times> pystr list) list" where
  "sender_login_map d = fold setdefault_append (sort (login_rows d)) []"

definition routable :: "db \<Rightarrow> sender \<Rightarrow> bool" where
  "routable d s \<longleftrightarrow> sn_enabled s \<and>
     (case account_of d s of None \<Rightarrow> False | Some a \<Rightarrow> ua_enabled a)"

definition enabled_senders_with_upstream :: "db \<Rightarrow> sender list" where
  "enabled_senders_with_upstream d = sort_key sn_address (filter (routable d) (senders d))"

section \<open>The mutations\<close>

definition permission_key :: "user_sender_permission \<Rightarrow> int \<times> int" where
  "permission_key p = (pm_local_smtp_user_id p, pm_sender_id p)"

definition grant_permission :: "datetime \<Rightarrow> int \<Rightarrow> int \<Rightarrow> int option \<Rightarrow> db \<Rightarrow> db" where
  "grant_permission now local_smtp_user_id sender_id granted_by_admin_id d =
     (case tbl_get permission_key (local_smtp_user_id, sender_id) (permissions d) of
        Some _ \<Rightarrow> d
      | None \<Rightarrow> d\<lparr>permissions := permissions d @
          [\<lparr>pm_local_smtp_user_id = local_smtp_user_id, pm_sender_id = sender_id, pm_granted_at = now,
            pm_granted_by_admin_id = granted_by_admin_id\<rparr>]\<rparr>)"

definition revoke_permission :: "int \<Rightarrow> int \<Rightarrow> db \<Rightarrow> db" where
  "revoke_permission local_smtp_user_id sender_id d =
     d\<lparr>permissions := tbl_del permission_key (local_smtp_user_id, sender_id) (permissions d)\<rparr>"

section \<open>What the login map says\<close>

definition has_permission :: "db \<Rightarrow> int \<Rightarrow> int \<Rightarrow> bool" where
  "has_permission d uid sid \<longleftrightarrow> (\<exists>p\<in>set (permissions d). permission_key p = (uid, sid))"

text \<open>The abstract authorization: user and sender enabled, the sender routable, the permission granted.\<close>

definition may_send :: "db \<Rightarrow> pystr \<Rightarrow> pystr \<Rightarrow> bool" where
  "may_send d username address \<longleftrightarrow>
     (\<exists>u\<in>set (local_users d). \<exists>s\<in>set (senders d). \<exists>a\<in>set (accounts d).
        lu_username u = username \<and> lu_enabled u \<and> sn_address s = address \<and> sn_enabled s \<and>
        ua_id a = sn_upstream_account_id s \<and> ua_enabled a \<and> has_permission d (lu_id u) (sn_id s))"

lemma login_rows_iff: "(address, username) \<in> set (login_rows d) \<longleftrightarrow> may_send d username address"
  by (force simp: login_rows_def may_send_def has_permission_def permission_key_def)

lemma map_of_setdefault_append:
  "map_of (setdefault_append (a, u) m) = (map_of m)(a \<mapsto> (case map_of m a of None \<Rightarrow> [] | Some us \<Rightarrow> us) @ [u])"
  by (simp add: setdefault_append_def update_conv')

lemma fold_setdefault_append:
  "map_of (fold setdefault_append rows m) a =
     (let us = map snd (filter (\<lambda>r. fst r = a) rows)
      in if us = [] then map_of m a else Some ((case map_of m a of None \<Rightarrow> [] | Some vs \<Rightarrow> vs) @ us))"
proof (induction rows arbitrary: m)
  case (Cons r rows)
  obtain b u where r: "r = (b, u)" by fastforce
  show ?case
    using Cons.IH [of "setdefault_append (b, u) m"]
    by (auto simp: r map_of_setdefault_append Let_def split: option.splits)
qed simp

lemma login_map_lookup:
  "map_of (sender_login_map d) address =
     (let us = map snd (filter (\<lambda>r. fst r = address) (sort (login_rows d)))
      in if us = [] then None else Some us)"
  by (simp add: sender_login_map_def fold_setdefault_append Let_def)

lemma setdefault_distinct: "distinct (map fst m) \<Longrightarrow> distinct (map fst (setdefault_append r m))"
  by (simp add: setdefault_append_def split_beta distinct_update)

lemma login_map_distinct: "distinct (map fst (sender_login_map d))"
proof -
  have "distinct (map fst m) \<Longrightarrow> distinct (map fst (fold setdefault_append rows m))" for rows m
    by (induction rows arbitrary: m) (simp_all add: setdefault_distinct)
  then show ?thesis by (simp add: sender_login_map_def)
qed

lemma login_map_iff:
  "((\<exists>us. map_of (sender_login_map d) address = Some us \<and> username \<in> set us) \<longleftrightarrow> may_send d username address) \<and>
   (map_of (sender_login_map d) address = None \<longleftrightarrow> (\<forall>u. \<not> may_send d u address)) \<and>
   distinct (map fst (sender_login_map d))"
proof -
  have rows: "username \<in> set (map snd (filter (\<lambda>r. fst r = address) (sort (login_rows d)))) \<longleftrightarrow>
      may_send d username address" for username
    by (force simp: login_rows_iff [symmetric])
  have none: "map snd (filter (\<lambda>r. fst r = address) (sort (login_rows d))) = [] \<longleftrightarrow> (\<forall>u. \<not> may_send d u address)"
    unfolding rows [symmetric] by (metis empty_iff empty_set last_in_set)
  show ?thesis
    using rows none login_map_distinct [of d] by (auto simp: login_map_lookup Let_def)
qed

text \<open>
  The generated login map is exactly the authorization on record: an address is listed with a user
  if and only if user, sender and upstream account are all enabled and the permission is granted; an
  address nobody may use has no entry, and no address has two.
\<close>

lemma login_map_is_authorization:
  "((\<exists>us. map_of (sender_login_map d) address = Some us \<and> username \<in> set us) \<longleftrightarrow> may_send d username address) \<and>
   (map_of (sender_login_map d) address = None \<longleftrightarrow> (\<forall>u. \<not> may_send d u address)) \<and>
   distinct (map fst (sender_login_map d))"
  by (rule login_map_iff)

lemma grant_then_permitted:
  "has_permission (grant_permission now uid sid granter d) uid' sid' \<longleftrightarrow> (uid', sid') = (uid, sid) \<or> has_permission d uid' sid'"
  by (auto simp: has_permission_def grant_permission_def permission_key_def tbl_get_None_iff
      dest!: tbl_get_SomeD split: option.splits)

lemma revoke_then_not_permitted:
  "has_permission (revoke_permission uid sid d) uid' sid' \<longleftrightarrow> (uid', sid') \<noteq> (uid, sid) \<and> has_permission d uid' sid'"
  by (auto simp: has_permission_def revoke_permission_def permission_key_def)

lemma permission_keys:
  "keys_distinct permission_key (permissions d) \<Longrightarrow>
   keys_distinct permission_key (permissions (grant_permission now uid sid granter d)) \<and>
   keys_distinct permission_key (permissions (revoke_permission uid sid d))"
  by (auto simp: grant_permission_def revoke_permission_def keys_distinct_snoc keys_distinct_del permission_key_def
      split: option.splits)

text \<open>
  Granting and revoking do what they say, and only that: after a grant the pair is authorized and
  every other pair is as before, after a revocation likewise; both are idempotent and keep one row per
  pair.
\<close>

lemma grant_revoke_exact:
  "(has_permission (grant_permission now uid sid granter d) uid' sid' \<longleftrightarrow>
      (uid', sid') = (uid, sid) \<or> has_permission d uid' sid') \<and>
   (has_permission (revoke_permission uid sid d) uid' sid' \<longleftrightarrow>
      (uid', sid') \<noteq> (uid, sid) \<and> has_permission d uid' sid') \<and>
   grant_permission t uid sid granter (grant_permission now uid sid granter d) = grant_permission now uid sid granter d \<and>
   revoke_permission uid sid (revoke_permission uid sid d) = revoke_permission uid sid d \<and>
   (keys_distinct permission_key (permissions d) =
      keys_distinct permission_key (permissions (grant_permission now uid sid granter d)))"
proof -
  have "tbl_get permission_key (uid, sid) (permissions (grant_permission now uid sid granter d)) \<noteq> None"
    by (auto simp: grant_permission_def tbl_get_append permission_key_def split: option.splits)
  then have "grant_permission t uid sid granter (grant_permission now uid sid granter d) = grant_permission now uid sid granter d"
    by (auto simp: grant_permission_def [of t])
  moreover have "keys_distinct permission_key (permissions d) =
      keys_distinct permission_key (permissions (grant_permission now uid sid granter d))"
    by (auto simp: grant_permission_def keys_distinct_snoc permission_key_def split: option.splits)
  moreover have "revoke_permission uid sid (revoke_permission uid sid d) = revoke_permission uid sid d"
    by (simp add: revoke_permission_def tbl_del_def)
  ultimately show ?thesis
    by (simp add: grant_then_permitted revoke_then_not_permitted)
qed

end
