(* ===== verification/Config_Generator.thy ===== *)
theory Config_Generator
  imports Permissions Secrets
begin

text \<open>
  \<open>core/config_generator.py\<close>: the lookup maps and configuration files generated from the database,
  and the pipeline \<open>generate_and_apply\<close>.  The Jinja templates are parameters: \<open>render_main\<close> is the
  finished \<open>main.cf\<close> (it depends on settings only), \<open>render_master\<close> takes the rate-limited transports;
  \<open>sha256\<close> is the digest.  The control surface is reached through the two operations of the record
  \<open>config_rpc\<close> on a state of its own.
\<close>

section \<open>Names and pacing\<close>

definition tab :: char where "tab = CHR 9"
definition lf :: char where "lf = CHR 10"

definition tab_join :: "pystr list \<Rightarrow> pystr" where
  "tab_join parts = join [tab] parts"

definition transport_name_for :: "upstream_account \<Rightarrow> pystr" where
  "transport_name_for a =
     (if ua_rate_limit_per_hour a \<noteq> None then ''rl_acct'' @ str_of_int (ua_id a)
      else if ua_tls_mode a = Implicit then ''smtp_implicit_tls'' else ''smtp'')"

text \<open>\<open>-(-3600 // n)\<close>\<close>

definition rate_delay_seconds :: "int \<Rightarrow> int" where
  "rate_delay_seconds rate_limit_per_hour = - ((- 3600) div rate_limit_per_hour)"

record rate_limited_transport =
  rt_account_id :: int
  rt_implicit_tls :: bool
  rt_rate_delay_seconds :: int

definition rate_limited_account_transports :: "db \<Rightarrow> rate_limited_transport list" where
  "rate_limited_account_transports d =
     (let by_id = fold (\<lambda>s accts. case account_of d s of
            None \<Rightarrow> accts
          | Some a \<Rightarrow> if ua_rate_limit_per_hour a \<noteq> None then AList.update (ua_id a) a accts else accts)
          (enabled_senders_with_upstream d) []
      in map (\<lambda>a. \<lparr>rt_account_id = ua_id a, rt_implicit_tls = (ua_tls_mode a = Implicit),
                   rt_rate_delay_seconds = rate_delay_seconds (the (ua_rate_limit_per_hour a))\<rparr>)
           (sort_key ua_id (map snd by_id)))"

section \<open>The maps\<close>

text \<open>The lines of the four per-sender maps and the policy entries, for one routed sender.\<close>

definition nexthop :: "upstream_account \<Rightarrow> pystr" where
  "nexthop a = ''['' @ ua_host a @ '']:'' @ str_of_int (ua_port a)"

definition relayhost_line :: "sender \<Rightarrow> upstream_account \<Rightarrow> pystr" where
  "relayhost_line s a = tab_join [sn_address s, nexthop a]"

definition sasl_passwd_line :: "sender \<Rightarrow> upstream_account \<Rightarrow> pystr \<Rightarrow> pystr" where
  "sasl_passwd_line s a password = tab_join [sn_address s, ua_username a @ '':'' @ password]"

definition sender_transport_line :: "sender \<Rightarrow> upstream_account \<Rightarrow> pystr" where
  "sender_transport_line s a = tab_join [sn_address s, transport_name_for a @ '':'']"

definition map_text :: "pystr list \<Rightarrow> pystr" where
  "map_text lines = join [lf] lines @ (if lines = [] then [] else [lf])"

text \<open>
  The loop of \<open>_build_maps\<close> over the routed senders: relayhost, password and transport lines and the
  policy dictionary, or the exception of the first password that does not decrypt.
\<close>

fun build_entries :: "(bytes \<Rightarrow> secret_error + pystr) \<Rightarrow> db \<Rightarrow> sender list \<Rightarrow>
  secret_error + (pystr list \<times> pystr list \<times> pystr list \<times> (pystr \<times> pystr) list)" where
  "build_entries decrypt d [] = Inr ([], [], [], [])"
| "build_entries decrypt d (s # ss) =
     (case account_of d s of
        None \<Rightarrow> build_entries decrypt d ss
      | Some a \<Rightarrow>
          (case decrypt (ua_encrypted_password a) of
             Inl e \<Rightarrow> Inl e
           | Inr password \<Rightarrow>
               (case build_entries decrypt d ss of
                  Inl e \<Rightarrow> Inl e
                | Inr (rs, ps, ts, policy) \<Rightarrow>
                    Inr (relayhost_line s a # rs, sasl_passwd_line s a password # ps,
                         sender_transport_line s a # ts,
                         (if ua_tls_skip_verify a then [(nexthop a, ''encrypt'')] else []) @ policy))))"

definition sender_warning :: "db \<Rightarrow> sender \<Rightarrow> pystr" where
  "sender_warning d s =
     ''Sender '' @ py_repr (sn_address s) @ '' is enabled but has '' @
     (case account_of d s of
        None \<Rightarrow> ''no upstream account''
      | Some a \<Rightarrow> ''upstream account '' @ py_repr (ua_name a) @ '' is disabled'') @
     '' '' @ em_dash @ '' excluded from generated config.''"

definition build_warnings :: "db \<Rightarrow> pystr list" where
  "build_warnings d =
     (let working = map sn_address (enabled_senders_with_upstream d)
      in map (sender_warning d) (filter (\<lambda>s. sn_enabled s \<and> sn_address s \<notin> set working) (senders d)))"

definition sender_login_lines :: "db \<Rightarrow> pystr list" where
  "sender_login_lines d =
     map (\<lambda>(address, usernames). tab_join [address, join '','' usernames]) (sort_key fst (sender_login_map d))"

text \<open>The dictionary of the policy entries, sorted by nexthop.\<close>

definition policy_text :: "(pystr \<times> pystr) list \<Rightarrow> pystr" where
  "policy_text policy =
     concat (map (\<lambda>(n, l). tab_join [n, l] @ [lf])
       (sort_key fst (fold (\<lambda>(n, l). AList.update n l) policy [])))"

definition build_maps :: "(bytes \<Rightarrow> secret_error + pystr) \<Rightarrow> db \<Rightarrow>
  secret_error + ((pystr \<times> pystr) list \<times> pystr list)" where
  "build_maps decrypt d =
     (case build_entries decrypt d (enabled_senders_with_upstream d) of
        Inl e \<Rightarrow> Inl e
      | Inr (relayhosts, passwds, transports, policy) \<Rightarrow>
          Inr ([(''sender_login'', map_text (sender_login_lines d)),
                (''sender_relayhost'', map_text relayhosts),
                (''sasl_passwd'', map_text passwds),
                (''sender_transport'', map_text transports),
                (''tls_policy'', policy_text policy)],
               build_warnings d))"

section \<open>The pipeline\<close>

record config_ext =
  cx_decrypt :: "bytes \<Rightarrow> secret_error + pystr"
  cx_sha256 :: "pystr \<Rightarrow> pystr"
  cx_render_main :: pystr
  cx_render_master :: "rate_limited_transport list \<Rightarrow> pystr"

definition nul :: char where "nul = CHR 0x00"

definition render_config :: "config_ext \<Rightarrow> db \<Rightarrow> pystr \<times> pystr" where
  "render_config X d = (cx_render_main X, cx_render_master X (rate_limited_account_transports d))"

definition config_checksum :: "config_ext \<Rightarrow> pystr \<Rightarrow> pystr \<Rightarrow> pystr" where
  "config_checksum X main_cf master_cf = cx_sha256 X (main_cf @ nul # master_cf)"

definition maps_checksum :: "config_ext \<Rightarrow> (pystr \<times> pystr) list \<Rightarrow> pystr" where
  "maps_checksum X maps = cx_sha256 X (join [nul] (map (\<lambda>(n, c). n @ nul # c) (sort_key fst maps)))"

definition current_state_checksums :: "config_ext \<Rightarrow> db \<Rightarrow> secret_error + (pystr \<times> pystr)" where
  "current_state_checksums X d =
     (case build_maps (cx_decrypt X) d of
        Inl e \<Rightarrow> Inl e
      | Inr (maps, _) \<Rightarrow>
          (let (main_cf, master_cf) = render_config X d
           in Inr (config_checksum X main_cf master_cf, maps_checksum X maps)))"

record apply_request =
  ap_main_cf :: pystr
  ap_master_cf :: pystr
  ap_maps :: "(pystr \<times> pystr) list"
  ap_reload :: bool

record apply_result =
  ar_success :: bool
  ar_detail :: pystr
  ar_reloaded :: bool

record 'w config_rpc =
  cr_status :: "'w \<Rightarrow> (ctl_error + bool) \<times> 'w"
  cr_apply :: "apply_request \<Rightarrow> 'w \<Rightarrow> (ctl_error + apply_result) \<times> 'w"

datatype generation_error = Secret_Error secret_error | Control_Error ctl_error

record generation_outcome =
  go_generation_id :: int
  go_success :: bool
  go_validation_detail :: pystr
  go_reloaded :: bool
  go_warnings :: "pystr list"

text \<open>The last generation that was validated and applied, by its time.\<close>

fun newest_generation :: "config_generation list \<Rightarrow> config_generation option" where
  "newest_generation [] = None"
| "newest_generation (g # gs) =
     (case newest_generation gs of
        None \<Rightarrow> Some g
      | Some h \<Rightarrow> if cg_generated_at h > cg_generated_at g then Some h else Some g)"

definition last_good_generation :: "db \<Rightarrow> config_generation option" where
  "last_good_generation d =
     newest_generation (filter (\<lambda>g. cg_validation_result g = Val_pass \<and> cg_applied g) (generations d))"

text \<open>Whether this run must restart Postfix; asks the control surface only when the files are unchanged.\<close>

definition needs_reload :: "'w config_rpc \<Rightarrow> pystr \<Rightarrow> db \<Rightarrow> 'w \<Rightarrow> bool \<times> 'w" where
  "needs_reload R checksum d w =
     (if (case last_good_generation d of None \<Rightarrow> True | Some g \<Rightarrow> cg_checksum g \<noteq> checksum) then (True, w)
      else (case cr_status R w of
          (Inl _, w') \<Rightarrow> (True, w')
        | (Inr running, w') \<Rightarrow> (\<not> running, w')))"

definition generate_and_apply ::
  "config_ext \<Rightarrow> 'w config_rpc \<Rightarrow> int \<Rightarrow> datetime \<Rightarrow> int option \<Rightarrow> bool \<Rightarrow> db \<Rightarrow> 'w \<Rightarrow>
   (generation_error + generation_outcome) \<times> db \<times> 'w" where
  "generate_and_apply X R new_id now triggered_by dry_run d w =
     (case build_maps (cx_decrypt X) d of
        Inl e \<Rightarrow> (Inl (Secret_Error e), d, w)
      | Inr (maps, warnings) \<Rightarrow>
          (let (main_cf, master_cf) = render_config X d;
               checksum = config_checksum X main_cf master_cf
           in if dry_run
              then (Inr \<lparr>go_generation_id = - 1, go_success = True,
                         go_validation_detail = ''Dry run '' @ em_dash @ '' not sent to the Postfix control surface.'',
                         go_reloaded = False, go_warnings = warnings\<rparr>, d, w)
              else
                (let (reload, w1) = needs_reload R checksum d w
                 in (case cr_apply R \<lparr>ap_main_cf = main_cf, ap_master_cf = master_cf, ap_maps = maps,
                                      ap_reload = reload\<rparr> w1 of
                       (Inl e, w2) \<Rightarrow> (Inl (Control_Error e), d, w2)
                     | (Inr result, w2) \<Rightarrow>
                         (let parts = (if ar_detail result = [] then [] else [ar_detail result]) @ warnings;
                              detail = (if parts = [] then None else Some (join [lf] parts));
                              gen = \<lparr>cg_id = new_id, cg_generated_at = now, cg_triggered_by_admin_id = triggered_by,
                                     cg_checksum = checksum, cg_maps_checksum = maps_checksum X maps,
                                     cg_validation_result = (if ar_success result then Val_pass else Val_fail),
                                     cg_validation_detail = detail, cg_applied = ar_success result,
                                     cg_reload_triggered = ar_reloaded result\<rparr>
                          in (Inr \<lparr>go_generation_id = new_id, go_success = ar_success result,
                                   go_validation_detail = (case detail of None \<Rightarrow> [] | Some t \<Rightarrow> t),
                                   go_reloaded = ar_reloaded result, go_warnings = warnings\<rparr>,
                              d\<lparr>generations := generations d @ [gen]\<rparr>, w2))))))"

section \<open>Reading a map back\<close>

text \<open>A lookup map as \<open>postmap\<close> reads it: one record per line that is not empty, the key up to the tab.\<close>

definition map_record :: "pystr \<Rightarrow> pystr \<times> pystr" where
  "map_record l = (takeWhile (\<lambda>c. c \<noteq> tab) l, drop 1 (dropWhile (\<lambda>c. c \<noteq> tab) l))"

definition parse_map :: "pystr \<Rightarrow> (pystr \<times> pystr) list" where
  "parse_map text = map map_record (filter (\<lambda>l. l \<noteq> []) (split_on lf text))"

definition map_safe :: "pystr \<Rightarrow> bool" where
  "map_safe s \<longleftrightarrow> tab \<notin> set s \<and> lf \<notin> set s"

lemma tab_lf [simp]: "tab \<noteq> lf" "lf \<noteq> tab"
  by (simp_all add: tab_def lf_def)

lemma split_on_snoc: "split_on c (s @ [c]) = split_on c s @ [[]]"
  by (induction s) (auto split: list.splits)

lemma parse_map_text:
  assumes "\<forall>l\<in>set ls. l \<noteq> [] \<and> lf \<notin> set l"
  shows "parse_map (map_text ls) = map map_record ls"
proof (cases "ls = []")
  case False
  have "split_on lf (map_text ls) = ls @ [[]]"
    using False assms by (simp add: map_text_def split_on_snoc split_on_join)
  moreover have "filter (\<lambda>l. l \<noteq> []) ls = ls" using assms by (simp add: filter_id_conv)
  ultimately show ?thesis by (simp add: parse_map_def)
qed (simp add: map_text_def parse_map_def)

lemma map_record_join: "map_safe k \<Longrightarrow> map_record (tab_join [k, v]) = (k, v)"
  by (auto simp: map_record_def tab_join_def map_safe_def takeWhile_tail dropWhile_append)

lemma line_ok: "map_safe k \<Longrightarrow> lf \<notin> set v \<Longrightarrow> tab_join [k, v] \<noteq> [] \<and> lf \<notin> set (tab_join [k, v])"
  by (simp add: tab_join_def map_safe_def)

lemma map_safe_append [simp]: "map_safe (a @ b) \<longleftrightarrow> map_safe a \<and> map_safe b"
  by (auto simp: map_safe_def)

lemma map_safe_Nil [simp]: "map_safe []"
  by (simp add: map_safe_def)

lemma map_safe_Cons: "map_safe (c # s) \<longleftrightarrow> c \<noteq> CHR 9 \<and> c \<noteq> CHR 10 \<and> map_safe s"
  by (auto simp: map_safe_def tab_def lf_def)

lemma map_safe_lf: "map_safe s \<Longrightarrow> lf \<notin> set s"
  by (simp add: map_safe_def)

lemma nat_digits_chars: "c \<in> set (nat_digits n) \<Longrightarrow> 48 \<le> code c \<and> code c \<le> 57"
proof (induction n rule: nat_digits.induct)
  case (1 n)
  have "48 + n mod 10 < 256" by (rule le_less_trans [of _ "48 + 9"]) auto
  then show ?case
    using 1 by (auto simp: nat_digits.simps [of n] code_char_of split: if_splits)
qed

lemma map_safe_digits: "map_safe (str_of_int i)"
proof -
  have "c \<noteq> tab \<and> c \<noteq> lf" if "c \<in> set (nat_digits n)" for c n
    using nat_digits_chars [OF that] by (auto simp: tab_def lf_def code_def)
  then show ?thesis by (auto simp: str_of_int_def map_safe_def) (auto simp: tab_def lf_def)
qed

text \<open>
  What the schemas of \<open>app/schemas\<close> guarantee of the strings in the database: no tab and no line break
  in addresses, names, hosts and upstream passwords.
\<close>

definition fields_safe :: "(bytes \<Rightarrow> secret_error + pystr) \<Rightarrow> db \<Rightarrow> bool" where
  "fields_safe decrypt d \<longleftrightarrow>
     (\<forall>s\<in>set (senders d). map_safe (sn_address s)) \<and> (\<forall>u\<in>set (local_users d). map_safe (lu_username u)) \<and>
     (\<forall>a\<in>set (accounts d). map_safe (ua_host a) \<and> map_safe (ua_username a) \<and>
        (\<forall>p. decrypt (ua_encrypted_password a) = Inr p \<longrightarrow> map_safe p))"

text \<open>The entries the maps are meant to have, for the routed senders in order.\<close>

definition routed :: "db \<Rightarrow> (sender \<times> upstream_account) list" where
  "routed d = List.map_filter (\<lambda>s. map_option (\<lambda>a. (s, a)) (account_of d s)) (enabled_senders_with_upstream d)"

definition password_of :: "(bytes \<Rightarrow> secret_error + pystr) \<Rightarrow> upstream_account \<Rightarrow> pystr" where
  "password_of decrypt a = (case decrypt (ua_encrypted_password a) of Inr p \<Rightarrow> p | Inl _ \<Rightarrow> [])"

lemma build_entries_eq:
  "build_entries decrypt d ss = Inr (rs, ps, ts, policy) \<Longrightarrow>
   (let R = List.map_filter (\<lambda>s. map_option (\<lambda>a. (s, a)) (account_of d s)) ss
    in rs = map (\<lambda>(s, a). relayhost_line s a) R \<and>
       ps = map (\<lambda>(s, a). sasl_passwd_line s a (password_of decrypt a)) R \<and>
       ts = map (\<lambda>(s, a). sender_transport_line s a) R \<and>
       policy = concat (map (\<lambda>(s, a). if ua_tls_skip_verify a then [(nexthop a, ''encrypt'')] else []) R) \<and>
       (\<forall>(s, a)\<in>set R. \<exists>p. decrypt (ua_encrypted_password a) = Inr p))"
proof (induction ss arbitrary: rs ps ts policy)
  case (Cons s ss)
  show ?case
  proof (cases "account_of d s")
    case None
    then show ?thesis using Cons by (simp add: map_filter_simps)
  next
    case (Some a)
    obtain p rs1 ps1 ts1 pol1 where p: "decrypt (ua_encrypted_password a) = Inr p"
      and r: "build_entries decrypt d ss = Inr (rs1, ps1, ts1, pol1)"
      and eq: "rs = relayhost_line s a # rs1" "ps = sasl_passwd_line s a p # ps1"
        "ts = sender_transport_line s a # ts1"
        "policy = (if ua_tls_skip_verify a then [(nexthop a, ''encrypt'')] else []) @ pol1"
      using Cons.prems Some by (auto split: sum.splits prod.splits)
    show ?thesis using Cons.IH [OF r] p eq Some by (simp add: map_filter_simps Let_def password_of_def)
  qed
qed (simp add: map_filter_simps)

lemma build_maps_eq:
  assumes "build_maps decrypt d = Inr (maps, warnings)"
  shows "map_of maps ''sender_login'' = Some (map_text (sender_login_lines d))"
    and "map_of maps ''sender_relayhost'' = Some (map_text (map (\<lambda>(s, a). relayhost_line s a) (routed d)))"
    and "map_of maps ''sasl_passwd'' = Some (map_text (map (\<lambda>(s, a). sasl_passwd_line s a (password_of decrypt a)) (routed d)))"
    and "map_of maps ''sender_transport'' = Some (map_text (map (\<lambda>(s, a). sender_transport_line s a) (routed d)))"
    and "map_of maps ''tls_policy'' = Some (policy_text (concat (map (\<lambda>(s, a).
           if ua_tls_skip_verify a then [(nexthop a, ''encrypt'')] else []) (routed d))))"
    and "\<forall>(s, a)\<in>set (routed d). \<exists>p. decrypt (ua_encrypted_password a) = Inr p"
proof -
  obtain rs ps ts policy where r: "build_entries decrypt d (enabled_senders_with_upstream d) = Inr (rs, ps, ts, policy)"
    using assms by (auto simp: build_maps_def split: sum.splits prod.splits)
  note eq = build_entries_eq [OF r, folded routed_def, unfolded Let_def]
  have m: "maps = [(''sender_login'', map_text (sender_login_lines d)), (''sender_relayhost'', map_text rs),
      (''sasl_passwd'', map_text ps), (''sender_transport'', map_text ts), (''tls_policy'', policy_text policy)]"
    using assms by (simp add: build_maps_def r)
  show "map_of maps ''sender_login'' = Some (map_text (sender_login_lines d))"
    and "map_of maps ''sender_relayhost'' = Some (map_text (map (\<lambda>(s, a). relayhost_line s a) (routed d)))"
    and "map_of maps ''sasl_passwd'' = Some (map_text (map (\<lambda>(s, a). sasl_passwd_line s a (password_of decrypt a)) (routed d)))"
    and "map_of maps ''sender_transport'' = Some (map_text (map (\<lambda>(s, a). sender_transport_line s a) (routed d)))"
    and "map_of maps ''tls_policy'' = Some (policy_text (concat (map (\<lambda>(s, a).
           if ua_tls_skip_verify a then [(nexthop a, ''encrypt'')] else []) (routed d))))"
    and "\<forall>(s, a)\<in>set (routed d). \<exists>p. decrypt (ua_encrypted_password a) = Inr p"
    using eq by (simp_all add: m)
qed

lemma set_routed: "(s, a) \<in> set (routed d) \<longleftrightarrow> s \<in> set (senders d) \<and> routable d s \<and> account_of d s = Some a"
  by (auto simp: routed_def enabled_senders_with_upstream_def List.map_filter_def routable_def image_iff
      split: option.splits)

lemma account_in: "account_of d s = Some a \<Longrightarrow> a \<in> set (accounts d) \<and> ua_id a = sn_upstream_account_id s"
  unfolding account_of_def by (drule tbl_get_SomeD) simp

lemma routed_safe:
  assumes "fields_safe decrypt d" "(s, a) \<in> set (routed d)" "\<forall>(s, a)\<in>set (routed d). \<exists>p. decrypt (ua_encrypted_password a) = Inr p"
  shows "map_safe (sn_address s)" "map_safe (nexthop a)" "map_safe (ua_username a @ '':'' @ password_of decrypt a)"
    "map_safe (transport_name_for a @ '':'')"
  using assms account_in [of d s a]
  by (auto simp: fields_safe_def set_routed nexthop_def map_safe_digits map_safe_Cons transport_name_for_def
      password_of_def split: sum.splits)

lemma parse_lines:
  assumes "\<And>x. x \<in> set xs \<Longrightarrow> map_safe (k x) \<and> map_safe (v x)"
  shows "parse_map (map_text (map (\<lambda>x. tab_join [k x, v x]) xs)) = map (\<lambda>x. (k x, v x)) xs"
  using assms line_ok map_record_join map_safe_lf by (subst parse_map_text) auto

lemma login_map_members:
  assumes "(address, us) \<in> set (sender_login_map d)"
  shows "us \<noteq> []" "u \<in> set us \<Longrightarrow> may_send d u address"
proof -
  have m: "map_of (sender_login_map d) address = Some us" using assms login_map_distinct [of d] by simp
  have "us = map snd (filter (\<lambda>r. fst r = address) (sort (login_rows d)))"
    "us \<noteq> []" using m by (auto simp: login_map_lookup Let_def split: if_splits)
  then show "us \<noteq> []" "u \<in> set us \<Longrightarrow> may_send d u address" by (auto simp: login_rows_iff [symmetric])
qed

text \<open>
  No record is ever smuggled into a lookup map: when the strings in the database keep the schemas'
  rules, reading the five generated files line by line gives exactly the intended records, one per
  authorized address in the login map and one per routed sender in the others, with the relay host,
  credentials and transport of the sender's own upstream account.
\<close>

lemma maps_read_back:
  assumes "fields_safe decrypt d" "build_maps decrypt d = Inr (maps, warnings)"
  shows "parse_map (the (map_of maps ''sender_login'')) =
      map (\<lambda>(address, us). (address, join '','' us)) (sort_key fst (sender_login_map d)) \<and>
    parse_map (the (map_of maps ''sender_relayhost'')) = map (\<lambda>(s, a). (sn_address s, nexthop a)) (routed d) \<and>
    parse_map (the (map_of maps ''sasl_passwd'')) =
      map (\<lambda>(s, a). (sn_address s, ua_username a @ '':'' @ password_of decrypt a)) (routed d) \<and>
    parse_map (the (map_of maps ''sender_transport'')) =
      map (\<lambda>(s, a). (sn_address s, transport_name_for a @ '':'')) (routed d)"
proof -
  note m = build_maps_eq [OF assms(2)] and safe = routed_safe [OF assms(1) _ build_maps_eq(6) [OF assms(2)]]
  have us_safe: "map_safe (fst e) \<and> map_safe (join '','' (snd e))" if e: "e \<in> set (sort_key fst (sender_login_map d))" for e
  proof -
    obtain address us where eq: "e = (address, us)" by fastforce
    then have mem: "(address, us) \<in> set (sender_login_map d)" using e by simp
    have "\<forall>u\<in>set us. map_safe u" "map_safe address"
      using login_map_members [OF mem] assms(1)
      by (auto simp: may_send_def fields_safe_def) (metis last_in_set)
    moreover have "map_safe '',''" by (simp add: map_safe_def tab_def lf_def)
    ultimately show ?thesis using set_join [of "'',''" us] by (auto simp: eq map_safe_def)
  qed
  have r: "map_safe (sn_address (fst x)) \<and> map_safe (nexthop (snd x)) \<and>
      map_safe (ua_username (snd x) @ '':'' @ password_of decrypt (snd x)) \<and>
      map_safe (transport_name_for (snd x) @ '':'')" if "x \<in> set (routed d)" for x
    using safe [of "fst x" "snd x"] that by simp
  note login = parse_lines [of "sort_key fst (sender_login_map d)" fst "\<lambda>e. join '','' (snd e)", OF us_safe]
  note hosts = parse_lines [of "routed d" "\<lambda>x. sn_address (fst x)" "\<lambda>x. nexthop (snd x)"]
  note passwds = parse_lines [of "routed d" "\<lambda>x. sn_address (fst x)" "\<lambda>x. ua_username (snd x) @ '':'' @ password_of decrypt (snd x)"]
  note transports = parse_lines [of "routed d" "\<lambda>x. sn_address (fst x)" "\<lambda>x. transport_name_for (snd x) @ '':''"]
  show ?thesis
    unfolding m(1-4) option.sel sender_login_lines_def relayhost_line_def sasl_passwd_line_def
      sender_transport_line_def case_prod_unfold
    using login hosts passwds transports r by blast
qed

section \<open>Authorized implies routed\<close>

lemma may_send_routable:
  assumes "may_send d u address" "keys_distinct ua_id (accounts d)"
  shows "\<exists>s\<in>set (senders d). sn_address s = address \<and> routable d s"
proof -
  obtain s a where s: "s \<in> set (senders d)" "sn_address s = address" "sn_enabled s"
    and a: "a \<in> set (accounts d)" "ua_id a = sn_upstream_account_id s" "ua_enabled a"
    using assms(1) by (auto simp: may_send_def)
  have "account_of d s = Some a" using tbl_get_mem [OF assms(2) a(1)] a(2) by (simp add: account_of_def)
  then show ?thesis using s a(3) by (auto simp: routable_def)
qed

lemma map_of_routed:
  assumes "keys_distinct sn_address (senders d)" "(s, a) \<in> set (routed d)"
  shows "map_of (map (\<lambda>(s, a). (sn_address s, f s a)) (routed d)) (sn_address s) = Some (f s a)"
proof (rule ccontr)
  let ?R = "map (\<lambda>(s, a). (sn_address s, f s a)) (routed d)"
  assume neq: "map_of ?R (sn_address s) \<noteq> Some (f s a)"
  have "(sn_address s, f s a) \<in> set ?R" using assms(2) by force
  then have "sn_address s \<in> fst ` set ?R" by (rule image_eqI [rotated]) simp
  then obtain v where v: "map_of ?R (sn_address s) = Some v"
    using map_of_eq_None_iff [of ?R "sn_address s"] by (cases "map_of ?R (sn_address s)") simp_all
  then obtain s' a' where s': "(s', a') \<in> set (routed d)" "sn_address s' = sn_address s" "v = f s' a'"
    using map_of_SomeD [OF v] by auto
  have "s' = s" using keys_distinct_inj [OF assms(1)] s'(1,2) assms(2) by (auto simp: set_routed)
  moreover have "a' = a" using s'(1) assms(2) calculation by (auto simp: set_routed)
  ultimately show False using v s'(3) neq by simp
qed

lemma rate_limited_mem:
  assumes "s \<in> set ss" "account_of d s = Some a" "ua_rate_limit_per_hour a \<noteq> None" "keys_distinct ua_id (accounts d)"
  shows "map_of (fold (\<lambda>s accts. case account_of d s of None \<Rightarrow> accts
      | Some a \<Rightarrow> if ua_rate_limit_per_hour a \<noteq> None then AList.update (ua_id a) a accts else accts) ss m) (ua_id a) = Some a"
proof -
  let ?f = "\<lambda>s accts. case account_of d s of None \<Rightarrow> accts
      | Some a \<Rightarrow> if ua_rate_limit_per_hour a \<noteq> None then AList.update (ua_id a) a accts else accts"
  have keep: "map_of (fold ?f ss m) (ua_id a) = Some a" if "map_of m (ua_id a) = Some a" for ss m
    using that
  proof (induction ss arbitrary: m)
    case (Cons s' ss)
    have "map_of (?f s' m) (ua_id a) = Some a"
    proof (cases "account_of d s'")
      case (Some a')
      have "a' = a" if "ua_id a' = ua_id a"
        using keys_distinct_inj [OF assms(4)] account_in [OF Some] account_in [OF assms(2)] that by blast
      then show ?thesis using Some Cons.prems by (auto simp: update_conv')
    qed (use Cons.prems in simp)
    then show ?case using Cons.IH by simp
  qed simp
  show ?thesis using assms(1)
  proof (induction ss arbitrary: m)
    case (Cons s' ss)
    show ?case
    proof (cases "s' = s")
      case True
      have "map_of (?f s m) (ua_id a) = Some a" using assms(2,3) by (simp add: update_conv')
      then show ?thesis using keep True by simp
    next
      case False
      then show ?thesis using Cons by simp
    qed
  qed simp
qed

definition transport_exists :: "db \<Rightarrow> pystr \<Rightarrow> bool" where
  "transport_exists d name \<longleftrightarrow> name = ''smtp'' \<or> name = ''smtp_implicit_tls'' \<or>
     (\<exists>t\<in>set (rate_limited_account_transports d). name = ''rl_acct'' @ str_of_int (rt_account_id t))"

lemma transport_name_exists:
  assumes "(s, a) \<in> set (routed d)" "keys_distinct ua_id (accounts d)"
  shows "transport_exists d (transport_name_for a)"
proof (cases "ua_rate_limit_per_hour a")
  case (Some n)
  let ?m = "fold (\<lambda>s accts. case account_of d s of None \<Rightarrow> accts
      | Some a \<Rightarrow> if ua_rate_limit_per_hour a \<noteq> None then AList.update (ua_id a) a accts else accts)
    (enabled_senders_with_upstream d) []"
  have "s \<in> set (enabled_senders_with_upstream d)" "account_of d s = Some a"
    using assms(1) by (auto simp: set_routed enabled_senders_with_upstream_def)
  then have "map_of ?m (ua_id a) = Some a" using rate_limited_mem [OF _ _ _ assms(2)] Some by blast
  then have "a \<in> set (map snd ?m)" by (force dest: map_of_SomeD)
  then have "\<exists>t\<in>set (rate_limited_account_transports d). rt_account_id t = ua_id a"
    by (force simp: rate_limited_account_transports_def Let_def)
  moreover have "transport_name_for a = ''rl_acct'' @ str_of_int (ua_id a)"
    using Some by (simp add: transport_name_for_def)
  ultimately show ?thesis unfolding transport_exists_def by metis
qed (auto simp: transport_exists_def transport_name_for_def)


section \<open>Certificate verification per nexthop\<close>

lemma policy_text_map_text:
  "concat (map (\<lambda>(n, l). tab_join [n, l] @ [lf]) es) = map_text (map (\<lambda>e. tab_join [fst e, snd e]) es)"
proof (induction es)
  case (Cons e es)
  then show ?case by (cases es) (simp_all add: map_text_def split_beta)
qed (simp add: map_text_def)

lemma map_of_fold_update:
  "map_of (fold (\<lambda>(n, l). AList.update n l) es m) k =
     (case map_of (rev es) k of None \<Rightarrow> map_of m k | Some v \<Rightarrow> Some v)"
  by (induction es arbitrary: m) (auto simp: update_conv' map_add_def split: option.splits)

lemma distinct_fold_update:
  "distinct (map fst m) \<Longrightarrow> distinct (map fst (fold (\<lambda>(n, l). AList.update n l) es m))"
  by (induction es arbitrary: m) (auto simp: distinct_update)

lemma map_of_sort_key:
  assumes "distinct (map fst m)" shows "map_of (sort_key fst m) k = map_of m k"
proof -
  have d: "distinct (map fst (sort_key fst m))" using assms by (simp add: distinct_map)
  show ?thesis
  proof (cases "map_of m k")
    case None
    then have "k \<notin> fst ` set m" by (simp only: map_of_eq_None_iff simp_thms)
    then have "k \<notin> fst ` set (sort_key fst m)" by (simp only: set_sort simp_thms)
    then have "map_of (sort_key fst m) k = None" by (simp only: map_of_eq_None_iff simp_thms)
    then show ?thesis using None by (simp only:)
  next
    case (Some v)
    then have "(k, v) \<in> set (sort_key fst m)" by (simp add: map_of_SomeD)
    then show ?thesis using Some d by simp
  qed
qed

text \<open>
  Certificate verification is lifted exactly where somebody opted out: the policy map lists a
  nexthop, with level \<open>encrypt\<close>, if and only if an enabled sender uses an enabled upstream account with
  that host and port and \<open>tls_skip_verify\<close>; every other nexthop keeps the default \<open>secure\<close>.
\<close>

lemma tls_policy_scope:
  assumes "fields_safe decrypt d" "build_maps decrypt d = Inr (maps, warnings)"
  shows "map_of (parse_map (the (map_of maps ''tls_policy''))) host_port =
    (if \<exists>s\<in>set (senders d). \<exists>a. routable d s \<and> account_of d s = Some a \<and> nexthop a = host_port \<and> ua_tls_skip_verify a
     then Some ''encrypt'' else None)"
proof -
  define P where "P = concat (map (\<lambda>(s, a). if ua_tls_skip_verify a then [(nexthop a, ''encrypt'')] else []) (routed d))"
  let ?D = "fold (\<lambda>(n, l). AList.update n l) P []"
  have P: "(n, l) \<in> set P \<longleftrightarrow> l = ''encrypt'' \<and> (\<exists>s a. (s, a) \<in> set (routed d) \<and> ua_tls_skip_verify a \<and> n = nexthop a)" for n l
    unfolding P_def by fastforce
  have lookup: "map_of ?D k = (if k \<in> fst ` set P then Some ''encrypt'' else None)" for k
  proof (cases "map_of (rev P) k")
    case None
    then have "k \<notin> fst ` set P" by (metis map_of_eq_None_iff set_rev)
    then show ?thesis using None by (simp add: map_of_fold_update)
  next
    case (Some v)
    then have kv: "(k, v) \<in> set P" by (metis map_of_SomeD set_rev)
    then have "v = ''encrypt''" using P by blast
    moreover have "k \<in> fst ` set P" using kv by (rule rev_image_eqI) simp
    ultimately have "map_of ?D k = Some ''encrypt''" "k \<in> fst ` set P"
      using Some by (simp_all add: map_of_fold_update)
    then show ?thesis by simp
  qed
  have dist: "distinct (map fst ?D)" by (rule distinct_fold_update) simp
  have safe: "map_safe (fst e) \<and> map_safe (snd e)" if "e \<in> set (sort_key fst ?D)" for e
  proof -
    have "map_of ?D (fst e) = Some (snd e)" using dist that by simp
    then have e: "fst e \<in> fst ` set P" "snd e = ''encrypt''" by (simp_all add: lookup split: if_splits)
    obtain l where l: "(fst e, l) \<in> set P" using imageE [OF e(1)] by (metis prod.collapse)
    then obtain s a where R: "(s, a) \<in> set (routed d)" "fst e = nexthop a"
      using P [of "fst e" l] by blast
    show ?thesis
      using routed_safe(2) [OF assms(1) R(1) build_maps_eq(6) [OF assms(2)]] R(2) e(2)
      by (simp add: map_safe_Cons)
  qed
  have "parse_map (the (map_of maps ''tls_policy'')) = sort_key fst ?D"
    using parse_lines [of "sort_key fst ?D" fst snd, OF safe]
    by (simp add: build_maps_eq(5) [OF assms(2)] policy_text_def policy_text_map_text P_def)
  then have "map_of (parse_map (the (map_of maps ''tls_policy''))) host_port = map_of ?D host_port"
    by (simp add: map_of_sort_key [OF dist])
  moreover have "host_port \<in> fst ` set P \<longleftrightarrow>
      (\<exists>s\<in>set (senders d). \<exists>a. routable d s \<and> account_of d s = Some a \<and> nexthop a = host_port \<and> ua_tls_skip_verify a)"
  proof -
    have "host_port \<in> fst ` set P \<longleftrightarrow> (\<exists>l. (host_port, l) \<in> set P)" by force
    also have "\<dots> \<longleftrightarrow> (\<exists>s a. (s, a) \<in> set (routed d) \<and> ua_tls_skip_verify a \<and> host_port = nexthop a)"
      unfolding P by simp
    finally show ?thesis unfolding set_routed by (simp add: Bex_def) (metis (no_types))
  qed
  ultimately show ?thesis by (simp add: lookup)
qed

section \<open>Pacing\<close>

text \<open>
  The pacing keeps an upstream account within its limit: the delay between deliveries is the least
  number of whole seconds \<open>s\<close> with \<open>s * limit \<ge> 3600\<close>, so no hour holds more than \<open>limit\<close> of them.
\<close>

lemma rate_delay_least:
  assumes "0 < n"
  shows "3600 \<le> rate_delay_seconds n * n \<and> (rate_delay_seconds n - 1) * n < 3600 \<and> 0 < rate_delay_seconds n"
proof -
  define q where "q = (- 3600) div n"
  have "- 3600 = q * n + (- 3600) mod n" by (simp add: q_def)
  moreover have "0 \<le> (- 3600) mod n" "(- 3600) mod n < n" using assms by simp_all
  ultimately have b: "q * n \<le> - 3600" "- 3600 < q * n + n" by linarith+
  have "q < 0"
  proof (rule ccontr)
    assume "\<not> q < 0"
    then have "0 \<le> q * n" using assms by simp
    then show False using b by linarith
  qed
  then show ?thesis using b by (simp add: rate_delay_seconds_def q_def [symmetric] algebra_simps)
qed

section \<open>Witnesses\<close>

definition demo_account :: upstream_account where
  "demo_account = \<lparr>ua_id = 5, ua_name = ''Mail'', ua_host = ''smtp.example.net'', ua_port = 587,
     ua_tls_mode = Starttls, ua_username = ''relay'', ua_encrypted_password = ''pw'', ua_enabled = True,
     ua_last_test_at = None, ua_last_test_result = None, ua_last_test_error = None,
     ua_rate_limit_per_hour = Some 100, ua_tls_skip_verify = False, ua_created_at = 0\<rparr>"

definition demo_sender :: sender where
  "demo_sender = \<lparr>sn_id = 7, sn_address = ''news@example.com'', sn_upstream_account_id = 5, sn_enabled = True,
     sn_description = None, sn_created_at = 0\<rparr>"

definition demo_mail_user :: local_smtp_user where
  "demo_mail_user = \<lparr>lu_id = 1, lu_name = ''App'', lu_username = ''app'', lu_password_hash = ''h'',
     lu_enabled = True, lu_created_at = 0, lu_password_last_rotated_at = None,
     lu_rate_limit_per_hour = None, lu_rate_limit_burst = None,
     lu_streak_started_at = None, lu_streak_last_at = None\<rparr>"

definition demo_mail_db :: db where
  "demo_mail_db = grant_permission 0 1 7 None
     (empty_db\<lparr>local_users := [demo_mail_user], senders := [demo_sender], accounts := [demo_account]\<rparr>)"

definition demo_maps :: "(pystr \<times> pystr) list" where
  "demo_maps = fst (projr (build_maps Inr demo_mail_db))"

lemma demo_fields_safe: "fields_safe Inr demo_mail_db"
  by (simp add: fields_safe_def demo_mail_db_def grant_permission_def empty_db_def demo_sender_def
      demo_account_def demo_mail_user_def map_safe_Cons)

lemma demo_build: "build_maps Inr demo_mail_db = Inr (demo_maps, [])"
proof -
  have "\<not> isl (build_maps Inr demo_mail_db)" "snd (projr (build_maps Inr demo_mail_db)) = []"
    by code_simp+
  then show ?thesis by (cases "build_maps Inr demo_mail_db") (auto simp: demo_maps_def)
qed

lemma demo_keys: "keys_distinct sn_address (senders demo_mail_db)" "keys_distinct ua_id (accounts demo_mail_db)"
  by (simp_all add: demo_mail_db_def grant_permission_def empty_db_def)


text \<open>
  The opt-out is a setting of one account, but the policy is per host and port: an account that asks
  for verification loses it when another one with the same nexthop opted out.
\<close>

definition demo_shared_db :: db where
  "demo_shared_db = demo_mail_db
     \<lparr>senders := [demo_sender, demo_sender\<lparr>sn_id := 8, sn_address := ''b@example.com'', sn_upstream_account_id := 6\<rparr>],
      accounts := [demo_account, demo_account\<lparr>ua_id := 6, ua_tls_skip_verify := True\<rparr>]\<rparr>"

lemma shared_nexthop_loses_verification:
  "account_of demo_shared_db demo_sender = Some demo_account \<and> \<not> ua_tls_skip_verify demo_account \<and>
   map_of (parse_map (the (map_of (fst (projr (build_maps Inr demo_shared_db))) ''tls_policy''))) (nexthop demo_account) =
     Some ''encrypt''"
  by code_simp

end
