(* ===== verification/Rate_Limit_Policy.thy ===== *)
theory Rate_Limit_Policy
  imports Models
begin

text \<open>
  \<open>backend/app/core/rate_limit_policy.py\<close>, the accept/defer decision for one message: the hourly
  counter (\<open>LocalUserRateLimitCounter\<close>), the token bucket (\<open>LocalUserBurstBucket\<close>) and the streak
  of deferrals on the user row.  The wire protocol around it is in \<open>Policy_Service\<close>.
\<close>

section \<open>The decision\<close>

definition DEFER_STREAK_GAP :: timedelta where
  "DEFER_STREAK_GAP = minutes 10"

text \<open>\<open>_DUNNO\<close>, \<open>_HOURLY_DEFER\<close> (with the limit it is formatted with) and \<open>_BURST_DEFER\<close>.\<close>

datatype policy_response = DUNNO | HOURLY_DEFER int | BURST_DEFER

definition window_start_of :: "datetime \<Rightarrow> datetime" where
  "window_start_of now = now - now mod hours 1"

definition refill_burst_tokens :: "burst_bucket \<Rightarrow> int \<Rightarrow> int \<Rightarrow> datetime \<Rightarrow> rat" where
  "refill_burst_tokens bucket capacity rate_limit_per_hour now =
     (let refill_rate_per_second = fl (fl (of_int rate_limit_per_hour) / 3600);
          elapsed_seconds = fl (of_int (now - bb_last_refill_at bucket) / 1000000)
      in min (fl (of_int capacity))
             (fl (bb_tokens bucket + fl (elapsed_seconds * refill_rate_per_second))))"

type_synonym counter_key = "int \<times> datetime"

definition counter_key :: "rate_limit_counter \<Rightarrow> counter_key" where
  "counter_key c = (rc_local_smtp_user_id c, rc_window_start c)"

text \<open>The counter of the current window, added with count 0 when the window has none yet.\<close>

definition get_counter :: "int \<Rightarrow> datetime \<Rightarrow> db \<Rightarrow> rate_limit_counter \<times> db" where
  "get_counter user_id w d =
     (case tbl_get counter_key (user_id, w) (counters d) of
        Some c \<Rightarrow> (c, d)
      | None \<Rightarrow>
          (let c = \<lparr>rc_local_smtp_user_id = user_id, rc_window_start = w, rc_count = 0\<rparr>
           in (c, d\<lparr>counters := counters d @ [c]\<rparr>)))"

text \<open>The user's bucket, added full when there is none yet.\<close>

definition get_bucket :: "int \<Rightarrow> int \<Rightarrow> datetime \<Rightarrow> db \<Rightarrow> burst_bucket \<times> db" where
  "get_bucket user_id capacity now d =
     (case tbl_get bb_local_smtp_user_id user_id (buckets d) of
        Some b \<Rightarrow> (b, d)
      | None \<Rightarrow>
          (let b = \<lparr>bb_local_smtp_user_id = user_id, bb_tokens = fl (of_int capacity),
                    bb_last_refill_at = now\<rparr>
           in (b, d\<lparr>buckets := buckets d @ [b]\<rparr>)))"

definition set_bucket :: "int \<Rightarrow> rat \<Rightarrow> datetime \<Rightarrow> db \<Rightarrow> db" where
  "set_bucket user_id tokens now d =
     d\<lparr>buckets := tbl_upd bb_local_smtp_user_id user_id
        (\<lambda>b. b\<lparr>bb_tokens := tokens, bb_last_refill_at := now\<rparr>) (buckets d)\<rparr>"

definition upd_user :: "int \<Rightarrow> (local_smtp_user \<Rightarrow> local_smtp_user) \<Rightarrow> db \<Rightarrow> db" where
  "upd_user user_id f d = d\<lparr>local_users := tbl_upd lu_id user_id f (local_users d)\<rparr>"

text \<open>The streak fields after a deferral at \<open>now\<close>.\<close>

definition mark_defer :: "datetime \<Rightarrow> local_smtp_user \<Rightarrow> local_smtp_user" where
  "mark_defer now u =
     (let u' = (case (lu_streak_started_at u, lu_streak_last_at u) of
                  (Some s, Some last_defer) \<Rightarrow>
                    if now - last_defer > DEFER_STREAK_GAP then u\<lparr>lu_streak_started_at := Some now\<rparr> else u
                | _ \<Rightarrow> u\<lparr>lu_streak_started_at := Some now\<rparr>)
      in u'\<lparr>lu_streak_last_at := Some now\<rparr>)"

definition clear_streak :: "local_smtp_user \<Rightarrow> local_smtp_user" where
  "clear_streak u = u\<lparr>lu_streak_started_at := None, lu_streak_last_at := None\<rparr>"

text \<open>\<open>evaluate\<close> from the point where the user is known to have an hourly limit.\<close>

definition evaluate_limited :: "datetime \<Rightarrow> local_smtp_user \<Rightarrow> int \<Rightarrow> db \<Rightarrow> policy_response \<times> db" where
  "evaluate_limited now user limit d =
     (let w = window_start_of now;
          (counter, d1) = get_counter (lu_id user) w d;
          hourly_ok = rc_count counter < limit;
          (bucket, d2) = (case lu_rate_limit_burst user of
              None \<Rightarrow> (None, d1)
            | Some cap \<Rightarrow>
                (let (b, d') = get_bucket (lu_id user) cap now d1
                 in (Some (refill_burst_tokens b cap limit now), d')));
          burst_ok = (case bucket of None \<Rightarrow> True | Some tokens_after \<Rightarrow> tokens_after \<ge> 1)
      in if \<not> hourly_ok \<or> \<not> burst_ok then
           (let d3 = (case bucket of None \<Rightarrow> d2 | Some tokens_after \<Rightarrow>
                        set_bucket (lu_id user) tokens_after now d2);
                d4 = upd_user (lu_id user) (mark_defer now) d3
            in (if \<not> hourly_ok then HOURLY_DEFER limit else BURST_DEFER, d4))
         else
           (let d3 = d2\<lparr>counters := tbl_upd counter_key (lu_id user, w)
                          (\<lambda>c. c\<lparr>rc_count := rc_count c + 1\<rparr>) (counters d2)\<rparr>;
                d4 = (case bucket of None \<Rightarrow> d3 | Some tokens_after \<Rightarrow>
                        set_bucket (lu_id user) (fl (tokens_after - 1)) now d3);
                d5 = upd_user (lu_id user) clear_streak d4
            in (DUNNO, d5)))"

definition user_by_name :: "pystr \<Rightarrow> db \<Rightarrow> local_smtp_user option" where
  "user_by_name username d = tbl_get lu_username username (local_users d)"

definition evaluate :: "datetime \<Rightarrow> (pystr \<times> pystr) list \<Rightarrow> db \<Rightarrow> policy_response \<times> db" where
  "evaluate now attrs d =
     (case map_of attrs ''sasl_username'' of
        None \<Rightarrow> (DUNNO, d)
      | Some username \<Rightarrow>
          if username = [] then (DUNNO, d)
          else (case user_by_name username d of
              None \<Rightarrow> (DUNNO, d)
            | Some user \<Rightarrow>
                (case lu_rate_limit_per_hour user of
                   None \<Rightarrow> (DUNNO, d)
                 | Some limit \<Rightarrow> evaluate_limited now user limit d)))"

section \<open>Read-only readouts\<close>

definition current_usage :: "datetime \<Rightarrow> int \<Rightarrow> db \<Rightarrow> int" where
  "current_usage now user_id d =
     (case tbl_get counter_key (user_id, window_start_of now) (counters d) of
        Some c \<Rightarrow> rc_count c | None \<Rightarrow> 0)"

definition current_burst_tokens :: "datetime \<Rightarrow> int \<Rightarrow> int \<Rightarrow> int \<Rightarrow> db \<Rightarrow> rat" where
  "current_burst_tokens now user_id burst per_hour d =
     (case tbl_get bb_local_smtp_user_id user_id (buckets d) of
        None \<Rightarrow> fl (of_int burst)
      | Some b \<Rightarrow> refill_burst_tokens b burst per_hour now)"

section \<open>What one evaluation does\<close>

text \<open>The count of a window and the tokens of a user as functions of the database.\<close>

definition count_of :: "db \<Rightarrow> int \<Rightarrow> datetime \<Rightarrow> int" where
  "count_of d uid w =
     (case tbl_get counter_key (uid, w) (counters d) of Some c \<Rightarrow> rc_count c | None \<Rightarrow> 0)"

definition bucket_of :: "db \<Rightarrow> int \<Rightarrow> (rat \<times> datetime) option" where
  "bucket_of d uid =
     map_option (\<lambda>b. (bb_tokens b, bb_last_refill_at b)) (tbl_get bb_local_smtp_user_id uid (buckets d))"

definition user_of :: "db \<Rightarrow> int \<Rightarrow> local_smtp_user option" where
  "user_of d uid = tbl_get lu_id uid (local_users d)"

definition refill :: "int \<Rightarrow> int \<Rightarrow> (rat \<times> datetime) option \<Rightarrow> datetime \<Rightarrow> rat" where
  "refill capacity per_hour b now =
     (case b of
        None \<Rightarrow> fl (of_int capacity)
      | Some (tokens, t0) \<Rightarrow>
          min (fl (of_int capacity))
            (fl (tokens + fl (fl (of_int (now - t0) / 1000000) * fl (fl (of_int per_hour) / 3600)))))"

lemma current_usage_eq: "current_usage now uid d = count_of d uid (window_start_of now)"
  by (simp add: current_usage_def count_of_def)

lemma current_burst_tokens_eq: "current_burst_tokens now uid cap per_hour d = refill cap per_hour (bucket_of d uid) now"
  by (auto simp: current_burst_tokens_def refill_def bucket_of_def refill_burst_tokens_def Let_def
      split: option.splits)

definition hourly_ok :: "datetime \<Rightarrow> local_smtp_user \<Rightarrow> int \<Rightarrow> db \<Rightarrow> bool" where
  "hourly_ok now u limit d \<longleftrightarrow> count_of d (lu_id u) (window_start_of now) < limit"

definition burst_ok :: "datetime \<Rightarrow> local_smtp_user \<Rightarrow> int \<Rightarrow> db \<Rightarrow> bool" where
  "burst_ok now u limit d \<longleftrightarrow>
     (case lu_rate_limit_burst u of None \<Rightarrow> True
      | Some cap \<Rightarrow> 1 \<le> refill cap limit (bucket_of d (lu_id u)) now)"


lemma get_counter_facts:
  assumes "get_counter uid w d = (c, d')"
  shows "rc_count c = count_of d uid w"
    and "tbl_get counter_key (uid, w) (counters d') = Some c"
    and "\<And>i v. count_of d' i v = count_of d i v"
    and "buckets d' = buckets d" and "local_users d' = local_users d"
  using assms
  by (auto simp: get_counter_def count_of_def tbl_get_append counter_key_def Let_def
      split: option.splits if_splits)

lemma get_bucket_facts:
  assumes "get_bucket uid cap now d = (b, d')"
  shows "refill_burst_tokens b cap per_hour now = refill cap per_hour (bucket_of d uid) now"
    and "tbl_get bb_local_smtp_user_id uid (buckets d') = Some b"
    and "\<And>i. i \<noteq> uid \<Longrightarrow> bucket_of d' i = bucket_of d i"
    and "counters d' = counters d" and "local_users d' = local_users d"
  using assms
  by (auto simp: get_bucket_def refill_burst_tokens_def refill_def bucket_of_def tbl_get_append Let_def
      split: option.splits if_splits)

lemma bucket_of_set_bucket:
  "tbl_get bb_local_smtp_user_id uid (buckets d) = Some b \<Longrightarrow>
   bucket_of (set_bucket uid tok now d) i = (if i = uid then Some (tok, now) else bucket_of d i)"
  by (simp add: bucket_of_def set_bucket_def tbl_get_upd)

lemma set_bucket_simps [simp]:
  "counters (set_bucket uid tok now d) = counters d"
  "local_users (set_bucket uid tok now d) = local_users d"
  "count_of (set_bucket uid tok now d) i v = count_of d i v"
  by (simp_all add: set_bucket_def count_of_def)

lemma upd_user_simps [simp]:
  "counters (upd_user uid f d) = counters d"
  "buckets (upd_user uid f d) = buckets d"
  "count_of (upd_user uid f d) i v = count_of d i v"
  "bucket_of (upd_user uid f d) i = bucket_of d i"
  "local_users (upd_user uid f d) = tbl_upd lu_id uid f (local_users d)"
  by (simp_all add: upd_user_def count_of_def bucket_of_def)

lemma bucket_of_counters [simp]: "bucket_of (d\<lparr>counters := x\<rparr>) i = bucket_of d i"
  by (simp add: bucket_of_def)

text \<open>The three abstractions of the state after one limited evaluation.\<close>

definition bucket_after :: "datetime \<Rightarrow> local_smtp_user \<Rightarrow> int \<Rightarrow> bool \<Rightarrow> db \<Rightarrow> (rat \<times> datetime) option" where
  "bucket_after now u limit permitted d =
     (case lu_rate_limit_burst u of
        None \<Rightarrow> bucket_of d (lu_id u)
      | Some cap \<Rightarrow>
          (let tok = refill cap limit (bucket_of d (lu_id u)) now
           in Some (if permitted then fl (tok - 1) else tok, now)))"

lemma evaluate_limited_spec:
  assumes "evaluate_limited now u limit d = (r, d')"
  shows "r = (if \<not> hourly_ok now u limit d then HOURLY_DEFER limit
              else if \<not> burst_ok now u limit d then BURST_DEFER else DUNNO)"
    and "count_of d' i v = count_of d i v +
           (if r = DUNNO \<and> i = lu_id u \<and> v = window_start_of now then 1 else 0)"
    and "bucket_of d' i = (if i = lu_id u then bucket_after now u limit (r = DUNNO) d else bucket_of d i)"
    and "local_users d' =
           tbl_upd lu_id (lu_id u) (if r = DUNNO then clear_streak else mark_defer now) (local_users d)"
proof -
  obtain c d1 where c: "get_counter (lu_id u) (window_start_of now) d = (c, d1)" by fastforce
  note cf = get_counter_facts [OF c]
  have b1: "bucket_of d1 j = bucket_of d j" for j by (simp add: bucket_of_def cf(4))
  have res: "(r = (if \<not> hourly_ok now u limit d then HOURLY_DEFER limit
              else if \<not> burst_ok now u limit d then BURST_DEFER else DUNNO)) \<and>
    (count_of d' i v = count_of d i v +
           (if r = DUNNO \<and> i = lu_id u \<and> v = window_start_of now then 1 else 0)) \<and>
    (bucket_of d' i = (if i = lu_id u then bucket_after now u limit (r = DUNNO) d else bucket_of d i)) \<and>
    (local_users d' =
           tbl_upd lu_id (lu_id u) (if r = DUNNO then clear_streak else mark_defer now) (local_users d))"
  proof (cases "lu_rate_limit_burst u")
    case None
    then have ok: "hourly_ok now u limit d \<longleftrightarrow> rc_count c < limit" "burst_ok now u limit d"
      by (simp_all add: hourly_ok_def cf(1) burst_ok_def)
    have k1: "count_of (d1\<lparr>counters := tbl_upd counter_key (lu_id u, window_start_of now)
        (\<lambda>c. c\<lparr>rc_count := rc_count c + 1\<rparr>) (counters d1)\<rparr>) j w =
        count_of d j w + (if j = lu_id u \<and> w = window_start_of now then 1 else 0)" for j w
      using cf(3) [of j w] cf(2) by (auto simp: count_of_def tbl_get_upd counter_key_def split: option.splits)
    have ba: "bucket_after now u limit p d = bucket_of d (lu_id u)" for p
      by (simp add: bucket_after_def None)
    show ?thesis
    proof (cases "hourly_ok now u limit d")
      case True
      then have "evaluate_limited now u limit d = (DUNNO, upd_user (lu_id u) clear_streak
          (d1\<lparr>counters := tbl_upd counter_key
            (lu_id u, window_start_of now) (\<lambda>c. c\<lparr>rc_count := rc_count c + 1\<rparr>) (counters d1)\<rparr>))"
        by (simp add: evaluate_limited_def c None ok)
      then show ?thesis using assms True ok k1 ba b1 cf(5) by simp
    next
      case False
      then have "evaluate_limited now u limit d =
          (HOURLY_DEFER limit, upd_user (lu_id u) (mark_defer now) d1)"
        by (auto simp: evaluate_limited_def c None ok)
      then show ?thesis using assms False ok cf(3) ba b1 cf(5) by simp
    qed
  next
    case (Some cap)
    obtain b d2 where b: "get_bucket (lu_id u) cap now d1 = (b, d2)" by fastforce
    note bf = get_bucket_facts [OF b]
    have c2: "count_of d2 j w = count_of d j w" for j w
      using cf(3) by (simp add: count_of_def bf(4))
    have b2: "tbl_get bb_local_smtp_user_id (lu_id u) (buckets (d2\<lparr>counters := x\<rparr>)) = Some b" for x
      using bf(2) by simp
    have g2: "tbl_get counter_key (lu_id u, window_start_of now) (counters d2) = Some c"
      using cf(2) by (simp add: bf(4))
    have k2: "count_of (d2\<lparr>counters := tbl_upd counter_key (lu_id u, window_start_of now)
        (\<lambda>c. c\<lparr>rc_count := rc_count c + 1\<rparr>) (counters d2)\<rparr>) j w =
        count_of d j w + (if j = lu_id u \<and> w = window_start_of now then 1 else 0)" for j w
      using c2 [of j w] g2 by (auto simp: count_of_def tbl_get_upd counter_key_def split: option.splits)
    define tok where "tok = refill cap limit (bucket_of d (lu_id u)) now"
    have t: "refill_burst_tokens b cap limit now = tok" by (simp add: bf(1) b1 tok_def)
    have ba: "bucket_after now u limit p d = Some (if p then fl (tok - 1) else tok, now)" for p
      by (simp add: bucket_after_def Some tok_def)
    have ok: "hourly_ok now u limit d \<longleftrightarrow> rc_count c < limit" "burst_ok now u limit d \<longleftrightarrow> 1 \<le> tok"
      by (simp_all add: hourly_ok_def cf(1) burst_ok_def Some tok_def)
    have b3: "bucket_of d2 j = bucket_of d j" if "j \<noteq> lu_id u" for j
      using bf(3) [OF that] b1 by simp
    note rules = c2 k2 ba bucket_of_set_bucket [OF bf(2)] bucket_of_set_bucket [OF b2] b3
      bf(5) cf(5)
    show ?thesis
    proof (cases "hourly_ok now u limit d \<and> burst_ok now u limit d")
      case True
      then have "evaluate_limited now u limit d = (DUNNO, upd_user (lu_id u) clear_streak
          (set_bucket (lu_id u) (fl (tok - 1)) now (d2\<lparr>counters := tbl_upd counter_key
            (lu_id u, window_start_of now) (\<lambda>c. c\<lparr>rc_count := rc_count c + 1\<rparr>) (counters d2)\<rparr>)))"
        by (simp add: evaluate_limited_def c b Some t ok)
      then show ?thesis using assms True rules by simp
    next
      case False
      then have "evaluate_limited now u limit d =
          (if hourly_ok now u limit d then BURST_DEFER else HOURLY_DEFER limit,
           upd_user (lu_id u) (mark_defer now) (set_bucket (lu_id u) tok now d2))"
        by (auto simp: evaluate_limited_def c b Some t ok)
      then show ?thesis using assms False rules by auto
    qed
  qed
  from res show "r = (if \<not> hourly_ok now u limit d then HOURLY_DEFER limit
              else if \<not> burst_ok now u limit d then BURST_DEFER else DUNNO)" by blast
  from res show "count_of d' i v = count_of d i v +
           (if r = DUNNO \<and> i = lu_id u \<and> v = window_start_of now then 1 else 0)" by blast
  from res show "bucket_of d' i = (if i = lu_id u then bucket_after now u limit (r = DUNNO) d
      else bucket_of d i)" by blast
  from res show "local_users d' = tbl_upd lu_id (lu_id u)
      (if r = DUNNO then clear_streak else mark_defer now) (local_users d)" by blast
qed

section \<open>Runs of the policy service\<close>

text \<open>
  \<open>_evaluate_lock\<close> serialises the evaluations, so a run of the service is a list of requests with
  the clock reading of each; the database goes from one to the next.
\<close>

type_synonym policy_event = "datetime \<times> (pystr \<times> pystr) list"

definition sender_of :: "policy_event \<Rightarrow> pystr option" where
  "sender_of ev = map_of (snd ev) ''sasl_username''"

text \<open>The times at which messages of \<open>name\<close> were permitted, and the database at the end.\<close>

primrec permitted :: "pystr \<Rightarrow> policy_event list \<Rightarrow> db \<Rightarrow> datetime list" where
  "permitted name [] d = []"
| "permitted name (ev # evs) d =
     (let (r, d') = evaluate (fst ev) (snd ev) d
      in (if sender_of ev = Some name \<and> r = DUNNO then [fst ev] else []) @ permitted name evs d')"

primrec policy_run :: "policy_event list \<Rightarrow> db \<Rightarrow> db" where
  "policy_run [] d = d"
| "policy_run (ev # evs) d = policy_run evs (snd (evaluate (fst ev) (snd ev) d))"

text \<open>What the decision reads of a user: id, hourly limit, burst.\<close>

definition profile :: "pystr \<Rightarrow> db \<Rightarrow> (int \<times> int option \<times> int option) option" where
  "profile name d =
     map_option (\<lambda>u. (lu_id u, lu_rate_limit_per_hour u, lu_rate_limit_burst u)) (user_by_name name d)"

lemma streak_keeps [simp]:
  "lu_id (mark_defer now u) = lu_id u" "lu_id (clear_streak u) = lu_id u"
  "lu_username (mark_defer now u) = lu_username u" "lu_username (clear_streak u) = lu_username u"
  "lu_rate_limit_per_hour (mark_defer now u) = lu_rate_limit_per_hour u"
  "lu_rate_limit_per_hour (clear_streak u) = lu_rate_limit_per_hour u"
  "lu_rate_limit_burst (mark_defer now u) = lu_rate_limit_burst u"
  "lu_rate_limit_burst (clear_streak u) = lu_rate_limit_burst u"
  "lu_enabled (mark_defer now u) = lu_enabled u" "lu_enabled (clear_streak u) = lu_enabled u"
  "lu_password_hash (mark_defer now u) = lu_password_hash u"
  "lu_password_hash (clear_streak u) = lu_password_hash u"
  by (simp_all add: mark_defer_def clear_streak_def Let_def split: option.splits)

text \<open>An evaluation either leaves the database alone or is a limited one for the named user.\<close>

lemma evaluate_cases:
  assumes "evaluate now attrs d = (r, d')"
  obtains (free) "r = DUNNO" "d' = d"
      "\<And>n uid l c. map_of attrs ''sasl_username'' = Some n \<Longrightarrow> n \<noteq> [] \<Longrightarrow> profile n d \<noteq> Some (uid, Some l, c)"
    | (limited) n u limit where "map_of attrs ''sasl_username'' = Some n" "n \<noteq> []"
      "user_by_name n d = Some u" "lu_rate_limit_per_hour u = Some limit"
      "evaluate_limited now u limit d = (r, d')"
proof (cases "map_of attrs ''sasl_username''")
  case None
  then show thesis using assms that(1) by (simp add: evaluate_def)
next
  case (Some n)
  show thesis
  proof (cases "n = [] \<or> profile n d = None \<or> (\<exists>u. user_by_name n d = Some u \<and> lu_rate_limit_per_hour u = None)")
    case True
    have "r = DUNNO" "d' = d" using assms Some True
      by (cases "n = []"; force simp: evaluate_def profile_def)+
    moreover have "profile m d \<noteq> Some (uid, Some l, c)"
      if "map_of attrs ''sasl_username'' = Some m" "m \<noteq> []" for m uid l c
      using that Some True by (auto simp: profile_def)
    ultimately show thesis using that(1) by blast
  next
    case False
    then obtain u l where "user_by_name n d = Some u" "lu_rate_limit_per_hour u = Some l"
      by (auto simp: profile_def)
    then show thesis using that(2) Some False assms by (simp add: evaluate_def)
  qed
qed

lemma user_by_name_streak:
  assumes "\<And>u. lu_username (f u) = lu_username u"
    and "local_users d' = tbl_upd lu_id uid f (local_users d)"
  shows "user_by_name n d' = map_option (\<lambda>u. if lu_id u = uid then f u else u) (user_by_name n d)"
  using assms by (simp add: user_by_name_def tbl_get_upd_other)

lemma evaluate_profile:
  assumes "evaluate now attrs d = (r, d')"
  shows "profile n d' = profile n d"
    and "keys_distinct lu_id (local_users d) \<Longrightarrow> keys_distinct lu_id (local_users d')"
proof -
  have "profile n d' = profile n d \<and>
    (keys_distinct lu_id (local_users d) \<longrightarrow> keys_distinct lu_id (local_users d'))"
    using assms
  proof (cases rule: evaluate_cases)
    case (limited m u limit)
    note lu = evaluate_limited_spec(4) [OF limited(5)]
    have "user_by_name n d' = map_option
        (\<lambda>v. if lu_id v = lu_id u then (if r = DUNNO then clear_streak else mark_defer now) v else v)
        (user_by_name n d)"
      by (rule user_by_name_streak [OF _ lu]) simp
    then show ?thesis by (cases "user_by_name n d") (auto simp: profile_def lu keys_distinct_upd)
  qed simp
  then show "profile n d' = profile n d"
    and "keys_distinct lu_id (local_users d) \<Longrightarrow> keys_distinct lu_id (local_users d')" by blast+
qed

lemma user_by_name_id_inj:
  assumes "keys_distinct lu_id (local_users d)" "user_by_name n d = Some u" "user_by_name m d = Some v"
    "lu_id u = lu_id v"
  shows "n = m"
proof -
  have "u \<in> set (local_users d)" "lu_username u = n" "v \<in> set (local_users d)" "lu_username v = m"
    using assms(2,3) tbl_get_SomeD unfolding user_by_name_def by metis+
  then show ?thesis using keys_distinct_inj [OF assms(1)] assms(4) by metis
qed

text \<open>One evaluation, seen from the user with a given name and a limit.\<close>

lemma evaluate_subject:
  assumes ev: "evaluate now attrs d = (r, d')"
    and dist: "keys_distinct lu_id (local_users d)"
    and prof: "profile n d = Some (uid, Some L, cap)" and n: "n \<noteq> []"
  shows "count_of d' uid w = count_of d uid w +
      (if sender_of (now, attrs) = Some n \<and> r = DUNNO \<and> w = window_start_of now then 1 else 0)"
    and "sender_of (now, attrs) = Some n \<Longrightarrow> r = DUNNO \<longleftrightarrow>
      count_of d uid (window_start_of now) < L \<and>
      (case cap of None \<Rightarrow> True | Some c \<Rightarrow> 1 \<le> refill c L (bucket_of d uid) now)"
    and "bucket_of d' uid =
      (if sender_of (now, attrs) = Some n then
         (case cap of None \<Rightarrow> bucket_of d uid
          | Some c \<Rightarrow> let tok = refill c L (bucket_of d uid) now
                      in Some (if r = DUNNO then fl (tok - 1) else tok, now))
       else bucket_of d uid)"
proof -
  obtain u where u: "user_by_name n d = Some u" "lu_id u = uid" "lu_rate_limit_per_hour u = Some L"
      "lu_rate_limit_burst u = cap"
    using prof by (auto simp: profile_def)
  have "(count_of d' uid w = count_of d uid w +
      (if sender_of (now, attrs) = Some n \<and> r = DUNNO \<and> w = window_start_of now then 1 else 0)) \<and>
    (sender_of (now, attrs) = Some n \<longrightarrow> r = DUNNO \<longleftrightarrow>
      count_of d uid (window_start_of now) < L \<and>
      (case cap of None \<Rightarrow> True | Some c \<Rightarrow> 1 \<le> refill c L (bucket_of d uid) now)) \<and>
    (bucket_of d' uid =
      (if sender_of (now, attrs) = Some n then
         (case cap of None \<Rightarrow> bucket_of d uid
          | Some c \<Rightarrow> let tok = refill c L (bucket_of d uid) now
                      in Some (if r = DUNNO then fl (tok - 1) else tok, now))
       else bucket_of d uid))"
    using ev
  proof (cases rule: evaluate_cases)
    case free
    then have "sender_of (now, attrs) \<noteq> Some n" using prof n by (auto simp: sender_of_def)
    then show ?thesis using free by simp
  next
    case (limited m v limit)
    note spec = evaluate_limited_spec [OF limited(5)]
    show ?thesis
    proof (cases "m = n")
      case True
      then have "v = u" "limit = L" using limited u by auto
      then show ?thesis using True limited(1) u spec(1) spec(2) [of uid w] spec(3) [of uid]
        by (simp add: sender_of_def hourly_ok_def burst_ok_def bucket_after_def Let_def split: option.splits)
    next
      case False
      then have "lu_id v \<noteq> uid" using user_by_name_id_inj [OF dist u(1) limited(3)] u(2) by auto
      then show ?thesis using False limited(1) spec(2) [of uid w] spec(3) [of uid]
        by (simp add: sender_of_def)
    qed
  qed
  then show "count_of d' uid w = count_of d uid w +
      (if sender_of (now, attrs) = Some n \<and> r = DUNNO \<and> w = window_start_of now then 1 else 0)"
    and "sender_of (now, attrs) = Some n \<Longrightarrow> r = DUNNO \<longleftrightarrow>
      count_of d uid (window_start_of now) < L \<and>
      (case cap of None \<Rightarrow> True | Some c \<Rightarrow> 1 \<le> refill c L (bucket_of d uid) now)"
    and "bucket_of d' uid =
      (if sender_of (now, attrs) = Some n then
         (case cap of None \<Rightarrow> bucket_of d uid
          | Some c \<Rightarrow> let tok = refill c L (bucket_of d uid) now
                      in Some (if r = DUNNO then fl (tok - 1) else tok, now))
       else bucket_of d uid)" by blast+
qed

section \<open>The hourly ceiling\<close>

definition in_window :: "datetime \<Rightarrow> datetime list \<Rightarrow> nat" where
  "in_window w ts = length (filter (\<lambda>t. window_start_of t = w) ts)"

lemma run_count:
  assumes "keys_distinct lu_id (local_users d)" "profile n d = Some (uid, Some L, cap)" "n \<noteq> []"
  shows "count_of (policy_run evs d) uid w = count_of d uid w + int (in_window w (permitted n evs d)) \<and>
    (in_window w (permitted n evs d) = 0 \<or> count_of (policy_run evs d) uid w \<le> L)"
  using assms
proof (induction evs arbitrary: d)
  case Nil
  then show ?case by (simp add: in_window_def)
next
  case (Cons ev evs)
  obtain r d' where ev: "evaluate (fst ev) (snd ev) d = (r, d')" by fastforce
  note sub = evaluate_subject [OF ev Cons.prems]
  have "profile n d' = Some (uid, Some L, cap)" "keys_distinct lu_id (local_users d')"
    using Cons.prems evaluate_profile [OF ev] by simp_all
  then have IH: "count_of (policy_run evs d') uid w = count_of d' uid w + int (in_window w (permitted n evs d'))"
    "in_window w (permitted n evs d') = 0 \<or> count_of (policy_run evs d') uid w \<le> L"
    using Cons.IH [of d'] Cons.prems(3) by blast+
  define hit where "hit \<longleftrightarrow> sender_of ev = Some n \<and> r = DUNNO \<and> window_start_of (fst ev) = w"
  have run: "policy_run (ev # evs) d = policy_run evs d'"
    "in_window w (permitted n (ev # evs) d) = (if hit then 1 else 0) + in_window w (permitted n evs d')"
    by (auto simp: ev in_window_def hit_def)
  have "count_of d' uid w = count_of d uid w + (if hit then 1 else 0)"
    using sub(1) [of w] by (auto simp: hit_def)
  moreover have "hit \<Longrightarrow> count_of d uid w < L" using sub(2) by (auto simp: hit_def)
  ultimately show ?case unfolding run using IH by (cases hit) auto
qed

text \<open>
  C1. The hourly ceiling over any interleaving of requests of any users: from a database \<open>d\<close> in
  which user ids are unique and \<open>n\<close> has the hourly limit \<open>L\<close>, whatever sequence of requests the service
  answers, the counter of a window advances by exactly the messages of \<open>n\<close> permitted in it, and their
  number never exceeds what \<open>d\<close> had left of \<open>L\<close>.
\<close>

theorem hourly_ceiling:
  assumes "keys_distinct lu_id (local_users d)" "profile n d = Some (uid, Some L, cap)" "n \<noteq> []"
  shows "count_of (policy_run evs d) uid w = count_of d uid w + int (in_window w (permitted n evs d)) \<and>
    int (in_window w (permitted n evs d)) \<le> max 0 (L - count_of d uid w)"
  using run_count [OF assms, of evs w] by auto

section \<open>The burst bound\<close>

text \<open>Tokens refilled in one microsecond at \<open>L\<close> messages per hour, with the float rounding on top.\<close>

definition refill_per_us :: "int \<Rightarrow> rat" where
  "refill_per_us L = of_int L / 3600 / 1000000 * (1 + 1 / 2 ^ 53) ^ 3"

definition bucket_ok :: "int \<Rightarrow> (rat \<times> datetime) option \<Rightarrow> datetime \<Rightarrow> bool" where
  "bucket_ok C b now \<longleftrightarrow> (case b of None \<Rightarrow> True | Some (T, t) \<Rightarrow> 0 \<le> T \<and> T \<le> of_int C \<and> t \<le> now)"

text \<open>An upper bound of the tokens a refill can give at \<open>now\<close>.\<close>

definition avail :: "int \<Rightarrow> int \<Rightarrow> (rat \<times> datetime) option \<Rightarrow> datetime \<Rightarrow> rat" where
  "avail C L b now =
     (case b of None \<Rightarrow> of_int C | Some (T, t) \<Rightarrow> min (of_int C) (T + of_int (now - t) * refill_per_us L))"

lemma avail_le: "avail C L b now \<le> of_int C"
  by (auto simp: avail_def split: option.splits)

lemma avail_later:
  assumes "now \<le> t" "0 \<le> L"
  shows "avail C L b t \<le> avail C L b now + of_int (t - now) * refill_per_us L"
proof -
  have k: "0 \<le> refill_per_us L" using assms(2) by (simp add: refill_per_us_def)
  then have p: "0 \<le> of_int (t - now) * refill_per_us L" using assms(1) by simp
  show ?thesis
  proof (cases b)
    case (Some x)
    obtain T t0 where x: "x = (T, t0)" by fastforce
    have "of_int (t - t0) * refill_per_us L =
        of_int (now - t0) * refill_per_us L + of_int (t - now) * refill_per_us L"
      by (simp add: algebra_simps)
    then show ?thesis using p unfolding Some x avail_def by (simp add: min_def; linarith)
  qed (use p in \<open>simp add: avail_def\<close>)
qed

lemma refill_range:
  assumes b: "bucket_ok C b now" and C: "0 \<le> C" "C \<le> 2 ^ 53" and L: "0 \<le> L" "L \<le> 2 ^ 53"
  shows "0 \<le> refill C L b now" "refill C L b now \<le> of_int C"
    "refill C L b now \<le> avail C L b now + of_int C / 2 ^ 53"
proof -
  have flC: "fl (of_int C) = of_int C" using C by (intro fl_int) simp
  have "0 \<le> refill C L b now \<and> refill C L b now \<le> of_int C \<and>
    refill C L b now \<le> avail C L b now + of_int C / 2 ^ 53"
  proof (cases b)
    case None
    then show ?thesis using C by (simp add: refill_def avail_def flC)
  next
    case (Some y)
    then obtain T t where y: "b = Some (T, t)" by (cases y) auto
    have T: "0 \<le> T" "T \<le> of_int C" "t \<le> now" using b by (simp_all add: bucket_ok_def y)
    let ?e = "of_int (now - t) / 1000000 :: rat" and ?r = "of_int L / 3600 :: rat"
    define x where "x = fl (fl ?e * fl ?r)"
    have e: "0 \<le> ?e" and r: "0 \<le> ?r" using T(3) L(1) by simp_all
    have x0: "0 \<le> x" unfolding x_def using e r by (intro float.rnd_nonneg mult_nonneg_nonneg)
    have "x \<le> ?e * ?r * (1 + 1 / 2 ^ 53) ^ 3"
      unfolding x_def using e r by (rule float.rnd_product_upper)
    also have "\<dots> = of_int (now - t) * refill_per_us L" by (simp add: refill_per_us_def)
    finally have x1: "x \<le> of_int (now - t) * refill_per_us L" .
    have flL: "fl (of_int L) = of_int L" using L by (intro fl_int) simp
    have ref: "refill C L b now = min (of_int C) (fl (T + x))"
      by (simp add: refill_def y flC flL x_def)
    note ca = float.capped_add [OF T(1,2) C x0]
    have "refill C L b now \<le> avail C L b now + of_int C / 2 ^ 53"
      using ca(2,3) x1 C unfolding ref by (simp add: avail_def y; linarith)
    then show ?thesis using ca(1,2) unfolding ref by simp
  qed
  then show "0 \<le> refill C L b now" "refill C L b now \<le> of_int C"
    "refill C L b now \<le> avail C L b now + of_int C / 2 ^ 53" by blast+
qed

definition asked :: "pystr \<Rightarrow> policy_event list \<Rightarrow> nat" where
  "asked n evs = length (filter (\<lambda>ev. sender_of ev = Some n) evs)"

text \<open>The bucket after one evaluation of the user it belongs to.\<close>

lemma bucket_step:
  assumes ev: "evaluate (fst ev) (snd ev) d = (r, d')" and dist: "keys_distinct lu_id (local_users d)"
    and prof: "profile n d = Some (uid, Some L, Some C)" and n: "n \<noteq> []"
    and b: "bucket_ok C (bucket_of d uid) (fst ev)"
    and C: "0 \<le> C" "C \<le> 2 ^ 53" and L: "0 \<le> L" "L \<le> 2 ^ 53"
  shows "bucket_ok C (bucket_of d' uid) (fst ev)"
    and "avail C L (bucket_of d' uid) (fst ev) + (if sender_of ev = Some n \<and> r = DUNNO then 1 else 0) \<le>
      avail C L (bucket_of d uid) (fst ev) + (if sender_of ev = Some n then 2 * of_int C / 2 ^ 53 else 0)"
proof -
  have evp: "(fst ev, snd ev) = ev" by simp
  note sub = evaluate_subject [OF ev dist prof n, unfolded evp]
  let ?t = "fst ev"
  define tok where "tok = refill C L (bucket_of d uid) ?t"
  note rr = refill_range [OF b C L, folded tok_def]
  have "bucket_ok C (bucket_of d' uid) ?t \<and>
    avail C L (bucket_of d' uid) ?t + (if sender_of ev = Some n \<and> r = DUNNO then 1 else 0) \<le>
      avail C L (bucket_of d uid) ?t + (if sender_of ev = Some n then 2 * of_int C / 2 ^ 53 else 0)"
  proof (cases "sender_of ev = Some n")
    case False
    then show ?thesis using sub(3) b by simp
  next
    case True
    then have bk: "bucket_of d' uid = Some (if r = DUNNO then fl (tok - 1) else tok, ?t)"
      using sub(3) by (simp add: tok_def Let_def)
    have av: "avail C L (bucket_of d' uid) ?t \<le> (if r = DUNNO then fl (tok - 1) else tok)"
      by (simp add: bk avail_def)
    have pos: "(0::rat) \<le> of_int C / 2 ^ 53" using C by simp
    show ?thesis
    proof (cases "r = DUNNO")
      case dunno: True
      then have "1 \<le> tok" using sub(2) [OF True] by (simp add: tok_def)
      note to = float.take_one [OF this rr(2) C(2)]
      have "bucket_ok C (bucket_of d' uid) ?t" using to(1,2) dunno by (simp add: bk bucket_ok_def)
      then show ?thesis using av to(3) rr(3) True dunno by auto
    next
      case deny: False
      have "bucket_ok C (bucket_of d' uid) ?t" using rr(1,2) deny by (simp add: bk bucket_ok_def)
      then show ?thesis using av rr(3) pos True deny by auto
    qed
  qed
  then show "bucket_ok C (bucket_of d' uid) ?t"
    and "avail C L (bucket_of d' uid) ?t + (if sender_of ev = Some n \<and> r = DUNNO then 1 else 0) \<le>
      avail C L (bucket_of d uid) ?t + (if sender_of ev = Some n then 2 * of_int C / 2 ^ 53 else 0)"
    by blast+
qed

lemma bucket_ok_later: "bucket_ok C b now \<Longrightarrow> now \<le> t \<Longrightarrow> bucket_ok C b t"
  by (auto simp: bucket_ok_def split: option.splits)

lemma burst_run:
  assumes "keys_distinct lu_id (local_users d)" "profile n d = Some (uid, Some L, Some C)" "n \<noteq> []"
    and "0 \<le> C" "C \<le> 2 ^ 53" "0 \<le> L" "L \<le> 2 ^ 53"
    and "bucket_ok C (bucket_of d uid) t0" and "sorted (map fst evs)"
    and "\<forall>ev\<in>set evs. t0 \<le> fst ev \<and> fst ev \<le> t1" and "t0 \<le> t1"
  shows "of_nat (length (permitted n evs d)) \<le>
    avail C L (bucket_of d uid) t0 + of_int (t1 - t0) * refill_per_us L + 2 * of_int C / 2 ^ 53 * of_nat (asked n evs)
    \<and> bucket_ok C (bucket_of (policy_run evs d) uid) t1"
  using assms
proof (induction evs arbitrary: d t0)
  case Nil
  have "0 \<le> of_int (t1 - t0) * refill_per_us L" using Nil.prems by (simp add: refill_per_us_def)
  moreover have "0 \<le> avail C L (bucket_of d uid) t0"
    using Nil.prems by (auto simp: avail_def bucket_ok_def refill_per_us_def split: option.splits)
  ultimately show ?case using bucket_ok_later Nil.prems(8,11) by (auto simp: asked_def)
next
  case (Cons ev evs)
  obtain r d' where ev: "evaluate (fst ev) (snd ev) d = (r, d')" by fastforce
  have t: "t0 \<le> fst ev" "fst ev \<le> t1" using Cons.prems(10) by simp_all
  note dist = Cons.prems(1) note prof = Cons.prems(2)
  have b: "bucket_ok C (bucket_of d uid) (fst ev)" using bucket_ok_later [OF Cons.prems(8) t(1)] .
  note step = bucket_step [OF ev dist prof Cons.prems(3) b Cons.prems(4,5,6,7)]
  have IH: "of_nat (length (permitted n evs d')) \<le> avail C L (bucket_of d' uid) (fst ev) +
      of_int (t1 - fst ev) * refill_per_us L + 2 * of_int C / 2 ^ 53 * of_nat (asked n evs)"
    "bucket_ok C (bucket_of (policy_run evs d') uid) t1"
    using Cons.IH [of d' "fst ev"] Cons.prems evaluate_profile [OF ev] step(1) t by auto
  have later: "avail C L (bucket_of d uid) (fst ev) \<le>
      avail C L (bucket_of d uid) t0 + of_int (fst ev - t0) * refill_per_us L"
    using avail_later [OF t(1) Cons.prems(6)] .
  have len: "(of_nat (length (permitted n (ev # evs) d)) :: rat) =
      (if sender_of ev = Some n \<and> r = DUNNO then 1 else 0) + of_nat (length (permitted n evs d'))"
    by (simp add: ev)
  have asked: "2 * of_int C / 2 ^ 53 * (of_nat (asked n (ev # evs)) :: rat) =
      (if sender_of ev = Some n then 2 * of_int C / 2 ^ 53 else 0) + 2 * of_int C / 2 ^ 53 * of_nat (asked n evs)"
    by (simp add: asked_def algebra_simps add_divide_distrib)
  have time: "of_int (t1 - t0) * refill_per_us L =
      of_int (fst ev - t0) * refill_per_us L + of_int (t1 - fst ev) * refill_per_us L"
    by (simp add: algebra_simps)
  have "of_nat (length (permitted n (ev # evs) d)) \<le> avail C L (bucket_of d uid) t0 +
      of_int (t1 - t0) * refill_per_us L + 2 * of_int C / 2 ^ 53 * of_nat (asked n (ev # evs))"
    using IH(1) step(2) later unfolding len asked time by linarith
  then show ?case using IH(2) by (simp add: ev)
qed

text \<open>
  C18. Burst protection holds across every window boundary: while the clock does not run backwards,
  the messages of \<open>n\<close> permitted between \<open>t0\<close> and \<open>t1\<close> are at most the bucket's capacity plus the
  refill of that time at the hourly rate, up to the float rounding of \<open>m\<close> evaluations (\<open>2\<^sup>-\<^sup>5\<^sup>2\<close> of the
  capacity each); so \<open>2 * C\<close> messages can never pass within seconds, unlike with two fixed windows.
  The stored tokens stay between 0 and the capacity.
\<close>

theorem burst_bound:
  assumes "keys_distinct lu_id (local_users d)" "profile n d = Some (uid, Some L, Some C)" "n \<noteq> []"
    and "0 \<le> C" "C \<le> 2 ^ 53" "0 \<le> L" "L \<le> 2 ^ 53"
    and "bucket_ok C (bucket_of d uid) t0" and "sorted (map fst evs)"
    and "\<forall>ev\<in>set evs. t0 \<le> fst ev \<and> fst ev \<le> t1" and "t0 \<le> t1"
  shows "of_nat (length (permitted n evs d)) \<le>
      of_int C + of_int (t1 - t0) * refill_per_us L + 2 * of_int C / 2 ^ 53 * of_nat (asked n evs) \<and>
    bucket_ok C (bucket_of (policy_run evs d) uid) t1"
  using burst_run [OF assms] avail_le [of C L "bucket_of d uid" t0] by linarith

section \<open>What one decision is and costs\<close>

text \<open>
  The decision on one message of a limited user, on every branch: the hourly check is reported
  before the burst check, the message is permitted exactly when the window has room and a whole token
  is there, a permitted message costs one of the counter and one token, and a deferred one costs
  neither (the bucket only keeps its refill); counters of other users and windows, and other buckets,
  do not change.
\<close>

lemma decision_cost:
  assumes "user_by_name n d = Some u" "lu_rate_limit_per_hour u = Some L" "n \<noteq> []"
    and "evaluate now attrs d = (r, d')" and "map_of attrs ''sasl_username'' = Some n"
  shows "r = (if count_of d (lu_id u) (window_start_of now) \<ge> L then HOURLY_DEFER L
              else if \<not> burst_ok now u L d then BURST_DEFER else DUNNO) \<and>
    count_of d' i w = count_of d i w +
      (if r = DUNNO \<and> i = lu_id u \<and> w = window_start_of now then 1 else 0) \<and>
    bucket_of d' i = (if i = lu_id u then bucket_after now u L (r = DUNNO) d else bucket_of d i)"
proof -
  have "evaluate_limited now u L d = (r, d')" using assms by (simp add: evaluate_def)
  from evaluate_limited_spec [OF this] show ?thesis
    by (auto simp: hourly_ok_def split: if_splits)
qed

section \<open>The streak of deferrals\<close>

text \<open>The decisions on the messages of \<open>n\<close>, in order: when, and whether the message was deferred.\<close>

primrec decision_log :: "pystr \<Rightarrow> policy_event list \<Rightarrow> db \<Rightarrow> (datetime \<times> bool) list" where
  "decision_log n [] d = []"
| "decision_log n (ev # evs) d =
     (let (r, d') = evaluate (fst ev) (snd ev) d
      in (if sender_of ev = Some n then [(fst ev, r \<noteq> DUNNO)] else []) @ decision_log n evs d')"

text \<open>
  The reference: of a log, newest decision first, the deferrals since the last permitted message,
  each at most \<open>DEFER_STREAK_GAP\<close> after the one before it.
\<close>

fun current_streak :: "(datetime \<times> bool) list \<Rightarrow> datetime list" where
  "current_streak [] = []"
| "current_streak ((t, deferred) # older) =
     (if \<not> deferred then []
      else t # (case current_streak older of [] \<Rightarrow> []
                | t' # ts \<Rightarrow> if t - t' > DEFER_STREAK_GAP then [] else t' # ts))"

definition streak_fields :: "datetime list \<Rightarrow> datetime option \<times> datetime option" where
  "streak_fields ts = (if ts = [] then (None, None) else (Some (last ts), Some (hd ts)))"

definition user_streak :: "pystr \<Rightarrow> db \<Rightarrow> (datetime option \<times> datetime option) option" where
  "user_streak n d =
     map_option (\<lambda>u. (lu_streak_started_at u, lu_streak_last_at u)) (user_by_name n d)"

lemma mark_defer_streak:
  assumes "(lu_streak_started_at u, lu_streak_last_at u) = streak_fields (current_streak older)"
  shows "(lu_streak_started_at (mark_defer now u), lu_streak_last_at (mark_defer now u)) =
    streak_fields (current_streak ((now, True) # older))"
  using assms
  by (cases "current_streak older")
    (auto simp: mark_defer_def streak_fields_def Let_def split: option.splits if_splits)

lemma evaluate_streak:
  assumes ev: "evaluate (fst ev) (snd ev) d = (r, d')"
    and dist: "keys_distinct lu_id (local_users d)"
    and prof: "profile n d = Some (uid, Some L, cap)" and n: "n \<noteq> []"
    and hist: "user_streak n d = Some (streak_fields (current_streak older))"
  shows "user_streak n d' = Some (streak_fields (current_streak
    ((if sender_of ev = Some n then [(fst ev, r \<noteq> DUNNO)] else []) @ older)))"
  using ev
proof (cases rule: evaluate_cases)
  case free
  then have "sender_of ev \<noteq> Some n" using prof n by (auto simp: sender_of_def)
  then show ?thesis using free hist by simp
next
  case (limited m v limit)
  obtain u where u: "user_by_name n d = Some u" using prof by (auto simp: profile_def)
  have us: "(lu_streak_started_at u, lu_streak_last_at u) = streak_fields (current_streak older)"
    using hist u by (simp add: user_streak_def)
  have d': "user_by_name n d' = Some (if lu_id u = lu_id v
      then (if r = DUNNO then clear_streak u else mark_defer (fst ev) u) else u)"
    using user_by_name_streak [OF _ evaluate_limited_spec(4) [OF limited(5)], of n] u
    by (simp split: if_splits)
  show ?thesis
  proof (cases "m = n")
    case True
    then have "v = u" "sender_of ev = Some n" using limited(1,3) u by (simp_all add: sender_of_def)
    then show ?thesis using d' mark_defer_streak [OF us, of "fst ev"]
      by (simp add: user_streak_def clear_streak_def streak_fields_def)
  next
    case False
    then have "lu_id u \<noteq> lu_id v" "sender_of ev \<noteq> Some n"
      using user_by_name_id_inj [OF dist u limited(3)] limited(1) by (auto simp: sender_of_def)
    then show ?thesis using d' us by (simp add: user_streak_def)
  qed
qed

lemma streak_run:
  assumes "keys_distinct lu_id (local_users d)" "profile n d = Some (uid, Some L, cap)" "n \<noteq> []"
    and "user_streak n d = Some (streak_fields (current_streak older))"
  shows "user_streak n (policy_run evs d) =
    Some (streak_fields (current_streak (rev (decision_log n evs d) @ older)))"
  using assms
proof (induction evs arbitrary: d older)
  case (Cons ev evs)
  obtain r d' where ev: "evaluate (fst ev) (snd ev) d = (r, d')" by fastforce
  have "user_streak n (policy_run evs d') = Some (streak_fields (current_streak
      (rev (decision_log n evs d') @ (if sender_of ev = Some n then [(fst ev, r \<noteq> DUNNO)] else []) @ older)))"
    using evaluate_streak [OF ev Cons.prems] evaluate_profile [OF ev] Cons.prems
    by (intro Cons.IH) auto
  then show ?case by (auto simp: ev split: if_splits)
qed simp

text \<open>
  C30. The two streak columns of a user always describe the current unbroken run of rejections: from
  a user without a streak, after any requests, they hold the first and the last time of the deferrals
  since the last permitted message with no gap over ten minutes, or nothing when there is none.
\<close>

theorem streak_refines_log:
  assumes "keys_distinct lu_id (local_users d)" "profile n d = Some (uid, Some L, cap)" "n \<noteq> []"
    and "user_streak n d = Some (None, None)"
  shows "user_streak n (policy_run evs d) =
    Some (streak_fields (current_streak (rev (decision_log n evs d))))"
  using streak_run [of d n uid L cap "[]" evs] assms by (simp add: streak_fields_def)

section \<open>Witnesses\<close>

definition demo_user :: local_smtp_user where
  "demo_user = \<lparr>lu_id = 1, lu_name = ''App'', lu_username = ''app'', lu_password_hash = ''h'',
     lu_enabled = True, lu_created_at = 0, lu_password_last_rotated_at = None,
     lu_rate_limit_per_hour = Some 3600, lu_rate_limit_burst = Some 1,
     lu_streak_started_at = None, lu_streak_last_at = None\<rparr>"

definition demo_printer :: local_smtp_user where
  "demo_printer = demo_user\<lparr>lu_id := 2, lu_username := ''printer'', lu_rate_limit_per_hour := Some 2,
     lu_rate_limit_burst := None\<rparr>"

definition demo_db :: db where
  "demo_db = empty_db\<lparr>local_users := [demo_user, demo_printer]\<rparr>"

definition ask :: "pystr \<Rightarrow> datetime \<Rightarrow> policy_event" where
  "ask n t = (t, [(''request'', ''smtpd_access_policy''), (''sasl_username'', n)])"

definition demo_requests :: "policy_event list" where
  "demo_requests = [ask ''printer'' 0, ask ''app'' 5, ask ''printer'' (minutes 30), ask ''printer'' (minutes 40)]"

lemmas demo_simps = demo_db_def demo_user_def demo_printer_def empty_db_def profile_def user_by_name_def
  keys_distinct_def ask_def bucket_of_def bucket_ok_def user_streak_def

theorem hourly_ceiling_witness:
  "int (in_window 0 (permitted ''printer'' demo_requests demo_db)) \<le> 2 \<and>
   permitted ''printer'' demo_requests demo_db = [0, minutes 30]"
proof
  show "int (in_window 0 (permitted ''printer'' demo_requests demo_db)) \<le> 2"
    using hourly_ceiling [of demo_db "''printer''" 2 2 None demo_requests 0]
    by (simp add: demo_simps count_of_def del: permitted.simps policy_run.simps)
  show "permitted ''printer'' demo_requests demo_db = [0, minutes 30]"
    by code_simp
qed

theorem burst_bound_witness:
  "of_nat (length (permitted ''app'' (map (ask ''app'') [0, 0, seconds 1]) demo_db)) \<le>
     1 + 1000000 * refill_per_us 3600 +
     2 * 1 / 2 ^ 53 * (of_nat (asked ''app'' (map (ask ''app'') [0, 0, seconds 1])) :: rat) \<and>
   permitted ''app'' (map (ask ''app'') [0, 0, seconds 1]) demo_db = [0, seconds 1]"
proof
  show "of_nat (length (permitted ''app'' (map (ask ''app'') [0, 0, seconds 1]) demo_db)) \<le>
     1 + 1000000 * refill_per_us 3600 +
     2 * 1 / 2 ^ 53 * (of_nat (asked ''app'' (map (ask ''app'') [0, 0, seconds 1])) :: rat)"
    using burst_bound [of demo_db "''app''" 1 3600 1 0 "map (ask ''app'') [0, 0, seconds 1]" "seconds 1"]
    by (simp add: demo_simps time_defs del: permitted.simps policy_run.simps)
  show "permitted ''app'' (map (ask ''app'') [0, 0, seconds 1]) demo_db = [0, seconds 1]"
    by code_simp
qed

theorem streak_refines_log_witness:
  "user_streak ''printer'' (policy_run (map (ask ''printer'') [0, 1, 2, 3]) demo_db) = Some (Some 2, Some 3)"
proof -
  have "decision_log ''printer'' (map (ask ''printer'') [0, 1, 2, 3]) demo_db =
      [(0, False), (1, False), (2, True), (3, True)]"
    by code_simp
  then show ?thesis
    using streak_refines_log [of demo_db "''printer''" 2 2 None "map (ask ''printer'') [0, 1, 2, 3]"]
    by (simp add: demo_simps DEFER_STREAK_GAP_def time_defs streak_fields_def
        del: policy_run.simps decision_log.simps)
qed

end
