(* ===== verification/Policy_Service.thy ===== *)
theory Policy_Service
  imports Rate_Limit_Policy
begin

text \<open>
  The wire side of \<open>backend/app/core/rate_limit_policy.py\<close>: reading \<open>name=value\<close> requests from the
  stream Postfix keeps open, the peer check, and the loop that answers each request with the
  decision of \<open>Rate_Limit_Policy\<close>.  The stream is the list of bytes the client sends before it
  closes; \<open>decode\<close> stands for \<open>bytes.decode("utf-8", "replace")\<close>, \<open>resolve\<close> for the name lookup of
  the event loop (\<open>None\<close> for an \<open>OSError\<close>), \<open>clock\<close> and \<open>fails\<close> give, for the n-th request of the
  connection, the time and whether the evaluation raises (a locked database, say; the session is
  then closed without a commit).
\<close>

section \<open>Requests\<close>

definition newline :: char where "newline = CHR 10"
definition carriage_return :: char where "carriage_return = CHR 13"
definition equals_sign :: char where "equals_sign = CHR 61"

definition MAX_ATTRIBUTE_LINES :: nat where "MAX_ATTRIBUTE_LINES = 100"
definition MAX_LINE_BYTES :: nat where "MAX_LINE_BYTES = 2048"

text \<open>\<open>line.partition(b"=")\<close>, first and third component.\<close>

definition partition_eq :: "bytes \<Rightarrow> bytes \<times> bytes" where
  "partition_eq line =
     (takeWhile (\<lambda>c. c \<noteq> equals_sign) line, drop 1 (dropWhile (\<lambda>c. c \<noteq> equals_sign) line))"

definition parse_attributes :: "(bytes \<Rightarrow> pystr) \<Rightarrow> bytes list \<Rightarrow> (pystr \<times> pystr) list" where
  "parse_attributes decode lines =
     fold (\<lambda>line attrs. if equals_sign \<notin> set line then attrs
             else let (key, v) = partition_eq line in AList.update (decode key) (decode v) attrs)
       lines []"

text \<open>
  \<open>reader.readuntil(b"\n")\<close> with the stream limit \<open>limit\<close>: the line with its newline and the rest
  of the stream, or one of the two exceptions.
\<close>

datatype read_error = IncompleteReadError | LimitOverrunError

definition readuntil :: "nat \<Rightarrow> bytes \<Rightarrow> read_error + (bytes \<times> bytes)" where
  "readuntil limit s =
     (let l = takeWhile (\<lambda>c. c \<noteq> newline) s
      in if length l > limit then Inl LimitOverrunError
         else if newline \<notin> set s then Inl IncompleteReadError
         else Inr (l @ [newline], drop (length l + 1) s))"

definition is_crlf :: "char \<Rightarrow> bool" where
  "is_crlf c \<longleftrightarrow> c = newline \<or> c = carriage_return"

lemma readuntil_shorter: "readuntil limit s = Inr (l, rest) \<Longrightarrow> length rest < length s"
  by (cases s) (auto simp: readuntil_def Let_def split: if_splits)

function read_lines :: "bytes list \<Rightarrow> bytes \<Rightarrow> (bytes list \<times> bytes) option" where
  "read_lines lines s =
     (case readuntil (MAX_LINE_BYTES * 2) s of
        Inl _ \<Rightarrow> None
      | Inr (raw, rest) \<Rightarrow>
          (let line = rstrip_of is_crlf raw
           in if line = [] then Some (lines, rest)
              else if length line > MAX_LINE_BYTES \<or> length lines \<ge> MAX_ATTRIBUTE_LINES then None
              else read_lines (lines @ [line]) rest))"
  by pat_completeness auto
termination
  by (relation "measure (\<lambda>(lines, s). length s)") (auto dest: readuntil_shorter)

declare read_lines.simps [simp del]

definition read_request :: "bytes \<Rightarrow> (bytes list \<times> bytes) option" where
  "read_request s = read_lines [] s"

lemma read_lines_shorter: "read_lines ls s = Some (out, rest) \<Longrightarrow> length rest < length s"
proof (induction ls s rule: read_lines.induct)
  case (1 ls s)
  show ?case
  proof (cases "readuntil (MAX_LINE_BYTES * 2) s")
    case (Inr p)
    then obtain raw r where p: "readuntil (MAX_LINE_BYTES * 2) s = Inr (raw, r)" by (cases p) auto
    have "length r < length s" using readuntil_shorter [OF p] .
    moreover have "rest = r \<or> length rest < length r"
      using 1(1) [OF p] 1(2) p by (auto simp: read_lines.simps [of ls s] Let_def split: if_splits)
    ultimately show ?thesis by auto
  qed (use 1(2) in \<open>simp add: read_lines.simps [of ls s]\<close>)
qed

section \<open>The connection\<close>

definition peer_is_allowed :: "(pystr \<Rightarrow> pystr list option) \<Rightarrow> pystr \<Rightarrow> pystr option \<Rightarrow> bool" where
  "peer_is_allowed resolve peer_host allowed_host =
     (if peer_host = ''127.0.0.1'' \<or> peer_host = ''::1'' then True
      else case allowed_host of
        None \<Rightarrow> True
      | Some h \<Rightarrow> (case resolve h of None \<Rightarrow> False | Some addrs \<Rightarrow> peer_host \<in> set addrs))"

text \<open>The response texts.\<close>

definition render :: "policy_response \<Rightarrow> bytes" where
  "render r =
     (case r of
        DUNNO \<Rightarrow> ''action=DUNNO'' @ [newline, newline]
      | HOURLY_DEFER limit \<Rightarrow> ''action=DEFER rate limit exceeded ('' @ str_of_int limit @ ''/hour) '' @ em_dash @
          '' try again after the current hour ends'' @ [newline, newline]
      | BURST_DEFER \<Rightarrow> ''action=DEFER sending too fast '' @ em_dash @
          '' try again in a moment'' @ [newline, newline])"

text \<open>One request: the evaluation in its own session, or the permissive answer when it raises.\<close>

definition answer :: "datetime \<Rightarrow> bool \<Rightarrow> (pystr \<times> pystr) list \<Rightarrow> db \<Rightarrow> policy_response \<times> db" where
  "answer now fails attrs d = (if fails then (DUNNO, d) else evaluate now attrs d)"

function serve :: "(bytes \<Rightarrow> pystr) \<Rightarrow> (nat \<Rightarrow> datetime) \<Rightarrow> (nat \<Rightarrow> bool) \<Rightarrow> nat \<Rightarrow> bytes \<Rightarrow> db \<Rightarrow> bytes \<times> db" where
  "serve decode clock fails i s d =
     (case read_request s of
        None \<Rightarrow> ([], d)
      | Some (lines, rest) \<Rightarrow>
          (let (r, d') = answer (clock i) (fails i) (parse_attributes decode lines) d;
               (out, d'') = serve decode clock fails (Suc i) rest d'
           in (render r @ out, d'')))"
  by pat_completeness auto
termination
  by (relation "measure (\<lambda>(decode, clock, fails, i, s, d). length s)")
    (auto simp: read_request_def dest: read_lines_shorter)

declare serve.simps [simp del]

definition handle_connection ::
  "(bytes \<Rightarrow> pystr) \<Rightarrow> (pystr \<Rightarrow> pystr list option) \<Rightarrow> (nat \<Rightarrow> datetime) \<Rightarrow> (nat \<Rightarrow> bool) \<Rightarrow>
   pystr option \<Rightarrow> pystr option \<Rightarrow> bytes \<Rightarrow> db \<Rightarrow> bytes \<times> db" where
  "handle_connection decode resolve clock fails allowed_host peer s d =
     (let peer_host = (case peer of Some h \<Rightarrow> h | None \<Rightarrow> '''')
      in if \<not> peer_is_allowed resolve peer_host allowed_host then ([], d)
         else serve decode clock fails 0 s d)"

section \<open>What the reader accepts\<close>

text \<open>The wire form of a list of attributes, as Postfix writes it.\<close>

definition attr_line :: "bytes \<times> bytes \<Rightarrow> bytes" where
  "attr_line a = fst a @ equals_sign # snd a"

definition encode_request :: "(bytes \<times> bytes) list \<Rightarrow> bytes" where
  "encode_request attrs = concat (map (\<lambda>a. attr_line a @ [newline]) attrs) @ [newline]"

definition attr_ok :: "bytes \<times> bytes \<Rightarrow> bool" where
  "attr_ok a \<longleftrightarrow> equals_sign \<notin> set (fst a) \<and> newline \<notin> set (fst a) \<and> newline \<notin> set (snd a) \<and>
     carriage_return \<notin> set (snd a) \<and> length (attr_line a) \<le> MAX_LINE_BYTES"

definition request_ok :: "(bytes \<times> bytes) list \<Rightarrow> bool" where
  "request_ok attrs \<longleftrightarrow> length attrs \<le> MAX_ATTRIBUTE_LINES \<and> (\<forall>a\<in>set attrs. attr_ok a)"

lemma char_neq [simp]:
  "equals_sign \<noteq> newline" "newline \<noteq> equals_sign" "equals_sign \<noteq> carriage_return"
  "carriage_return \<noteq> equals_sign" "carriage_return \<noteq> newline" "newline \<noteq> carriage_return"
  by (simp_all add: newline_def equals_sign_def carriage_return_def)

lemma readuntil_line:
  "newline \<notin> set l \<Longrightarrow> length l \<le> limit \<Longrightarrow> readuntil limit (l @ newline # rest) = Inr (l @ [newline], rest)"
proof -
  assume l: "newline \<notin> set l" "length l \<le> limit"
  then have "takeWhile (\<lambda>c. c \<noteq> newline) l = l" by (simp add: takeWhile_eq_all_conv) (metis)
  then show ?thesis using l by (simp add: readuntil_def takeWhile_tail Let_def)
qed

lemma rstrip_crlf:
  "l = [] \<or> \<not> is_crlf (last l) \<Longrightarrow> rstrip_of is_crlf (l @ [newline]) = l"
  by (cases l rule: rev_cases) (auto simp: rstrip_of_def is_crlf_def)

lemma read_lines_line:
  assumes "newline \<notin> set l" "l \<noteq> []" "\<not> is_crlf (last l)" "length l \<le> MAX_LINE_BYTES"
    and "length ls < MAX_ATTRIBUTE_LINES"
  shows "read_lines ls (l @ newline # rest) = read_lines (ls @ [l]) rest"
  using assms
  by (simp add: read_lines.simps [of ls] readuntil_line rstrip_crlf Let_def not_less not_le)

lemma read_lines_blank: "read_lines ls (newline # rest) = Some (ls, rest)"
  using readuntil_line [of "[]" "MAX_LINE_BYTES * 2" rest] rstrip_crlf [of "[]"]
  by (simp add: read_lines.simps [of ls])

lemma attr_line_ok:
  assumes "attr_ok a"
  shows "newline \<notin> set (attr_line a)" "attr_line a \<noteq> []" "\<not> is_crlf (last (attr_line a))"
    "length (attr_line a) \<le> MAX_LINE_BYTES" "partition_eq (attr_line a) = a"
    "equals_sign \<in> set (attr_line a)"
proof -
  obtain k v where a: "a = (k, v)" by fastforce
  have ok: "equals_sign \<notin> set k" "newline \<notin> set k" "newline \<notin> set v" "carriage_return \<notin> set v"
      "length (attr_line a) \<le> MAX_LINE_BYTES"
    using assms by (simp_all add: attr_ok_def a)
  show "newline \<notin> set (attr_line a)" "attr_line a \<noteq> []" "equals_sign \<in> set (attr_line a)"
    "length (attr_line a) \<le> MAX_LINE_BYTES"
    using ok by (simp_all add: attr_line_def a)
  have "last (attr_line a) = (if v = [] then equals_sign else last v)"
    by (simp add: attr_line_def a)
  moreover have "v \<noteq> [] \<Longrightarrow> last v \<noteq> newline \<and> last v \<noteq> carriage_return"
    using ok(3,4) last_in_set [of v] by metis
  ultimately show "\<not> is_crlf (last (attr_line a))"
    by (simp add: is_crlf_def)
  have "\<forall>c\<in>set k. c \<noteq> equals_sign" using ok by auto
  then show "partition_eq (attr_line a) = a"
    by (simp add: partition_eq_def attr_line_def a takeWhile_tail dropWhile_append)
qed

lemma read_lines_encoded:
  "length ls + length attrs \<le> MAX_ATTRIBUTE_LINES \<Longrightarrow> \<forall>a\<in>set attrs. attr_ok a \<Longrightarrow>
   read_lines ls (encode_request attrs @ rest) = Some (ls @ map attr_line attrs, rest)"
proof (induction attrs arbitrary: ls)
  case Nil
  then show ?case by (simp add: encode_request_def read_lines_blank)
next
  case (Cons a attrs)
  have "encode_request (a # attrs) @ rest = attr_line a @ newline # (encode_request attrs @ rest)"
    by (simp add: encode_request_def)
  then show ?case using Cons attr_line_ok [of a] by (simp add: read_lines_line)
qed

lemma read_encoded:
  "request_ok attrs \<Longrightarrow> read_request (encode_request attrs @ rest) = Some (map attr_line attrs, rest)"
  by (simp add: read_request_def request_ok_def read_lines_encoded)

text \<open>The dictionary of a list of attributes: a later line with the same name wins.\<close>

definition attr_dict :: "(bytes \<Rightarrow> pystr) \<Rightarrow> (bytes \<times> bytes) list \<Rightarrow> (pystr \<times> pystr) list" where
  "attr_dict decode attrs = fold (\<lambda>(k, v). AList.update (decode k) (decode v)) attrs []"

lemma parse_encoded:
  assumes "\<forall>a\<in>set attrs. attr_ok a"
  shows "parse_attributes decode (map attr_line attrs) = attr_dict decode attrs"
proof -
  have "fold (\<lambda>line as. if equals_sign \<notin> set line then as
        else let (key, v) = partition_eq line in AList.update (decode key) (decode v) as)
       (map attr_line attrs) acc = fold (\<lambda>(k, v). AList.update (decode k) (decode v)) attrs acc" for acc
    using assms by (induction attrs arbitrary: acc) (auto simp: attr_line_ok split: prod.splits)
  then show ?thesis by (simp add: parse_attributes_def attr_dict_def)
qed

lemma map_of_attr_dict:
  "map_of (attr_dict decode attrs) = map_of (rev (map (\<lambda>(k, v). (decode k, decode v)) attrs))"
proof -
  have "map_of (fold (\<lambda>(k, v). AList.update (decode k) (decode v)) attrs acc) =
      map_of (rev (map (\<lambda>(k, v). (decode k, decode v)) attrs) @ acc)" for acc
  proof (induction attrs arbitrary: acc)
    case (Cons a attrs)
    obtain k v where a: "a = (k, v)" by fastforce
    have "map_of (fold (\<lambda>(k, v). AList.update (decode k) (decode v)) attrs (AList.update (decode k) (decode v) acc)) =
        map_of (rev (map (\<lambda>(k, v). (decode k, decode v)) attrs) @ AList.update (decode k) (decode v) acc)"
      by (rule Cons.IH)
    also have "\<dots> = map_of (rev (map (\<lambda>(k, v). (decode k, decode v)) attrs) @ (decode k, decode v) # acc)"
      by (simp add: update_conv' map_add_def fun_eq_iff)
    finally show ?case by (simp add: a)
  qed simp
  from this [of "[]"] show ?thesis by (simp add: attr_dict_def)
qed

text \<open>
  The reader and the parser recover what Postfix sends: any request of at most 100 attribute
  lines of at most 2048 bytes is read completely, the stream is left exactly behind its blank line,
  and the dictionary holds for each name the value of its last line, whatever the values contain
  besides line ends (\<open>=\<close> included).
\<close>

lemma request_roundtrip:
  assumes "request_ok attrs"
  shows "\<exists>lines. read_request (encode_request attrs @ rest) = Some (lines, rest) \<and>
    map_of (parse_attributes decode lines) = map_of (rev (map (\<lambda>(k, v). (decode k, decode v)) attrs))"
  using assms read_encoded [OF assms, of rest]
  by (auto simp: parse_encoded map_of_attr_dict request_ok_def)

lemma read_lines_bounds:
  "read_lines ls s = Some (out, rest) \<Longrightarrow> length ls \<le> MAX_ATTRIBUTE_LINES \<Longrightarrow>
   \<forall>l\<in>set ls. l \<noteq> [] \<and> length l \<le> MAX_LINE_BYTES \<Longrightarrow>
   length out \<le> MAX_ATTRIBUTE_LINES \<and> (\<forall>l\<in>set out. l \<noteq> [] \<and> length l \<le> MAX_LINE_BYTES) \<and> suffix rest s"
proof (induction ls s rule: read_lines.induct)
  case (1 ls s)
  show ?case
  proof (cases "readuntil (MAX_LINE_BYTES * 2) s")
    case (Inr p)
    then obtain raw r where p: "readuntil (MAX_LINE_BYTES * 2) s = Inr (raw, r)" by (cases p) auto
    have r: "suffix r s" using p by (auto simp: readuntil_def Let_def suffix_drop split: if_splits)
    show ?thesis
    proof (cases "rstrip_of is_crlf raw = []")
      case True
      then show ?thesis using 1(2-) p r by (simp add: read_lines.simps [of ls s])
    next
      case False
      then have c: "\<not> (length (rstrip_of is_crlf raw) > MAX_LINE_BYTES \<or> length ls \<ge> MAX_ATTRIBUTE_LINES)"
        and rec: "read_lines (ls @ [rstrip_of is_crlf raw]) r = Some (out, rest)"
        using 1(2) p by (auto simp: read_lines.simps [of ls s] Let_def split: if_splits)
      then show ?thesis
        using 1(1) [OF p refl refl False c rec] 1(3,4) False r by (auto intro: suffix_order.trans)
    qed
  qed (use 1(2) in \<open>simp add: read_lines.simps [of ls s]\<close>)
qed

section \<open>The conversation\<close>

text \<open>The answers to a list of requests, one after the other, and the database at the end.\<close>

fun answers :: "(bytes \<Rightarrow> pystr) \<Rightarrow> (nat \<Rightarrow> datetime) \<Rightarrow> (nat \<Rightarrow> bool) \<Rightarrow> nat \<Rightarrow>
  (bytes \<times> bytes) list list \<Rightarrow> db \<Rightarrow> policy_response list \<times> db" where
  "answers decode clock fails i [] d = ([], d)"
| "answers decode clock fails i (q # qs) d =
     (let (r, d') = answer (clock i) (fails i) (attr_dict decode q) d;
          (rs, d'') = answers decode clock fails (Suc i) qs d'
      in (r # rs, d''))"

lemma serve_stop: "read_request s = None \<Longrightarrow> serve decode clock fails i s d = ([], d)"
  by (simp add: serve.simps)

lemma serve_requests:
  assumes "\<forall>q\<in>set qs. request_ok q" "read_request tail = None"
  shows "serve decode clock fails i (concat (map encode_request qs) @ tail) d =
    (let (rs, d') = answers decode clock fails i qs d in (concat (map render rs), d'))"
  using assms(1)
proof (induction qs arbitrary: i d)
  case Nil
  then show ?case by (simp add: serve_stop assms(2))
next
  case (Cons q qs)
  have rd: "read_request (encode_request q @ concat (map encode_request qs) @ tail) =
      Some (map attr_line q, concat (map encode_request qs) @ tail)"
    using Cons.prems by (simp add: read_encoded)
  show ?case
    using Cons by (simp add: serve.simps [of _ _ _ i] rd parse_encoded request_ok_def Let_def
        split: prod.splits)
qed

lemma answers_length: "length (fst (answers decode clock fails i qs d)) = length qs"
  by (induction qs arbitrary: i d) (simp_all add: Let_def split_beta)

text \<open>
  C40. The service answers a connection request by request: for a client that is allowed, that sends
  well-formed requests and then anything that is not one (or closes), the bytes written are exactly
  one rendered decision per request, in order, and the database is the one of that sequence of
  evaluations; an evaluation that raises is answered \<open>DUNNO\<close> and changes nothing.  A client that is
  not allowed gets nothing and changes nothing.
\<close>

theorem connection_answers:
  assumes "\<forall>q\<in>set qs. request_ok q" "read_request tail = None"
  shows "handle_connection decode resolve clock fails allowed peer (concat (map encode_request qs) @ tail) d =
    (if peer_is_allowed resolve (case peer of Some h \<Rightarrow> h | None \<Rightarrow> '''') allowed
     then (let (rs, d') = answers decode clock fails 0 qs d in (concat (map render rs), d'))
     else ([], d)) \<and> length (fst (answers decode clock fails 0 qs d)) = length qs"
  using serve_requests [OF assms] by (simp add: handle_connection_def answers_length)

theorem connection_answers_witness:
  "handle_connection (\<lambda>b. b) (\<lambda>_. Some [''10.0.0.2'']) (\<lambda>_. 0) (\<lambda>i. i = 0) (Some ''postfix'') (Some ''10.0.0.2'')
     (concat (map encode_request [[(''sasl_username'', ''nobody'')]]) @ ''x'') demo_db =
   (''action=DUNNO'' @ [newline, newline], demo_db)"
proof -
  have "read_request ''x'' = None"
    by (simp add: read_request_def read_lines.simps [of "[]" "''x''"] readuntil_def newline_def MAX_LINE_BYTES_def)
  then show ?thesis
    using connection_answers [of "[[(''sasl_username'', ''nobody'')]]" "''x''" "\<lambda>b. b"
        "\<lambda>_. Some [''10.0.0.2'']" "\<lambda>_. 0" "\<lambda>i. i = 0" "Some ''postfix''" "Some ''10.0.0.2''" demo_db]
    by (simp add: peer_is_allowed_def answer_def render_def request_ok_def attr_ok_def attr_line_def
        MAX_LINE_BYTES_def MAX_ATTRIBUTE_LINES_def newline_def equals_sign_def carriage_return_def)
qed

text \<open>
  Nothing outside the protocol reaches the parser: whatever bytes a client sends, a request that
  is accepted has at most 100 lines, none empty and none over 2048 bytes, and what is left to read is
  a suffix of the stream.
\<close>

lemma request_bounds:
  assumes "read_request s = Some (lines, rest)"
  shows "length lines \<le> MAX_ATTRIBUTE_LINES \<and>
    (\<forall>l\<in>set lines. l \<noteq> [] \<and> length l \<le> MAX_LINE_BYTES) \<and> suffix rest s"
  using read_lines_bounds [of "[]" s lines rest] assms by (simp add: read_request_def)

end
