(* ===== verification/Interval_Job.thy ===== *)
theory Interval_Job
  imports Models
begin

text \<open>
  The contract of the periodic ticks (\<open>core/scheduler.py\<close> calls each of them once a minute): a tick
  consults its own \<open>..._last_run_at\<close> column and does nothing until the interval has passed.  The
  locale states the laws of one tick; its lemmas bound how often any sequence of ticks does the work.
  An attempt carries the clock readings of the tick: \<open>started\<close> is the one the elapsed time is
  computed from, \<open>stamped\<close> the one written to the column.  A tick that \<open>raises\<close> leaves no trace, its
  transaction is rolled back, and the next tick is due again.
\<close>

locale interval_job =
  fixes tick :: "'e \<Rightarrow> 's \<Rightarrow> 's"
    and started :: "'e \<Rightarrow> datetime"
    and stamped :: "'e \<Rightarrow> datetime"
    and last_run :: "'s \<Rightarrow> datetime option"
    and interval :: "'s \<Rightarrow> timedelta option"
    and raises :: "'e \<Rightarrow> 's \<Rightarrow> bool"
  assumes off: "interval s = None \<Longrightarrow> tick e s = s"
    and early: "interval s = Some i \<Longrightarrow> last_run s = Some t \<Longrightarrow> started e - t < i \<Longrightarrow> tick e s = s"
    and raised: "raises e s \<Longrightarrow> tick e s = s"
    and stamps: "interval s = Some i \<Longrightarrow> \<not> raises e s \<Longrightarrow> (\<forall>t. last_run s = Some t \<longrightarrow> i \<le> started e - t) \<Longrightarrow>
      last_run (tick e s) = Some (stamped e)"
    and keeps_interval: "interval (tick e s) = interval s"
begin

definition due :: "'e \<Rightarrow> 's \<Rightarrow> bool" where
  "due e s \<longleftrightarrow> (case interval s of None \<Rightarrow> False
     | Some i \<Rightarrow> (case last_run s of None \<Rightarrow> True | Some t \<Rightarrow> i \<le> started e - t))"

text \<open>The attempts of a sequence that do the work.\<close>

fun worked :: "'e list \<Rightarrow> 's \<Rightarrow> 'e list" where
  "worked [] s = []"
| "worked (e # es) s = (if due e s \<and> \<not> raises e s then [e] else []) @ worked es (tick e s)"

fun run_ticks :: "'e list \<Rightarrow> 's \<Rightarrow> 's" where
  "run_ticks [] s = s"
| "run_ticks (e # es) s = run_ticks es (tick e s)"

lemma not_due_idle: "\<not> (due e s \<and> \<not> raises e s) \<Longrightarrow> tick e s = s"
  using off early raised by (auto simp: due_def not_le split: option.splits)

lemma due_stamps: "due e s \<and> \<not> raises e s \<Longrightarrow> last_run (tick e s) = Some (stamped e)"
  using stamps by (auto simp: due_def split: option.splits)

lemma worked_spaced_from:
  assumes "interval s = Some i" "last_run s = Some t"
  shows "successively (\<lambda>a b. i \<le> b - a) (t # map started (take 1 (worked es s))) \<and>
    successively (\<lambda>a b. i \<le> started b - stamped a) (worked es s)"
  using assms
proof (induction es arbitrary: s t)
  case (Cons e es)
  show ?case
  proof (cases "due e s \<and> \<not> raises e s")
    case True
    have "last_run (tick e s) = Some (stamped e)" "interval (tick e s) = Some i"
      using due_stamps [OF True] keeps_interval Cons.prems by simp_all
    from Cons.IH [OF this(2,1)] have IH:
      "successively (\<lambda>a b. i \<le> b - a) (stamped e # map started (take 1 (worked es (tick e s))))"
      "successively (\<lambda>a b. i \<le> started b - stamped a) (worked es (tick e s))" by blast+
    have "i \<le> started e - t" using True Cons.prems by (simp add: due_def)
    moreover have "successively (\<lambda>a b. i \<le> started b - stamped a) (e # worked es (tick e s))"
      using IH by (cases "worked es (tick e s)") auto
    ultimately show ?thesis using True by simp
  next
    case False
    then show ?thesis using Cons not_due_idle[OF False] by auto
  qed
qed simp

text \<open>Between the stamp of one piece of work and the start of the next lies at least the interval.\<close>

lemma worked_spaced:
  assumes "interval s = Some i"
  shows "successively (\<lambda>a b. i \<le> started b - stamped a) (worked es s)"
  using assms
proof (induction es arbitrary: s)
  case (Cons e es)
  show ?case
  proof (cases "due e s \<and> \<not> raises e s")
    case True
    have "last_run (tick e s) = Some (stamped e)" "interval (tick e s) = Some i"
      using due_stamps [OF True] keeps_interval Cons.prems by simp_all
    from worked_spaced_from [OF this(2,1), of es] True show ?thesis
      by (cases "worked es (tick e s)") auto
  next
    case False
    then show ?thesis using Cons not_due_idle[OF False] by auto
  qed
qed simp

lemma never_worked_off: "interval s = None \<Longrightarrow> worked es s = [] \<and> run_ticks es s = s"
  by (induction es arbitrary: s) (auto simp: due_def off)

end

end
