(* ===== verification/Civil_Time.thy ===== *)
theory Civil_Time
  imports Prelude
begin

text \<open>
  Calendar dates of the naive UTC datetimes: \<open>datetime.isoformat()\<close> and the construction of a
  datetime from year, month and day, in the proleptic Gregorian calendar Python uses.
\<close>

definition days_of_civil :: "int \<Rightarrow> int \<Rightarrow> int \<Rightarrow> int" where
  "days_of_civil y m d =
     (let y' = (if m \<le> 2 then y - 1 else y); era = y' div 400; yoe = y' - era * 400;
          doy = (153 * (if m > 2 then m - 3 else m + 9) + 2) div 5 + d - 1;
          doe = yoe * 365 + yoe div 4 - yoe div 100 + doy
      in era * 146097 + doe - 719468)"

definition civil_of_days :: "int \<Rightarrow> int \<times> int \<times> int" where
  "civil_of_days z =
     (let z' = z + 719468; era = z' div 146097; doe = z' - era * 146097;
          yoe = (doe - doe div 1460 + doe div 36524 - doe div 146096) div 365;
          doy = doe - (365 * yoe + yoe div 4 - yoe div 100); mp = (5 * doy + 2) div 153;
          d = doy - (153 * mp + 2) div 5 + 1; m = (if mp < 10 then mp + 3 else mp - 9)
      in (yoe + era * 400 + (if m \<le> 2 then 1 else 0), m, d))"

text \<open>A number with leading zeros, as the format \<open>%0<k>d\<close> prints it.\<close>

definition padded :: "nat \<Rightarrow> int \<Rightarrow> pystr" where
  "padded k n = (let s = str_of_int n in replicate (k - length s) (CHR 48) @ s)"

definition isoformat :: "datetime \<Rightarrow> pystr" where
  "isoformat t =
     (let (y, m, d) = civil_of_days (t div days 1); r = t mod days 1;
          us = r mod seconds 1
      in padded 4 y @ ''-'' @ padded 2 m @ ''-'' @ padded 2 d @ ''T'' @
         padded 2 (r div hours 1) @ '':'' @ padded 2 (r mod hours 1 div minutes 1) @ '':'' @
         padded 2 (r mod minutes 1 div seconds 1) @
         (if us = 0 then [] else ''.'' @ padded 6 us))"

definition datetime_of :: "int \<Rightarrow> int \<Rightarrow> int \<Rightarrow> int \<Rightarrow> int \<Rightarrow> int \<Rightarrow> int \<Rightarrow> datetime" where
  "datetime_of y mo d h mi s us =
     days (days_of_civil y mo d) + hours h + minutes mi + seconds s + us"

lemma isoformat_example: "isoformat (datetime_of 2024 2 29 7 5 9 0) = ''2024-02-29T07:05:09''"
  by code_simp

end
