(* ===== verification/Rate_Limit_Jobs.thy ===== *)
theory Rate_Limit_Jobs
  imports Policy_Service Interval_Job Civil_Time
begin

text \<open>
  The two jobs around the rate limits: \<open>core/rate_limit_cleanup.py\<close> (deletes counters of past
  windows) and \<open>core/rate_limit_abuse.py\<close> (disables a user whose messages have all been deferred for
  too long).  The control surface is the operation \<open>sasl_delete\<close> on a state of its own, as in
  \<open>core/postfix_control.py\<close>; a failed call leaves the user enabled.
\<close>

section \<open>Cleaning up past windows\<close>

definition CLEANUP_CHECK_INTERVAL :: timedelta where "CLEANUP_CHECK_INTERVAL = hours 24"
definition RETAIN :: timedelta where "RETAIN = hours 3"

definition run_rate_limit_cleanup :: "datetime \<Rightarrow> db \<Rightarrow> nat \<times> db" where
  "run_rate_limit_cleanup now d =
     (let cutoff = now - RETAIN; keep = filter (\<lambda>c. \<not> rc_window_start c < cutoff) (counters d)
      in (length (counters d) - length keep, d\<lparr>counters := keep\<rparr>))"

text \<open>
  One tick, with its three clock readings: for the elapsed time, the cutoff and the stamp.  A tick
  that returns early closes its session without a commit.
\<close>

definition rate_limit_cleanup_tick :: "datetime \<times> datetime \<times> datetime \<Rightarrow> db \<Rightarrow> db" where
  "rate_limit_cleanup_tick e d0 =
     (let (now1, now2, now3) = e; (state, d) = get_background_job_state d0
      in (case bj_rate_limit_cleanup_last_run_at state of
            Some t \<Rightarrow> if now1 - t < CLEANUP_CHECK_INTERVAL then d0
              else (snd (run_rate_limit_cleanup now2 d))
                     \<lparr>job_state := Some (state\<lparr>bj_rate_limit_cleanup_last_run_at := Some now3\<rparr>)\<rparr>
          | None \<Rightarrow> (snd (run_rate_limit_cleanup now2 d))
                     \<lparr>job_state := Some (state\<lparr>bj_rate_limit_cleanup_last_run_at := Some now3\<rparr>)\<rparr>))"

interpretation rate_cleanup: interval_job rate_limit_cleanup_tick fst "\<lambda>e. snd (snd e)"
  "\<lambda>d. bj_rate_limit_cleanup_last_run_at (the_jobs d)" "\<lambda>_. Some CLEANUP_CHECK_INTERVAL"
  "\<lambda>_ _. False"
proof (unfold_locales, goal_cases)
  case (2 s i t e)
  then show ?case
    by (cases e) (simp add: rate_limit_cleanup_tick_def get_background_job_state_eq Let_def)
next
  case (4 s i e)
  obtain now1 now2 now3 where e: "e = (now1, now2, now3)" by (rule prod_cases3)
  have "bj_rate_limit_cleanup_last_run_at (the_jobs (rate_limit_cleanup_tick e s)) = Some now3"
  proof (cases "bj_rate_limit_cleanup_last_run_at (the_jobs s)")
    case (Some t)
    then have "\<not> now1 - t < CLEANUP_CHECK_INTERVAL" using 4(1,3) by (simp add: e)
    then show ?thesis using Some by (simp add: e rate_limit_cleanup_tick_def get_background_job_state_eq)
  qed (simp add: e rate_limit_cleanup_tick_def get_background_job_state_eq)
  then show ?case by (simp add: e)
qed simp_all

text \<open>Two databases the policy cannot tell apart from the window \<open>cutoff\<close> on.\<close>

definition same_policy :: "datetime \<Rightarrow> db \<Rightarrow> db \<Rightarrow> bool" where
  "same_policy cutoff d d' \<longleftrightarrow> local_users d' = local_users d \<and>
     (\<forall>i. bucket_of d' i = bucket_of d i) \<and> (\<forall>i w. cutoff \<le> w \<longrightarrow> count_of d' i w = count_of d i w)"

lemma evaluate_same:
  assumes same: "same_policy cutoff d d'" and w: "cutoff \<le> window_start_of now"
  shows "fst (evaluate now attrs d') = fst (evaluate now attrs d) \<and>
    same_policy cutoff (snd (evaluate now attrs d)) (snd (evaluate now attrs d'))"
proof -
  obtain r e where ev: "evaluate now attrs d = (r, e)" by fastforce
  obtain r' e' where ev': "evaluate now attrs d' = (r', e')" by fastforce
  have nm: "user_by_name n d' = user_by_name n d" for n
    using same by (simp add: same_policy_def user_by_name_def)
  show ?thesis
    using ev
  proof (cases rule: evaluate_cases)
    case free
    have "r' = DUNNO \<and> e' = d'"
      using ev'
    proof (cases rule: evaluate_cases)
      case (limited n u limit)
      then show ?thesis using free(3) [of n "lu_id u" limit "lu_rate_limit_burst u"]
        by (simp add: profile_def nm)
    qed simp
    then show ?thesis using free same by (simp add: ev ev')
  next
    case (limited n u limit)
    have lim': "evaluate_limited now u limit d' = (r', e')"
      using ev' limited by (simp add: evaluate_def nm)
    note s = evaluate_limited_spec [OF limited(5)] and s' = evaluate_limited_spec [OF lim']
    have h: "hourly_ok now u limit d' = hourly_ok now u limit d" "burst_ok now u limit d' = burst_ok now u limit d"
      using same w by (auto simp: hourly_ok_def burst_ok_def same_policy_def split: option.splits)
    then have "r' = r" using s(1) s'(1) by simp
    moreover have "bucket_after now u limit p d' = bucket_after now u limit p d" for p
      using same by (auto simp: bucket_after_def same_policy_def split: option.splits)
    ultimately show ?thesis
      using same s(2,3,4) s'(2,3,4) by (simp add: ev ev' same_policy_def)
  qed
qed

lemma permitted_same:
  assumes "same_policy cutoff d d'" "\<forall>ev\<in>set evs. cutoff \<le> window_start_of (fst ev)"
  shows "permitted n evs d' = permitted n evs d \<and> same_policy cutoff (policy_run evs d) (policy_run evs d')"
  using assms
proof (induction evs arbitrary: d d')
  case (Cons ev evs)
  have "fst (evaluate (fst ev) (snd ev) d') = fst (evaluate (fst ev) (snd ev) d)"
    "same_policy cutoff (snd (evaluate (fst ev) (snd ev) d)) (snd (evaluate (fst ev) (snd ev) d'))"
    using evaluate_same [OF Cons.prems(1)] Cons.prems(2) by auto
  then show ?case using Cons.IH Cons.prems(2) by (simp add: split_beta)
qed simp

lemma count_of_cleanup:
  "cutoff \<le> w \<Longrightarrow> count_of (d\<lparr>counters := filter (\<lambda>c. \<not> rc_window_start c < cutoff) (counters d)\<rparr>) i w = count_of d i w"
proof -
  assume w: "cutoff \<le> w"
  have "tbl_get counter_key (i, w) (filter (\<lambda>c. \<not> rc_window_start c < cutoff) cs) = tbl_get counter_key (i, w) cs" for cs
    using w by (induction cs) (auto simp: counter_key_def)
  then show ?thesis by (simp add: count_of_def)
qed



section \<open>Disabling an abusive user\<close>

type_synonym 'w sasl_op = "pystr \<Rightarrow> 'w \<Rightarrow> (ctl_error + unit) \<times> 'w"

definition abuse_candidate :: "datetime \<Rightarrow> datetime \<Rightarrow> local_smtp_user \<Rightarrow> bool" where
  "abuse_candidate cutoff recent u \<longleftrightarrow> lu_enabled u \<and>
     (case lu_streak_started_at u of None \<Rightarrow> False | Some s \<Rightarrow> s \<le> cutoff) \<and>
     (case lu_streak_last_at u of None \<Rightarrow> False | Some l \<Rightarrow> l \<ge> recent)"

text \<open>What is written for one disabled user; \<open>aid\<close> gives the id of the audit row.\<close>

definition disable_user :: "(int \<Rightarrow> int) \<Rightarrow> datetime \<Rightarrow> local_smtp_user \<Rightarrow> db \<Rightarrow> db" where
  "disable_user aid now u d =
     record_audit (aid (lu_id u)) now None ''local_user.rate_limit_abuse_auto_disabled''
       (Some ''local_smtp_user'') (Some (lu_id u))
       (Some [(''username'', JStr (lu_username u)),
              (''throttled_since'', case lu_streak_started_at u of
                 Some s \<Rightarrow> JStr (isoformat s) | None \<Rightarrow> JNull)])
       None (upd_user (lu_id u) (\<lambda>v. v\<lparr>lu_enabled := False\<rparr>) d)"

fun disable_loop :: "'w sasl_op \<Rightarrow> (int \<Rightarrow> int) \<Rightarrow> datetime \<Rightarrow> local_smtp_user list \<Rightarrow> db \<Rightarrow> 'w \<Rightarrow>
  local_smtp_user list \<times> db \<times> 'w" where
  "disable_loop sasl_delete aid now [] d w = ([], d, w)"
| "disable_loop sasl_delete aid now (u # us) d w =
     (case sasl_delete (lu_username u) w of
        (Inl e, w') \<Rightarrow> disable_loop sasl_delete aid now us d w'
      | (Inr _, w') \<Rightarrow>
          (let (us', d'', w'') = disable_loop sasl_delete aid now us (disable_user aid now u d) w'
           in (u # us', d'', w'')))"

definition run_rate_limit_abuse_detection ::
  "'w sasl_op \<Rightarrow> (int \<Rightarrow> int) \<Rightarrow> datetime \<Rightarrow> datetime \<Rightarrow> datetime \<Rightarrow> db \<Rightarrow> 'w \<Rightarrow>
   local_smtp_user list \<times> db \<times> 'w" where
  "run_rate_limit_abuse_detection sasl_delete aid now1 now2 now3 d0 w =
     (let (settings, d) = get_relay_settings d0
      in if \<not> rs_rate_limit_abuse_auto_disable_enabled settings then ([], d, w)
         else (let cutoff = now1 - minutes (rs_rate_limit_abuse_threshold_minutes settings);
                   candidates = filter (abuse_candidate cutoff (now2 - DEFER_STREAK_GAP)) (local_users d)
               in disable_loop sasl_delete aid now3 candidates d w))"

definition rate_limit_abuse_tick ::
  "'w sasl_op \<Rightarrow> (int \<Rightarrow> int) \<Rightarrow> datetime \<Rightarrow> datetime \<Rightarrow> datetime \<Rightarrow> db \<Rightarrow> 'w \<Rightarrow> db \<times> 'w" where
  "rate_limit_abuse_tick sasl_delete aid now1 now2 now3 d w =
     snd (run_rate_limit_abuse_detection sasl_delete aid now1 now2 now3 d w)"

lemma disable_loop_facts:
  "disable_loop sasl_delete aid now us d w = (out, d', w') \<Longrightarrow>
   set out \<subseteq> set us \<and>
   local_users d' = map (\<lambda>v. if lu_id v \<in> lu_id ` set out then v\<lparr>lu_enabled := False\<rparr> else v) (local_users d) \<and>
   (\<forall>u\<in>set out. \<exists>v v'. sasl_delete (lu_username u) v = (Inr (), v'))"
proof (induction us arbitrary: d w out d' w')
  case (Cons u us)
  obtain r w1 where s: "sasl_delete (lu_username u) w = (r, w1)" by fastforce
  show ?case
  proof (cases r)
    case (Inl e)
    then have "disable_loop sasl_delete aid now us d w1 = (out, d', w')" using Cons.prems s by simp
    from Cons.IH [OF this] show ?thesis by auto
  next
    case (Inr x)
    define d1 where "d1 = disable_user aid now u d"
    obtain out1 d2 w2 where r2: "disable_loop sasl_delete aid now us d1 w1 = (out1, d2, w2)"
      by (rule prod_cases3)
    have eq: "out = u # out1" "d' = d2" "w' = w2"
      using Cons.prems by (simp_all add: s Inr r2 d1_def [symmetric])
    then have r: "disable_loop sasl_delete aid now us d1 w1 = (out1, d', w')" and out: "out = u # out1"
      using r2 by simp_all
    have "local_users d1 = tbl_upd lu_id (lu_id u) (\<lambda>v. v\<lparr>lu_enabled := False\<rparr>) (local_users d)"
      by (simp add: d1_def disable_user_def)
    moreover have IH: "set out1 \<subseteq> set us" "\<forall>v\<in>set out1. \<exists>x x'. sasl_delete (lu_username v) x = (Inr (), x')"
      "local_users d' = map (\<lambda>v. if lu_id v \<in> lu_id ` set out1 then v\<lparr>lu_enabled := False\<rparr> else v) (local_users d1)"
      using Cons.IH [OF r] by blast+
    ultimately have "local_users d' =
        map (\<lambda>v. if lu_id v \<in> lu_id ` set out then v\<lparr>lu_enabled := False\<rparr> else v) (local_users d)"
      unfolding out tbl_upd_def by (simp add: comp_def)
    then show ?thesis using IH(1,2) s Inr out by auto
  qed
qed simp

lemma abuse_facts:
  assumes "run_rate_limit_abuse_detection sasl_delete aid now1 now2 now3 d w = (out, d', w')"
  shows "u \<in> set out \<Longrightarrow> u \<in> set (local_users d) \<and> rs_rate_limit_abuse_auto_disable_enabled (the_settings d) \<and>
      abuse_candidate (now1 - minutes (rs_rate_limit_abuse_threshold_minutes (the_settings d)))
        (now2 - DEFER_STREAK_GAP) u \<and> (\<exists>v v'. sasl_delete (lu_username u) v = (Inr (), v'))"
    and "local_users d' =
      map (\<lambda>v. if lu_id v \<in> lu_id ` set out then v\<lparr>lu_enabled := False\<rparr> else v) (local_users d)"
proof -
  let ?on = "rs_rate_limit_abuse_auto_disable_enabled (the_settings d)"
  let ?cand = "abuse_candidate (now1 - minutes (rs_rate_limit_abuse_threshold_minutes (the_settings d)))
        (now2 - DEFER_STREAK_GAP)"
  let ?d1 = "d\<lparr>settings_row := Some (the_settings d)\<rparr>"
  have off: "out = [] \<and> local_users d' = local_users d" if "\<not> ?on"
    using assms that by (auto simp: run_rate_limit_abuse_detection_def get_relay_settings_eq)
  have on: "disable_loop sasl_delete aid now3 (filter ?cand (local_users d)) ?d1 w = (out, d', w')" if ?on
    using assms that by (simp add: run_rate_limit_abuse_detection_def get_relay_settings_eq Let_def)
  show "local_users d' =
      map (\<lambda>v. if lu_id v \<in> lu_id ` set out then v\<lparr>lu_enabled := False\<rparr> else v) (local_users d)"
    using off disable_loop_facts [OF on] by (cases ?on) auto
  show "u \<in> set (local_users d) \<and> ?on \<and> ?cand u \<and> (\<exists>v v'. sasl_delete (lu_username u) v = (Inr (), v'))"
    if "u \<in> set out"
    using that off disable_loop_facts [OF on] by (cases ?on) auto
qed

text \<open>A streak is a run of deferrals at the end of the log, without a gap over ten minutes.\<close>

lemma current_streak_suffix:
  "current_streak ls = ts \<Longrightarrow> \<exists>older. ls = map (\<lambda>t. (t, True)) ts @ older \<and>
     successively (\<lambda>newer prev. newer - prev \<le> DEFER_STREAK_GAP) ts"
proof (induction ls arbitrary: ts rule: current_streak.induct)
  case (2 t deferred older)
  show ?case
  proof (cases deferred)
    case True
    obtain o' where o': "older = map (\<lambda>t. (t, True)) (current_streak older) @ o'"
        "successively (\<lambda>newer prev. newer - prev \<le> DEFER_STREAK_GAP) (current_streak older)"
      using 2(1) [of "current_streak older"] True by auto
    show ?thesis
    proof (cases "current_streak older")
      case Nil
      then show ?thesis using 2(2) True by auto
    next
      case (Cons t' ts')
      show ?thesis
      proof (cases "t - t' > DEFER_STREAK_GAP")
        case True
        then show ?thesis using 2(2) Cons \<open>deferred\<close> by (auto intro!: exI [of _ older])
      next
        case False
        then have "ts = t # t' # ts'" using 2(2) Cons \<open>deferred\<close> by simp
        then show ?thesis using o' Cons False \<open>deferred\<close> by (auto simp: not_less)
      qed
    qed
  qed (use 2(2) in auto)
qed simp

lemma policy_run_names: "map lu_username (local_users (policy_run evs d)) = map lu_username (local_users d)"
proof (induction evs arbitrary: d)
  case (Cons ev evs)
  obtain r d' where ev: "evaluate (fst ev) (snd ev) d = (r, d')" by fastforce
  then have "map lu_username (local_users d') = map lu_username (local_users d)"
  proof (cases rule: evaluate_cases)
    case (limited n u limit)
    then show ?thesis using evaluate_limited_spec(4) [OF limited(5)] by (simp add: map_tbl_upd)
  qed simp
  then show ?case using Cons.IH by (simp add: ev)
qed simp

text \<open>
  Only sustained abuse disables a user: when the tick disables user \<open>n\<close> after any history of
  requests, the option was on, the user was enabled, the control surface confirmed the removal of the
  credential, and the history of \<open>n\<close> ends in deferrals only, no two more than ten minutes apart, the
  first at least the configured threshold ago and the last within ten minutes.  Every other user row
  is left as it was.
\<close>

lemma abuse_disables_only_sustained:
  assumes "keys_distinct lu_id (local_users d)" "profile n d = Some (uid, Some L, cap)" "n \<noteq> []"
    and "user_streak n d = Some (None, None)" "keys_distinct lu_username (local_users d)"
    and "run_rate_limit_abuse_detection sasl_delete aid now1 now2 now3 (policy_run evs d) w = (out, d', w')"
  shows "(\<forall>u\<in>set out. lu_username u = n \<longrightarrow> lu_enabled u \<and>
      rs_rate_limit_abuse_auto_disable_enabled (the_settings (policy_run evs d)) \<and>
      (\<exists>v v'. sasl_delete n v = (Inr (), v')) \<and>
      (\<exists>before ts. decision_log n evs d = before @ map (\<lambda>t. (t, True)) ts \<and> ts \<noteq> [] \<and>
         successively (\<lambda>t t'. t' - t \<le> DEFER_STREAK_GAP) ts \<and>
         hd ts \<le> now1 - minutes (rs_rate_limit_abuse_threshold_minutes (the_settings (policy_run evs d))) \<and>
         now2 - DEFER_STREAK_GAP \<le> last ts)) \<and>
    local_users d' = map (\<lambda>v. if lu_id v \<in> lu_id ` set out then v\<lparr>lu_enabled := False\<rparr> else v)
      (local_users (policy_run evs d))"
proof (intro conjI ballI impI)
  show "local_users d' = map (\<lambda>v. if lu_id v \<in> lu_id ` set out then v\<lparr>lu_enabled := False\<rparr> else v)
      (local_users (policy_run evs d))"
    using abuse_facts(2) [OF assms(6)] .
next
  fix u assume u: "u \<in> set out" and nm: "lu_username u = n"
  note af = abuse_facts(1) [OF assms(6) u]
  then show "lu_enabled u" "rs_rate_limit_abuse_auto_disable_enabled (the_settings (policy_run evs d))"
    "\<exists>v v'. sasl_delete n v = (Inr (), v')"
    using nm by (auto simp: abuse_candidate_def)
  show "\<exists>before ts. decision_log n evs d = before @ map (\<lambda>t. (t, True)) ts \<and> ts \<noteq> [] \<and>
         successively (\<lambda>t t'. t' - t \<le> DEFER_STREAK_GAP) ts \<and>
         hd ts \<le> now1 - minutes (rs_rate_limit_abuse_threshold_minutes (the_settings (policy_run evs d))) \<and>
         now2 - DEFER_STREAK_GAP \<le> last ts"
  proof -
    define st where "st = current_streak (rev (decision_log n evs d))"
    obtain older where older: "rev (decision_log n evs d) = map (\<lambda>t. (t, True)) st @ older"
        "successively (\<lambda>newer prev. newer - prev \<le> DEFER_STREAK_GAP) st"
      using current_streak_suffix [OF st_def [symmetric]] by blast
    have "keys_distinct lu_username (local_users (policy_run evs d))"
      using assms(5) by (simp add: keys_distinct_def policy_run_names)
    then have "user_by_name n (policy_run evs d) = Some u"
      using tbl_get_mem af nm by (fastforce simp: user_by_name_def)
    then have fields: "(lu_streak_started_at u, lu_streak_last_at u) = streak_fields st"
      using streak_refines_log [OF assms(1-4), of evs] by (simp add: user_streak_def st_def)
    then have "st \<noteq> []" "lu_streak_started_at u = Some (last st)" "lu_streak_last_at u = Some (hd st)"
      using af by (auto simp: streak_fields_def abuse_candidate_def split: if_splits)
    moreover have "decision_log n evs d = rev older @ map (\<lambda>t. (t, True)) (rev st)"
      using older(1) by (metis rev_append rev_map rev_rev_ident)
    ultimately show ?thesis
      using af older(2)
      by (intro exI [of _ "rev older"] exI [of _ "rev st"])
        (simp add: abuse_candidate_def hd_rev last_rev successively_rev)
  qed
qed

definition demo_abuse :: db where
  "demo_abuse = empty_db\<lparr>local_users := [demo_printer\<lparr>lu_rate_limit_per_hour := Some 0\<rparr>],
     settings_row := Some (default_relay_settings
       \<lparr>rs_rate_limit_abuse_auto_disable_enabled := True, rs_rate_limit_abuse_threshold_minutes := 5\<rparr>)\<rparr>"

end
