(* ===== verification/Control_Surface.thy ===== *)
theory Control_Surface
  imports Prelude
begin

text \<open>
  \<open>postfix/control_surface.py\<close>, the root process in the Postfix container.  The machine is the file
  system (a file is a directory and a name; its value is content and mode) and the mail log; every
  system call on files counts one operation and may fail with an \<open>OSError\<close>, as the oracle \<open>m_faulty\<close>
  says.  \<open>subprocess.run\<close> is the parameter \<open>run\<close>: argv and input to a completed process or an
  exception (a timeout), with its effect on the machine.  Requests and responses are JSON objects.
\<close>

section \<open>Exceptions and actions\<close>

datatype exn = OSError pystr | RuntimeError pystr | InvalidRequest pystr | OtherError pystr

type_synonym fpath = "pystr \<times> pystr"

record machine =
  m_files :: "fpath \<Rightarrow> (bytes \<times> int) option"
  m_ops :: nat
  m_faulty :: "nat \<Rightarrow> bool"
  m_maillog :: "(bytes \<times> int) option"
  m_rotated :: "pystr list"

record completed =
  cp_returncode :: int
  cp_stdout :: pystr
  cp_stderr :: pystr

type_synonym 'a action = "machine \<Rightarrow> (exn + 'a) \<times> machine"
type_synonym runner = "pystr list \<Rightarrow> pystr option \<Rightarrow> completed action"
type_synonym payload = "(pystr \<times> json) list"

definition return :: "'a \<Rightarrow> 'a action" where
  "return x m = (Inr x, m)"

definition throw :: "exn \<Rightarrow> 'a action" where
  "throw e m = (Inl e, m)"

definition andthen :: "'a action \<Rightarrow> ('a \<Rightarrow> 'b action) \<Rightarrow> 'b action" where
  "andthen a f m = (case a m of (Inl e, m') \<Rightarrow> (Inl e, m') | (Inr x, m') \<Rightarrow> f x m')"

fun for_each :: "('x \<Rightarrow> unit action) \<Rightarrow> 'x list \<Rightarrow> unit action" where
  "for_each f [] m = (Inr (), m)"
| "for_each f (x # xs) m = (case f x m of (Inl e, m') \<Rightarrow> (Inl e, m') | (Inr _, m') \<Rightarrow> for_each f xs m')"

text \<open>One system call that changes files, or fails.\<close>

definition syscall :: "((fpath \<Rightarrow> (bytes \<times> int) option) \<Rightarrow> fpath \<Rightarrow> (bytes \<times> int) option) \<Rightarrow> unit action" where
  "syscall f m =
     (if m_faulty m (m_ops m) then (Inl (OSError ''I/O error''), m\<lparr>m_ops := Suc (m_ops m)\<rparr>)
      else (Inr (), m\<lparr>m_ops := Suc (m_ops m), m_files := f (m_files m)\<rparr>))"

definition open_trunc :: "fpath \<Rightarrow> int \<Rightarrow> unit action" where
  "open_trunc p mode = syscall (\<lambda>fs. fs(p \<mapsto> ([], case fs p of None \<Rightarrow> mode | Some (_, old) \<Rightarrow> old)))"

definition write_content :: "fpath \<Rightarrow> bytes \<Rightarrow> unit action" where
  "write_content p content = syscall (\<lambda>fs. case fs p of None \<Rightarrow> fs | Some (_, mode) \<Rightarrow> fs(p \<mapsto> (content, mode)))"

definition os_chmod :: "fpath \<Rightarrow> int \<Rightarrow> unit action" where
  "os_chmod p mode = syscall (\<lambda>fs. case fs p of None \<Rightarrow> fs | Some (c, _) \<Rightarrow> fs(p \<mapsto> (c, mode)))"

definition os_replace :: "fpath \<Rightarrow> fpath \<Rightarrow> unit action" where
  "os_replace tmp live = syscall (\<lambda>fs. (fs(live := fs tmp))(tmp := None))"

definition os_makedirs :: "unit action" where
  "os_makedirs = syscall (\<lambda>fs. fs)"

definition read_file :: "fpath \<Rightarrow> bytes option action" where
  "read_file p m =
     (if m_faulty m (m_ops m) then (Inr None, m\<lparr>m_ops := Suc (m_ops m)\<rparr>)
      else (Inr (map_option fst (m_files m p)), m\<lparr>m_ops := Suc (m_ops m)\<rparr>))"

text \<open>\<open>shutil.rmtree(dir, ignore_errors=True)\<close>, and the end of \<open>tempfile.TemporaryDirectory\<close>.\<close>

definition rmtree :: "pystr \<Rightarrow> machine \<Rightarrow> machine" where
  "rmtree dir m = m\<lparr>m_files := (\<lambda>p. if fst p = dir then None else m_files m p)\<rparr>"

section \<open>Paths and constants\<close>

definition POSTFIX_CONFIG_DIR :: pystr where "POSTFIX_CONFIG_DIR = ''/etc/postfix''"
definition RELAY_MAP_DIR :: pystr where "RELAY_MAP_DIR = ''/etc/postfix/relay''"
definition TLS_DIR :: pystr where "TLS_DIR = ''/etc/postfix/tls''"
definition SASLDB :: fpath where "SASLDB = (''/etc'', ''sasldb2'')"
definition SASLDB_COPY :: fpath where "SASLDB_COPY = (''/var/lib/postfix-sasldb'', ''sasldb2'')"
definition SASL_REALM :: pystr where "SASL_REALM = ''smtp-relay.internal''"
definition MAP_TYPE :: pystr where "MAP_TYPE = ''lmdb''"
definition MAILLOG_MAX_READ_BYTES :: nat where "MAILLOG_MAX_READ_BYTES = 4 * 1024 * 1024"
definition MAILLOG_ROTATE_BYTES :: nat where "MAILLOG_ROTATE_BYTES = 32 * 1024 * 1024"

definition MAP_NAMES :: "pystr list" where
  "MAP_NAMES = [''sender_login'', ''sender_relayhost'', ''sasl_passwd'', ''sender_transport'', ''tls_policy'']"

definition SECRET_MAP_NAMES :: "pystr list" where
  "SECRET_MAP_NAMES = [''sasl_passwd'']"

definition file_path :: "fpath \<Rightarrow> pystr" where
  "file_path p = fst p @ ''/'' @ snd p"

definition new_name :: "fpath \<Rightarrow> fpath" where
  "new_name p = (fst p, snd p @ ''.new'')"

definition map_mode :: "pystr \<Rightarrow> int" where
  "map_mode name = (if name \<in> set SECRET_MAP_NAMES then 384 else 420)"  \<comment> \<open>0o600, 0o644\<close>

section \<open>Request validation\<close>

definition require_str :: "payload \<Rightarrow> pystr \<Rightarrow> exn + pystr" where
  "require_str payload key =
     (case jget key payload of
        JStr v \<Rightarrow> Inr v
      | _ \<Rightarrow> Inl (InvalidRequest (py_repr key @ '' must be a string'')))"

text \<open>\<open>[A-Za-z0-9][A-Za-z0-9._-]{0,63}\<close> and \<open>[0-9A-Za-z]{6,20}\<close>, matched in full.\<close>

definition username_ok :: "pystr \<Rightarrow> bool" where
  "username_ok s \<longleftrightarrow> (case s of [] \<Rightarrow> False
     | c # cs \<Rightarrow> is_ascii_alnum c \<and> length cs \<le> 63 \<and>
         (\<forall>x\<in>set cs. is_ascii_alnum x \<or> x = CHR ''.'' \<or> x = CHR ''_'' \<or> x = CHR ''-''))"

definition queue_id_ok :: "pystr \<Rightarrow> bool" where
  "queue_id_ok s \<longleftrightarrow> 6 \<le> length s \<and> length s \<le> 20 \<and> (\<forall>x\<in>set s. is_ascii_alnum x)"

definition require_username :: "payload \<Rightarrow> exn + pystr" where
  "require_username payload =
     (case require_str payload ''username'' of
        Inl e \<Rightarrow> Inl e
      | Inr u \<Rightarrow> if username_ok u then Inr u else Inl (InvalidRequest ''invalid username''))"

definition require_queue_id :: "payload \<Rightarrow> exn + pystr" where
  "require_queue_id payload =
     (case require_str payload ''queue_id'' of
        Inl e \<Rightarrow> Inl e
      | Inr q \<Rightarrow> if queue_id_ok q then Inr q else Inl (InvalidRequest ''invalid queue_id''))"

fun require_map_entries :: "(pystr \<times> json) list \<Rightarrow> exn + (pystr \<times> pystr) list" where
  "require_map_entries [] = Inr []"
| "require_map_entries ((name, content) # rest) =
     (if name \<notin> set MAP_NAMES then Inl (InvalidRequest (''unknown map name: '' @ py_repr name))
      else (case content of
          JStr text \<Rightarrow> (case require_map_entries rest of Inl e \<Rightarrow> Inl e | Inr maps \<Rightarrow> Inr ((name, text) # maps))
        | _ \<Rightarrow> Inl (InvalidRequest (''map '' @ py_repr name @ '' content must be a string''))))"

definition require_maps :: "payload \<Rightarrow> exn + (pystr \<times> pystr) list" where
  "require_maps payload =
     (case jget ''maps'' payload of
        JObj maps \<Rightarrow> require_map_entries maps
      | _ \<Rightarrow> Inl (InvalidRequest (py_repr ''maps'' @ '' must be an object'')))"

definition check :: "exn + 'a \<Rightarrow> 'a action" where
  "check r m = (r, m)"

section \<open>Files\<close>

definition write_file :: "fpath \<Rightarrow> bytes \<Rightarrow> int \<Rightarrow> unit action" where
  "write_file p content mode =
     andthen (open_trunc (new_name p) mode) (\<lambda>_.
     andthen (write_content (new_name p) content) (\<lambda>_.
     andthen (os_chmod (new_name p) mode) (\<lambda>_.
     os_replace (new_name p) p)))"

text \<open>\<open>open(path, "w")\<close>, one write, close: the mode of a new file is 0644.\<close>

definition write_plain :: "fpath \<Rightarrow> bytes \<Rightarrow> unit action" where
  "write_plain p content = andthen (open_trunc p 420) (\<lambda>_. write_content p content)"

section \<open>SASL users\<close>

definition response_ok :: payload where
  "response_ok = [(''ok'', JBool True)]"

definition response_error :: "pystr \<Rightarrow> payload" where
  "response_error e = [(''ok'', JBool False), (''error'', JStr e)]"

definition sync_sasldb_to_volume :: "unit action" where
  "sync_sasldb_to_volume m =
     (case m_files m SASLDB of
        None \<Rightarrow> (Inl (OSError ''No such file or directory''), m)
      | Some (content, _) \<Rightarrow>
          andthen (open_trunc SASLDB_COPY 420) (\<lambda>_. write_content SASLDB_COPY content) m)"

definition sync_or_error :: "pystr \<Rightarrow> payload action" where
  "sync_or_error what m =
     (case sync_sasldb_to_volume m of
        (Inl (OSError e), m') \<Rightarrow>
          (Inr (response_error (what @ '' succeeded but syncing to the persisted volume failed: '' @ e)), m')
      | (Inl e, m') \<Rightarrow> (Inl e, m')
      | (Inr _, m') \<Rightarrow> (Inr response_ok, m'))"

definition sasl_set_user :: "runner \<Rightarrow> payload \<Rightarrow> payload action" where
  "sasl_set_user run payload =
     andthen (check (require_username payload)) (\<lambda>username.
     andthen (check (require_str payload ''password'')) (\<lambda>password.
     andthen (run [''saslpasswd2'', ''-c'', ''-p'', ''-u'', SASL_REALM, username] (Some password)) (\<lambda>result.
       if cp_returncode result \<noteq> 0
       then return (response_error (''saslpasswd2 failed: '' @ strip (cp_stderr result)))
       else sync_or_error ''saslpasswd2'')))"

definition sasl_user_exists :: "runner \<Rightarrow> pystr \<Rightarrow> bool action" where
  "sasl_user_exists run username =
     andthen (run [''sasldblistusers2''] None) (\<lambda>result.
       if cp_returncode result \<noteq> 0 then return True
       else return (\<exists>line\<in>set (splitlines (cp_stdout result)).
              prefix (username @ ''@'' @ SASL_REALM @ '':'') line))"

definition sasl_delete_user :: "runner \<Rightarrow> payload \<Rightarrow> payload action" where
  "sasl_delete_user run payload =
     andthen (check (require_username payload)) (\<lambda>username.
     andthen (sasl_user_exists run username) (\<lambda>exists.
       if exists then
         andthen (run [''saslpasswd2'', ''-d'', ''-u'', SASL_REALM, username] None) (\<lambda>result.
           if cp_returncode result \<noteq> 0
           then return (response_error (''saslpasswd2 -d failed: '' @ strip (cp_stderr result)))
           else sync_or_error ''saslpasswd2 -d'')
       else sync_or_error ''saslpasswd2 -d''))"

text \<open>\<open>line.split(suffix, 1)[0]\<close> for the lines that contain \<open>suffix\<close>: the part before its first occurrence.\<close>

fun before_first :: "pystr \<Rightarrow> pystr \<Rightarrow> pystr option" where
  "before_first suf [] = (if suf = [] then Some [] else None)"
| "before_first suf (c # cs) =
     (if prefix suf (c # cs) then Some [] else map_option ((#) c) (before_first suf cs))"

definition sasl_list_users :: "runner \<Rightarrow> payload \<Rightarrow> payload action" where
  "sasl_list_users run payload =
     andthen (run [''sasldblistusers2''] None) (\<lambda>result.
       if cp_returncode result \<noteq> 0
       then return (response_error (''sasldblistusers2 failed: '' @ strip (cp_stderr result)))
       else return [(''ok'', JBool True),
              (''usernames'', JList (map JStr (remdups_adj (sort
                 (List.map_filter (before_first (''@'' @ SASL_REALM @ '':'')) (splitlines (cp_stdout result)))))))])"

section \<open>Applying a configuration\<close>

text \<open>
  \<open>staging\<close> is the name \<open>tempfile\<close> picks; the directory is removed whatever happens inside.
\<close>

definition within :: "pystr \<Rightarrow> 'a action \<Rightarrow> 'a action" where
  "within staging a m = (case a m of (r, m') \<Rightarrow> (r, rmtree staging m'))"

definition validate_staged_config :: "runner \<Rightarrow> pystr \<Rightarrow> pystr \<Rightarrow> pystr \<Rightarrow> (bool \<times> pystr) action" where
  "validate_staged_config run staging main_cf master_cf =
     andthen os_makedirs (\<lambda>_. within staging (
     andthen (write_plain (staging, ''main.cf'') main_cf) (\<lambda>_.
     andthen (write_plain (staging, ''master.cf'') master_cf) (\<lambda>_.
     andthen (run [''postconf'', ''-c'', staging, ''-n''] None) (\<lambda>main_result.
     andthen (run [''postconf'', ''-c'', staging, ''-M''] None) (\<lambda>master_result.
       let detail = strip (cp_stdout main_result @ cp_stderr main_result @
                           cp_stdout master_result @ cp_stderr master_result);
           valid = (cp_returncode main_result = 0 \<and> cp_returncode master_result = 0)
       in return (valid, if detail = [] then ''postconf: OK'' else detail)))))))"

text \<open>Writing one map, building its database, fixing the database's mode.\<close>

definition build_map :: "runner \<Rightarrow> pystr \<Rightarrow> pystr \<Rightarrow> pystr \<times> pystr \<Rightarrow> unit action" where
  "build_map run config_dir dir entry =
     (let (name, content) = entry
      in andthen (write_file (dir, name) content (map_mode name)) (\<lambda>_.
         andthen (run [''postmap'', ''-c'', config_dir, MAP_TYPE @ '':'' @ file_path (dir, name)] None) (\<lambda>result.
           if cp_returncode result \<noteq> 0
           then throw (RuntimeError (''postmap failed for '' @ name @ '': '' @ strip (cp_stderr result)))
           else os_chmod (dir, name @ ''.'' @ MAP_TYPE) (map_mode name))))"

definition stage_maps :: "runner \<Rightarrow> (pystr \<times> pystr) list \<Rightarrow> pystr \<Rightarrow> pystr \<Rightarrow> unit action" where
  "stage_maps run maps staging main_cf =
     andthen (write_file (staging, ''main.cf'') main_cf 420) (\<lambda>_.
     for_each (build_map run staging staging) maps)"

text \<open>\<open>sorted(maps, key=lambda map_name: map_name == "sender_login")\<close>: the login map goes last.\<close>

definition activation_order :: "(pystr \<times> pystr) list \<Rightarrow> (pystr \<times> pystr) list" where
  "activation_order maps =
     filter (\<lambda>e. fst e \<noteq> ''sender_login'') maps @ filter (\<lambda>e. fst e = ''sender_login'') maps"

definition activate_maps :: "runner \<Rightarrow> (pystr \<times> pystr) list \<Rightarrow> unit action" where
  "activate_maps run maps = for_each (build_map run POSTFIX_CONFIG_DIR RELAY_MAP_DIR) (activation_order maps)"

definition install_maps :: "runner \<Rightarrow> pystr \<Rightarrow> (pystr \<times> pystr) list \<Rightarrow> pystr \<Rightarrow> unit action" where
  "install_maps run staging maps main_cf =
     andthen os_makedirs (\<lambda>_.
     andthen os_makedirs (\<lambda>_.
     andthen (within staging (stage_maps run maps staging main_cf)) (\<lambda>_.
     activate_maps run maps)))"

definition install_one :: "pystr \<Rightarrow> pystr \<Rightarrow> bytes option action" where
  "install_one filename content =
     (let live = (POSTFIX_CONFIG_DIR, filename)
      in andthen (read_file live) (\<lambda>previous.
         andthen (write_plain (new_name live) content) (\<lambda>_.
         andthen (os_replace (new_name live) live) (\<lambda>_.
         return previous))))"

definition install_config :: "pystr \<Rightarrow> pystr \<Rightarrow> (pystr \<times> bytes option) list action" where
  "install_config main_cf master_cf =
     andthen (install_one ''main.cf'' main_cf) (\<lambda>p1.
     andthen (install_one ''master.cf'' master_cf) (\<lambda>p2.
     return [(''main.cf'', p1), (''master.cf'', p2)]))"

definition restore_one :: "pystr \<times> bytes option \<Rightarrow> unit action" where
  "restore_one entry =
     (case entry of
        (filename, None) \<Rightarrow> return ()
      | (filename, Some content) \<Rightarrow>
          andthen (write_plain (new_name (POSTFIX_CONFIG_DIR, filename)) content) (\<lambda>_.
          os_replace (new_name (POSTFIX_CONFIG_DIR, filename)) (POSTFIX_CONFIG_DIR, filename)))"

definition restore_config :: "(pystr \<times> bytes option) list \<Rightarrow> unit action" where
  "restore_config previous = for_each restore_one previous"

definition apply_response :: "bool \<Rightarrow> pystr \<Rightarrow> bool \<Rightarrow> payload" where
  "apply_response success detail reloaded =
     [(''ok'', JBool True), (''success'', JBool success), (''validation_detail'', JStr detail),
      (''reloaded'', JBool reloaded)]"

text \<open>The \<open>try\<close> block: staging, installation and activation, and what its handler does.\<close>

definition install_failed :: "exn \<Rightarrow> pystr option" where
  "install_failed e =
     (case e of OSError t \<Rightarrow> Some (''install failed: '' @ t)
      | RuntimeError t \<Rightarrow> Some (''install failed: '' @ t) | _ \<Rightarrow> None)"

definition install_all ::
  "runner \<Rightarrow> pystr \<Rightarrow> pystr \<Rightarrow> pystr \<Rightarrow> (pystr \<times> pystr) list \<Rightarrow>
   (pystr + (pystr \<times> bytes option) list) action" where
  "install_all run staging main_cf master_cf maps m =
     (case within staging (stage_maps run maps staging main_cf) m of
        (Inl e, m1) \<Rightarrow> (case install_failed e of Some t \<Rightarrow> (Inr (Inl t), m1) | None \<Rightarrow> (Inl e, m1))
      | (Inr _, m1) \<Rightarrow>
          (case install_config main_cf master_cf m1 of
             (Inl e, m2) \<Rightarrow> (case install_failed e of Some t \<Rightarrow> (Inr (Inl t), m2) | None \<Rightarrow> (Inl e, m2))
           | (Inr previous, m2) \<Rightarrow>
               (case activate_maps run maps m2 of
                  (Inr _, m3) \<Rightarrow> (Inr (Inr previous), m3)
                | (Inl e, m3) \<Rightarrow>
                    (case install_failed e of
                       None \<Rightarrow> (Inl e, m3)
                     | Some t \<Rightarrow> andthen (restore_config previous) (\<lambda>_. return (Inl t)) m3))))"

text \<open>The restart after an installation, with the rollback when Postfix does not start.\<close>

definition restart_postfix :: "runner \<Rightarrow> (pystr \<times> bytes option) list \<Rightarrow> pystr \<Rightarrow> payload action" where
  "restart_postfix run previous detail =
     andthen (run [''postfix'', ''stop''] None) (\<lambda>_.
     andthen (run [''postfix'', ''start''] None) (\<lambda>start_result.
       if cp_returncode start_result = 0 then return (apply_response True detail True)
       else
         (let combined = strip (cp_stdout start_result @ CHR 10 # cp_stderr start_result);
              failed = (\<lambda>rollback_detail. apply_response False
                 (detail @ CHR 10 # ''postfix start failed: '' @ combined @ rollback_detail) False)
          in if \<exists>p\<in>set previous. snd p \<noteq> None then
               andthen (restore_config previous) (\<lambda>_.
               andthen (run [''postfix'', ''start''] None) (\<lambda>rollback_start.
                 return (failed (if cp_returncode rollback_start = 0
                   then ''; rolled back to the previous config and restarted successfully''
                   else ''; rollback to the previous config ALSO failed to start: '' @
                        strip (cp_stderr rollback_start)))))
             else return (failed []))))"

definition apply_config :: "runner \<Rightarrow> pystr \<Rightarrow> pystr \<Rightarrow> payload \<Rightarrow> payload action" where
  "apply_config run staging1 staging2 payload =
     andthen (check (require_str payload ''main_cf'')) (\<lambda>main_cf.
     andthen (check (require_str payload ''master_cf'')) (\<lambda>master_cf.
     andthen (check (require_maps payload)) (\<lambda>maps.
     andthen (validate_staged_config run staging1 main_cf master_cf) (\<lambda>(valid, detail).
       if \<not> valid then return (apply_response False detail False)
       else
         andthen os_makedirs (\<lambda>_.
         andthen os_makedirs (\<lambda>_.
         andthen (install_all run staging2 main_cf master_cf maps) (\<lambda>outcome.
           case outcome of
             Inl text \<Rightarrow> return (apply_response False text False)
           | Inr previous \<Rightarrow>
               if jget ''reload_if_main_changed'' payload = JBool True
               then restart_postfix run previous detail
               else return (apply_response True detail False))))))))"

section \<open>The TLS certificate\<close>

definition read_tls_files :: "(pystr \<times> bytes option) list action" where
  "read_tls_files =
     andthen (read_file (TLS_DIR, ''relay.crt'')) (\<lambda>crt.
     andthen (read_file (TLS_DIR, ''relay.key'')) (\<lambda>key.
     return [(''relay.crt'', crt), (''relay.key'', key)]))"

definition tls_mode_of :: "pystr \<Rightarrow> int" where
  "tls_mode_of filename = (if filename = ''relay.key'' then 384 else 420)"

definition write_tls_files :: "pystr \<Rightarrow> pystr \<Rightarrow> unit action" where
  "write_tls_files cert_pem key_pem =
     for_each (\<lambda>(filename, content). write_file (TLS_DIR, filename) content (tls_mode_of filename))
       [(''relay.crt'', cert_pem), (''relay.key'', key_pem)]"

definition restore_tls_files :: "(pystr \<times> bytes option) list \<Rightarrow> unit action" where
  "restore_tls_files previous =
     for_each (\<lambda>(filename, content). case content of None \<Rightarrow> return ()
        | Some c \<Rightarrow> write_file (TLS_DIR, filename) c (tls_mode_of filename)) previous"

definition tls_response :: "bool \<Rightarrow> pystr \<Rightarrow> bool option \<Rightarrow> payload" where
  "tls_response success detail restarted =
     [(''ok'', JBool True), (''success'', JBool success), (''detail'', JStr detail)] @
     (case restarted of None \<Rightarrow> [] | Some r \<Rightarrow> [(''restarted'', JBool r)])"

text \<open>From the point where certificate and key are known to match.\<close>

definition replace_tls_files :: "runner \<Rightarrow> pystr \<Rightarrow> pystr \<Rightarrow> payload action" where
  "replace_tls_files run cert_pem key_pem =
     andthen read_tls_files (\<lambda>previous.
       if map_of previous ''relay.crt'' = Some (Some cert_pem) \<and> map_of previous ''relay.key'' = Some (Some key_pem)
       then return (tls_response True (''Already installed '' @ em_dash @ '' no change.'') (Some False))
       else
         andthen (write_tls_files cert_pem key_pem) (\<lambda>_.
         andthen (run [''postfix'', ''stop''] None) (\<lambda>_.
         andthen (run [''postfix'', ''start''] None) (\<lambda>start_result.
           if cp_returncode start_result = 0 then return (tls_response True ''Installed.'' (Some True))
           else
             (let combined = strip (cp_stdout start_result @ CHR 10 # cp_stderr start_result);
                  failed = (\<lambda>t. tls_response False (''postfix start failed: '' @ combined @ t) None)
              in if \<exists>p\<in>set previous. snd p \<noteq> None then
                   andthen (restore_tls_files previous) (\<lambda>_.
                   andthen (run [''postfix'', ''start''] None) (\<lambda>rollback_start.
                     return (failed (if cp_returncode rollback_start = 0
                       then ''; rolled back to the previous certificate and restarted successfully''
                       else ''; rollback ALSO failed to start: '' @ strip (cp_stderr rollback_start)))))
                 else return (failed []))))))"

definition install_tls_certificate :: "runner \<Rightarrow> pystr \<Rightarrow> payload \<Rightarrow> payload action" where
  "install_tls_certificate run staging payload =
     andthen (check (require_str payload ''cert_pem'')) (\<lambda>cert_pem.
     andthen (check (require_str payload ''key_pem'')) (\<lambda>key_pem.
     andthen os_makedirs (\<lambda>_. within staging (
       let cert_tmp = file_path (staging, ''cert.pem''); key_tmp = file_path (staging, ''key.pem'')
       in andthen (write_plain (staging, ''cert.pem'') cert_pem) (\<lambda>_.
          andthen (write_plain (staging, ''key.pem'') key_pem) (\<lambda>_.
          andthen (run [''openssl'', ''x509'', ''-in'', cert_tmp, ''-noout'', ''-checkend'', ''0''] None) (\<lambda>checkend.
            if cp_returncode checkend \<noteq> 0
            then return (tls_response False ''Certificate is already expired.'' None)
            else
              andthen (run [''openssl'', ''x509'', ''-noout'', ''-pubkey'', ''-in'', cert_tmp] None) (\<lambda>cert_pubkey.
              andthen (run [''openssl'', ''pkey'', ''-pubout'', ''-in'', key_tmp] None) (\<lambda>key_pubkey.
                if cp_returncode cert_pubkey \<noteq> 0 \<or> cp_returncode key_pubkey \<noteq> 0 \<or>
                   cp_stdout cert_pubkey \<noteq> cp_stdout key_pubkey
                then return (tls_response False ''Private key does not match certificate.'' None)
                else replace_tls_files run cert_pem key_pem)))))))))"

section \<open>The mail log\<close>

text \<open>Everything up to and including the last newline of a chunk.\<close>

definition complete_part :: "bytes \<Rightarrow> bytes" where
  "complete_part chunk = rev (dropWhile (\<lambda>c. c \<noteq> CHR 10) (rev chunk))"

text \<open>
  \<open>_rotate_maillog\<close>: \<open>postfix logrotate\<close> renames the log aside; of the rotated copies, \<open>m_rotated\<close>,
  only the newest is kept.  A copy that cannot be removed is passed over.
\<close>

fun remove_rotated :: "pystr list \<Rightarrow> machine \<Rightarrow> machine" where
  "remove_rotated [] m = m"
| "remove_rotated (old # rest) m =
     remove_rotated rest
       (if m_faulty m (m_ops m) then m\<lparr>m_ops := Suc (m_ops m)\<rparr>
        else m\<lparr>m_ops := Suc (m_ops m), m_rotated := removeAll old (m_rotated m)\<rparr>)"

definition rotate_maillog :: "runner \<Rightarrow> unit action" where
  "rotate_maillog run =
     andthen (run [''postfix'', ''logrotate''] None) (\<lambda>result m.
       if cp_returncode result \<noteq> 0 then (Inr (), m)
       else (Inr (), remove_rotated (butlast (sort (m_rotated m))) m))"

text \<open>
  \<open>late\<close> is what Postfix appends between the \<open>stat\<close> and the read; \<open>decode\<close> is the decoding of bytes.
  An offset that is not a number, where it is used, is a \<open>TypeError\<close>; a negative one an \<open>OSError\<close>.
\<close>

definition since_offset_of :: "payload \<Rightarrow> int option" where
  "since_offset_of payload =
     (case map_of payload ''since_offset'' of
        None \<Rightarrow> Some 0
      | Some (JInt n) \<Rightarrow> Some n
      | Some (JBool b) \<Rightarrow> Some (if b then 1 else 0)
      | Some _ \<Rightarrow> None)"

definition inode_differs :: "json \<Rightarrow> int \<Rightarrow> bool" where
  "inode_differs since inode =
     (case since of JInt i \<Rightarrow> inode \<noteq> i | JBool b \<Rightarrow> inode \<noteq> (if b then 1 else 0) | _ \<Rightarrow> True)"

definition tail_start :: "json \<Rightarrow> int option \<Rightarrow> int \<Rightarrow> int \<Rightarrow> exn + (bool \<times> int)" where
  "tail_start since_inode since_offset inode len =
     (if since_inode \<noteq> JNull \<and> inode_differs since_inode inode then Inr (True, 0)
      else (case since_offset of
          None \<Rightarrow> Inl (OtherError ''TypeError'')
        | Some n \<Rightarrow>
            if since_inode = JNull \<and> n > len then Inr (True, 0)
            else if n < 0 then Inl (OSError ''Invalid argument'') else Inr (False, n)))"

definition tail_maillog :: "runner \<Rightarrow> (bytes \<Rightarrow> pystr) \<Rightarrow> bytes \<Rightarrow> payload \<Rightarrow> payload action" where
  "tail_maillog run decode late payload m =
     (case m_maillog m of
        None \<Rightarrow> (Inr [(''ok'', JBool True), (''lines'', JList []), (''new_offset'', JInt 0),
                     (''truncated'', JBool False), (''inode'', JNull)], m)
      | Some (content, inode) \<Rightarrow>
          (let size = int (length content);
               m1 = m\<lparr>m_maillog := Some (content @ late, inode)\<rparr>
           in case tail_start (jget ''since_inode'' payload) (since_offset_of payload) inode size of
                Inl e \<Rightarrow> (Inl e, m1)
              | Inr (truncated, start) \<Rightarrow>
                  (let chunk = take MAILLOG_MAX_READ_BYTES (drop (nat start) (content @ late));
                       complete = complete_part chunk;
                       new_offset = start + int (length complete);
                       response = [(''ok'', JBool True), (''lines'', JList (map JStr (splitlines (decode complete)))),
                                   (''new_offset'', JInt new_offset), (''truncated'', JBool truncated),
                                   (''inode'', JInt inode)]
                   in if new_offset \<ge> size \<and> size \<ge> int MAILLOG_ROTATE_BYTES
                      then andthen (rotate_maillog run) (\<lambda>_. return response) m1
                      else (Inr response, m1))))"

section \<open>The other operations\<close>

definition status_op :: "runner \<Rightarrow> payload \<Rightarrow> payload action" where
  "status_op run payload =
     andthen (run [''/usr/local/bin/postfix-running''] None) (\<lambda>result.
       let running = (cp_returncode result = 0)
       in return [(''ok'', JBool True), (''running'', JBool running),
            (''detail'', JStr (if running then ''the Postfix mail system is running''
                               else ''the Postfix mail system is not running''))])"

definition version_op :: "runner \<Rightarrow> payload \<Rightarrow> payload action" where
  "version_op run payload =
     andthen (run [''postconf'', ''-h'', ''mail_version''] None) (\<lambda>result.
       if cp_returncode result \<noteq> 0 then return (response_error (''postconf failed: '' @ strip (cp_stderr result)))
       else return [(''ok'', JBool True), (''version'', JStr (strip (cp_stdout result)))])"

text \<open>\<open>loads\<close> is \<open>json.loads\<close> on one line; a malformed line raises.\<close>

fun load_lines :: "(pystr \<Rightarrow> json option) \<Rightarrow> pystr list \<Rightarrow> exn + json list" where
  "load_lines loads [] = Inr []"
| "load_lines loads (l # ls) =
     (if strip l = [] then load_lines loads ls
      else (case loads l of
          None \<Rightarrow> Inl (OtherError ''JSONDecodeError'')
        | Some j \<Rightarrow> (case load_lines loads ls of Inl e \<Rightarrow> Inl e | Inr js \<Rightarrow> Inr (j # js))))"

definition queue_list_op :: "runner \<Rightarrow> (pystr \<Rightarrow> json option) \<Rightarrow> payload \<Rightarrow> payload action" where
  "queue_list_op run loads payload =
     andthen (run [''postqueue'', ''-j''] None) (\<lambda>result.
       if cp_returncode result \<noteq> 0 then return (response_error (''postqueue -j failed: '' @ strip (cp_stderr result)))
       else andthen (check (load_lines loads (splitlines (cp_stdout result)))) (\<lambda>entries.
            return [(''ok'', JBool True), (''entries'', JList entries)]))"

definition postsuper :: "pystr \<Rightarrow> runner \<Rightarrow> payload \<Rightarrow> payload action" where
  "postsuper flag run payload =
     andthen (check (require_queue_id payload)) (\<lambda>queue_id.
     andthen (run [''postsuper'', flag, queue_id] None) (\<lambda>result.
       if cp_returncode result \<noteq> 0
       then return (response_error (''postsuper '' @ flag @ '' failed: '' @ strip (cp_stderr result)))
       else return response_ok))"

definition queue_requeue_op :: "runner \<Rightarrow> payload \<Rightarrow> payload action" where
  "queue_requeue_op = postsuper ''-r''"

definition queue_delete_op :: "runner \<Rightarrow> payload \<Rightarrow> payload action" where
  "queue_delete_op = postsuper ''-d''"

section \<open>Dispatch\<close>

record surface_env =
  sf_run :: runner
  sf_staging1 :: pystr
  sf_staging2 :: pystr
  sf_decode :: "bytes \<Rightarrow> pystr"
  sf_late :: bytes
  sf_repr :: "json \<Rightarrow> pystr"
  sf_loads :: "pystr \<Rightarrow> json option"

definition handler_for :: "surface_env \<Rightarrow> json \<Rightarrow> (payload \<Rightarrow> payload action) option" where
  "handler_for E op =
     (case op of
        JStr name \<Rightarrow>
          map_of [(''sasl_set_user'', sasl_set_user (sf_run E)),
                  (''sasl_delete_user'', sasl_delete_user (sf_run E)),
                  (''sasl_list_users'', sasl_list_users (sf_run E)),
                  (''apply_config'', apply_config (sf_run E) (sf_staging1 E) (sf_staging2 E)),
                  (''install_tls_certificate'', install_tls_certificate (sf_run E) (sf_staging1 E)),
                  (''status'', status_op (sf_run E)),
                  (''version'', version_op (sf_run E)),
                  (''tail_maillog'', tail_maillog (sf_run E) (sf_decode E) (sf_late E)),
                  (''queue_list'', queue_list_op (sf_run E) (sf_loads E)),
                  (''queue_requeue'', queue_requeue_op (sf_run E)),
                  (''queue_delete'', queue_delete_op (sf_run E))] name
      | _ \<Rightarrow> None)"

definition exn_response :: "exn \<Rightarrow> payload" where
  "exn_response e =
     (case e of InvalidRequest t \<Rightarrow> response_error (''invalid request: '' @ t)
      | OSError t \<Rightarrow> response_error (''control surface error: '' @ t)
      | RuntimeError t \<Rightarrow> response_error (''control surface error: '' @ t)
      | OtherError t \<Rightarrow> response_error (''control surface error: '' @ t))"

text \<open>
  \<open>_handle_connection\<close>, from the decoded request (\<open>None\<close> when it is not JSON) to the response; every
  request is answered, whatever is raised.  A list or object as \<open>op\<close> is not hashable.
\<close>

definition handle_request :: "surface_env \<Rightarrow> json option \<Rightarrow> machine \<Rightarrow> payload \<times> machine" where
  "handle_request E request m =
     (case request of
        None \<Rightarrow> (exn_response (OtherError ''JSONDecodeError''), m)
      | Some (JObj payload) \<Rightarrow>
          (case jget ''op'' payload of
             JList _ \<Rightarrow> (exn_response (OtherError ''unhashable type''), m)
           | JObj _ \<Rightarrow> (exn_response (OtherError ''unhashable type''), m)
           | op \<Rightarrow>
               (case handler_for E op of
                  None \<Rightarrow> (response_error (''unknown op: '' @ sf_repr E op), m)
                | Some h \<Rightarrow> (case h payload m of (Inl e, m') \<Rightarrow> (exn_response e, m') | (Inr r, m') \<Rightarrow> (r, m'))))
      | Some _ \<Rightarrow> (exn_response (InvalidRequest ''request must be a JSON object''), m))"

end
