(* ===== verification/Config_Install.thy ===== *)
theory Config_Install
  imports Control_Surface
begin

text \<open>
  What \<open>_apply_config\<close> of the control surface guarantees: nothing live changes before the whole
  configuration has been validated and every map has been built in staging; a success has everything
  installed; and the authorization map goes live after all the routing maps, wherever the
  installation stops.  The proofs use a small calculus of invariants of actions.
\<close>

section \<open>Invariants and postconditions of actions\<close>

definition keeps :: "(machine \<Rightarrow> bool) \<Rightarrow> 'a action \<Rightarrow> bool" where
  "keeps I a \<longleftrightarrow> (\<forall>m. I m \<longrightarrow> I (snd (a m)))"

named_theorems keeps_rules

lemma keepsI: "(\<And>m. I m \<Longrightarrow> I (snd (a m))) \<Longrightarrow> keeps I a"
  by (simp add: keeps_def)

lemma keepsD: "keeps I a \<Longrightarrow> I m \<Longrightarrow> I (snd (a m))"
  by (simp add: keeps_def)

lemma keeps_return [keeps_rules]: "keeps I (return x)" and keeps_throw [keeps_rules]: "keeps I (throw e)"
  and keeps_check [keeps_rules]: "keeps I (check r)"
  by (simp_all add: keeps_def return_def throw_def check_def)

lemma keeps_andthen [keeps_rules]: "keeps I a \<Longrightarrow> (\<And>x. keeps I (f x)) \<Longrightarrow> keeps I (andthen a f)"
  by (fastforce simp: keeps_def andthen_def split: prod.splits sum.splits)

lemma keeps_for_each [keeps_rules]: "(\<And>x. x \<in> set xs \<Longrightarrow> keeps I (f x)) \<Longrightarrow> keeps I (for_each f xs)"
proof (induction xs)
  case (Cons x xs)
  then have "keeps I (f x)" "keeps I (for_each f xs)" by auto
  then show ?case by (fastforce simp: keeps_def split: prod.splits sum.splits)
qed (simp add: keeps_def)

lemma keeps_if [keeps_rules]: "(b \<Longrightarrow> keeps I a) \<Longrightarrow> (\<not> b \<Longrightarrow> keeps I a') \<Longrightarrow> keeps I (if b then a else a')"
  by simp

lemma keeps_syscall:
  "(\<And>m. I m \<Longrightarrow> I (m\<lparr>m_ops := Suc (m_ops m)\<rparr>)) \<Longrightarrow>
   (\<And>m. I m \<Longrightarrow> I (m\<lparr>m_ops := Suc (m_ops m), m_files := f (m_files m)\<rparr>)) \<Longrightarrow> keeps I (syscall f)"
  by (simp add: keeps_def syscall_def)

lemma keeps_within: "keeps I a \<Longrightarrow> (\<And>m. I m \<Longrightarrow> I (rmtree s m)) \<Longrightarrow> keeps I (within s a)"
  by (fastforce simp: keeps_def within_def split: prod.splits)

text \<open>The result and the state of \<open>andthen\<close>, of a succeeding loop and of a system call.\<close>

lemma andthen_Inr:
  "andthen a f m = (Inr y, m') \<longleftrightarrow> (\<exists>x m1. a m = (Inr x, m1) \<and> f x m1 = (Inr y, m'))"
  by (auto simp: andthen_def split: prod.splits sum.splits)

lemma andthen_eq:
  "a m = (Inr x, m1) \<Longrightarrow> andthen a f m = f x m1"
  by (simp add: andthen_def)

lemma andthen_check: "andthen (check (Inr x)) f = f x"
  by (rule ext) (simp add: andthen_def check_def)

lemma within_Inr: "within s a m = (Inr x, m') \<longleftrightarrow> (\<exists>m1. a m = (Inr x, m1) \<and> m' = rmtree s m1)"
  by (auto simp: within_def split: prod.splits)

lemma for_each_append:
  "for_each f (xs @ ys) m =
     (case for_each f xs m of (Inl e, m') \<Rightarrow> (Inl e, m') | (Inr _, m') \<Rightarrow> for_each f ys m')"
  by (induction xs arbitrary: m) (auto split: prod.splits sum.splits)

lemma for_each_Inr_Cons:
  "for_each f (x # xs) m = (Inr (), m') \<longleftrightarrow> (\<exists>m1. f x m = (Inr (), m1) \<and> for_each f xs m1 = (Inr (), m'))"
  by (auto split: prod.splits sum.splits)

lemma syscall_Inr:
  "syscall f m = (Inr (), m') \<longleftrightarrow>
   \<not> m_faulty m (m_ops m) \<and> m' = m\<lparr>m_ops := Suc (m_ops m), m_files := f (m_files m)\<rparr>"
  by (auto simp: syscall_def)

section \<open>The files an action may touch\<close>

text \<open>Every file outside \<open>D\<close> is as in \<open>fs\<close>.\<close>

definition same_outside :: "fpath set \<Rightarrow> (fpath \<Rightarrow> (bytes \<times> int) option) \<Rightarrow> machine \<Rightarrow> bool" where
  "same_outside D fs m \<longleftrightarrow> (\<forall>p. p \<notin> D \<longrightarrow> m_files m p = fs p)"

definition touches :: "fpath set \<Rightarrow> 'a action \<Rightarrow> bool" where
  "touches D a \<longleftrightarrow> (\<forall>fs. keeps (same_outside D fs) a)"

named_theorems touches_rules

lemma touchesD: "touches D a \<Longrightarrow> p \<notin> D \<Longrightarrow> m_files (snd (a m)) p = m_files m p"
  unfolding touches_def keeps_def same_outside_def by blast

lemma touchesI: "(\<And>m p. p \<notin> D \<Longrightarrow> m_files (snd (a m)) p = m_files m p) \<Longrightarrow> touches D a"
  unfolding touches_def keeps_def same_outside_def by auto

lemma touchesD': "touches D a \<Longrightarrow> a m = (r, m') \<Longrightarrow> p \<notin> D \<Longrightarrow> m_files m' p = m_files m p"
  using touchesD[of D a p m] by simp

lemma touches_mono: "touches D a \<Longrightarrow> D \<subseteq> D' \<Longrightarrow> touches D' a"
  by (rule touchesI) (auto dest: touchesD)

lemma touches_trivial [touches_rules]: "touches D (return x)" "touches D (throw e)" "touches D (check r)"
  by (simp_all add: touches_def keeps_rules)

lemma touches_andthen [touches_rules]: "touches D a \<Longrightarrow> (\<And>x. touches D (f x)) \<Longrightarrow> touches D (andthen a f)"
  by (simp add: touches_def keeps_rules)

lemma touches_for_each [touches_rules]: "(\<And>x. x \<in> set xs \<Longrightarrow> touches D (f x)) \<Longrightarrow> touches D (for_each f xs)"
  by (simp add: touches_def keeps_rules)

lemma touches_if [touches_rules]:
  "(b \<Longrightarrow> touches D a) \<Longrightarrow> (\<not> b \<Longrightarrow> touches D a') \<Longrightarrow> touches D (if b then a else a')"
  by simp

lemma touches_files [touches_rules]:
  "p \<in> D \<Longrightarrow> touches D (open_trunc p mode)"
  "p \<in> D \<Longrightarrow> touches D (write_content p c)"
  "p \<in> D \<Longrightarrow> touches D (os_chmod p mode)"
  "p \<in> D \<Longrightarrow> q \<in> D \<Longrightarrow> touches D (os_replace p q)"
  "touches D os_makedirs"
  "touches D (read_file q)"
  by (rule touchesI, auto simp: open_trunc_def write_content_def os_chmod_def os_replace_def os_makedirs_def
        syscall_def read_file_def split: option.splits)+

lemma touches_write_file [touches_rules]:
  "p \<in> D \<Longrightarrow> new_name p \<in> D \<Longrightarrow> touches D (write_file p c mode)"
  unfolding write_file_def by (intro touches_rules)

lemma touches_write_plain [touches_rules]: "p \<in> D \<Longrightarrow> touches D (write_plain p c)"
  unfolding write_plain_def by (intro touches_rules)

lemma touches_within [touches_rules]:
  assumes "touches D a" "{p. fst p = staging} \<subseteq> D"
  shows "touches D (within staging a)"
proof (rule touchesI)
  fix m p
  assume "p \<notin> D"
  then show "m_files (snd (within staging a m)) p = m_files m p"
    using touchesD[OF assms(1), of p m] assms(2)
    by (auto simp: within_def rmtree_def split: prod.splits)
qed

text \<open>
  What the Postfix tools may write, as their manual pages say: \<open>postconf -c dir\<close> only reads (and keeps
  to its directory); \<open>postmap\<close> writes the database next to its source; \<open>postfix\<close> start, stop and
  logrotate write no configuration file.
\<close>

definition tools_local :: "runner \<Rightarrow> bool" where
  "tools_local run \<longleftrightarrow>
     (\<forall>dir flag. touches {p. fst p = dir} (run [''postconf'', ''-c'', dir, flag] None)) \<and>
     (\<forall>config dir name. touches {(dir, name @ ''.'' @ MAP_TYPE)}
        (run [''postmap'', ''-c'', config, MAP_TYPE @ '':'' @ file_path (dir, name)] None)) \<and>
     (\<forall>verb. touches {} (run [''postfix'', verb] None))"

lemma tools_localD:
  assumes "tools_local run"
  shows "{p. fst p = dir} \<subseteq> D \<Longrightarrow> touches D (run [''postconf'', ''-c'', dir, flag] None)"
    and "(dir, name @ ''.'' @ MAP_TYPE) \<in> D \<Longrightarrow>
         touches D (run [''postmap'', ''-c'', config, MAP_TYPE @ '':'' @ file_path (dir, name)] None)"
    and "touches D (run [''postfix'', verb] None)"
  using assms unfolding tools_local_def by (blast intro: touches_mono)+

definition map_files :: "pystr \<Rightarrow> pystr \<Rightarrow> fpath set" where
  "map_files dir name = {(dir, name), (dir, name @ ''.new''), (dir, name @ ''.'' @ MAP_TYPE)}"

lemma touches_build_map:
  assumes "tools_local run" "map_files dir (fst entry) \<subseteq> D"
  shows "touches D (build_map run config dir entry)"
proof -
  have "(dir, fst entry) \<in> D" "new_name (dir, fst entry) \<in> D" "(dir, fst entry @ ''.'' @ MAP_TYPE) \<in> D"
    using assms(2) by (auto simp: map_files_def new_name_def)
  then show ?thesis
    unfolding build_map_def Let_def case_prod_beta
    by (intro touches_rules tools_localD[OF assms(1)])
qed

lemma touches_stage_maps:
  assumes "tools_local run"
  shows "touches {p. fst p = staging} (stage_maps run maps staging main_cf)"
  unfolding stage_maps_def
  by (intro touches_rules touches_build_map[OF assms]) (auto simp: map_files_def new_name_def)

lemma touches_validate:
  assumes "tools_local run"
  shows "touches {p. fst p = staging} (validate_staged_config run staging main_cf master_cf)"
  unfolding validate_staged_config_def Let_def
  by (intro touches_rules tools_localD[OF assms]) auto

definition config_files :: "fpath set" where
  "config_files = {(POSTFIX_CONFIG_DIR, f) | f. f \<in> {''main.cf'', ''master.cf'', ''main.cf.new'', ''master.cf.new''}}"

lemma touches_install_config: "touches config_files (install_config main_cf master_cf)"
  unfolding install_config_def install_one_def Let_def
  by (intro touches_rules) (auto simp: config_files_def new_name_def)

lemma touches_restore_one: "fst entry \<in> {''main.cf'', ''master.cf''} \<Longrightarrow> touches config_files (restore_one entry)"
  unfolding restore_one_def
  by (cases entry; cases "snd entry")
     (auto intro!: touches_rules simp: config_files_def new_name_def split: option.splits)

lemma touches_restore_config:
  "fst ` set previous \<subseteq> {''main.cf'', ''master.cf''} \<Longrightarrow> touches config_files (restore_config previous)"
  unfolding restore_config_def by (rule touches_for_each) (blast intro: touches_restore_one)

lemma install_config_names:
  "install_config main_cf master_cf m = (Inr previous, m') \<Longrightarrow> map fst previous = [''main.cf'', ''master.cf'']"
  by (auto simp: install_config_def andthen_Inr return_def)

lemma touches_restart:
  assumes "tools_local run" "fst ` set previous \<subseteq> {''main.cf'', ''master.cf''}"
  shows "touches config_files (restart_postfix run previous detail)"
  unfolding restart_postfix_def Let_def
  by (intro touches_rules tools_localD[OF assms(1)] touches_restore_config assms(2))

definition relay_maps :: "fpath set" where
  "relay_maps = {p. fst p = RELAY_MAP_DIR}"

lemma touches_activate:
  assumes "tools_local run" "\<And>e. e \<in> set maps \<Longrightarrow> map_files RELAY_MAP_DIR (fst e) \<subseteq> D"
  shows "touches D (for_each (build_map run POSTFIX_CONFIG_DIR RELAY_MAP_DIR) maps)"
  by (intro touches_for_each touches_build_map assms)

lemma touches_activate_maps: "tools_local run \<Longrightarrow> touches relay_maps (activate_maps run maps)"
  unfolding activate_maps_def by (rule touches_activate) (auto simp: relay_maps_def map_files_def)

section \<open>The steps of an application\<close>

text \<open>
  Everything after the checks, as one action: the installation, the activation, and either the handler
  or the restart.
\<close>

definition go_live :: "runner \<Rightarrow> payload \<Rightarrow> pystr \<Rightarrow> pystr \<Rightarrow> (pystr \<times> pystr) list \<Rightarrow> pystr \<Rightarrow> payload action" where
  "go_live run payload main_cf master_cf maps detail m =
     (case install_config main_cf master_cf m of
        (Inl e, m2) \<Rightarrow>
          (case install_failed e of Some t \<Rightarrow> (Inr (apply_response False t False), m2) | None \<Rightarrow> (Inl e, m2))
      | (Inr previous, m2) \<Rightarrow>
          (case activate_maps run maps m2 of
             (Inl e, m3) \<Rightarrow>
               (case install_failed e of None \<Rightarrow> (Inl e, m3)
                | Some t \<Rightarrow> andthen (restore_config previous) (\<lambda>_. return (apply_response False t False)) m3)
           | (Inr _, m3) \<Rightarrow>
               (if jget ''reload_if_main_changed'' payload = JBool True
                then restart_postfix run previous detail m3
                else (Inr (apply_response True detail False), m3))))"

text \<open>
  An application either stops with every file outside the two staging directories as it was, or both
  checks passed and it went live from such a state.
\<close>

definition stopped :: "fpath set \<Rightarrow> machine \<Rightarrow> (exn + payload) \<times> machine \<Rightarrow> bool" where
  "stopped D m out \<longleftrightarrow>
     same_outside D (m_files m) (snd out) \<and> (\<forall>resp. fst out = Inr resp \<longrightarrow> jget ''success'' resp = JBool False)"

definition went_live ::
  "runner \<Rightarrow> pystr \<Rightarrow> pystr \<Rightarrow> payload \<Rightarrow> pystr \<Rightarrow> pystr \<Rightarrow> (pystr \<times> pystr) list \<Rightarrow> machine \<Rightarrow>
   (exn + payload) \<times> machine \<Rightarrow> bool" where
  "went_live run s1 s2 payload main_cf master_cf maps m out \<longleftrightarrow>
     (\<exists>detail m1 m2 m3 m4.
        validate_staged_config run s1 main_cf master_cf m = (Inr (True, detail), m1) \<and>
        same_outside {p. fst p = s1} (m_files m) m2 \<and>
        stage_maps run maps s2 main_cf m2 = (Inr (), m3) \<and>
        same_outside {p. fst p \<in> {s1, s2}} (m_files m) m4 \<and>
        out = go_live run payload main_cf master_cf maps detail m4)"

lemma same_outside_touches:
  "same_outside D fs m \<Longrightarrow> touches D' a \<Longrightarrow> D \<union> D' \<subseteq> E \<Longrightarrow> same_outside E fs (snd (a m))"
  unfolding same_outside_def by (metis UnCI subsetD touchesD)

lemma success_apply_response [simp]: "jget ''success'' (apply_response b t r) = JBool b"
  and reloaded_apply_response [simp]: "jget ''reloaded'' (apply_response b t r) = JBool r"
  by (simp_all add: apply_response_def jget_def)

lemma apply_config_installs:
  assumes local: "tools_local run" and m2: "same_outside {p. fst p = s1} (m_files m) m2"
    and valid: "validate_staged_config run s1 main_cf master_cf m = (Inr (True, detail), m1)"
    and out: "out = andthen (install_all run s2 main_cf master_cf maps) (\<lambda>outcome.
           case outcome of
             Inl text \<Rightarrow> return (apply_response False text False)
           | Inr previous \<Rightarrow>
               if jget ''reload_if_main_changed'' payload = JBool True
               then restart_postfix run previous detail
               else return (apply_response True detail False)) m2"
  shows "stopped {p. fst p \<in> {s1, s2}} m out \<or> went_live run s1 s2 payload main_cf master_cf maps m out"
proof -
  obtain r m3 where stage: "stage_maps run maps s2 main_cf m2 = (r, m3)" by (meson surj_pair)
  have files: "same_outside {p. fst p \<in> {s1, s2}} (m_files m) (rmtree s2 m3)"
    using same_outside_touches[OF m2 touches_stage_maps[OF local, of s2 maps main_cf], of "{p. fst p \<in> {s1, s2}}"] stage
    by (auto simp: same_outside_def rmtree_def)
  show ?thesis
  proof (cases r)
    case (Inl e)
    then have "stopped {p. fst p \<in> {s1, s2}} m out"
      using stage files out
      by (cases "install_failed e") (auto simp: install_all_def within_def andthen_def stopped_def return_def)
    then show ?thesis ..
  next
    case (Inr u)
    then have "out = go_live run payload main_cf master_cf maps detail (rmtree s2 m3)"
      using stage out
      by (simp add: install_all_def within_def andthen_def go_live_def return_def
          split: prod.splits sum.splits option.splits)
    then show ?thesis
      using Inr stage files valid m2 by (auto simp: went_live_def)
  qed
qed

lemma apply_config_checked:
  assumes local: "tools_local run" and req: "require_str payload ''main_cf'' = Inr main_cf"
    "require_str payload ''master_cf'' = Inr master_cf" "require_maps payload = Inr maps"
  shows "stopped {p. fst p \<in> {s1, s2}} m (apply_config run s1 s2 payload m) \<or>
         went_live run s1 s2 payload main_cf master_cf maps m (apply_config run s1 s2 payload m)"
proof -
  obtain r m1 where v: "validate_staged_config run s1 main_cf master_cf m = (r, m1)" by (meson surj_pair)
  have m1: "same_outside {p. fst p = s1} (m_files m) m1"
    using touchesD[OF touches_validate[OF local, of s1 main_cf master_cf], of _ m] v by (auto simp: same_outside_def)
  have dirs: "same_outside D (m_files m') (snd (os_makedirs m'))" for D m'
    by (auto simp: same_outside_def os_makedirs_def syscall_def)
  show ?thesis
  proof (cases "\<exists>detail. r = Inr (True, detail)")
    case False
    then have "stopped {p. fst p \<in> {s1, s2}} m (apply_config run s1 s2 payload m)"
      using m1 v req
      by (auto simp: apply_config_def andthen_def check_def return_def stopped_def same_outside_def split: sum.splits)
    then show ?thesis ..
  next
    case True
    then obtain detail where r: "r = Inr (True, detail)" by blast
    let ?rest = "andthen (install_all run s2 main_cf master_cf maps) (\<lambda>outcome.
           case outcome of
             Inl text \<Rightarrow> return (apply_response False text False)
           | Inr previous \<Rightarrow>
               if jget ''reload_if_main_changed'' payload = JBool True
               then restart_postfix run previous detail
               else return (apply_response True detail False))"
    obtain q1 m2 where mk1: "os_makedirs m1 = (q1, m2)" by (meson surj_pair)
    obtain q2 m3 where mk2: "os_makedirs m2 = (q2, m3)" by (meson surj_pair)
    have m2: "same_outside {p. fst p = s1} (m_files m) m2" and m3: "same_outside {p. fst p = s1} (m_files m) m3"
      using m1 dirs[of "{}" m1] dirs[of "{}" m2] mk1 mk2 by (auto simp: same_outside_def)
    have out: "apply_config run s1 s2 payload m =
        (case q1 of Inl e \<Rightarrow> (Inl e, m2) | Inr _ \<Rightarrow> (case q2 of Inl e \<Rightarrow> (Inl e, m3) | Inr _ \<Rightarrow> ?rest m3))"
      unfolding apply_config_def using v r req mk1 mk2
      by (cases q1; cases q2) (simp_all add: andthen_def check_def)
    show ?thesis
    proof (cases "q1 = Inr () \<and> q2 = Inr ()")
      case True
      then have "apply_config run s1 s2 payload m = ?rest m3" using out by simp
      then show ?thesis by (rule apply_config_installs[OF local m3 v[unfolded r]])
    next
      case False
      then have "stopped {p. fst p \<in> {s1, s2}} m (apply_config run s1 s2 payload m)"
        using out m2 m3 by (cases q1; cases q2) (auto simp: stopped_def same_outside_def)
      then show ?thesis ..
    qed
  qed
qed

lemma apply_config_stages:
  assumes "tools_local run"
  shows "stopped {p. fst p \<in> {s1, s2}} m (apply_config run s1 s2 payload m) \<or>
         (\<exists>main_cf master_cf maps.
            require_str payload ''main_cf'' = Inr main_cf \<and> require_str payload ''master_cf'' = Inr master_cf \<and>
            require_maps payload = Inr maps \<and>
            went_live run s1 s2 payload main_cf master_cf maps m (apply_config run s1 s2 payload m))"
proof (cases "(\<exists>x. require_str payload ''main_cf'' = Inr x) \<and> (\<exists>x. require_str payload ''master_cf'' = Inr x) \<and>
    (\<exists>x. require_maps payload = Inr x)")
  case True
  then show ?thesis using apply_config_checked[OF assms] by blast
next
  case False
  then have "\<exists>e. apply_config run s1 s2 payload m = (Inl e, m)"
    by (auto simp: apply_config_def andthen_def check_def split: sum.splits)
  then show ?thesis by (auto simp: stopped_def same_outside_def)
qed

lemma touches_go_live:
  assumes "tools_local run"
  shows "touches (config_files \<union> relay_maps) (go_live run payload main_cf master_cf maps detail)"
proof (rule touchesI)
  fix m p
  assume p: "p \<notin> config_files \<union> relay_maps"
  note t = touchesD[OF touches_install_config] touchesD[OF touches_activate_maps[OF assms]]
    touchesD[OF touches_restore_config] touchesD[OF touches_restart[OF assms]]
  obtain r m2 where i: "install_config main_cf master_cf m = (r, m2)" by (meson surj_pair)
  have m2: "m_files m2 p = m_files m p" using t(1)[of p main_cf master_cf m] p i by simp
  show "m_files (snd (go_live run payload main_cf master_cf maps detail m)) p = m_files m p"
  proof (cases r)
    case (Inl e)
    then show ?thesis using i m2 by (simp add: go_live_def split: option.splits)
  next
    case (Inr previous)
    obtain r' m3 where a: "activate_maps run maps m2 = (r', m3)" by (meson surj_pair)
    have m3: "m_files m3 p = m_files m p" using t(2)[of p maps m2] p a m2 by simp
    have "map fst previous = [''main.cf'', ''master.cf'']" using install_config_names i Inr by simp
    then have "set (map fst previous) = {''main.cf'', ''master.cf''}" by (metis list.set(1,2))
    then have names: "fst ` set previous \<subseteq> {''main.cf'', ''master.cf''}" by simp
    have restore: "m_files (snd (andthen (restore_config previous) (\<lambda>_. return resp) m3)) p = m_files m p" for resp :: payload
      using touchesD[OF touches_andthen[OF touches_restore_config[OF names] touches_trivial(1)], of p "\<lambda>_. resp" m3] p m3
      by simp
    show ?thesis
      using i a Inr m3 restore t(4)[OF names, of p detail m3] p
      by (cases r') (auto simp: go_live_def split: option.splits)
  qed
qed

text \<open>
  C19. Nothing live changes before everything has been checked: if an \<open>apply_config\<close> request changes any
  file outside its two staging directories (even one it then rolls back or leaves half-way), then the
  request was well-formed, \<open>postconf\<close> accepted the staged \<open>main.cf\<close> and \<open>master.cf\<close>, every map of the
  request built in staging while all live files were still the old ones, and the file is one of the two
  configuration files (or their temporary names) or lies in the map directory.
\<close>

theorem live_files_change_only_after_checks:
  assumes "tools_local run" and "fst p \<notin> {s1, s2}"
    and "m_files (snd (apply_config run s1 s2 payload m)) p \<noteq> m_files m p"
  shows "\<exists>main_cf master_cf maps detail m1 m2 m3.
           require_str payload ''main_cf'' = Inr main_cf \<and> require_str payload ''master_cf'' = Inr master_cf \<and>
           require_maps payload = Inr maps \<and>
           validate_staged_config run s1 main_cf master_cf m = (Inr (True, detail), m1) \<and>
           (\<forall>q. fst q \<noteq> s1 \<longrightarrow> m_files m2 q = m_files m q) \<and>
           stage_maps run maps s2 main_cf m2 = (Inr (), m3) \<and>
           (p \<in> {(''/etc/postfix'', ''main.cf''), (''/etc/postfix'', ''main.cf.new''),
                 (''/etc/postfix'', ''master.cf''), (''/etc/postfix'', ''master.cf.new'')} \<or>
            fst p = ''/etc/postfix/relay'')"
proof -
  have "\<not> stopped {p. fst p \<in> {s1, s2}} m (apply_config run s1 s2 payload m)"
    unfolding stopped_def same_outside_def using assms(2,3) by fast
  then obtain main_cf master_cf maps where
    req: "require_str payload ''main_cf'' = Inr main_cf" "require_str payload ''master_cf'' = Inr master_cf"
      "require_maps payload = Inr maps"
    and live: "went_live run s1 s2 payload main_cf master_cf maps m (apply_config run s1 s2 payload m)"
    using apply_config_stages[OF assms(1)] by blast
  then obtain detail m1 m2 m3 m4 where
    w: "validate_staged_config run s1 main_cf master_cf m = (Inr (True, detail), m1)"
       "\<forall>q. fst q \<noteq> s1 \<longrightarrow> m_files m2 q = m_files m q"
       "stage_maps run maps s2 main_cf m2 = (Inr (), m3)"
       "same_outside {p. fst p \<in> {s1, s2}} (m_files m) m4"
       "apply_config run s1 s2 payload m = go_live run payload main_cf master_cf maps detail m4"
    unfolding went_live_def same_outside_def by auto
  have "m_files m4 p = m_files m p"
    using w(4) assms(2) unfolding same_outside_def by fast
  then have "p \<in> config_files \<union> relay_maps"
    using touchesD[OF touches_go_live[OF assms(1)], of p payload main_cf master_cf maps detail m4] w(5) assms(3)
    by metis
  then have "p \<in> {(''/etc/postfix'', ''main.cf''), (''/etc/postfix'', ''main.cf.new''),
                 (''/etc/postfix'', ''master.cf''), (''/etc/postfix'', ''master.cf.new'')} \<or>
            fst p = ''/etc/postfix/relay''"
    by (auto simp: config_files_def relay_maps_def POSTFIX_CONFIG_DIR_def RELAY_MAP_DIR_def)
  then show ?thesis using req w(1-3) by blast
qed

section \<open>Maps that are installed\<close>

lemma write_file_Inr:
  "write_file p c mode m = (Inr (), m') \<Longrightarrow> m_files m' p = Some (c, mode)"
  by (cases p) (auto simp: write_file_def andthen_Inr open_trunc_def write_content_def os_chmod_def os_replace_def
        syscall_Inr new_name_def)

lemma build_map_Inr:
  assumes "tools_local run" "build_map run config dir (name, content) m = (Inr (), m')"
  shows "m_files m' (dir, name) = Some (content, map_mode name)"
proof -
  let ?rest = "\<lambda>result. if cp_returncode result \<noteq> 0
           then throw (RuntimeError (''postmap failed for '' @ name @ '': '' @ strip (cp_stderr result)))
           else os_chmod (dir, name @ ''.'' @ MAP_TYPE) (map_mode name)"
  let ?post = "andthen (run [''postmap'', ''-c'', config, MAP_TYPE @ '':'' @ file_path (dir, name)] None) ?rest"
  obtain m1 where w: "write_file (dir, name) content (map_mode name) m = (Inr (), m1)" and r: "?post m1 = (Inr (), m')"
    using assms(2) by (auto simp: build_map_def andthen_Inr Let_def)
  have "touches {(dir, name @ ''.'' @ MAP_TYPE)} ?post"
    by (intro touches_rules tools_localD[OF assms(1)]) auto
  from touchesD[OF this, of "(dir, name)" m1] r write_file_Inr[OF w] show ?thesis by simp
qed

lemma MAP_NAMES_no_dot: "name \<in> set MAP_NAMES \<Longrightarrow> CHR ''.'' \<notin> set name"
  by (auto simp: MAP_NAMES_def)

lemma suffixes_differ: "(name :: string) @ ''.new'' \<noteq> name' @ ''.lmdb''"
proof
  assume "name @ ''.new'' = name' @ ''.lmdb''"
  then have "last (name @ ''.new'') = last (name' @ ''.lmdb'')" by (rule arg_cong)
  then show False by simp
qed

lemma map_files_disjoint:
  assumes "name \<in> set MAP_NAMES" "name' \<in> set MAP_NAMES" "name \<noteq> name'"
  shows "(dir, name) \<notin> map_files dir name'" and "map_files dir name \<inter> map_files dir name' = {}"
proof -
  have *: "name \<noteq> name' @ CHR ''.'' # x" "name' \<noteq> name @ CHR ''.'' # x" for x
    using MAP_NAMES_no_dot[OF assms(1)] MAP_NAMES_no_dot[OF assms(2)] by auto
  show "(dir, name) \<notin> map_files dir name'"
    using * assms(3) by (simp add: map_files_def)
  show "map_files dir name \<inter> map_files dir name' = {}"
    using * assms(3) suffixes_differ[of name name'] suffixes_differ[of name' name]
    by (simp add: map_files_def MAP_TYPE_def)
qed

lemma activate_all:
  assumes "tools_local run" "distinct (map fst maps)" "fst ` set maps \<subseteq> set MAP_NAMES"
    and "for_each (build_map run config dir) maps m = (Inr (), m')" and "(name, content) \<in> set maps"
  shows "m_files m' (dir, name) = Some (content, map_mode name)"
  using assms(2-)
proof (induction maps arbitrary: m)
  case (Cons entry maps)
  obtain m1 where first: "build_map run config dir entry m = (Inr (), m1)"
    and rest: "for_each (build_map run config dir) maps m1 = (Inr (), m')"
    using Cons.prems(3) by (auto simp: for_each_Inr_Cons simp del: for_each.simps)
  show ?case
  proof (cases "(name, content) = entry")
    case True
    have "(dir, name) \<notin> map_files dir (fst e)" if "e \<in> set maps" for e
    proof (rule map_files_disjoint(1))
      show "name \<in> set MAP_NAMES" "fst e \<in> set MAP_NAMES" using Cons.prems(2) True that by force+
      show "name \<noteq> fst e" using Cons.prems(1) True that by force
    qed
    then have "(dir, name) \<notin> (\<Union>e\<in>set maps. map_files dir (fst e))" by blast
    moreover have "touches (\<Union>e\<in>set maps. map_files dir (fst e)) (for_each (build_map run config dir) maps)"
      by (intro touches_for_each touches_build_map[OF assms(1)]) auto
    ultimately have "m_files m' (dir, name) = m_files m1 (dir, name)"
      using touchesD rest by (metis snd_conv)
    then show ?thesis using build_map_Inr[OF assms(1)] first True by metis
  next
    case False
    then show ?thesis using Cons.IH[OF _ _ rest] Cons.prems by auto
  qed
qed simp

lemma require_map_entries_names:
  "require_map_entries ms = Inr maps \<Longrightarrow> fst ` set maps \<subseteq> set MAP_NAMES"
proof (induction ms arbitrary: maps)
  case (Cons entry ms)
  then show ?case by (cases entry) (auto 0 3 split: if_splits json.splits sum.splits)
qed simp

lemma require_maps_names: "require_maps payload = Inr maps \<Longrightarrow> fst ` set maps \<subseteq> set MAP_NAMES"
  by (auto simp: require_maps_def dest: require_map_entries_names split: json.splits)

lemma activation_order_set [simp]: "set (activation_order maps) = set maps"
  by (auto simp: activation_order_def)

lemma activation_order_distinct: "distinct (map fst maps) \<Longrightarrow> distinct (map fst (activation_order maps))"
  by (auto simp: activation_order_def distinct_map_filter)

text \<open>The run of \<open>_activate_maps\<close> in its two phases: the routing maps, then the login map.\<close>

abbreviation building :: "runner \<Rightarrow> (pystr \<times> pystr) list \<Rightarrow> unit action" where
  "building run \<equiv> for_each (build_map run POSTFIX_CONFIG_DIR RELAY_MAP_DIR)"

lemma activate_maps_phases:
  "activate_maps run maps m =
     (case building run (filter (\<lambda>e. fst e \<noteq> ''sender_login'') maps) m of
        (Inl e, m') \<Rightarrow> (Inl e, m')
      | (Inr _, m') \<Rightarrow> building run (filter (\<lambda>e. fst e = ''sender_login'') maps) m')"
  by (simp add: activate_maps_def activation_order_def for_each_append)

lemma activate_login_last:
  assumes local: "tools_local run" and maps: "distinct (map fst maps)" "fst ` set maps \<subseteq> set MAP_NAMES"
    and run: "activate_maps run maps m = (r, m')"
    and p: "p \<in> map_files RELAY_MAP_DIR ''sender_login''" "m_files m' p \<noteq> m_files m p"
    and other: "(name, content) \<in> set maps" "name \<noteq> ''sender_login''"
  shows "m_files m' (RELAY_MAP_DIR, name) = Some (content, map_mode name)"
proof -
  let ?others = "filter (\<lambda>e. fst e \<noteq> ''sender_login'') maps"
  let ?login = "filter (\<lambda>e. fst e = ''sender_login'') maps"
  have login: "''sender_login'' \<in> set MAP_NAMES" by (simp add: MAP_NAMES_def)
  have name: "name \<in> set MAP_NAMES" using other maps by force
  obtain r1 m1 where first: "building run ?others m = (r1, m1)" by (meson surj_pair)
  have "p \<notin> map_files RELAY_MAP_DIR (fst e)" if "e \<in> set ?others" for e
  proof -
    from that have e: "e \<in> set maps" "fst e \<noteq> ''sender_login''" by simp_all
    have "fst e \<in> set MAP_NAMES" by (rule subsetD[OF maps(2) imageI[OF e(1)]])
    note this e(2)[symmetric]
    from map_files_disjoint(2)[OF login this] p(1) show ?thesis by blast
  qed
  then have outside: "p \<notin> (\<Union>e\<in>set ?others. map_files RELAY_MAP_DIR (fst e))" by blast
  have "touches (\<Union>e\<in>set ?others. map_files RELAY_MAP_DIR (fst e)) (building run ?others)"
    by (rule touches_activate[OF local]) blast
  from touchesD'[OF this first outside] have p1: "m_files m1 p = m_files m p" .
  then obtain u where r1: "r1 = Inr u" using run first p(2) by (cases r1) (auto simp: activate_maps_phases)
  have new: "m_files m1 (RELAY_MAP_DIR, name) = Some (content, map_mode name)"
    by (rule activate_all[OF local _ _ first[unfolded r1 unit_eq[of u]]])
       (use maps other in \<open>auto simp: distinct_map_filter\<close>)
  have "touches (map_files RELAY_MAP_DIR ''sender_login'') (building run ?login)"
    by (rule touches_activate[OF local]) simp
  moreover have "building run ?login m1 = (r, m')" using run first r1 by (simp add: activate_maps_phases)
  ultimately have "m_files m' (RELAY_MAP_DIR, name) = m_files m1 (RELAY_MAP_DIR, name)"
    by (rule touchesD') (rule map_files_disjoint(1)[OF name login other(2)])
  with new show ?thesis by simp
qed

lemma relay_not_config: "fst p = RELAY_MAP_DIR \<Longrightarrow> p \<notin> config_files"
  by (auto simp: config_files_def RELAY_MAP_DIR_def POSTFIX_CONFIG_DIR_def)

text \<open>Going live leaves the map directory as the activation left it.\<close>

lemma go_live_relay:
  assumes "tools_local run" "fst p = RELAY_MAP_DIR"
    and "m_files (snd (go_live run payload main_cf master_cf maps detail m)) p \<noteq> m_files m p"
  shows "\<exists>previous m2 r m3. install_config main_cf master_cf m = (Inr previous, m2) \<and>
           activate_maps run maps m2 = (r, m3) \<and>
           (\<forall>q. fst q = RELAY_MAP_DIR \<longrightarrow> m_files m2 q = m_files m q) \<and>
           (\<forall>q. fst q = RELAY_MAP_DIR \<longrightarrow>
              m_files (snd (go_live run payload main_cf master_cf maps detail m)) q = m_files m3 q)"
proof -
  obtain r m2 where i: "install_config main_cf master_cf m = (r, m2)" by (meson surj_pair)
  have m2: "m_files m2 q = m_files m q" if "fst q = RELAY_MAP_DIR" for q
    using touchesD[OF touches_install_config relay_not_config[OF that], of main_cf master_cf m] i by simp
  have "\<nexists>e. r = Inl e"
    using assms(3) m2[OF assms(2)] i by (auto simp: go_live_def split: option.splits)
  then obtain previous where r: "r = Inr previous" by (cases r) auto
  obtain r' m3 where a: "activate_maps run maps m2 = (r', m3)" by (meson surj_pair)
  have "set (map fst previous) = {''main.cf'', ''master.cf''}"
    using install_config_names[of main_cf master_cf m previous m2] i r by (metis list.set(1,2))
  then have names: "fst ` set previous \<subseteq> {''main.cf'', ''master.cf''}" by simp
  have "m_files (snd (go_live run payload main_cf master_cf maps detail m)) q = m_files m3 q"
    if q: "fst q = RELAY_MAP_DIR" for q
  proof -
    note q' = relay_not_config[OF q]
    have "m_files (snd (andthen (restore_config previous) (\<lambda>_. return resp) m3)) q = m_files m3 q" for resp :: payload
      by (rule touchesD[OF touches_andthen[OF touches_restore_config[OF names] touches_trivial(1)] q'])
    then show ?thesis
      using i r a touchesD[OF touches_restart[OF assms(1) names] q', of detail m3]
      by (cases r') (auto simp: go_live_def split: option.splits)
  qed
  then show ?thesis using i r a m2 by blast
qed


section \<open>A successful application\<close>

lemma write_plain_Inr: "write_plain p c m = (Inr (), m') \<Longrightarrow> \<exists>mode. m_files m' p = Some (c, mode)"
  by (auto simp: write_plain_def andthen_Inr open_trunc_def write_content_def syscall_Inr)

lemma install_one_Inr:
  "install_one name c m = (Inr previous, m') \<Longrightarrow> map_option fst (m_files m' (POSTFIX_CONFIG_DIR, name)) = Some c"
  by (auto simp: install_one_def Let_def andthen_Inr os_replace_def syscall_Inr return_def new_name_def
      dest!: write_plain_Inr)

lemma install_config_Inr:
  assumes "install_config main_cf master_cf m = (Inr previous, m')"
  shows "map_option fst (m_files m' (POSTFIX_CONFIG_DIR, ''main.cf'')) = Some main_cf"
    and "map_option fst (m_files m' (POSTFIX_CONFIG_DIR, ''master.cf'')) = Some master_cf"
proof -
  obtain p1 m1 p2 where i: "install_one ''main.cf'' main_cf m = (Inr p1, m1)"
      "install_one ''master.cf'' master_cf m1 = (Inr p2, m')"
    using assms by (auto simp: install_config_def andthen_Inr return_def)
  have "touches {(POSTFIX_CONFIG_DIR, ''master.cf''), (POSTFIX_CONFIG_DIR, ''master.cf.new'')} (install_one ''master.cf'' master_cf)"
    unfolding install_one_def Let_def by (intro touches_rules) (auto simp: new_name_def)
  from touchesD[OF this, of "(POSTFIX_CONFIG_DIR, ''main.cf'')" m1] i
  show "map_option fst (m_files m' (POSTFIX_CONFIG_DIR, ''main.cf'')) = Some main_cf"
    using install_one_Inr[OF i(1)] by simp
  show "map_option fst (m_files m' (POSTFIX_CONFIG_DIR, ''master.cf'')) = Some master_cf"
    by (rule install_one_Inr[OF i(2)])
qed

text \<open>A restart that reports success has written nothing.\<close>

lemma restart_success:
  assumes "tools_local run" "restart_postfix run previous detail m = (Inr resp, m')"
    and "jget ''success'' resp = JBool True"
  shows "m_files m' = m_files m" and "jget ''reloaded'' resp = JBool True"
proof -
  obtain c1 m1 c2 where r: "run [''postfix'', ''stop''] None m = (Inr c1, m1)"
      "run [''postfix'', ''start''] None m1 = (Inr c2, m') \<and> resp = apply_response True detail True"
    using assms(2,3)
    by (auto simp: restart_postfix_def andthen_Inr return_def Let_def split: if_splits)
  then show "jget ''reloaded'' resp = JBool True" by simp
  show "m_files m' = m_files m"
  proof
    fix p
    show "m_files m' p = m_files m p"
      using touchesD[OF tools_localD(3)[OF assms(1)], of p "{}" "''stop''" m]
        touchesD[OF tools_localD(3)[OF assms(1)], of p "{}" "''start''" m1] r by simp
  qed
qed

lemma go_live_success:
  assumes "tools_local run" "go_live run payload main_cf master_cf maps detail m = (Inr resp, m')"
    and "jget ''success'' resp = JBool True"
  shows "\<exists>previous m2 m3. install_config main_cf master_cf m = (Inr previous, m2) \<and>
           activate_maps run maps m2 = (Inr (), m3) \<and> m_files m' = m_files m3 \<and>
           (jget ''reload_if_main_changed'' payload = JBool True \<longrightarrow> jget ''reloaded'' resp = JBool True)"
proof -
  obtain previous m2 where i: "install_config main_cf master_cf m = (Inr previous, m2)"
    using assms(2,3) by (auto simp: go_live_def split: prod.splits sum.splits option.splits)
  obtain m3 where a: "activate_maps run maps m2 = (Inr (), m3)"
    using assms(2,3) i
    by (auto simp: go_live_def andthen_Inr return_def split: prod.splits sum.splits option.splits)
  show ?thesis
  proof (cases "jget ''reload_if_main_changed'' payload = JBool True")
    case True
    then have "restart_postfix run previous detail m3 = (Inr resp, m')"
      using assms(2) i a by (simp add: go_live_def)
    from restart_success[OF assms(1) this assms(3)] show ?thesis using i a by blast
  next
    case False
    then show ?thesis using assms(2) i a by (simp add: go_live_def)
  qed
qed

lemma successful_apply:
  assumes "tools_local run" and "apply_config run s1 s2 payload m = (Inr resp, m')"
    and "jget ''success'' resp = JBool True"
    and "require_maps payload = Inr maps" and "distinct (map fst maps)"
  shows "map_option fst (m_files m' (POSTFIX_CONFIG_DIR, ''main.cf'')) =
           (case jget ''main_cf'' payload of JStr t \<Rightarrow> Some t | _ \<Rightarrow> None)"
    and "map_option fst (m_files m' (POSTFIX_CONFIG_DIR, ''master.cf'')) =
           (case jget ''master_cf'' payload of JStr t \<Rightarrow> Some t | _ \<Rightarrow> None)"
    and "\<And>name content. (name, content) \<in> set maps \<Longrightarrow>
           m_files m' (RELAY_MAP_DIR, name) = Some (content, map_mode name)"
    and "jget ''reload_if_main_changed'' payload = JBool True \<Longrightarrow> jget ''reloaded'' resp = JBool True"
proof -
  have "\<not> stopped {p. fst p \<in> {s1, s2}} m (apply_config run s1 s2 payload m)"
    using assms(2,3) by (auto simp: stopped_def)
  then obtain main_cf master_cf where req: "require_str payload ''main_cf'' = Inr main_cf"
      "require_str payload ''master_cf'' = Inr master_cf"
    and "went_live run s1 s2 payload main_cf master_cf maps m (apply_config run s1 s2 payload m)"
    using apply_config_stages[OF assms(1)] assms(4) by fastforce
  then obtain detail m4 where "go_live run payload main_cf master_cf maps detail m4 = (Inr resp, m')"
    using assms(2) by (auto simp: went_live_def)
  from go_live_success[OF assms(1) this assms(3)] obtain previous m2 m3 where
    i: "install_config main_cf master_cf m4 = (Inr previous, m2)" and a: "activate_maps run maps m2 = (Inr (), m3)"
    and m': "m_files m' = m_files m3"
    and reload: "jget ''reload_if_main_changed'' payload = JBool True \<longrightarrow> jget ''reloaded'' resp = JBool True"
    by blast
  have keep: "m_files m3 (POSTFIX_CONFIG_DIR, f) = m_files m2 (POSTFIX_CONFIG_DIR, f)" for f
    using touchesD[OF touches_activate_maps[OF assms(1)], of "(POSTFIX_CONFIG_DIR, f)" maps m2] a
    by (simp add: relay_maps_def RELAY_MAP_DIR_def POSTFIX_CONFIG_DIR_def)
  have texts: "jget ''main_cf'' payload = JStr main_cf" "jget ''master_cf'' payload = JStr master_cf"
    using req by (auto simp: require_str_def split: json.splits)
  show "map_option fst (m_files m' (POSTFIX_CONFIG_DIR, ''main.cf'')) =
           (case jget ''main_cf'' payload of JStr t \<Rightarrow> Some t | _ \<Rightarrow> None)"
    and "map_option fst (m_files m' (POSTFIX_CONFIG_DIR, ''master.cf'')) =
           (case jget ''master_cf'' payload of JStr t \<Rightarrow> Some t | _ \<Rightarrow> None)"
    using install_config_Inr[OF i] keep m' texts by simp_all
  show "m_files m' (RELAY_MAP_DIR, name) = Some (content, map_mode name)" if "(name, content) \<in> set maps" for name content
    using activate_all[OF assms(1) activation_order_distinct[OF assms(5)], of POSTFIX_CONFIG_DIR RELAY_MAP_DIR m2 m3]
      require_maps_names[OF assms(4)] a that m'
    by (simp add: activate_maps_def)
  show "jget ''reload_if_main_changed'' payload = JBool True \<Longrightarrow> jget ''reloaded'' resp = JBool True"
    using reload by blast
qed


section \<open>A healthy machine\<close>

text \<open>No system call fails; \<open>succeeds Q a\<close>: from a healthy machine \<open>a\<close> returns a value that satisfies \<open>Q\<close>.\<close>

definition healthy :: "machine \<Rightarrow> bool" where
  "healthy m \<longleftrightarrow> (\<forall>n. \<not> m_faulty m n)"

definition succeeds :: "('a \<Rightarrow> bool) \<Rightarrow> 'a action \<Rightarrow> bool" where
  "succeeds Q a \<longleftrightarrow> (\<forall>m. healthy m \<longrightarrow> (\<exists>x m'. a m = (Inr x, m') \<and> Q x \<and> healthy m'))"

named_theorems succeeds_rules

lemma succeeds_return [succeeds_rules]: "Q x \<Longrightarrow> succeeds Q (return x)"
  and succeeds_check: "r = Inr x \<Longrightarrow> succeeds (\<lambda>y. y = x) (check r)"
  by (simp_all add: succeeds_def return_def check_def)

lemma succeeds_andthen: "succeeds P a \<Longrightarrow> (\<And>x. P x \<Longrightarrow> succeeds Q (f x)) \<Longrightarrow> succeeds Q (andthen a f)"
  unfolding succeeds_def andthen_def by fastforce

lemma succeeds_then [succeeds_rules]:
  "succeeds (\<lambda>_. True) a \<Longrightarrow> (\<And>x. succeeds Q (f x)) \<Longrightarrow> succeeds Q (andthen a f)"
  by (rule succeeds_andthen)

lemma succeeds_syscall: "succeeds (\<lambda>_. True) (syscall f)"
  by (simp add: succeeds_def syscall_def healthy_def)

lemma succeeds_files [succeeds_rules]:
  "succeeds (\<lambda>_. True) (open_trunc p mode)" "succeeds (\<lambda>_. True) (write_content p c)"
  "succeeds (\<lambda>_. True) (os_chmod p mode)" "succeeds (\<lambda>_. True) (os_replace p q)"
  "succeeds (\<lambda>_. True) os_makedirs" "succeeds (\<lambda>_. True) (read_file p)"
  by (simp_all add: open_trunc_def write_content_def os_chmod_def os_replace_def os_makedirs_def succeeds_syscall
      succeeds_def[of _ "read_file p"] read_file_def healthy_def)

lemma succeeds_for_each [succeeds_rules]:
  "(\<And>x. succeeds (\<lambda>_. True) (f x)) \<Longrightarrow> succeeds (\<lambda>_. True) (for_each f xs)"
proof (induction xs)
  case (Cons x xs)
  then have "succeeds (\<lambda>_. True) (andthen (f x) (\<lambda>_. for_each f xs))" by (intro succeeds_rules) auto
  then show ?case by (simp add: succeeds_def andthen_def split: prod.splits sum.splits)
qed (simp add: succeeds_def)

lemma succeeds_within: "succeeds Q a \<Longrightarrow> succeeds Q (within staging a)"
  by (fastforce simp: succeeds_def within_def rmtree_def healthy_def split: prod.splits)

definition tools_succeed :: "runner \<Rightarrow> bool" where
  "tools_succeed run \<longleftrightarrow> (\<forall>argv inp. succeeds (\<lambda>c. cp_returncode c = 0) (run argv inp))"

lemma tools_succeedD: "tools_succeed run \<Longrightarrow> succeeds (\<lambda>c. cp_returncode c = 0) (run argv inp)"
  by (simp add: tools_succeed_def)

lemma succeeds_run:
  "tools_succeed run \<Longrightarrow> (\<And>c. cp_returncode c = 0 \<Longrightarrow> succeeds Q (f c)) \<Longrightarrow> succeeds Q (andthen (run argv inp) f)"
  by (rule succeeds_andthen[OF tools_succeedD])

lemma succeeds_write: "succeeds (\<lambda>_. True) (write_file p c mode)" "succeeds (\<lambda>_. True) (write_plain p c)"
  unfolding write_file_def write_plain_def by (intro succeeds_rules)+

lemma succeeds_build_map:
  assumes "tools_succeed run"
  shows "succeeds (\<lambda>_. True) (build_map run config dir entry)"
  unfolding build_map_def Let_def case_prod_beta
  by (rule succeeds_then[OF succeeds_write(1)], rule succeeds_run[OF assms]) (simp add: succeeds_files)

lemma succeeds_validate:
  assumes "tools_succeed run"
  shows "succeeds (\<lambda>v. fst v) (validate_staged_config run staging main_cf master_cf)"
  unfolding validate_staged_config_def
  by (rule succeeds_then[OF succeeds_files(5)], rule succeeds_within, rule succeeds_then[OF succeeds_write(2)],
      rule succeeds_then[OF succeeds_write(2)], rule succeeds_run[OF assms], rule succeeds_run[OF assms])
     (simp add: succeeds_return Let_def)

lemma succeeds_install_config: "succeeds (\<lambda>_. True) (install_config main_cf master_cf)"
  unfolding install_config_def install_one_def Let_def write_plain_def by (intro succeeds_rules) auto

lemma succeeds_install_all:
  assumes "tools_succeed run"
  shows "succeeds (\<lambda>outcome. \<exists>previous. outcome = Inr previous) (install_all run staging main_cf master_cf maps)"
  unfolding succeeds_def
proof (intro allI impI)
  fix m
  assume m: "healthy m"
  have stage: "succeeds (\<lambda>_. True) (within staging (stage_maps run maps staging main_cf))"
    unfolding stage_maps_def write_file_def
    by (intro succeeds_within succeeds_rules succeeds_build_map[OF assms])
  have act: "succeeds (\<lambda>_. True) (activate_maps run maps)"
    unfolding activate_maps_def by (intro succeeds_rules succeeds_build_map[OF assms])
  obtain u m1 where 1: "within staging (stage_maps run maps staging main_cf) m = (Inr u, m1)" "healthy m1"
    using stage m unfolding succeeds_def by blast
  obtain previous m2 where 2: "install_config main_cf master_cf m1 = (Inr previous, m2)" "healthy m2"
    using succeeds_install_config 1(2) unfolding succeeds_def by blast
  obtain u' m3 where 3: "activate_maps run maps m2 = (Inr u', m3)" "healthy m3"
    using act 2(2) unfolding succeeds_def by blast
  show "\<exists>x m'. install_all run staging main_cf master_cf maps m = (Inr x, m') \<and> (\<exists>previous. x = Inr previous) \<and> healthy m'"
    using 1 2 3 by (simp add: install_all_def)
qed

lemma healthy_apply:
  assumes tools: "tools_succeed run" and req: "require_str payload ''main_cf'' = Inr main_cf"
    "require_str payload ''master_cf'' = Inr master_cf" "require_maps payload = Inr maps"
  shows "succeeds (\<lambda>resp. jget ''success'' resp = JBool True) (apply_config run s1 s2 payload)"
proof -
  have restart: "succeeds (\<lambda>resp. jget ''success'' resp = JBool True) (restart_postfix run previous detail)"
    for previous detail
    unfolding restart_postfix_def
    by (rule succeeds_run[OF tools], rule succeeds_run[OF tools]) (simp add: succeeds_return)
  have go: "succeeds (\<lambda>resp. jget ''success'' resp = JBool True)
      (andthen (install_all run s2 main_cf master_cf maps) (\<lambda>outcome. case outcome of
         Inl text \<Rightarrow> return (apply_response False text False)
       | Inr previous \<Rightarrow> if jget ''reload_if_main_changed'' payload = JBool True
           then restart_postfix run previous detail else return (apply_response True detail False)))" for detail
    by (rule succeeds_andthen[OF succeeds_install_all[OF tools]]) (auto simp: restart succeeds_return)
  have "succeeds (\<lambda>resp. jget ''success'' resp = JBool True)
      (andthen os_makedirs (\<lambda>_. andthen os_makedirs (\<lambda>_. andthen (install_all run s2 main_cf master_cf maps) (\<lambda>outcome. case outcome of
         Inl text \<Rightarrow> return (apply_response False text False)
       | Inr previous \<Rightarrow> if jget ''reload_if_main_changed'' payload = JBool True
           then restart_postfix run previous detail else return (apply_response True detail False)))))" for detail
    by (rule succeeds_then[OF succeeds_files(5)], rule succeeds_then[OF succeeds_files(5)], rule go)
  then have "succeeds (\<lambda>resp. jget ''success'' resp = JBool True)
      (andthen (validate_staged_config run s1 main_cf master_cf) (\<lambda>v.
         if \<not> fst v then return (apply_response False (snd v) False)
         else andthen os_makedirs (\<lambda>_. andthen os_makedirs (\<lambda>_. andthen (install_all run s2 main_cf master_cf maps) (\<lambda>outcome. case outcome of
           Inl text \<Rightarrow> return (apply_response False text False)
         | Inr previous \<Rightarrow> if jget ''reload_if_main_changed'' payload = JBool True
             then restart_postfix run previous (snd v) else return (apply_response True (snd v) False))))))"
    by (intro succeeds_andthen[OF succeeds_validate[OF tools]]) simp
  then show ?thesis
    by (simp only: apply_config_def req andthen_check case_prod_unfold)
qed

text \<open>
  C25. On a healthy machine (no file operation fails, the Postfix tools exit with 0) every well-formed
  \<open>apply_config\<close> request is answered with \<open>success: true\<close>.
\<close>

theorem healthy_apply_succeeds:
  assumes "healthy m" and "tools_succeed run"
    and "require_str payload ''main_cf'' = Inr main_cf" and "require_str payload ''master_cf'' = Inr master_cf"
    and "require_maps payload = Inr maps"
  shows "\<exists>resp m'. apply_config run s1 s2 payload m = (Inr resp, m') \<and> jget ''success'' resp = JBool True"
  using healthy_apply[OF assms(2-5)] assms(1) unfolding succeeds_def by blast

section \<open>The theorems on a concrete request\<close>

text \<open>
  A machine with an installed configuration and \<open>sender_login\<close> map, tools that succeed, and a request
  with new contents for two maps.
\<close>

definition quiet_tools :: runner where
  "quiet_tools argv inp m = (Inr \<lparr>cp_returncode = 0, cp_stdout = [], cp_stderr = []\<rparr>, m)"

definition demo_machine :: machine where
  "demo_machine = \<lparr>m_files = [(''/etc/postfix'', ''main.cf'') \<mapsto> (''old'', 420),
       (''/etc/postfix/relay'', ''sender_login'') \<mapsto> (''old'', 420)],
     m_ops = 0, m_faulty = (\<lambda>_. False), m_maillog = None, m_rotated = []\<rparr>"

definition demo_apply :: payload where
  "demo_apply = [(''op'', JStr ''apply_config''), (''main_cf'', JStr ''new''), (''master_cf'', JStr ''services''),
     (''maps'', JObj [(''sender_login'', JStr ''a@x u''), (''sasl_passwd'', JStr ''a@x p'')]),
     (''reload_if_main_changed'', JBool True)]"

lemma quiet_tools_local: "tools_local quiet_tools"
  unfolding tools_local_def by (auto intro!: touchesI simp: quiet_tools_def)

lemma demo_apply_maps:
  "require_maps demo_apply = Inr [(''sender_login'', ''a@x u''), (''sasl_passwd'', ''a@x p'')]"
  by (simp add: demo_apply_def require_maps_def jget_def MAP_NAMES_def)

lemma quiet_tools_succeed: "tools_succeed quiet_tools"
  by (simp add: tools_succeed_def succeeds_def quiet_tools_def)

lemma demo_healthy: "healthy demo_machine"
  by (simp add: healthy_def demo_machine_def)

lemma demo_apply_strs: "require_str demo_apply ''main_cf'' = Inr ''new''"
    "require_str demo_apply ''master_cf'' = Inr ''services''"
  by (simp_all add: demo_apply_def require_str_def jget_def)

lemma demo_apply_result:
  "\<exists>resp m'. apply_config quiet_tools ''/tmp/a'' ''/tmp/b'' demo_apply demo_machine = (Inr resp, m') \<and>
     jget ''success'' resp = JBool True \<and>
     map_option fst (m_files m' (''/etc/postfix'', ''main.cf'')) = Some ''new'' \<and>
     m_files m' (''/etc/postfix/relay'', ''sender_login'') = Some (''a@x u'', 420)"
proof -
  obtain resp m' where r: "apply_config quiet_tools ''/tmp/a'' ''/tmp/b'' demo_apply demo_machine = (Inr resp, m')"
    "jget ''success'' resp = JBool True"
    using healthy_apply[OF quiet_tools_succeed demo_apply_strs demo_apply_maps] demo_healthy
    unfolding succeeds_def by blast
  note s = successful_apply[OF quiet_tools_local r demo_apply_maps]
  have "map_option fst (m_files m' (''/etc/postfix'', ''main.cf'')) = Some ''new''"
    using s(1) by (simp add: demo_apply_def jget_def POSTFIX_CONFIG_DIR_def)
  moreover have "m_files m' (''/etc/postfix/relay'', ''sender_login'') = Some (''a@x u'', 420)"
    using s(3)[of "''sender_login''" "''a@x u''"] by (simp add: RELAY_MAP_DIR_def map_mode_def SECRET_MAP_NAMES_def)
  ultimately show ?thesis using r by blast
qed

theorem healthy_apply_succeeds_witness:
  "\<exists>resp m'. apply_config quiet_tools ''/tmp/a'' ''/tmp/b'' demo_apply demo_machine = (Inr resp, m') \<and>
     jget ''success'' resp = JBool True"
  by (rule healthy_apply_succeeds[OF demo_healthy quiet_tools_succeed demo_apply_strs demo_apply_maps])

theorem live_files_change_only_after_checks_witness:
  "\<exists>main_cf. require_str demo_apply ''main_cf'' = Inr main_cf \<and>
     m_files (snd (apply_config quiet_tools ''/tmp/a'' ''/tmp/b'' demo_apply demo_machine)) (''/etc/postfix'', ''main.cf'')
       \<noteq> m_files demo_machine (''/etc/postfix'', ''main.cf'')"
proof -
  have "m_files (snd (apply_config quiet_tools ''/tmp/a'' ''/tmp/b'' demo_apply demo_machine)) (''/etc/postfix'', ''main.cf'')
       \<noteq> m_files demo_machine (''/etc/postfix'', ''main.cf'')"
    using demo_apply_result by (auto simp: demo_machine_def)
  with live_files_change_only_after_checks[OF quiet_tools_local _ this] show ?thesis by auto
qed



end
