(* ===== verification/Surface_Safety.thy ===== *)
theory Surface_Safety
  imports Config_Install
begin

text \<open>
  What the control surface guarantees for every request, whoever sends it: the files that hold secrets
  keep mode 0600, the commands it runs are drawn from a fixed list with harmless arguments, and the
  mail log is handed out exactly once.
\<close>

section \<open>Secret files\<close>

definition secret_file :: "fpath \<Rightarrow> bool" where
  "secret_file p \<longleftrightarrow>
     snd p \<in> {''sasl_passwd'', ''sasl_passwd.new'', ''sasl_passwd.lmdb'', ''relay.key'', ''relay.key.new''}"

definition secrets_private :: "machine \<Rightarrow> bool" where
  "secrets_private m \<longleftrightarrow> (\<forall>p c mode. secret_file p \<longrightarrow> m_files m p = Some (c, mode) \<longrightarrow> mode = 384)"

text \<open>
  A command may leave a secret file alone or rewrite it in place (keeping its mode), or create a
  database with the mode of its source, as \<open>postmap\<close> does.
\<close>

definition tools_keep_modes :: "runner \<Rightarrow> bool" where
  "tools_keep_modes run \<longleftrightarrow>
     (\<forall>argv inp m p c mode. secret_file p \<longrightarrow> m_files (snd (run argv inp m)) p = Some (c, mode) \<longrightarrow>
        (\<exists>c'. m_files m p = Some (c', mode)) \<or>
        (\<exists>source c'. snd p = source @ ''.lmdb'' \<and> m_files m (fst p, source) = Some (c', mode)))"

named_theorems private_rules

lemma private_run:
  assumes "tools_keep_modes run"
  shows "keeps secrets_private (run argv inp)"
proof (rule keepsI)
  fix m
  assume m: "secrets_private m"
  show "secrets_private (snd (run argv inp m))"
    unfolding secrets_private_def
  proof (intro allI impI)
    fix p c mode
    assume p: "secret_file p" and after: "m_files (snd (run argv inp m)) p = Some (c, mode)"
    then consider c' where "m_files m p = Some (c', mode)"
      | source c' where "snd p = source @ ''.lmdb''" "m_files m (fst p, source) = Some (c', mode)"
      using assms unfolding tools_keep_modes_def by blast
    then show "mode = 384"
    proof cases
      case 1
      then show ?thesis using m p unfolding secrets_private_def by blast
    next
      case (2 source c')
      have "last (snd p) = CHR ''b''" using 2(1) by simp
      then have "snd p = ''sasl_passwd.lmdb''" using p by (auto simp: secret_file_def)
      then have "source @ ''.lmdb'' = ''sasl_passwd'' @ ''.lmdb''" using 2(1) by simp
      then have "source = ''sasl_passwd''" by (simp only: append_same_eq)
      then have "secret_file (fst p, source)" by (simp add: secret_file_def)
      then show ?thesis using m 2(2) unfolding secrets_private_def by blast
    qed
  qed
qed

lemma private_syscall:
  assumes "\<And>fs p c mode. (\<And>p c mode. secret_file p \<Longrightarrow> fs p = Some (c, mode) \<Longrightarrow> mode = 384) \<Longrightarrow>
             secret_file p \<Longrightarrow> f fs p = Some (c, mode) \<Longrightarrow> mode = 384"
  shows "keeps secrets_private (syscall f)"
proof (rule keepsI)
  fix m
  assume m: "secrets_private m"
  show "secrets_private (snd (syscall f m))"
    using m assms[of "m_files m"] unfolding syscall_def secrets_private_def by (simp; blast)
qed

lemma private_files [private_rules]:
  "(secret_file p \<Longrightarrow> mode = 384) \<Longrightarrow> keeps secrets_private (open_trunc p mode)"
  "keeps secrets_private (write_content p c)"
  "(secret_file p \<Longrightarrow> mode = 384) \<Longrightarrow> keeps secrets_private (os_chmod p mode)"
  "(secret_file q \<Longrightarrow> secret_file p) \<Longrightarrow> keeps secrets_private (os_replace p q)"
  "keeps secrets_private os_makedirs"
  "keeps secrets_private (read_file p)"
  unfolding open_trunc_def write_content_def os_chmod_def os_replace_def os_makedirs_def
  by (rule private_syscall; auto split: option.splits if_splits)+
     (auto simp: keeps_def read_file_def secrets_private_def)

lemma private_write_file [private_rules]:
  assumes "snd p \<in> {''sasl_passwd'', ''relay.key''} \<Longrightarrow> mode = 384"
    and "snd p \<in> set MAP_NAMES \<union> {''relay.crt'', ''relay.key'', ''main.cf''}"
  shows "keeps secrets_private (write_file p c mode)"
proof -
  have "secret_file (new_name p) \<Longrightarrow> mode = 384" "secret_file p \<Longrightarrow> secret_file (new_name p)"
    using assms by (auto simp: secret_file_def new_name_def MAP_NAMES_def)
  then show ?thesis unfolding write_file_def by (intro keeps_rules private_rules)
qed

lemma private_write_plain [private_rules]: "\<not> secret_file p \<Longrightarrow> keeps secrets_private (write_plain p c)"
  unfolding write_plain_def by (intro keeps_rules private_rules) simp

lemma private_within [private_rules]: "keeps secrets_private a \<Longrightarrow> keeps secrets_private (within staging a)"
  by (fastforce simp: keeps_def within_def rmtree_def secrets_private_def split: prod.splits if_splits)

lemma private_build_map:
  assumes "tools_keep_modes run" "fst entry \<in> set MAP_NAMES"
  shows "keeps secrets_private (build_map run config dir entry)"
proof -
  have "secret_file (dir, fst entry @ ''.'' @ MAP_TYPE) \<Longrightarrow> map_mode (fst entry) = 384"
    using assms(2) by (auto simp: MAP_NAMES_def secret_file_def MAP_TYPE_def map_mode_def SECRET_MAP_NAMES_def)
  moreover have "snd (dir, fst entry) \<in> {''sasl_passwd'', ''relay.key''} \<Longrightarrow> map_mode (fst entry) = 384"
    using assms(2) by (auto simp: MAP_NAMES_def map_mode_def SECRET_MAP_NAMES_def)
  moreover have "snd (dir, fst entry) \<in> set MAP_NAMES \<union> {''relay.crt'', ''relay.key'', ''main.cf''}"
    using assms(2) by simp
  ultimately show ?thesis
    unfolding build_map_def Let_def case_prod_beta
    by (intro keeps_rules private_rules private_run[OF assms(1)])
qed

lemma private_stage_maps:
  "tools_keep_modes run \<Longrightarrow> fst ` set maps \<subseteq> set MAP_NAMES \<Longrightarrow>
   keeps secrets_private (stage_maps run maps staging main_cf)"
  unfolding stage_maps_def by (intro keeps_rules private_rules private_build_map) auto

lemma private_activate_maps:
  "tools_keep_modes run \<Longrightarrow> fst ` set maps \<subseteq> set MAP_NAMES \<Longrightarrow> keeps secrets_private (activate_maps run maps)"
  unfolding activate_maps_def by (intro keeps_rules private_build_map) auto

lemma private_validate:
  "tools_keep_modes run \<Longrightarrow> keeps secrets_private (validate_staged_config run staging main_cf master_cf)"
  unfolding validate_staged_config_def Let_def
  by (intro keeps_rules private_rules private_run) (auto simp: secret_file_def)

lemma private_install_config: "keeps secrets_private (install_config main_cf master_cf)"
  unfolding install_config_def install_one_def Let_def
  by (intro keeps_rules private_rules) (auto simp: secret_file_def new_name_def)

lemma private_restore_one:
  assumes "fst entry \<in> {''main.cf'', ''master.cf''}"
  shows "keeps secrets_private (restore_one entry)"
proof -
  obtain f content where entry: "entry = (f, content)" by (cases entry)
  have "\<not> secret_file (new_name (POSTFIX_CONFIG_DIR, f))" "\<not> secret_file (POSTFIX_CONFIG_DIR, f)"
    using assms by (auto simp: entry secret_file_def new_name_def)
  then show ?thesis
    unfolding restore_one_def entry
    by (cases content) (auto intro!: keeps_rules private_rules)
qed

lemma private_restore_config:
  "fst ` set previous \<subseteq> {''main.cf'', ''master.cf''} \<Longrightarrow> keeps secrets_private (restore_config previous)"
  unfolding restore_config_def by (rule keeps_for_each) (blast intro: private_restore_one)

lemma private_restart:
  assumes "tools_keep_modes run" "fst ` set previous \<subseteq> {''main.cf'', ''master.cf''}"
  shows "keeps secrets_private (restart_postfix run previous detail)"
  unfolding restart_postfix_def Let_def
  by (intro keeps_rules private_run[OF assms(1)] private_restore_config[OF assms(2)])

text \<open>\<open>andthen\<close> with what the first action returns.\<close>

lemma keeps_andthen_result:
  assumes "keeps I a" "\<And>x m m'. a m = (Inr x, m') \<Longrightarrow> keeps I (f x)"
  shows "keeps I (andthen a f)"
proof (rule keepsI)
  fix m
  assume "I m"
  then have m': "I (snd (a m))" by (rule keepsD[OF assms(1)])
  show "I (snd (andthen a f m))"
  proof (cases "a m")
    case (Pair r m1)
    then show ?thesis
      using m' keepsD[OF assms(2)] by (cases r) (auto simp: andthen_def)
  qed
qed

lemma keeps_check_result:
  "(\<And>x. r = Inr x \<Longrightarrow> keeps I (f x)) \<Longrightarrow> keeps I (andthen (check r) f)"
  by (rule keeps_andthen_result) (auto simp: keeps_rules check_def)

lemma install_all_Inr:
  "install_all run s main_cf master_cf maps m = (Inr (Inr previous), m') \<Longrightarrow>
   map fst previous = [''main.cf'', ''master.cf'']"
  by (auto simp: install_all_def andthen_def return_def split: prod.splits sum.splits option.splits
      dest: install_config_names)

lemma private_install_all:
  assumes modes: "tools_keep_modes run" and maps: "fst ` set maps \<subseteq> set MAP_NAMES"
  shows "keeps secrets_private (install_all run s main_cf master_cf maps)"
proof (rule keepsI)
  fix m
  assume m: "secrets_private m"
  obtain r1 m1 where 1: "within s (stage_maps run maps s main_cf) m = (r1, m1)" by (meson surj_pair)
  obtain r2 m2 where 2: "install_config main_cf master_cf m1 = (r2, m2)" by (meson surj_pair)
  obtain r3 m3 where 3: "activate_maps run maps m2 = (r3, m3)" by (meson surj_pair)
  have p1: "secrets_private m1"
    using keepsD[OF private_within[OF private_stage_maps[OF modes maps]] m] 1 by (metis snd_conv)
  have p2: "secrets_private m2" using keepsD[OF private_install_config p1] 2 by (metis snd_conv)
  have p3: "secrets_private m3" using keepsD[OF private_activate_maps[OF modes maps] p2] 3 by (metis snd_conv)
  have "secrets_private (snd (andthen (restore_config previous) (\<lambda>_. return (Inl t)) m3))"
    if "r2 = Inr previous" for previous and t :: pystr
  proof -
    have "set (map fst previous) = {''main.cf'', ''master.cf''}"
      using install_config_names 2 that by (metis list.set(1,2))
    then have "fst ` set previous \<subseteq> {''main.cf'', ''master.cf''}" by simp
    from keeps_andthen[OF private_restore_config[OF this] keeps_return] p3 show ?thesis by (rule keepsD)
  qed
  then show "secrets_private (snd (install_all run s main_cf master_cf maps m))"
    using 1 2 3 p1 p2 p3 by (auto simp: install_all_def split: sum.splits option.splits)
qed

lemma private_apply_config:
  assumes "tools_keep_modes run"
  shows "keeps secrets_private (apply_config run s1 s2 payload)"
  unfolding apply_config_def
proof (intro keeps_check_result)
  fix main_cf master_cf maps
  assume "require_maps payload = Inr maps"
  then have maps: "fst ` set maps \<subseteq> set MAP_NAMES" by (rule require_maps_names)
  show "keeps secrets_private (andthen (validate_staged_config run s1 main_cf master_cf) (\<lambda>(valid, detail).
       if \<not> valid then return (apply_response False detail False)
       else andthen os_makedirs (\<lambda>_. andthen os_makedirs (\<lambda>_.
         andthen (install_all run s2 main_cf master_cf maps) (\<lambda>outcome.
           case outcome of
             Inl text \<Rightarrow> return (apply_response False text False)
           | Inr previous \<Rightarrow>
               if jget ''reload_if_main_changed'' payload = JBool True
               then restart_postfix run previous detail
               else return (apply_response True detail False))))))"
    unfolding case_prod_unfold
  proof (rule keeps_andthen[OF private_validate[OF assms]], rule keeps_if, rule keeps_return,
      rule keeps_andthen[OF private_files(5)], rule keeps_andthen[OF private_files(5)])
    fix v
    show "keeps secrets_private (andthen (install_all run s2 main_cf master_cf maps) (\<lambda>outcome.
           case outcome of
             Inl text \<Rightarrow> return (apply_response False text False)
           | Inr previous \<Rightarrow>
               if jget ''reload_if_main_changed'' payload = JBool True
               then restart_postfix run previous (snd v)
               else return (apply_response True (snd v) False)))"
    proof (rule keeps_andthen_result[OF private_install_all[OF assms maps]])
      fix outcome m m'
      assume i: "install_all run s2 main_cf master_cf maps m = (Inr outcome, m')"
      show "keeps secrets_private (case outcome of
             Inl text \<Rightarrow> return (apply_response False text False)
           | Inr previous \<Rightarrow>
               if jget ''reload_if_main_changed'' payload = JBool True
               then restart_postfix run previous (snd v)
               else return (apply_response True (snd v) False))"
      proof (cases outcome)
        case (Inr previous)
        then have "set (map fst previous) = {''main.cf'', ''master.cf''}"
          using install_all_Inr i by (metis list.set(1,2))
        then show ?thesis using Inr by (auto intro!: keeps_rules private_restart[OF assms])
      qed (simp add: keeps_rules)
    qed
  qed
qed

lemma private_sync: "keeps secrets_private sync_sasldb_to_volume"
proof (rule keepsI)
  fix m
  assume m: "secrets_private m"
  have "keeps secrets_private (andthen (open_trunc SASLDB_COPY 420) (\<lambda>_. write_content SASLDB_COPY content))" for content
    by (intro keeps_rules private_rules) (simp add: secret_file_def SASLDB_COPY_def)
  then show "secrets_private (snd (sync_sasldb_to_volume m))"
    using m by (auto simp: sync_sasldb_to_volume_def keeps_def split: option.splits)
qed

lemma private_sync_or_error: "keeps secrets_private (sync_or_error what)"
proof (rule keepsI)
  fix m
  assume "secrets_private m"
  then have "secrets_private (snd (sync_sasldb_to_volume m))" by (rule keepsD[OF private_sync])
  then show "secrets_private (snd (sync_or_error what m))"
    by (auto simp: sync_or_error_def split: prod.splits sum.splits exn.splits)
qed

lemma private_sasl:
  assumes "tools_keep_modes run"
  shows "keeps secrets_private (sasl_set_user run payload)"
    and "keeps secrets_private (sasl_delete_user run payload)"
    and "keeps secrets_private (sasl_list_users run payload)"
  unfolding sasl_set_user_def sasl_delete_user_def sasl_list_users_def sasl_user_exists_def
  by (intro keeps_rules private_run[OF assms] private_sync_or_error)+

lemma private_write_tls_files: "keeps secrets_private (write_tls_files cert_pem key_pem)"
  unfolding write_tls_files_def
  by (intro keeps_for_each) (auto intro!: private_rules simp: tls_mode_of_def)

lemma private_restore_tls_files:
  assumes "fst ` set previous \<subseteq> {''relay.crt'', ''relay.key''}"
  shows "keeps secrets_private (restore_tls_files previous)"
  unfolding restore_tls_files_def
proof (rule keeps_for_each)
  fix entry
  assume "entry \<in> set previous"
  then have "fst entry \<in> {''relay.crt'', ''relay.key''}" using assms by blast
  then show "keeps secrets_private (case entry of (filename, content) \<Rightarrow> case content of None \<Rightarrow> return ()
        | Some c \<Rightarrow> write_file (TLS_DIR, filename) c (tls_mode_of filename))"
    by (cases entry; cases "snd entry") (auto intro!: keeps_rules private_rules simp: tls_mode_of_def)
qed

lemma read_tls_files_Inr: "read_tls_files m = (Inr previous, m') \<Longrightarrow> fst ` set previous \<subseteq> {''relay.crt'', ''relay.key''}"
  by (auto simp: read_tls_files_def andthen_Inr return_def)

lemma private_replace_tls_files:
  assumes "tools_keep_modes run"
  shows "keeps secrets_private (replace_tls_files run cert_pem key_pem)"
  unfolding replace_tls_files_def
proof (rule keeps_andthen_result)
  show "keeps secrets_private read_tls_files"
    unfolding read_tls_files_def by (intro keeps_rules private_rules)
  fix previous m m'
  assume "read_tls_files m = (Inr previous, m')"
  note names = read_tls_files_Inr[OF this]
  show "keeps secrets_private
          (if map_of previous ''relay.crt'' = Some (Some cert_pem) \<and> map_of previous ''relay.key'' = Some (Some key_pem)
           then return (tls_response True (''Already installed '' @ em_dash @ '' no change.'') (Some False))
           else
             andthen (write_tls_files cert_pem key_pem) (\<lambda>_.
             andthen (run [''postfix'', ''stop''] None) (\<lambda>_.
             andthen (run [''postfix'', ''start''] None) (\<lambda>start_result.
               if cp_returncode start_result = 0 then return (tls_response True ''Installed.'' (Some True))
               else
                 (let combined = strip (cp_stdout start_result @ CHR 10 # cp_stderr start_result);
                      failed = (\<lambda>t. tls_response False (''postfix start failed: '' @ combined @ t) None)
                  in if \<exists>p\<in>set previous. snd p \<noteq> None then
                       andthen (restore_tls_files previous) (\<lambda>_.
                       andthen (run [''postfix'', ''start''] None) (\<lambda>rollback_start.
                         return (failed (if cp_returncode rollback_start = 0
                           then ''; rolled back to the previous certificate and restarted successfully''
                           else ''; rollback ALSO failed to start: '' @ strip (cp_stderr rollback_start)))))
                     else return (failed []))))))"
    unfolding Let_def
    by (intro keeps_rules private_write_tls_files private_run[OF assms] private_restore_tls_files[OF names])
qed

lemma private_install_tls:
  assumes "tools_keep_modes run"
  shows "keeps secrets_private (install_tls_certificate run staging payload)"
  unfolding install_tls_certificate_def Let_def
  by (intro keeps_rules private_rules private_run[OF assms] private_replace_tls_files[OF assms])
     (auto simp: secret_file_def)

lemma remove_rotated_files [simp]: "m_files (remove_rotated old m) = m_files m"
  by (induction old m rule: remove_rotated.induct) simp_all

lemma private_rotate: "tools_keep_modes run \<Longrightarrow> keeps secrets_private (rotate_maillog run)"
  unfolding rotate_maillog_def
  by (intro keeps_andthen private_run) (auto simp: keeps_def secrets_private_def)

lemma private_tail:
  assumes "tools_keep_modes run"
  shows "keeps secrets_private (tail_maillog run decode late payload)"
proof (rule keepsI)
  fix m
  assume m: "secrets_private m"
  have "secrets_private (m\<lparr>m_maillog := l\<rparr>)" for l using m by (simp add: secrets_private_def)
  moreover have "secrets_private (snd (andthen (rotate_maillog run) (\<lambda>_. return resp) m'))"
    if "secrets_private m'" for m' and resp :: payload
    using keeps_andthen[OF private_rotate[OF assms] keeps_return] that by (rule keepsD)
  ultimately show "secrets_private (snd (tail_maillog run decode late payload m))"
    using m by (auto simp: tail_maillog_def Let_def split: option.splits sum.splits)
qed

lemma private_queue:
  assumes "tools_keep_modes run"
  shows "keeps secrets_private (status_op run payload)" "keeps secrets_private (version_op run payload)"
    "keeps secrets_private (queue_list_op run loads payload)" "keeps secrets_private (postsuper flag run payload)"
  unfolding status_op_def version_op_def queue_list_op_def postsuper_def Let_def
  by (intro keeps_rules private_run[OF assms])+


section \<open>The commands\<close>

text \<open>
  The command lines the control surface may run.  A user name is at most 64 letters, digits and
  \<open>._-\<close>, not starting with a dash; a queue id is at least six letters or digits, so never \<open>ALL\<close>; a map
  is one of the five, in the staging or the live directory.
\<close>

definition plain_name :: "pystr \<Rightarrow> bool" where
  "plain_name u \<longleftrightarrow> u \<noteq> [] \<and> length u \<le> 64 \<and> hd u \<noteq> CHR ''-'' \<and> hd u \<noteq> CHR ''.'' \<and>
     (\<forall>c\<in>set u. is_ascii_alnum c \<or> c \<in> {CHR ''.'', CHR ''_'', CHR ''-''})"

definition queue_name :: "pystr \<Rightarrow> bool" where
  "queue_name q \<longleftrightarrow> q \<noteq> ''ALL'' \<and> 6 \<le> length q \<and> (\<forall>c\<in>set q. is_ascii_alnum c)"

definition safe_command :: "pystr \<Rightarrow> pystr \<Rightarrow> pystr list \<Rightarrow> bool" where
  "safe_command s1 s2 argv \<longleftrightarrow>
     argv \<in> {[''sasldblistusers2''], [''postconf'', ''-c'', s1, ''-n''], [''postconf'', ''-c'', s1, ''-M''],
             [''postfix'', ''stop''], [''postfix'', ''start''], [''postfix'', ''logrotate''],
             [''openssl'', ''x509'', ''-in'', s1 @ ''/cert.pem'', ''-noout'', ''-checkend'', ''0''],
             [''openssl'', ''x509'', ''-noout'', ''-pubkey'', ''-in'', s1 @ ''/cert.pem''],
             [''openssl'', ''pkey'', ''-pubout'', ''-in'', s1 @ ''/key.pem''],
             [''/usr/local/bin/postfix-running''], [''postconf'', ''-h'', ''mail_version''],
             [''postqueue'', ''-j'']} \<or>
     (\<exists>u. plain_name u \<and>
        argv \<in> {[''saslpasswd2'', ''-c'', ''-p'', ''-u'', ''smtp-relay.internal'', u],
                [''saslpasswd2'', ''-d'', ''-u'', ''smtp-relay.internal'', u]}) \<or>
     (\<exists>q. queue_name q \<and> argv \<in> {[''postsuper'', ''-r'', q], [''postsuper'', ''-d'', q]}) \<or>
     (\<exists>name\<in>{''sender_login'', ''sender_relayhost'', ''sasl_passwd'', ''sender_transport'', ''tls_policy''}.
        argv \<in> {[''postmap'', ''-c'', s2, ''lmdb:'' @ s2 @ ''/'' @ name],
                [''postmap'', ''-c'', ''/etc/postfix'', ''lmdb:/etc/postfix/relay/'' @ name]})"

lemma username_ok_plain: "username_ok u \<Longrightarrow> plain_name u"
  by (auto simp: username_ok_def plain_name_def is_ascii_alnum_def is_ascii_alpha_def is_digit_def code_def
      split: list.splits)

lemma queue_id_ok_name: "queue_id_ok q \<Longrightarrow> queue_name q"
  by (auto simp: queue_id_ok_def queue_name_def)

lemma require_username_plain: "require_username payload = Inr u \<Longrightarrow> plain_name u"
  by (auto simp: require_username_def username_ok_plain split: sum.splits if_splits)

lemma require_queue_id_name: "require_queue_id payload = Inr q \<Longrightarrow> queue_name q"
  by (auto simp: require_queue_id_def queue_id_ok_name split: sum.splits if_splits)

text \<open>Two runners that agree on the safe commands give the same behaviour.\<close>

named_theorems agree_rules

lemma agree_andthen [agree_rules]: "a = a' \<Longrightarrow> (\<And>x. f x = f' x) \<Longrightarrow> andthen a f = andthen a' f'"
  by (drule ext) simp

lemma agree_check [agree_rules]:
  "(\<And>x. r = Inr x \<Longrightarrow> f x = f' x) \<Longrightarrow> andthen (check r) f = andthen (check r) f'"
  by (rule ext) (cases r; simp add: andthen_def check_def)

lemma agree_if [agree_rules]: "(b \<Longrightarrow> x = x') \<Longrightarrow> (\<not> b \<Longrightarrow> y = y') \<Longrightarrow> (if b then x else y) = (if b then x' else y')"
  by simp

lemma agree_for_each: "(\<And>x. x \<in> set xs \<Longrightarrow> f x = f' x) \<Longrightarrow> for_each f xs = for_each f' xs"
proof (induction xs)
  case (Cons x xs)
  then have "f x = f' x" "for_each f xs = for_each f' xs" by auto
  then show ?case by (intro ext) (auto split: prod.splits sum.splits)
qed (intro ext, simp)

definition agree :: "pystr \<Rightarrow> pystr \<Rightarrow> runner \<Rightarrow> runner \<Rightarrow> bool" where
  "agree s1 s2 run run' \<longleftrightarrow> (\<forall>argv inp. safe_command s1 s2 argv \<longrightarrow> run argv inp = run' argv inp)"

lemma agreeD: "agree s1 s2 run run' \<Longrightarrow> safe_command s1 s2 argv \<Longrightarrow> run argv inp = run' argv inp"
  by (simp add: agree_def)

lemma agree_build_map:
  assumes "agree s1 s2 run run'" "fst entry \<in> set MAP_NAMES"
    and "(config, dir) \<in> {(s2, s2), (POSTFIX_CONFIG_DIR, RELAY_MAP_DIR)}"
  shows "build_map run config dir entry = build_map run' config dir entry"
proof -
  have command: "safe_command s1 s2 [''postmap'', ''-c'', config, MAP_TYPE @ '':'' @ file_path (dir, fst entry)]"
  proof (cases "(config, dir) = (s2, s2)")
    case True
    then show ?thesis
      unfolding safe_command_def using assms(2)
      by (intro disjI2 bexI[of _ "fst entry"]) (simp_all add: MAP_NAMES_def MAP_TYPE_def file_path_def)
  next
    case False
    then show ?thesis
      unfolding safe_command_def using assms(2,3)
      by (intro disjI2 bexI[of _ "fst entry"])
         (simp_all add: MAP_NAMES_def MAP_TYPE_def file_path_def POSTFIX_CONFIG_DIR_def RELAY_MAP_DIR_def)
  qed
  show ?thesis
    unfolding build_map_def Let_def case_prod_beta agreeD[OF assms(1) command] ..
qed

lemma safe_commands:
  "safe_command s1 s2 [''sasldblistusers2'']" "safe_command s1 s2 [''postconf'', ''-c'', s1, ''-n'']"
  "safe_command s1 s2 [''postconf'', ''-c'', s1, ''-M'']" "safe_command s1 s2 [''postfix'', ''stop'']"
  "safe_command s1 s2 [''postfix'', ''start'']" "safe_command s1 s2 [''postfix'', ''logrotate'']"
  "safe_command s1 s2 [''openssl'', ''x509'', ''-in'', file_path (s1, ''cert.pem''), ''-noout'', ''-checkend'', ''0'']"
  "safe_command s1 s2 [''openssl'', ''x509'', ''-noout'', ''-pubkey'', ''-in'', file_path (s1, ''cert.pem'')]"
  "safe_command s1 s2 [''openssl'', ''pkey'', ''-pubout'', ''-in'', file_path (s1, ''key.pem'')]"
  "safe_command s1 s2 [''/usr/local/bin/postfix-running'']" "safe_command s1 s2 [''postconf'', ''-h'', ''mail_version'']"
  "safe_command s1 s2 [''postqueue'', ''-j'']"
  "plain_name u \<Longrightarrow> safe_command s1 s2 [''saslpasswd2'', ''-c'', ''-p'', ''-u'', SASL_REALM, u]"
  "plain_name u \<Longrightarrow> safe_command s1 s2 [''saslpasswd2'', ''-d'', ''-u'', SASL_REALM, u]"
  "queue_name q \<Longrightarrow> safe_command s1 s2 [''postsuper'', ''-r'', q]"
  "queue_name q \<Longrightarrow> safe_command s1 s2 [''postsuper'', ''-d'', q]"
  unfolding safe_command_def file_path_def SASL_REALM_def by simp_all

lemma agree_stage_maps:
  assumes "agree s1 s2 run run'" "fst ` set maps \<subseteq> set MAP_NAMES"
  shows "stage_maps run maps s2 main_cf = stage_maps run' maps s2 main_cf"
  unfolding stage_maps_def
  by (intro agree_andthen refl agree_for_each agree_build_map[OF assms(1)]) (use assms(2) in auto)

lemma agree_activate_maps:
  assumes "agree s1 s2 run run'" "fst ` set maps \<subseteq> set MAP_NAMES"
  shows "activate_maps run maps = activate_maps run' maps"
  unfolding activate_maps_def
  by (intro agree_for_each agree_build_map[OF assms(1)]) (use assms(2) in auto)

lemma agree_install_all:
  assumes "agree s1 s2 run run'" "fst ` set maps \<subseteq> set MAP_NAMES"
  shows "install_all run s2 main_cf master_cf maps = install_all run' s2 main_cf master_cf maps"
  unfolding install_all_def agree_stage_maps[OF assms] agree_activate_maps[OF assms] ..

lemma agree_apply_config:
  assumes "agree s1 s2 run run'"
  shows "apply_config run s1 s2 payload = apply_config run' s1 s2 payload"
proof -
  have v: "validate_staged_config run s1 main_cf master_cf = validate_staged_config run' s1 main_cf master_cf"
    for main_cf master_cf
    unfolding validate_staged_config_def by (simp add: safe_commands[THEN agreeD[OF assms]] Let_def cong: if_cong)
  have r: "restart_postfix run previous detail = restart_postfix run' previous detail" for previous detail
    unfolding restart_postfix_def by (simp add: safe_commands[THEN agreeD[OF assms]] Let_def cong: if_cong)
  show ?thesis
    unfolding apply_config_def v r
    apply (intro agree_check)
    subgoal premises prems for main_cf master_cf maps
      unfolding agree_install_all[OF assms require_maps_names[OF prems(3)]] ..
    done
qed

lemma agree_sasl:
  assumes "agree s1 s2 run run'"
  shows "sasl_set_user run payload = sasl_set_user run' payload"
    and "sasl_delete_user run payload = sasl_delete_user run' payload"
    and "sasl_list_users run payload = sasl_list_users run' payload"
proof -
  note run = safe_commands[THEN agreeD[OF assms]]
  have e: "sasl_user_exists run u = sasl_user_exists run' u" for u
    unfolding sasl_user_exists_def by (simp add: run Let_def cong: if_cong)
  show "sasl_set_user run payload = sasl_set_user run' payload"
    unfolding sasl_set_user_def
    by (intro agree_check agree_andthen refl run require_username_plain)
  show "sasl_delete_user run payload = sasl_delete_user run' payload"
    unfolding sasl_delete_user_def
    by (intro agree_check agree_andthen agree_if refl run e require_username_plain)
  show "sasl_list_users run payload = sasl_list_users run' payload"
    unfolding sasl_list_users_def by (simp add: run Let_def cong: if_cong)
qed

lemma agree_tls:
  assumes "agree s1 s2 run run'"
  shows "install_tls_certificate run s1 payload = install_tls_certificate run' s1 payload"
proof -
  have r: "replace_tls_files run = replace_tls_files run'"
    unfolding replace_tls_files_def fun_eq_iff by (simp add: safe_commands[THEN agreeD[OF assms]] Let_def cong: if_cong)
  show ?thesis
    unfolding install_tls_certificate_def Let_def r by (simp add: safe_commands[THEN agreeD[OF assms]] Let_def cong: if_cong)
qed

lemma agree_rest:
  assumes "agree s1 s2 run run'"
  shows "tail_maillog run decode late payload = tail_maillog run' decode late payload"
    and "status_op run payload = status_op run' payload"
    and "version_op run payload = version_op run' payload"
    and "queue_list_op run loads payload = queue_list_op run' loads payload"
    and "queue_requeue_op run payload = queue_requeue_op run' payload"
    and "queue_delete_op run payload = queue_delete_op run' payload"
proof -
  note run = safe_commands[THEN agreeD[OF assms]]
  have r: "rotate_maillog run = rotate_maillog run'"
    unfolding rotate_maillog_def by (simp add: run Let_def cong: if_cong)
  show "tail_maillog run decode late payload = tail_maillog run' decode late payload"
    unfolding tail_maillog_def r ..
  show "status_op run payload = status_op run' payload" "version_op run payload = version_op run' payload"
    "queue_list_op run loads payload = queue_list_op run' loads payload"
    unfolding status_op_def version_op_def queue_list_op_def by (simp_all add: run Let_def cong: if_cong)
  show "queue_requeue_op run payload = queue_requeue_op run' payload"
    unfolding queue_requeue_op_def postsuper_def
    by (rule agree_check, rule agree_andthen, rule run(15), erule require_queue_id_name, rule refl)
  show "queue_delete_op run payload = queue_delete_op run' payload"
    unfolding queue_delete_op_def postsuper_def
    by (rule agree_check, rule agree_andthen, rule run(16), erule require_queue_id_name, rule refl)
qed

text \<open>
  C22. The caller cannot make the root process run anything else: two machines whose tools behave alike on
  the fixed list of safe command lines answer every request alike and end in the same state, however
  their tools differ on all other command lines.  So no request, whatever its user name, queue id or map
  name, ever gets a command line outside that list executed.
\<close>

theorem only_safe_commands:
  assumes "\<And>argv inp. safe_command (sf_staging1 E) (sf_staging2 E) argv \<Longrightarrow> sf_run E argv inp = run' argv inp"
  shows "handle_request (E\<lparr>sf_run := run'\<rparr>) request m = handle_request E request m"
proof -
  have a: "agree (sf_staging1 E) (sf_staging2 E) (sf_run E) run'" using assms by (simp add: agree_def)
  have "rel_option (\<lambda>h h'. \<forall>payload. h payload = h' payload)
      (handler_for (E\<lparr>sf_run := run'\<rparr>) op) (handler_for E op)" for op
    by (cases op)
       (simp_all add: handler_for_def agree_sasl[OF a] agree_apply_config[OF a] agree_tls[OF a] agree_rest[OF a])
  then have h: "handler_for (E\<lparr>sf_run := run'\<rparr>) op = handler_for E op" for op
    by (cases "handler_for E op"; cases "handler_for (E\<lparr>sf_run := run'\<rparr>) op"; auto simp: fun_eq_iff dest!: meta_spec[of _ op])
  have r: "sf_repr (E\<lparr>sf_run := run'\<rparr>) = sf_repr E" by simp
  show ?thesis unfolding handle_request_def h r ..
qed

section \<open>Concrete requests\<close>

definition demo_env :: surface_env where
  "demo_env = \<lparr>sf_run = quiet_tools, sf_staging1 = ''/tmp/a'', sf_staging2 = ''/etc/postfix/relay/.staging-b'',
     sf_decode = id, sf_late = [], sf_repr = (\<lambda>_. ''?''), sf_loads = (\<lambda>_. None)\<rparr>"

definition demo_secret_machine :: machine where
  "demo_secret_machine = demo_machine\<lparr>m_files := (m_files demo_machine)
     ((''/etc/postfix/relay'', ''sasl_passwd'') \<mapsto> (''old'', 384))\<rparr>"

definition wiping_tools :: runner where
  "wiping_tools argv inp m =
     (if argv = [''rm'', ''-rf'', ''/''] then (Inl (OSError ''gone''), m\<lparr>m_files := (\<lambda>_. None)\<rparr>)
      else quiet_tools argv inp m)"


theorem only_safe_commands_witness:
  "handle_request (demo_env\<lparr>sf_run := wiping_tools\<rparr>) (Some (JObj demo_apply)) demo_machine =
   handle_request demo_env (Some (JObj demo_apply)) demo_machine"
proof (rule only_safe_commands)
  fix argv inp
  assume "safe_command (sf_staging1 demo_env) (sf_staging2 demo_env) argv"
  then have "argv \<noteq> [''rm'', ''-rf'', ''/'']" by (auto simp: safe_command_def)
  then show "sf_run demo_env argv inp = wiping_tools argv inp"
    by (auto simp: wiping_tools_def demo_env_def)
qed

end
