(* ===== verification/Log_Tail.thy ===== *)
theory Log_Tail
  imports Surface_Safety
begin

text \<open>
  The two sides of the mail-log protocol: \<open>_tail_maillog\<close> is stateless, its caller keeps the offset and
  the inode of the last answer and sends them back.
\<close>

section \<open>Complete lines\<close>

abbreviation newline :: char where "newline \<equiv> CHR 10"

definition whole_lines :: "bytes \<Rightarrow> bool" where
  "whole_lines b \<longleftrightarrow> b = [] \<or> last b = newline"

lemma complete_part_prefix: "\<exists>rest. chunk = complete_part chunk @ rest \<and> newline \<notin> set rest"
proof -
  have "rev chunk = takeWhile (\<lambda>c. c \<noteq> newline) (rev chunk) @ dropWhile (\<lambda>c. c \<noteq> newline) (rev chunk)" by simp
  then have "chunk = complete_part chunk @ rev (takeWhile (\<lambda>c. c \<noteq> newline) (rev chunk))"
    unfolding complete_part_def by (metis rev_append rev_rev_ident)
  moreover have "newline \<notin> set (rev (takeWhile (\<lambda>c. c \<noteq> newline) (rev chunk)))"
    by (auto dest: set_takeWhileD)
  ultimately show ?thesis by blast
qed

lemma complete_part_whole: "whole_lines (complete_part chunk)"
proof -
  have "dropWhile (\<lambda>c. c \<noteq> newline) xs = [] \<or> hd (dropWhile (\<lambda>c. c \<noteq> newline) xs) = newline" for xs
    using hd_dropWhile[of "\<lambda>c. c \<noteq> newline" xs] by blast
  from this[of "rev chunk"] show ?thesis
    unfolding whole_lines_def complete_part_def by (auto simp: last_rev)
qed

lemma whole_lines_append: "whole_lines a \<Longrightarrow> whole_lines b \<Longrightarrow> whole_lines (a @ b)"
  by (auto simp: whole_lines_def last_append)

lemma complete_part_append:
  "whole_lines b \<Longrightarrow> newline \<notin> set rest \<Longrightarrow> complete_part (b @ rest) = b"
  by (cases b rule: rev_cases) (auto simp: complete_part_def whole_lines_def dropWhile_append3 dropWhile_append)

lemma complete_part_extend: "complete_part (a @ b) = a @ complete_part b" if "whole_lines a"
proof -
  obtain rest where "b = complete_part b @ rest" "newline \<notin> set rest" using complete_part_prefix by blast
  moreover have "whole_lines (a @ complete_part b)"
    using that complete_part_whole[of b] by (auto simp: whole_lines_def last_append)
  ultimately show ?thesis using complete_part_append by (metis append.assoc)
qed

section \<open>The caller\<close>

text \<open>What \<open>tail_maillog\<close> of the client sends, and what it reads from the answer.\<close>

definition tail_request :: "int \<Rightarrow> int \<Rightarrow> payload" where
  "tail_request offset inode =
     [(''op'', JStr ''tail_maillog''), (''since_offset'', JInt offset), (''since_inode'', JInt inode)]"

definition lines_of :: "payload \<Rightarrow> pystr list" where
  "lines_of resp = (case jget ''lines'' resp of
      JList ls \<Rightarrow> List.map_filter (\<lambda>l. case l of JStr s \<Rightarrow> Some s | _ \<Rightarrow> None) ls | _ \<Rightarrow> [])"

definition offset_of :: "payload \<Rightarrow> int" where
  "offset_of resp = (case jget ''new_offset'' resp of JInt n \<Rightarrow> n | _ \<Rightarrow> 0)"

text \<open>Polls, one per element of \<open>lates\<close>, the bytes that Postfix appends while that poll runs.\<close>

fun polls :: "runner \<Rightarrow> (bytes \<Rightarrow> pystr) \<Rightarrow> int \<Rightarrow> bytes list \<Rightarrow> int \<Rightarrow> machine \<Rightarrow> pystr list \<times> int \<times> machine" where
  "polls run decode inode [] offset m = ([], offset, m)"
| "polls run decode inode (late # lates) offset m =
     (case tail_maillog run decode late (tail_request offset inode) m of
        (Inl e, m') \<Rightarrow> polls run decode inode lates offset m'
      | (Inr resp, m') \<Rightarrow>
          (let (ls, rest) = polls run decode inode lates (offset_of resp) m' in (lines_of resp @ ls, rest)))"

text \<open>
  A decoding of bytes that treats line feeds as themselves, as UTF-8 with replacement does: a line feed
  ends whatever came before it.
\<close>

definition newline_safe :: "(bytes \<Rightarrow> pystr) \<Rightarrow> bool" where
  "newline_safe decode \<longleftrightarrow> decode [] = [] \<and>
     (\<forall>x y. decode (x @ newline # y) = decode (x @ [newline]) @ decode y) \<and>
     (\<forall>x. \<exists>z. decode (x @ [newline]) = z @ [newline])"

lemma decoded_lines_append:
  assumes "newline_safe decode" "whole_lines a"
  shows "splitlines (decode (a @ b)) = splitlines (decode a) @ splitlines (decode b)"
proof (cases a rule: rev_cases)
  case Nil
  then show ?thesis using assms(1) by (simp add: newline_safe_def)
next
  case (snoc x c)
  then have a: "a = x @ [newline]" using assms(2) by (auto simp: whole_lines_def)
  obtain z where z: "decode (x @ [newline]) = z @ [newline]" using assms(1) unfolding newline_safe_def by blast
  have "decode (x @ newline # b) = decode (x @ [newline]) @ decode b"
    using assms(1) unfolding newline_safe_def by blast
  then have "decode (a @ b) = z @ newline # decode b" unfolding a z by simp
  then show ?thesis unfolding a using z splitlines_append[of newline z "decode b"] by (simp add: code_def)
qed

lemma lines_of_JList: "jget ''lines'' resp = JList (map JStr ls) \<Longrightarrow> lines_of resp = ls"
  by (simp add: lines_of_def List.map_filter_def comp_def)

definition next_complete :: "nat \<Rightarrow> bytes \<Rightarrow> bytes" where
  "next_complete offset log = complete_part (take MAILLOG_MAX_READ_BYTES (drop offset log))"

lemma next_complete_take:
  assumes "offset \<le> length log"
  shows "take (offset + length (next_complete offset log)) log = take offset log @ next_complete offset log"
proof -
  obtain rest where "take MAILLOG_MAX_READ_BYTES (drop offset log) = next_complete offset log @ rest"
    unfolding next_complete_def using complete_part_prefix by blast
  then obtain rest' where "drop offset log = next_complete offset log @ rest'"
    by (metis append.assoc append_take_drop_id)
  then have "take (length (next_complete offset log)) (drop offset log) = next_complete offset log" by simp
  then show ?thesis by (simp add: take_add)
qed

lemma next_complete_length: "offset \<le> length log \<Longrightarrow> offset + length (next_complete offset log) \<le> length log"
proof -
  assume "offset \<le> length log"
  then have "length (take (offset + length (next_complete offset log)) log) =
      length (take offset log) + length (next_complete offset log)"
    by (simp only: next_complete_take length_append)
  with \<open>offset \<le> length log\<close> show ?thesis by simp
qed

lemma tail_step:
  assumes log: "m_maillog m = Some (content, inode)" and short: "length content < MAILLOG_ROTATE_BYTES"
  shows "\<exists>resp. tail_maillog run decode late (tail_request (int offset) inode) m =
            (Inr resp, m\<lparr>m_maillog := Some (content @ late, inode)\<rparr>) \<and>
          lines_of resp = splitlines (decode (next_complete offset (content @ late))) \<and>
          offset_of resp = int (offset + length (next_complete offset (content @ late)))"
proof -
  have start: "tail_start (jget ''since_inode'' (tail_request (int offset) inode))
      (since_offset_of (tail_request (int offset) inode)) inode (int (length content)) = Inr (False, int offset)"
    by (simp add: tail_start_def tail_request_def jget_def since_offset_of_def inode_differs_def)
  have "\<not> int (length content) \<ge> int MAILLOG_ROTATE_BYTES" using short by simp
  then have "tail_maillog run decode late (tail_request (int offset) inode) m =
      (Inr [(''ok'', JBool True),
            (''lines'', JList (map JStr (splitlines (decode (next_complete offset (content @ late)))))),
            (''new_offset'', JInt (int offset + int (length (next_complete offset (content @ late))))),
            (''truncated'', JBool False), (''inode'', JInt inode)],
       m\<lparr>m_maillog := Some (content @ late, inode)\<rparr>)"
    by (simp only: tail_maillog_def log start Let_def next_complete_def option.case sum.case prod.case nat_int simp_thms if_False)
  then show ?thesis
    by (auto intro!: exI lines_of_JList simp: offset_of_def jget_def)
qed

lemma polls_exact:
  assumes "m_maillog m = Some (content, inode)" and safe: "newline_safe decode"
    and "length (content @ concat lates) < MAILLOG_ROTATE_BYTES"
    and "offset \<le> length content" and "whole_lines (take offset content)"
    and "polls run decode inode lates (int offset) m = (ls, offset', m')"
  shows "\<exists>n. offset' = int n \<and> m_maillog m' = Some (content @ concat lates, inode) \<and>
         whole_lines (take n (content @ concat lates)) \<and>
         splitlines (decode (take offset content)) @ ls = splitlines (decode (take n (content @ concat lates))) \<and>
         (lates \<noteq> [] \<longrightarrow> length (content @ concat lates) \<le> MAILLOG_MAX_READ_BYTES \<longrightarrow>
            take n (content @ concat lates) = complete_part (content @ concat lates))"
  using assms(1,3-)
proof (induction lates arbitrary: content m offset ls)
  case Nil
  then show ?case by (intro exI[of _ offset]) auto
next
  case (Cons late lates)
  let ?log = "content @ late"
  let ?new = "next_complete offset ?log"
  let ?offset = "offset + length ?new"
  have short: "length content < MAILLOG_ROTATE_BYTES" using Cons.prems(2) by simp
  obtain resp where step: "tail_maillog run decode late (tail_request (int offset) inode) m =
       (Inr resp, m\<lparr>m_maillog := Some (?log, inode)\<rparr>)"
    "lines_of resp = splitlines (decode ?new)" "offset_of resp = int ?offset"
    using tail_step[OF Cons.prems(1) short] by blast
  obtain ls' where rest: "polls run decode inode lates (int ?offset) (m\<lparr>m_maillog := Some (?log, inode)\<rparr>) = (ls', offset', m')"
    and ls: "ls = splitlines (decode ?new) @ ls'"
    using Cons.prems(5) step by (auto simp: Let_def split: prod.splits)
  have len: "offset \<le> length ?log" "?offset \<le> length ?log"
    using Cons.prems(3) next_complete_length[of offset ?log] by auto
  have new: "take ?offset ?log = take offset content @ ?new"
    using next_complete_take[OF len(1)] Cons.prems(3) by simp
  have whole: "whole_lines (take ?offset ?log)"
    unfolding new
    by (rule whole_lines_append[OF Cons.prems(4)]) (simp add: next_complete_def complete_part_whole)
  have "\<exists>n. offset' = int n \<and> m_maillog m' = Some (?log @ concat lates, inode) \<and>
         whole_lines (take n (?log @ concat lates)) \<and>
         splitlines (decode (take ?offset ?log)) @ ls' = splitlines (decode (take n (?log @ concat lates))) \<and>
         (lates \<noteq> [] \<longrightarrow> length (?log @ concat lates) \<le> MAILLOG_MAX_READ_BYTES \<longrightarrow>
            take n (?log @ concat lates) = complete_part (?log @ concat lates))"
    by (rule Cons.IH[OF _ _ len(2) whole rest]) (use Cons.prems(2) in auto)
  then obtain n where n: "offset' = int n" "m_maillog m' = Some (content @ concat (late # lates), inode)"
    "whole_lines (take n (content @ concat (late # lates)))"
    "splitlines (decode (take ?offset ?log)) @ ls' = splitlines (decode (take n (content @ concat (late # lates))))"
    and all: "lates \<noteq> [] \<Longrightarrow> length (content @ concat (late # lates)) \<le> MAILLOG_MAX_READ_BYTES \<Longrightarrow>
       take n (content @ concat (late # lates)) = complete_part (content @ concat (late # lates))"
    by auto
  have lines: "splitlines (decode (take offset content)) @ ls = splitlines (decode (take ?offset ?log)) @ ls'"
    unfolding new ls using decoded_lines_append[OF safe Cons.prems(4)] by simp
  have fin: "take n (content @ concat (late # lates)) = complete_part (content @ concat (late # lates))"
    if "length (content @ concat (late # lates)) \<le> MAILLOG_MAX_READ_BYTES"
  proof (cases "lates = []")
    case True
    then have "n = ?offset" using n(1) rest by simp
    moreover have "?new = complete_part (drop offset ?log)"
      using that True by (simp add: next_complete_def)
    moreover have "take offset content @ complete_part (drop offset ?log) = complete_part (take offset content @ drop offset ?log)"
      by (rule complete_part_extend[OF Cons.prems(4), symmetric])
    moreover have "take offset content @ drop offset ?log = ?log" using Cons.prems(3) by simp
    ultimately show ?thesis using True new by simp
  qed (use all that in blast)
  show ?case using n lines fin by auto
qed

text \<open>
  The mail log is handed out exactly once: as long as it is not rotated, any number of polls from the
  start of the log, each sending back the offset of the answer before, with Postfix appending anything
  while they run, return together exactly the lines of the first \<open>offset'\<close> bytes, in order, none twice
  and none cut in half; and, when the log fits one read, the last poll reaches the last complete line.
\<close>

lemma tail_exactly_once:
  assumes "m_maillog m = Some (content, inode)" and "newline_safe decode"
    and "length (content @ concat lates) < MAILLOG_ROTATE_BYTES"
    and "polls run decode inode lates 0 m = (ls, offset', m')"
  shows "m_maillog m' = Some (content @ concat lates, inode) \<and>
         ls = splitlines (decode (take (nat offset') (content @ concat lates))) \<and>
         0 \<le> offset' \<and> whole_lines (take (nat offset') (content @ concat lates)) \<and>
         (lates \<noteq> [] \<longrightarrow> length (content @ concat lates) \<le> MAILLOG_MAX_READ_BYTES \<longrightarrow>
            take (nat offset') (content @ concat lates) = complete_part (content @ concat lates))"
proof -
  have "decode [] = []" using assms(2) unfolding newline_safe_def by blast
  moreover have "whole_lines (take 0 content)" by (simp add: whole_lines_def)
  ultimately show ?thesis
    using polls_exact[OF assms(1,2,3), of 0 run ls offset' m'] assms(4) by auto
qed

end
