(* ===== verification/Postfix_Control.thy ===== *)
theory Postfix_Control
  imports Config_Generator Rate_Limit_Jobs Log_Tail
begin

text \<open>
  \<open>core/postfix_control.py\<close>, the application's client of the control surface, composed with
  \<open>Control_Surface\<close>: a channel holds the machine on the other side, and for each call what becomes of
  request and reply.  A lost or garbled reply comes after the request has had its effect, which is what
  makes a failed call ambiguous.  JSON texts travel as the values they encode.
\<close>

section \<open>One call\<close>

datatype fate = Delivered | Lost_Request pystr | Lost_Reply pystr | Empty_Reply | Garbled pystr

record channel =
  ch_env :: surface_env
  ch_machine :: machine
  ch_fate :: "nat \<Rightarrow> fate"
  ch_calls :: nat

text \<open>\<open>bool(value)\<close>\<close>

definition truthy :: "json \<Rightarrow> bool" where
  "truthy j = (case j of JNull \<Rightarrow> False | JBool b \<Rightarrow> b | JInt n \<Rightarrow> n \<noteq> 0 | JStr s \<Rightarrow> s \<noteq> []
     | JList l \<Rightarrow> l \<noteq> [] | JObj obj \<Rightarrow> obj \<noteq> [])"

definition unreachable :: "pystr \<Rightarrow> ctl_error" where
  "unreachable e = PostfixControlError (''Could not reach the Postfix control surface: '' @ e)"

definition ctl_call :: "pystr \<Rightarrow> payload \<Rightarrow> channel \<Rightarrow> (ctl_error + payload) \<times> channel" where
  "ctl_call op payload c =
     (let c1 = c\<lparr>ch_calls := Suc (ch_calls c)\<rparr>;
          (response, m') = handle_request (ch_env c) (Some (JObj ((''op'', JStr op) # payload))) (ch_machine c);
          c2 = c1\<lparr>ch_machine := m'\<rparr>
      in case ch_fate c (ch_calls c) of
           Lost_Request e \<Rightarrow> (Inl (unreachable e), c1)
         | Lost_Reply e \<Rightarrow> (Inl (unreachable e), c2)
         | Empty_Reply \<Rightarrow>
             (Inl (PostfixControlError ''Postfix control surface closed the connection with no response''), c2)
         | Garbled raw \<Rightarrow>
             (Inl (PostfixControlError (''Postfix control surface returned invalid JSON: '' @ py_repr raw)), c2)
         | Delivered \<Rightarrow>
             if truthy (jget ''ok'' response) then (Inr response, c2)
             else (Inl (PostfixControlError (case map_of response ''error'' of
                     Some (JStr e) \<Rightarrow> e | _ \<Rightarrow> ''unknown control-surface error'')), c2))"

section \<open>The operations\<close>

definition reading :: "(payload \<Rightarrow> 'a) \<Rightarrow> (ctl_error + payload) \<times> channel \<Rightarrow> (ctl_error + 'a) \<times> channel" where
  "reading f r = (case r of (Inl e, c) \<Rightarrow> (Inl e, c) | (Inr response, c) \<Rightarrow> (Inr (f response), c))"

definition jbool :: "pystr \<Rightarrow> payload \<Rightarrow> bool" where
  "jbool k response = truthy (jget k response)"

definition jstr :: "pystr \<Rightarrow> payload \<Rightarrow> pystr" where
  "jstr k response = (case jget k response of JStr s \<Rightarrow> s | _ \<Rightarrow> [])"

definition jlist :: "pystr \<Rightarrow> payload \<Rightarrow> json list" where
  "jlist k response = (case jget k response of JList l \<Rightarrow> l | _ \<Rightarrow> [])"

definition jint :: "pystr \<Rightarrow> payload \<Rightarrow> int" where
  "jint k response = (case jget k response of JInt n \<Rightarrow> n | _ \<Rightarrow> 0)"

definition strings :: "json list \<Rightarrow> pystr list" where
  "strings l = List.map_filter (\<lambda>j. case j of JStr s \<Rightarrow> Some s | _ \<Rightarrow> None) l"

definition ctl_sasl_set_user :: "pystr \<Rightarrow> pystr \<Rightarrow> channel \<Rightarrow> (ctl_error + unit) \<times> channel" where
  "ctl_sasl_set_user username password c =
     reading (\<lambda>_. ()) (ctl_call ''sasl_set_user'' [(''username'', JStr username), (''password'', JStr password)] c)"

definition ctl_sasl_delete_user :: "pystr \<Rightarrow> channel \<Rightarrow> (ctl_error + unit) \<times> channel" where
  "ctl_sasl_delete_user username c =
     reading (\<lambda>_. ()) (ctl_call ''sasl_delete_user'' [(''username'', JStr username)] c)"

definition ctl_sasl_list_users :: "channel \<Rightarrow> (ctl_error + pystr list) \<times> channel" where
  "ctl_sasl_list_users c = reading (\<lambda>r. strings (jlist ''usernames'' r)) (ctl_call ''sasl_list_users'' [] c)"

definition ctl_apply_config :: "apply_request \<Rightarrow> channel \<Rightarrow> (ctl_error + apply_result) \<times> channel" where
  "ctl_apply_config rq c =
     reading (\<lambda>r. \<lparr>ar_success = jbool ''success'' r, ar_detail = jstr ''validation_detail'' r,
                   ar_reloaded = jbool ''reloaded'' r\<rparr>)
       (ctl_call ''apply_config''
          [(''main_cf'', JStr (ap_main_cf rq)), (''master_cf'', JStr (ap_master_cf rq)),
           (''maps'', JObj (map (\<lambda>(n, t). (n, JStr t)) (ap_maps rq))),
           (''reload_if_main_changed'', JBool (ap_reload rq))] c)"

record install_result =
  ir_success :: bool
  ir_detail :: pystr
  ir_restarted :: bool

definition ctl_install_tls_certificate :: "pystr \<Rightarrow> pystr \<Rightarrow> channel \<Rightarrow> (ctl_error + install_result) \<times> channel" where
  "ctl_install_tls_certificate cert_pem key_pem c =
     reading (\<lambda>r. \<lparr>ir_success = jbool ''success'' r, ir_detail = jstr ''detail'' r, ir_restarted = jbool ''restarted'' r\<rparr>)
       (ctl_call ''install_tls_certificate'' [(''cert_pem'', JStr cert_pem), (''key_pem'', JStr key_pem)] c)"

record postfix_status =
  ps_running :: bool
  ps_detail :: pystr

definition ctl_status :: "channel \<Rightarrow> (ctl_error + postfix_status) \<times> channel" where
  "ctl_status c =
     reading (\<lambda>r. \<lparr>ps_running = jbool ''running'' r, ps_detail = jstr ''detail'' r\<rparr>) (ctl_call ''status'' [] c)"

record maillog_tail =
  mt_lines :: "pystr list"
  mt_new_offset :: int
  mt_truncated :: bool
  mt_inode :: "int option"

definition ctl_tail_maillog :: "int \<Rightarrow> int option \<Rightarrow> channel \<Rightarrow> (ctl_error + maillog_tail) \<times> channel" where
  "ctl_tail_maillog since_offset since_inode c =
     reading (\<lambda>r. \<lparr>mt_lines = strings (jlist ''lines'' r), mt_new_offset = jint ''new_offset'' r,
                   mt_truncated = jbool ''truncated'' r,
                   mt_inode = (case jget ''inode'' r of JInt i \<Rightarrow> Some i | _ \<Rightarrow> None)\<rparr>)
       (ctl_call ''tail_maillog''
          [(''since_offset'', JInt since_offset),
           (''since_inode'', case since_inode of None \<Rightarrow> JNull | Some i \<Rightarrow> JInt i)] c)"

definition ctl_version :: "channel \<Rightarrow> (ctl_error + pystr) \<times> channel" where
  "ctl_version c = reading (jstr ''version'') (ctl_call ''version'' [] c)"

definition ctl_queue_list :: "channel \<Rightarrow> (ctl_error + json list) \<times> channel" where
  "ctl_queue_list c = reading (jlist ''entries'') (ctl_call ''queue_list'' [] c)"

definition ctl_queue_requeue :: "pystr \<Rightarrow> channel \<Rightarrow> (ctl_error + unit) \<times> channel" where
  "ctl_queue_requeue queue_id c = reading (\<lambda>_. ()) (ctl_call ''queue_requeue'' [(''queue_id'', JStr queue_id)] c)"

definition ctl_queue_delete :: "pystr \<Rightarrow> channel \<Rightarrow> (ctl_error + unit) \<times> channel" where
  "ctl_queue_delete queue_id c = reading (\<lambda>_. ()) (ctl_call ''queue_delete'' [(''queue_id'', JStr queue_id)] c)"

text \<open>What the pipeline of \<open>Config_Generator\<close> uses of the control surface.\<close>

definition surface_rpc :: "channel config_rpc" where
  "surface_rpc = \<lparr>cr_status = (\<lambda>c. case ctl_status c of (Inl e, c') \<Rightarrow> (Inl e, c') | (Inr s, c') \<Rightarrow> (Inr (ps_running s), c')),
     cr_apply = ctl_apply_config\<rparr>"

section \<open>What a successful call means\<close>

lemma ctl_call_env [simp]: "ch_env (snd (ctl_call op payload c)) = ch_env c"
  by (auto simp: ctl_call_def Let_def split: prod.splits fate.splits)

lemma reading_env [simp]: "ch_env (snd (reading f r)) = ch_env (snd r)"
  by (auto simp: reading_def split: prod.splits sum.splits)

lemma ctl_call_Inr:
  assumes "ctl_call op payload c = (Inr response, c')"
  shows "handle_request (ch_env c) (Some (JObj ((''op'', JStr op) # payload))) (ch_machine c) = (response, ch_machine c')"
    and "truthy (jget ''ok'' response)"
  using assms by (auto simp: ctl_call_def Let_def split: prod.splits fate.splits if_splits)

lemma reading_Inr: "reading f r = (Inr x, c') \<longleftrightarrow> (\<exists>response. r = (Inr response, c') \<and> x = f response)"
  by (auto simp: reading_def split: prod.splits sum.splits)

lemma handle_request_op:
  assumes "handler_for E (JStr op) = Some h"
  shows "handle_request E (Some (JObj ((''op'', JStr op) # payload))) m =
    (case h ((''op'', JStr op) # payload) m of (Inl e, m') \<Rightarrow> (exn_response e, m') | (Inr r, m') \<Rightarrow> (r, m'))"
  using assms by (simp add: handle_request_def jget_def)

lemma exn_response_not_ok [simp]: "\<not> truthy (jget ''ok'' (exn_response e))"
  by (cases e) (simp_all add: exn_response_def response_error_def jget_def truthy_def)

lemma handled_Inr:
  assumes "handler_for E (JStr op) = Some h"
    and "handle_request E (Some (JObj ((''op'', JStr op) # payload))) m = (response, m')"
    and "truthy (jget ''ok'' response)"
  shows "h ((''op'', JStr op) # payload) m = (Inr response, m')"
  using assms(2,3) unfolding handle_request_op[OF assms(1)] by (auto split: prod.splits sum.splits)

lemma ctl_call_handled:
  assumes "handler_for (ch_env c) (JStr op) = Some h" "ctl_call op payload c = (Inr response, c')"
  shows "h ((''op'', JStr op) # payload) (ch_machine c) = (Inr response, ch_machine c')"
  by (rule handled_Inr[OF assms(1) ctl_call_Inr[OF assms(2)]])

section \<open>From the database to the live maps\<close>

lemma require_map_entries_strs:
  "fst ` set maps \<subseteq> set MAP_NAMES \<Longrightarrow> require_map_entries (map (\<lambda>(n, t). (n, JStr t)) maps) = Inr maps"
  by (induction maps) auto

definition returns :: "('a \<Rightarrow> bool) \<Rightarrow> 'a action \<Rightarrow> bool" where
  "returns Q a \<longleftrightarrow> (\<forall>m x m'. a m = (Inr x, m') \<longrightarrow> Q x)"

lemma returns_return: "Q x \<Longrightarrow> returns Q (return x)"
  by (simp add: returns_def return_def)

lemma returns_andthen: "(\<And>x. returns Q (f x)) \<Longrightarrow> returns Q (andthen a f)"
  unfolding returns_def andthen_Inr by blast

lemma returns_if: "returns Q a \<Longrightarrow> returns Q b \<Longrightarrow> returns Q (if c then a else b)"
  by simp

abbreviation is_apply_response :: "payload \<Rightarrow> bool" where
  "is_apply_response resp \<equiv> \<exists>b t r. resp = apply_response b t r"

lemma restart_response: "returns is_apply_response (restart_postfix run previous detail)"
  unfolding restart_postfix_def Let_def
  by (intro returns_andthen returns_if returns_return) blast+

lemma apply_config_response:
  assumes "apply_config run s1 s2 payload m = (Inr resp, m')"
  shows "is_apply_response resp"
proof -
  have outcome: "returns is_apply_response (case outcome of
             Inl text \<Rightarrow> return (apply_response False text False)
           | Inr previous \<Rightarrow>
               if jget ''reload_if_main_changed'' payload = JBool True
               then restart_postfix run previous detail
               else return (apply_response True detail False))" for outcome detail
    by (cases outcome) (auto intro!: returns_return restart_response)
  have "returns is_apply_response (apply_config run s1 s2 payload)"
    unfolding apply_config_def case_prod_unfold
    by (intro returns_andthen returns_if) (auto intro: returns_return outcome[unfolded case_prod_unfold])
  then show ?thesis using assms unfolding returns_def by blast
qed

lemma apply_response_ok: "jget ''ok'' (apply_response b t r) = JBool True"
  by (simp add: apply_response_def jget_def)

lemma apply_config_success:
  "apply_config run s1 s2 payload m = (Inr resp, m') \<Longrightarrow> truthy (jget ''success'' resp) \<Longrightarrow>
   jget ''success'' resp = JBool True"
  by (drule apply_config_response) (auto simp: truthy_def)

lemma ctl_apply_success:
  assumes "tools_local (sf_run (ch_env c))" "ctl_apply_config rq c = (Inr result, c')" "ar_success result"
    and "distinct (map fst (ap_maps rq))" "fst ` set (ap_maps rq) \<subseteq> set MAP_NAMES"
  shows "(name, content) \<in> set (ap_maps rq) \<Longrightarrow>
           m_files (ch_machine c') (RELAY_MAP_DIR, name) = Some (content, map_mode name)"
    and "map_option fst (m_files (ch_machine c') (POSTFIX_CONFIG_DIR, ''main.cf'')) = Some (ap_main_cf rq)"
    and "map_option fst (m_files (ch_machine c') (POSTFIX_CONFIG_DIR, ''master.cf'')) = Some (ap_master_cf rq)"
proof -
  let ?E = "ch_env c"
  let ?payload = "[(''main_cf'', JStr (ap_main_cf rq)), (''master_cf'', JStr (ap_master_cf rq)),
           (''maps'', JObj (map (\<lambda>(n, t). (n, JStr t)) (ap_maps rq))),
           (''reload_if_main_changed'', JBool (ap_reload rq))]"
  obtain response where call: "ctl_call ''apply_config'' ?payload c = (Inr response, c')"
    and success: "truthy (jget ''success'' response)"
    using assms(2,3) by (auto simp: ctl_apply_config_def reading_Inr jbool_def)
  have h: "handler_for ?E (JStr ''apply_config'') = Some (apply_config (sf_run ?E) (sf_staging1 ?E) (sf_staging2 ?E))"
    by (simp add: handler_for_def)
  note applied = ctl_call_handled[OF h call]
  have maps: "require_maps ((''op'', JStr ''apply_config'') # ?payload) = Inr (ap_maps rq)"
    using require_map_entries_strs[OF assms(5)] by (simp add: require_maps_def jget_def)
  note s = successful_apply[OF assms(1) applied apply_config_success[OF applied success] maps assms(4)]
  show "(name, content) \<in> set (ap_maps rq) \<Longrightarrow>
           m_files (ch_machine c') (RELAY_MAP_DIR, name) = Some (content, map_mode name)"
    by (rule s(3))
  show "map_option fst (m_files (ch_machine c') (POSTFIX_CONFIG_DIR, ''main.cf'')) = Some (ap_main_cf rq)"
    and "map_option fst (m_files (ch_machine c') (POSTFIX_CONFIG_DIR, ''master.cf'')) = Some (ap_master_cf rq)"
    using s(1,2) by (simp_all add: jget_def)
qed

lemma build_maps_names:
  "build_maps decrypt d = Inr (maps, warnings) \<Longrightarrow>
   map fst maps = [''sender_login'', ''sender_relayhost'', ''sasl_passwd'', ''sender_transport'', ''tls_policy'']"
  by (auto simp: build_maps_def split: sum.splits)

text \<open>A successful generation leaves every generated map live.\<close>

lemma generation_installs:
  assumes "tools_local (sf_run (ch_env c))"
    and "generate_and_apply X surface_rpc new_id now who False d c = (Inr outcome, d', c')" "go_success outcome"
  shows "\<exists>maps warnings. build_maps (cx_decrypt X) d = Inr (maps, warnings) \<and>
     (\<forall>(name, content) \<in> set maps.
        m_files (ch_machine c') (RELAY_MAP_DIR, name) = Some (content, map_mode name)) \<and>
     map_option fst (m_files (ch_machine c') (POSTFIX_CONFIG_DIR, ''main.cf'')) = Some (fst (render_config X d)) \<and>
     map_option fst (m_files (ch_machine c') (POSTFIX_CONFIG_DIR, ''master.cf'')) = Some (snd (render_config X d))"
proof -
  obtain maps warnings where build: "build_maps (cx_decrypt X) d = Inr (maps, warnings)"
    using assms(2) by (auto simp: generate_and_apply_def split: sum.splits)
  obtain main_cf master_cf where files: "render_config X d = (main_cf, master_cf)" by (meson surj_pair)
  obtain reload c1 where reload: "needs_reload surface_rpc (config_checksum X main_cf master_cf) d c = (reload, c1)"
    by (meson surj_pair)
  have env: "ch_env c1 = ch_env c"
  proof -
    have "ch_env (snd (ctl_status c)) = ch_env c" by (simp add: ctl_status_def)
    then show ?thesis
      using reload by (auto simp: needs_reload_def surface_rpc_def split: if_splits option.splits prod.splits sum.splits)
  qed
  let ?rq = "\<lparr>ap_main_cf = main_cf, ap_master_cf = master_cf, ap_maps = maps, ap_reload = reload\<rparr>"
  obtain result where rpc: "ctl_apply_config ?rq c1 = (Inr result, c')" and success: "ar_success result"
    using assms(2,3) build files reload
    by (auto simp: generate_and_apply_def surface_rpc_def Let_def split: prod.splits sum.splits)
  have names: "distinct (map fst (ap_maps ?rq))" "fst ` set (ap_maps ?rq) \<subseteq> set MAP_NAMES"
    using build_maps_names[OF build] unfolding list.set_map[symmetric] by (simp_all add: MAP_NAMES_def)
  note installed = ctl_apply_success[OF assms(1)[folded env] rpc success names]
  show ?thesis
  proof (intro exI conjI)
    show "build_maps (cx_decrypt X) d = Inr (maps, warnings)" by (rule build)
    show "\<forall>(name, content) \<in> set maps. m_files (ch_machine c') (RELAY_MAP_DIR, name) = Some (content, map_mode name)"
      using installed(1) by auto
  qed (use installed(2,3) files in simp_all)
qed

section \<open>Authorization, end to end\<close>

lemma map_of_sort_key_fst: "distinct (map fst L) \<Longrightarrow> map_of (sort_key fst L) = map_of L"
  by (subst map_of_inject_set) (simp_all add: distinct_map inj_on_def)

lemma map_of_map_values: "map_of (map (\<lambda>(k, v). (k, f v)) L) x = map_option f (map_of L x)"
  by (induction L) auto

lemma username_ok_no_comma: "username_ok u \<Longrightarrow> CHR '','' \<notin> set u"
  by (auto simp: username_ok_def is_ascii_alnum_def is_ascii_alpha_def is_digit_def code_def split: list.splits)

text \<open>What Postfix reads from the login map: the owners of an address are separated by commas.\<close>

definition login_allows :: "bytes \<Rightarrow> pystr \<Rightarrow> pystr \<Rightarrow> bool" where
  "login_allows content username address \<longleftrightarrow>
     (case map_of (parse_map content) address of None \<Rightarrow> False
      | Some v \<Rightarrow> username \<in> set (split_on (CHR '','') v))"

lemma login_allows_iff:
  assumes "fields_safe decrypt d" "build_maps decrypt d = Inr (maps, warnings)"
    and names: "\<forall>u\<in>set (local_users d). username_ok (lu_username u)"
  shows "login_allows (the (map_of maps ''sender_login'')) username address \<longleftrightarrow> may_send d username address"
proof -
  have parsed: "map_of (parse_map (the (map_of maps ''sender_login''))) address =
      map_option (join '','') (map_of (sender_login_map d) address)"
    using maps_read_back[OF assms(1,2)] map_of_sort_key_fst[OF login_map_distinct]
    by (simp add: map_of_map_values)
  show ?thesis
  proof (cases "map_of (sender_login_map d) address")
    case None
    then show ?thesis using login_map_iff[of d address username] parsed by (simp add: login_allows_def)
  next
    case (Some us)
    have "CHR '','' \<notin> set u" if "u \<in> set us" for u
    proof -
      have "may_send d u address" using login_map_iff[of d address u] Some that by auto
      then show ?thesis using names username_ok_no_comma by (auto simp: may_send_def)
    qed
    moreover have "us \<noteq> []"
      using Some by (auto simp: login_map_lookup Let_def split: if_splits)
    ultimately have "split_on (CHR '','') (join '','' us) = us" by (simp add: split_on_join)
    then show ?thesis using login_map_iff[of d address username] parsed Some by (auto simp: login_allows_def)
  qed
qed


definition demo_channel :: channel where
  "demo_channel = \<lparr>ch_env = demo_env, ch_machine = demo_machine, ch_fate = (\<lambda>_. Delivered), ch_calls = 0\<rparr>"

definition demo_config :: config_ext where
  "demo_config = \<lparr>cx_decrypt = Inr, cx_sha256 = id, cx_render_main = ''main'', cx_render_master = (\<lambda>_. ''master'')\<rparr>"

lemma demo_apply_call:
  assumes "fst ` set maps \<subseteq> set MAP_NAMES"
  shows "\<exists>result c'. ctl_apply_config \<lparr>ap_main_cf = f1, ap_master_cf = f2, ap_maps = maps, ap_reload = r\<rparr> demo_channel =
    (Inr result, c') \<and> ar_success result"
proof -
  let ?p = "(''op'', JStr ''apply_config'') # [(''main_cf'', JStr f1), (''master_cf'', JStr f2),
           (''maps'', JObj (map (\<lambda>(n, t). (n, JStr t)) maps)), (''reload_if_main_changed'', JBool r)]"
  have "require_str ?p ''main_cf'' = Inr f1" "require_str ?p ''master_cf'' = Inr f2" "require_maps ?p = Inr maps"
    using require_map_entries_strs[OF assms] by (simp_all add: require_str_def require_maps_def jget_def)
  from healthy_apply[OF quiet_tools_succeed this, of "''/tmp/a''" "''/etc/postfix/relay/.staging-b''"] demo_healthy
  obtain resp m' where a: "apply_config quiet_tools ''/tmp/a'' ''/etc/postfix/relay/.staging-b'' ?p demo_machine = (Inr resp, m')"
    and s: "jget ''success'' resp = JBool True"
    unfolding succeeds_def by blast
  have ok: "truthy (jget ''ok'' resp)"
    using apply_config_response[OF a] by (auto simp: truthy_def apply_response_ok)
  show ?thesis
    using s ok a
    by (simp add: ctl_apply_config_def ctl_call_def demo_channel_def handle_request_def jget_def handler_for_def
        demo_env_def reading_def jbool_def truthy_def split_beta)
qed

lemma demo_generation:
  "\<exists>outcome d' c'. generate_and_apply demo_config surface_rpc 1 0 None False demo_mail_db demo_channel =
     (Inr outcome, d', c') \<and> go_success outcome"
proof -
  have names: "fst ` set demo_maps \<subseteq> set MAP_NAMES"
    unfolding list.set_map[symmetric] build_maps_names[OF demo_build] by (simp add: MAP_NAMES_def)
  obtain result c' where call: "ctl_apply_config \<lparr>ap_main_cf = ''main'', ap_master_cf = ''master'', ap_maps = demo_maps,
      ap_reload = True\<rparr> demo_channel = (Inr result, c')" and ok: "ar_success result"
    using demo_apply_call[OF names] by blast
  have "last_good_generation demo_mail_db = None"
    by (simp add: last_good_generation_def demo_mail_db_def grant_permission_def empty_db_def)
  then show ?thesis
    using call ok demo_build
    by (simp add: generate_and_apply_def demo_config_def render_config_def needs_reload_def surface_rpc_def Let_def)
qed


end
