(* ===== verification/Schemas.thy ===== *)
theory Schemas
  imports Models Control_Surface Config_Generator
begin

text \<open>
  The request bodies of \<open>schemas/common.py\<close>, \<open>schemas/local_user.py\<close>, \<open>schemas/sender.py\<close> and
  \<open>schemas/upstream.py\<close>, with the checks FastAPI makes before a route runs.  A field of a PATCH body is an
  option of an option: \<open>None\<close> when it was left out, \<open>Some None\<close> for an explicit null.  \<open>EmailStr\<close> is the
  parameter \<open>email_str\<close> (package \<open>email-validator\<close>): the normalized address, or \<open>None\<close> when invalid.
\<close>

section \<open>Common checks\<close>

definition no_control_characters :: "pystr \<Rightarrow> bool" where
  "no_control_characters v \<longleftrightarrow> \<not> (\<exists>c\<in>set v. code c < 32 \<or> code c = 127)"

definition no_surrounding_whitespace :: "pystr \<Rightarrow> bool" where
  "no_surrounding_whitespace v \<longleftrightarrow> v = strip v"

definition single_line_name :: "pystr \<Rightarrow> bool" where
  "single_line_name v \<longleftrightarrow> 1 \<le> length v \<and> length v \<le> 200 \<and> no_control_characters v"

definition upstream_password_ok :: "pystr \<Rightarrow> bool" where
  "upstream_password_ok v \<longleftrightarrow> 1 \<le> length v \<and> no_control_characters v \<and> no_surrounding_whitespace v"

text \<open>\<open>PartialUpdate\<close>: a field of \<open>NON_NULLABLE\<close> may be left out, not null.\<close>

definition not_nulled :: "'a option option \<Rightarrow> bool" where
  "not_nulled v \<longleftrightarrow> v \<noteq> Some None"

text \<open>A constraint on an optional field: checked when a value is given.\<close>

definition if_given :: "('a \<Rightarrow> bool) \<Rightarrow> 'a option option \<Rightarrow> bool" where
  "if_given P v \<longleftrightarrow> (case v of Some (Some x) \<Rightarrow> P x | _ \<Rightarrow> True)"

definition limit_ok :: "int option \<Rightarrow> bool" where
  "limit_ok l \<longleftrightarrow> (case l of None \<Rightarrow> True | Some n \<Rightarrow> n \<ge> 1)"

text \<open>The value of a field after \<open>data.get(key, current)\<close>.\<close>

definition given_or :: "'a \<Rightarrow> 'a option \<Rightarrow> 'a" where
  "given_or current v = (case v of None \<Rightarrow> current | Some x \<Rightarrow> x)"

section \<open>Local users\<close>

record local_user_create =
  lc_name :: pystr
  lc_username :: pystr
  lc_rate_limit_per_hour :: "int option"
  lc_rate_limit_burst :: "int option"

definition local_user_create_ok :: "local_user_create \<Rightarrow> bool" where
  "local_user_create_ok p \<longleftrightarrow> single_line_name (lc_name p) \<and> username_ok (lc_username p) \<and>
     limit_ok (lc_rate_limit_per_hour p) \<and> limit_ok (lc_rate_limit_burst p)"

record local_user_update =
  lp_name :: "pystr option option"
  lp_enabled :: "bool option option"
  lp_rate_limit_per_hour :: "int option option"
  lp_rate_limit_burst :: "int option option"

definition local_user_update_ok :: "local_user_update \<Rightarrow> bool" where
  "local_user_update_ok p \<longleftrightarrow> not_nulled (lp_name p) \<and> not_nulled (lp_enabled p) \<and>
     if_given single_line_name (lp_name p) \<and> if_given (\<lambda>n. n \<ge> 1) (lp_rate_limit_per_hour p) \<and>
     if_given (\<lambda>n. n \<ge> 1) (lp_rate_limit_burst p)"

section \<open>Senders\<close>

record sender_create =
  sc_address :: pystr
  sc_upstream_account_id :: int
  sc_enabled :: bool
  sc_description :: "pystr option"

record sender_update =
  sp_address :: "pystr option option"
  sp_upstream_account_id :: "int option option"
  sp_enabled :: "bool option option"
  sp_description :: "pystr option option"

text \<open>Parsing replaces the address by its normalized form.\<close>

definition parse_sender_create :: "(pystr \<Rightarrow> pystr option) \<Rightarrow> sender_create \<Rightarrow> sender_create option" where
  "parse_sender_create email_str p = map_option (\<lambda>a. p\<lparr>sc_address := a\<rparr>) (email_str (sc_address p))"

definition parse_sender_update :: "(pystr \<Rightarrow> pystr option) \<Rightarrow> sender_update \<Rightarrow> sender_update option" where
  "parse_sender_update email_str p =
     (if \<not> (not_nulled (sp_address p) \<and> not_nulled (sp_upstream_account_id p) \<and> not_nulled (sp_enabled p)) then None
      else (case sp_address p of
          Some (Some raw) \<Rightarrow> map_option (\<lambda>a. p\<lparr>sp_address := Some (Some a)\<rparr>) (email_str raw)
        | _ \<Rightarrow> Some p))"

section \<open>Upstream accounts\<close>

text \<open>\<open>_HOST_PATTERN\<close>: labels of 1 to 63 letters, digits and inner hyphens, separated by dots.\<close>

definition label_ok :: "pystr \<Rightarrow> bool" where
  "label_ok l \<longleftrightarrow> l \<noteq> [] \<and> length l \<le> 63 \<and> is_ascii_alnum (hd l) \<and> is_ascii_alnum (last l) \<and>
     (\<forall>c\<in>set l. is_ascii_alnum c \<or> c = CHR ''-'')"

definition host_ok :: "pystr \<Rightarrow> bool" where
  "host_ok h \<longleftrightarrow> (\<forall>l\<in>set (split_on (CHR ''.'') h). label_ok l)"

text \<open>
  \<open>_UPSTREAM_USERNAME_PATTERN\<close>; \<open>\s\<close> is the white space of the regular expressions pydantic uses (Unicode
  \<open>White_Space\<close>).
\<close>

definition pattern_space :: "char \<Rightarrow> bool" where
  "pattern_space c \<longleftrightarrow> code c \<in> {9, 10, 11, 12, 13, 32, 133, 160}"

definition upstream_username_ok :: "pystr \<Rightarrow> bool" where
  "upstream_username_ok u \<longleftrightarrow> 1 \<le> length u \<and> length u \<le> 320 \<and> (\<forall>c\<in>set u. \<not> pattern_space c \<and> c \<noteq> CHR '':'')"

definition port_ok :: "int \<Rightarrow> bool" where
  "port_ok p \<longleftrightarrow> p > 0 \<and> p \<le> 65535"

record upstream_account_create =
  uc_name :: pystr
  uc_host :: pystr
  uc_port :: int
  uc_tls_mode :: tls_mode
  uc_username :: pystr
  uc_password :: pystr
  uc_rate_limit_per_hour :: "int option"
  uc_tls_skip_verify :: bool

definition upstream_account_create_ok :: "upstream_account_create \<Rightarrow> bool" where
  "upstream_account_create_ok p \<longleftrightarrow> single_line_name (uc_name p) \<and> host_ok (uc_host p) \<and> port_ok (uc_port p) \<and>
     upstream_username_ok (uc_username p) \<and> upstream_password_ok (uc_password p) \<and> limit_ok (uc_rate_limit_per_hour p)"

record upstream_account_update =
  up_name :: "pystr option option"
  up_host :: "pystr option option"
  up_port :: "int option option"
  up_tls_mode :: "tls_mode option option"
  up_username :: "pystr option option"
  up_password :: "pystr option option"
  up_enabled :: "bool option option"
  up_rate_limit_per_hour :: "int option option"
  up_tls_skip_verify :: "bool option option"

definition upstream_account_update_ok :: "upstream_account_update \<Rightarrow> bool" where
  "upstream_account_update_ok p \<longleftrightarrow>
     not_nulled (up_name p) \<and> not_nulled (up_host p) \<and> not_nulled (up_port p) \<and> not_nulled (up_tls_mode p) \<and>
     not_nulled (up_username p) \<and> not_nulled (up_enabled p) \<and> not_nulled (up_tls_skip_verify p) \<and>
     if_given single_line_name (up_name p) \<and> if_given host_ok (up_host p) \<and> if_given port_ok (up_port p) \<and>
     if_given upstream_username_ok (up_username p) \<and> if_given upstream_password_ok (up_password p) \<and>
     if_given (\<lambda>n. n \<ge> 1) (up_rate_limit_per_hour p)"

text \<open>An empty password is refused; only a field that is left out, or null, keeps the old one.\<close>

lemma blank_password_refused: "\<not> upstream_account_update_ok (p\<lparr>up_password := Some (Some [])\<rparr>)"
  by (simp add: upstream_account_update_ok_def if_given_def upstream_password_ok_def)

section \<open>What the checks keep out of the map files\<close>

lemma not_nulled_cases: "not_nulled v \<Longrightarrow> v = None \<or> (\<exists>x. v = Some (Some x))"
  by (cases v) (auto simp: not_nulled_def)

lemma code_simps [simp]: "code (CHR ''.'') = 46" "code (CHR ''-'') = 45" "code (CHR ''_'') = 95" "code (CHR '':'') = 58"
  by (simp_all add: code_def)

lemma map_safeI: "(\<And>c. c \<in> set s \<Longrightarrow> code c \<noteq> 9 \<and> code c \<noteq> 10) \<Longrightarrow> map_safe s"
  by (force simp: map_safe_def tab_def lf_def code_def)

lemma alnum_code: "is_ascii_alnum c \<Longrightarrow> 48 \<le> code c \<and> code c \<le> 122"
  by (auto simp: is_ascii_alnum_def is_ascii_alpha_def is_digit_def)

lemma no_control_map_safe: "no_control_characters v \<Longrightarrow> map_safe v"
  by (rule map_safeI) (force simp: no_control_characters_def)

lemma username_chars: "username_ok u \<Longrightarrow> c \<in> set u \<Longrightarrow> 45 \<le> code c \<and> code c \<le> 122"
  by (cases u) (auto simp: username_ok_def dest!: alnum_code)

lemma username_map_safe: "username_ok u \<Longrightarrow> map_safe u"
  by (rule map_safeI) (force dest: username_chars)

lemma upstream_username_map_safe: "upstream_username_ok u \<Longrightarrow> map_safe u"
  by (rule map_safeI) (auto simp: upstream_username_ok_def pattern_space_def)

lemma split_on_chars: "x \<in> set s \<Longrightarrow> x \<noteq> c \<Longrightarrow> \<exists>l\<in>set (split_on c s). x \<in> set l"
proof (induction s)
  case (Cons y s)
  obtain l ls where l: "split_on c s = l # ls" by (cases "split_on c s") auto
  show ?case using Cons l by auto
qed simp

lemma host_chars:
  assumes "host_ok h" "c \<in> set h"
  shows "45 \<le> code c"
proof (cases "c = CHR ''.''")
  case False
  then obtain l where l: "l \<in> set (split_on (CHR ''.'') h)" "c \<in> set l"
    using split_on_chars[OF assms(2)] by blast
  then have "label_ok l" using assms(1) unfolding host_ok_def by blast
  then have "is_ascii_alnum c \<or> c = CHR ''-''" using l(2) unfolding label_ok_def by blast
  then show ?thesis using alnum_code[of c] by (elim disjE) simp_all
qed simp

lemma host_map_safe: "host_ok h \<Longrightarrow> map_safe h"
  by (rule map_safeI) (force dest: host_chars)

end
