(* ===== verification/Credential_Store.thy ===== *)
theory Credential_Store
  imports Postfix_Control Schemas
begin

text \<open>
  The contract of the live SMTP credentials: the application changes them only through the three
  \<open>sasl_*\<close> operations of \<open>core/postfix_control.py\<close>, and a failed call leaves open whether it took effect.
  The locale states the contract; the interpretation discharges it for the channel to the control
  surface, from what is documented of \<open>saslpasswd2\<close> and \<open>sasldblistusers2\<close> (the predicate
  \<open>sasl_tools\<close>, with the file format as the parameter \<open>users_in\<close>).
\<close>

section \<open>The contract\<close>

text \<open>The passwords the application generates are letters and digits.\<close>

definition alnum_password :: "pystr \<Rightarrow> bool" where
  "alnum_password p \<longleftrightarrow> p \<noteq> [] \<and> (\<forall>c\<in>set p. is_ascii_alnum c)"

locale credential_store =
  fixes store_set :: "pystr \<Rightarrow> pystr \<Rightarrow> 'w \<Rightarrow> (ctl_error + unit) \<times> 'w"
    and store_delete :: "pystr \<Rightarrow> 'w \<Rightarrow> (ctl_error + unit) \<times> 'w"
    and store_list :: "'w \<Rightarrow> (ctl_error + pystr list) \<times> 'w"
    and creds :: "'w \<Rightarrow> pystr \<rightharpoonup> pystr"
    and inv :: "'w \<Rightarrow> bool"
  assumes set_inv: "inv w \<Longrightarrow> alnum_password p \<Longrightarrow> inv (snd (store_set u p w))"
    and delete_inv: "inv w \<Longrightarrow> inv (snd (store_delete u w))"
    and list_inv: "inv w \<Longrightarrow> inv (snd (store_list w))"
    and set_ok: "inv w \<Longrightarrow> alnum_password p \<Longrightarrow> store_set u p w = (Inr x, w') \<Longrightarrow> creds w' = (creds w)(u \<mapsto> p)"
    and set_err: "inv w \<Longrightarrow> alnum_password p \<Longrightarrow> store_set u p w = (Inl e, w') \<Longrightarrow> creds w' = creds w \<or> creds w' = (creds w)(u \<mapsto> p)"
    and delete_ok: "inv w \<Longrightarrow> store_delete u w = (Inr x, w') \<Longrightarrow> creds w' = (creds w)(u := None)"
    and delete_err: "inv w \<Longrightarrow> store_delete u w = (Inl e, w') \<Longrightarrow>
      creds w' = creds w \<or> creds w' = (creds w)(u := None)"
    and list_ok: "inv w \<Longrightarrow> store_list w = (Inr us, w') \<Longrightarrow> set us = dom (creds w)"
    and list_creds: "inv w \<Longrightarrow> creds (snd (store_list w)) = creds w"
begin

lemma set_cases:
  "inv w \<Longrightarrow> alnum_password p \<Longrightarrow> store_set u p w = (r, w') \<Longrightarrow> creds w' = creds w \<or> creds w' = (creds w)(u \<mapsto> p)"
  by (cases r) (blast dest: set_ok set_err)+

lemma delete_cases:
  "inv w \<Longrightarrow> store_delete u w = (r, w') \<Longrightarrow> creds w' = creds w \<or> creds w' = (creds w)(u := None)"
  by (cases r) (blast dest: delete_ok delete_err)+

lemma set_other: "inv w \<Longrightarrow> alnum_password p \<Longrightarrow> store_set u p w = (r, w') \<Longrightarrow> v \<noteq> u \<Longrightarrow> creds w' v = creds w v"
  by (drule (2) set_cases) auto

lemma delete_other: "inv w \<Longrightarrow> store_delete u w = (r, w') \<Longrightarrow> v \<noteq> u \<Longrightarrow> creds w' v = creds w v"
  by (drule (1) delete_cases) auto

lemma delete_shrinks: "inv w \<Longrightarrow> store_delete u w = (r, w') \<Longrightarrow> dom (creds w') \<subseteq> dom (creds w)"
  by (drule (1) delete_cases) (auto split: if_splits)

end

section \<open>The credentials on the machine\<close>

definition machine_creds :: "(bytes \<Rightarrow> pystr \<rightharpoonup> pystr) \<Rightarrow> machine \<Rightarrow> pystr \<rightharpoonup> pystr" where
  "machine_creds users_in m = (case m_files m SASLDB of None \<Rightarrow> Map.empty | Some (content, _) \<Rightarrow> users_in content)"

definition exited_0 :: "exn + completed \<Rightarrow> bool" where
  "exited_0 r \<longleftrightarrow> (case r of Inl _ \<Rightarrow> False | Inr c \<Rightarrow> cp_returncode c = 0)"

definition listing_line :: "pystr \<Rightarrow> pystr" where
  "listing_line u = u @ ''@'' @ SASL_REALM @ '': userPassword''"

text \<open>
  \<open>saslpasswd2 -c\<close> sets the password read from its input, \<open>-d\<close> deletes the user, \<open>sasldblistusers2\<close>
  prints one line per user and changes nothing; exit status 0 says it was done, any other outcome
  leaves open whether it was.
\<close>

definition usernames_ok :: "(pystr \<rightharpoonup> pystr) \<Rightarrow> bool" where
  "usernames_ok C \<longleftrightarrow> (\<forall>u\<in>dom C. username_ok u)"

definition sets_passwords :: "(bytes \<Rightarrow> pystr \<rightharpoonup> pystr) \<Rightarrow> runner \<Rightarrow> bool" where
  "sets_passwords users_in run \<longleftrightarrow>
     (\<forall>u p m r m'. username_ok u \<and> alnum_password p \<and>
        run [''saslpasswd2'', ''-c'', ''-p'', ''-u'', SASL_REALM, u] (Some p) m = (r, m') \<longrightarrow>
        machine_creds users_in m' = (machine_creds users_in m)(u \<mapsto> p) \<or>
        (machine_creds users_in m' = machine_creds users_in m \<and> \<not> exited_0 r))"

definition deletes_users :: "(bytes \<Rightarrow> pystr \<rightharpoonup> pystr) \<Rightarrow> runner \<Rightarrow> bool" where
  "deletes_users users_in run \<longleftrightarrow>
     (\<forall>u m r m'. username_ok u \<and> run [''saslpasswd2'', ''-d'', ''-u'', SASL_REALM, u] None m = (r, m') \<longrightarrow>
        machine_creds users_in m' = (machine_creds users_in m)(u := None) \<or>
        (machine_creds users_in m' = machine_creds users_in m \<and> \<not> exited_0 r))"

definition lists_users :: "(bytes \<Rightarrow> pystr \<rightharpoonup> pystr) \<Rightarrow> runner \<Rightarrow> bool" where
  "lists_users users_in run \<longleftrightarrow>
     (\<forall>m r m'. usernames_ok (machine_creds users_in m) \<and> run [''sasldblistusers2''] None m = (r, m') \<longrightarrow>
        machine_creds users_in m' = machine_creds users_in m \<and>
        (\<forall>c. r = Inr c \<and> cp_returncode c = 0 \<longrightarrow>
           set (splitlines (cp_stdout c)) = listing_line ` dom (machine_creds users_in m)))"

definition sasl_tools :: "(bytes \<Rightarrow> pystr \<rightharpoonup> pystr) \<Rightarrow> runner \<Rightarrow> bool" where
  "sasl_tools users_in run \<longleftrightarrow> sets_passwords users_in run \<and> deletes_users users_in run \<and> lists_users users_in run"

definition live_creds :: "(bytes \<Rightarrow> pystr \<rightharpoonup> pystr) \<Rightarrow> channel \<Rightarrow> pystr \<rightharpoonup> pystr" where
  "live_creds users_in c = machine_creds users_in (ch_machine c)"

definition store_ok :: "(bytes \<Rightarrow> pystr \<rightharpoonup> pystr) \<Rightarrow> channel \<Rightarrow> bool" where
  "store_ok users_in c \<longleftrightarrow> sasl_tools users_in (sf_run (ch_env c)) \<and> usernames_ok (live_creds users_in c)"

section \<open>What the handlers do to them\<close>

lemma username_no_at: "username_ok u \<Longrightarrow> CHR ''@'' \<notin> set u"
  by (auto simp: username_ok_def is_ascii_alnum_def is_ascii_alpha_def is_digit_def code_def split: list.splits)

lemma prefix_at: "CHR ''@'' \<notin> set u \<Longrightarrow> CHR ''@'' \<notin> set v \<Longrightarrow> prefix (u @ CHR ''@'' # x) (v @ CHR ''@'' # y) \<Longrightarrow> u = v"
proof (induction u arbitrary: v)
  case Nil
  then show ?case by (cases v) auto
next
  case (Cons c u)
  then show ?case by (cases v) auto
qed

lemma listing_line_user:
  "username_ok u \<Longrightarrow> username_ok v \<Longrightarrow> prefix (u @ ''@'' @ SASL_REALM @ '':'') (listing_line v) \<longleftrightarrow> u = v"
  using prefix_at[of u v] by (auto simp: listing_line_def username_no_at SASL_REALM_def)

lemma before_first_at: "CHR ''@'' \<notin> set u \<Longrightarrow> before_first (CHR ''@'' # x) (u @ CHR ''@'' # x @ y) = Some u"
  by (induction u) auto

lemma before_first_listing: "username_ok u \<Longrightarrow> before_first (''@'' @ SASL_REALM @ '':'') (listing_line u) = Some u"
  using before_first_at[of u "SASL_REALM @ '':''"] by (simp add: listing_line_def username_no_at)

lemma sync_creds: "machine_creds users_in (snd (sync_sasldb_to_volume m)) = machine_creds users_in m"
  by (auto simp: sync_sasldb_to_volume_def machine_creds_def andthen_def open_trunc_def write_content_def syscall_def
      SASLDB_def SASLDB_COPY_def split: option.splits prod.splits sum.splits)

lemma sync_or_error_creds: "machine_creds users_in (snd (sync_or_error what m)) = machine_creds users_in m"
  using sync_creds[of users_in m] by (auto simp: sync_or_error_def split: prod.splits sum.splits exn.splits)

lemma require_username_ok: "require_username payload = Inr u \<Longrightarrow> username_ok u"
  by (auto simp: require_username_def split: sum.splits if_splits)

lemma andthen_cases:
  assumes "andthen a f m = (r, m')"
  obtains (raised) e where "a m = (Inl e, m')" "r = Inl e"
  | (went_on) x m1 where "a m = (Inr x, m1)" "f x m1 = (r, m')"
  using assms by (auto simp: andthen_def split: prod.splits sum.splits)

lemma check_pair [simp]: "check r m = (r', m') \<longleftrightarrow> r' = r \<and> m' = m"
  by (auto simp: check_def)

lemma return_pair [simp]: "return x m = (r, m') \<longleftrightarrow> r = Inr x \<and> m' = m"
  by (auto simp: return_def)

lemma response_error_not_ok [simp]: "\<not> truthy (jget ''ok'' (response_error e))"
  by (simp add: response_error_def jget_def truthy_def)

lemma sasl_set_user_creds:
  assumes "sets_passwords users_in run" "require_username payload = Inr u" "require_str payload ''password'' = Inr p"
    and "alnum_password p" "sasl_set_user run payload m = (r, m')"
  shows "machine_creds users_in m' = (machine_creds users_in m)(u \<mapsto> p) \<or>
    (machine_creds users_in m' = machine_creds users_in m \<and> (\<forall>resp. r = Inr resp \<longrightarrow> \<not> truthy (jget ''ok'' resp)))"
proof -
  obtain ran m1 where ran: "run [''saslpasswd2'', ''-c'', ''-p'', ''-u'', SASL_REALM, u] (Some p) m = (ran, m1)"
    by fastforce
  have set: "machine_creds users_in m1 = (machine_creds users_in m)(u \<mapsto> p) \<or>
        (machine_creds users_in m1 = machine_creds users_in m \<and> \<not> exited_0 ran)"
    using assms(1,4) require_username_ok[OF assms(2)] ran unfolding sets_passwords_def by blast
  show ?thesis
  proof (cases ran)
    case (Inl e)
    then show ?thesis using assms(2,3,5) ran set by (auto simp: sasl_set_user_def andthen_def check_def)
  next
    case (Inr c)
    then show ?thesis
      using assms(2,3,5) ran set sync_or_error_creds[of users_in "''saslpasswd2''" m1]
      by (auto simp: sasl_set_user_def andthen_def check_def exited_0_def split: if_splits)
  qed
qed

lemma sasl_user_exists_creds:
  assumes "lists_users users_in run" "usernames_ok (machine_creds users_in m)" "username_ok u"
    and "sasl_user_exists run u m = (r, m')"
  shows "machine_creds users_in m' = machine_creds users_in m"
    and "r = Inr False \<Longrightarrow> u \<notin> dom (machine_creds users_in m)"
proof -
  obtain ran m1 where ran: "run [''sasldblistusers2''] None m = (ran, m1)" by fastforce
  have list: "machine_creds users_in m1 = machine_creds users_in m"
    "ran = Inr c \<Longrightarrow> cp_returncode c = 0 \<Longrightarrow>
       set (splitlines (cp_stdout c)) = listing_line ` dom (machine_creds users_in m)" for c
    using assms(1,2) ran unfolding lists_users_def by blast+
  show "machine_creds users_in m' = machine_creds users_in m"
    using assms(4) ran list(1) by (auto simp: sasl_user_exists_def andthen_def split: sum.splits if_splits)
  show "u \<notin> dom (machine_creds users_in m)" if r: "r = Inr False"
  proof
    assume mem: "u \<in> dom (machine_creds users_in m)"
    obtain c where c: "ran = Inr c" "cp_returncode c = 0"
      "\<not> (\<exists>line\<in>set (splitlines (cp_stdout c)). prefix (u @ ''@'' @ SASL_REALM @ '':'') line)"
      using assms(4)[unfolded r] ran by (auto simp: sasl_user_exists_def andthen_def split: sum.splits if_splits)
    have "listing_line u \<in> set (splitlines (cp_stdout c))" using list(2)[OF c(1,2)] mem by simp
    then show False using c(3) listing_line_user[OF assms(3,3)] by blast
  qed
qed

lemma sasl_delete_user_creds:
  assumes "sasl_tools users_in run" "usernames_ok (machine_creds users_in m)"
    and "require_username payload = Inr u" "sasl_delete_user run payload m = (r, m')"
  shows "machine_creds users_in m' = (machine_creds users_in m)(u := None) \<or>
    (machine_creds users_in m' = machine_creds users_in m \<and> (\<forall>resp. r = Inr resp \<longrightarrow> \<not> truthy (jget ''ok'' resp)))"
proof -
  have tools: "deletes_users users_in run" "lists_users users_in run" and u: "username_ok u"
    using assms(1) require_username_ok[OF assms(3)] by (simp_all add: sasl_tools_def)
  obtain x m1 where ex: "sasl_user_exists run u m = (x, m1)" by fastforce
  note exists = sasl_user_exists_creds[OF tools(2) assms(2) u ex]
  show ?thesis
  proof (cases x)
    case (Inl e)
    then show ?thesis using assms(3,4) ex exists(1) by (auto simp: sasl_delete_user_def andthen_def check_def)
  next
    case (Inr b)
    show ?thesis
    proof (cases b)
      case False
      then have "m' = snd (sync_or_error ''saslpasswd2 -d'' m1)"
        using assms(3,4) ex Inr by (simp add: sasl_delete_user_def andthen_def check_def)
      then have "machine_creds users_in m' = machine_creds users_in m"
        using exists(1) by (simp add: sync_or_error_creds)
      then show ?thesis using exists(2) False Inr by (auto simp: fun_eq_iff domIff)
    next
      case True
      obtain ran m2 where ran: "run [''saslpasswd2'', ''-d'', ''-u'', SASL_REALM, u] None m1 = (ran, m2)"
        by fastforce
      have del: "machine_creds users_in m2 = (machine_creds users_in m)(u := None) \<or>
          (machine_creds users_in m2 = machine_creds users_in m \<and> \<not> exited_0 ran)"
        using tools(1) u ran exists(1) unfolding deletes_users_def by metis
      show ?thesis
      proof (cases ran)
        case (Inl e)
        then show ?thesis
          using assms(3,4) ex Inr True ran del by (auto simp: sasl_delete_user_def andthen_def check_def)
      next
        case (Inr c)
        then show ?thesis
          using assms(3,4) ex \<open>x = Inr b\<close> True ran del sync_or_error_creds[of users_in "''saslpasswd2 -d''" m2]
          by (auto simp: sasl_delete_user_def andthen_def check_def exited_0_def split: if_splits)
      qed
    qed
  qed
qed

lemma set_map_filter: "set (List.map_filter f xs) = {y. \<exists>x\<in>set xs. f x = Some y}"
  by (induction xs) (auto simp: map_filter_simps split: option.splits)

lemma sasl_list_users_creds:
  assumes "lists_users users_in run" "usernames_ok (machine_creds users_in m)"
    and "sasl_list_users run payload m = (r, m')"
  shows "machine_creds users_in m' = machine_creds users_in m"
    and "r = Inr resp \<Longrightarrow> truthy (jget ''ok'' resp) \<Longrightarrow>
      set (strings (jlist ''usernames'' resp)) = dom (machine_creds users_in m)"
proof -
  obtain ran m1 where ran: "run [''sasldblistusers2''] None m = (ran, m1)" by fastforce
  have list: "machine_creds users_in m1 = machine_creds users_in m"
    "ran = Inr c \<Longrightarrow> cp_returncode c = 0 \<Longrightarrow>
       set (splitlines (cp_stdout c)) = listing_line ` dom (machine_creds users_in m)" for c
    using assms(1,2) ran unfolding lists_users_def by blast+
  show "machine_creds users_in m' = machine_creds users_in m"
    using assms(3) ran list(1) by (auto simp: sasl_list_users_def andthen_def split: sum.splits if_splits)
  show "set (strings (jlist ''usernames'' resp)) = dom (machine_creds users_in m)"
    if r: "r = Inr resp" and ok: "truthy (jget ''ok'' resp)"
  proof -
    obtain c where c: "ran = Inr c" "cp_returncode c = 0" and resp: "resp = [(''ok'', JBool True),
        (''usernames'', JList (map JStr (remdups_adj (sort
           (List.map_filter (before_first (''@'' @ SASL_REALM @ '':'')) (splitlines (cp_stdout c)))))))]"
      using assms(3) ran r ok by (auto simp: sasl_list_users_def andthen_def split: sum.splits if_splits)
    have "strings (map JStr us) = us" for us
      by (induction us) (simp_all add: strings_def map_filter_simps)
    then have "set (strings (jlist ''usernames'' resp)) =
        {u. \<exists>line\<in>set (splitlines (cp_stdout c)). before_first (''@'' @ SASL_REALM @ '':'') line = Some u}"
      by (simp add: resp jlist_def jget_def set_map_filter)
    also have "\<dots> = {u. \<exists>v\<in>dom (machine_creds users_in m). before_first (''@'' @ SASL_REALM @ '':'') (listing_line v) = Some u}"
      using list(2)[OF c] by simp
    also have "\<dots> = dom (machine_creds users_in m)"
      using assms(2) before_first_listing unfolding usernames_ok_def by auto
    finally show ?thesis .
  qed
qed

section \<open>The channel is such a store\<close>

lemma ctl_call_machine:
  assumes "handler_for (ch_env c) (JStr op) = Some h" "ctl_call op payload c = (r, c')"
    and "h ((''op'', JStr op) # payload) (ch_machine c) = (ans, m')"
  shows "ch_machine c' = m' \<or> (ch_machine c' = ch_machine c \<and> (\<exists>e. r = Inl e))"
    and "r = Inr resp \<Longrightarrow> ans = Inr resp \<and> truthy (jget ''ok'' resp) \<and> ch_machine c' = m'"
  using assms(2,3) unfolding ctl_call_def Let_def handle_request_op[OF assms(1)]
  by (auto split: prod.splits fate.splits if_splits sum.splits)

lemma ctl_call_env': "ctl_call op payload c = (r, c') \<Longrightarrow> ch_env c' = ch_env c"
  by (metis ctl_call_env snd_conv)

lemma reading_cases:
  assumes "reading f call = (r, c')"
  obtains (err) e where "call = (Inl e, c')" "r = Inl e" | (ok) resp where "call = (Inr resp, c')" "r = Inr (f resp)"
  using assms by (cases call; cases "fst call") (auto simp: reading_def)

lemma store_okD:
  assumes "store_ok users_in c"
  shows "sasl_tools users_in (sf_run (ch_env c))" "sets_passwords users_in (sf_run (ch_env c))"
    "lists_users users_in (sf_run (ch_env c))" "usernames_ok (machine_creds users_in (ch_machine c))"
  using assms by (simp_all add: store_ok_def sasl_tools_def live_creds_def)

lemma ctl_set_user:
  assumes ok: "store_ok users_in c" and good: "alnum_password p" and call: "ctl_sasl_set_user u p c = (r, c')"
  shows "live_creds users_in c' = (live_creds users_in c)(u \<mapsto> p) \<and> username_ok u \<or>
    (live_creds users_in c' = live_creds users_in c \<and> (\<exists>e. r = Inl e))"
    and "ch_env c' = ch_env c"
proof -
  let ?p = "[(''username'', JStr u), (''password'', JStr p)]"
  let ?h = "sasl_set_user (sf_run (ch_env c))"
  have h: "handler_for (ch_env c) (JStr ''sasl_set_user'') = Some ?h" by (simp add: handler_for_def)
  obtain ans m' where a: "?h ((''op'', JStr ''sasl_set_user'') # ?p) (ch_machine c) = (ans, m')" by fastforce
  obtain r0 where c0: "ctl_call ''sasl_set_user'' ?p c = (r0, c')" and r: "r = Inl e \<longleftrightarrow> r0 = Inl e" for e
    using call unfolding ctl_sasl_set_user_def by (cases rule: reading_cases) auto
  show "ch_env c' = ch_env c" by (rule ctl_call_env'[OF c0])
  note machine = ctl_call_machine[OF h c0 a]
  have str: "require_str ((''op'', JStr ''sasl_set_user'') # ?p) ''username'' = Inr u"
    "require_str ((''op'', JStr ''sasl_set_user'') # ?p) ''password'' = Inr p"
    by (simp_all add: require_str_def jget_def)
  show "live_creds users_in c' = (live_creds users_in c)(u \<mapsto> p) \<and> username_ok u \<or>
    (live_creds users_in c' = live_creds users_in c \<and> (\<exists>e. r = Inl e))"
  proof (cases "username_ok u")
    case True
    then have "require_username ((''op'', JStr ''sasl_set_user'') # ?p) = Inr u"
      by (simp add: require_username_def str(1))
    note creds = sasl_set_user_creds[OF store_okD(2)[OF ok] this str(2) good a]
    show ?thesis
    proof (cases r0)
      case (Inl e)
      then show ?thesis using creds machine(1) r True by (auto simp: live_creds_def)
    next
      case (Inr resp)
      then show ?thesis using creds machine(2)[OF Inr] True by (auto simp: live_creds_def)
    qed
  next
    case False
    then have "require_username ((''op'', JStr ''sasl_set_user'') # ?p) = Inl (InvalidRequest ''invalid username'')"
      by (simp add: require_username_def str(1))
    then have "ans = Inl (InvalidRequest ''invalid username'')" "m' = ch_machine c"
      using a by (simp_all add: sasl_set_user_def andthen_def check_def)
    then show ?thesis using machine r by (cases r0) (auto simp: live_creds_def)
  qed
qed

lemma ctl_delete_user:
  assumes ok: "store_ok users_in c" and call: "ctl_sasl_delete_user u c = (r, c')"
  shows "live_creds users_in c' = (live_creds users_in c)(u := None) \<or>
    (live_creds users_in c' = live_creds users_in c \<and> (\<exists>e. r = Inl e))"
    and "ch_env c' = ch_env c"
proof -
  let ?p = "[(''username'', JStr u)]"
  let ?h = "sasl_delete_user (sf_run (ch_env c))"
  have h: "handler_for (ch_env c) (JStr ''sasl_delete_user'') = Some ?h" by (simp add: handler_for_def)
  obtain ans m' where a: "?h ((''op'', JStr ''sasl_delete_user'') # ?p) (ch_machine c) = (ans, m')" by fastforce
  obtain r0 where c0: "ctl_call ''sasl_delete_user'' ?p c = (r0, c')" and r: "r = Inl e \<longleftrightarrow> r0 = Inl e" for e
    using call unfolding ctl_sasl_delete_user_def by (cases rule: reading_cases) auto
  show "ch_env c' = ch_env c" by (rule ctl_call_env'[OF c0])
  note machine = ctl_call_machine[OF h c0 a]
  have str: "require_str ((''op'', JStr ''sasl_delete_user'') # ?p) ''username'' = Inr u"
    by (simp add: require_str_def jget_def)
  show "live_creds users_in c' = (live_creds users_in c)(u := None) \<or>
    (live_creds users_in c' = live_creds users_in c \<and> (\<exists>e. r = Inl e))"
  proof (cases "username_ok u")
    case True
    then have "require_username ((''op'', JStr ''sasl_delete_user'') # ?p) = Inr u"
      by (simp add: require_username_def str)
    note creds = sasl_delete_user_creds[OF store_okD(1,4)[OF ok] this a]
    show ?thesis
    proof (cases r0)
      case (Inl e)
      then show ?thesis using creds machine(1) r by (auto simp: live_creds_def)
    next
      case (Inr resp)
      then show ?thesis using creds machine(2)[OF Inr] by (auto simp: live_creds_def)
    qed
  next
    case False
    then have "require_username ((''op'', JStr ''sasl_delete_user'') # ?p) = Inl (InvalidRequest ''invalid username'')"
      by (simp add: require_username_def str)
    then have "ans = Inl (InvalidRequest ''invalid username'')" "m' = ch_machine c"
      using a by (simp_all add: sasl_delete_user_def andthen_def check_def)
    then show ?thesis using machine r by (cases r0) (auto simp: live_creds_def)
  qed
qed

lemma ctl_list_users:
  assumes ok: "store_ok users_in c" and call: "ctl_sasl_list_users c = (r, c')"
  shows "live_creds users_in c' = live_creds users_in c" and "ch_env c' = ch_env c"
    and "r = Inr us \<Longrightarrow> set us = dom (live_creds users_in c)"
proof -
  let ?h = "sasl_list_users (sf_run (ch_env c))"
  have h: "handler_for (ch_env c) (JStr ''sasl_list_users'') = Some ?h" by (simp add: handler_for_def)
  obtain ans m' where a: "?h [(''op'', JStr ''sasl_list_users'')] (ch_machine c) = (ans, m')" by fastforce
  obtain r0 where c0: "ctl_call ''sasl_list_users'' [] c = (r0, c')"
    and r: "r = Inr us \<Longrightarrow> \<exists>resp. r0 = Inr resp \<and> us = strings (jlist ''usernames'' resp)" for us
    using call unfolding ctl_sasl_list_users_def by (cases rule: reading_cases) auto
  show "ch_env c' = ch_env c" by (rule ctl_call_env'[OF c0])
  note machine = ctl_call_machine[OF h c0 a]
  note creds = sasl_list_users_creds[OF store_okD(3,4)[OF ok] a]
  show "live_creds users_in c' = live_creds users_in c"
    using machine(1) creds(1) by (auto simp: live_creds_def)
  show "set us = dom (live_creds users_in c)" if "r = Inr us"
    using r[OF that] machine(2) creds(2) by (auto simp: live_creds_def)
qed

interpretation surface_store: credential_store ctl_sasl_set_user ctl_sasl_delete_user ctl_sasl_list_users
  "live_creds users_in" "store_ok users_in" for users_in
proof (unfold_locales, goal_cases)
  case (1 w p u)
  obtain r c' where c: "ctl_sasl_set_user u p w = (r, c')" by fastforce
  show ?case using ctl_set_user[OF 1 c] 1 c by (auto simp: store_ok_def usernames_ok_def split: if_splits)
next
  case (2 w u)
  obtain r c' where c: "ctl_sasl_delete_user u w = (r, c')" by fastforce
  show ?case using ctl_delete_user[OF 2 c] 2 c by (auto simp: store_ok_def usernames_ok_def split: if_splits)
next
  case (3 w)
  obtain r c' where c: "ctl_sasl_list_users w = (r, c')" by fastforce
  show ?case using ctl_list_users[OF 3 c] 3 c by (auto simp: store_ok_def)
next
  case (4 w p u x w')
  then show ?case using ctl_set_user(1)[OF 4] by simp
next
  case (5 w p u e w')
  then show ?case using ctl_set_user(1)[OF 5] by blast
next
  case (6 w u x w')
  then show ?case using ctl_delete_user(1)[OF 6] by simp
next
  case (7 w u e w')
  then show ?case using ctl_delete_user(1)[OF 7] by blast
next
  case (8 w us w')
  then show ?case using ctl_list_users(3)[OF 8] by simp
next
  case (9 w)
  obtain r c' where c: "ctl_sasl_list_users w = (r, c')" by fastforce
  show ?case using ctl_list_users(1)[OF 9 c] c by simp
qed

section \<open>Tools that satisfy the contract\<close>

text \<open>A database of lines \<open>user:password\<close>, and tools that keep it; the contract is satisfiable.\<close>

definition entry_line :: "pystr \<Rightarrow> pystr \<Rightarrow> pystr" where
  "entry_line u p = u @ CHR '':'' # p"

definition entry_of :: "pystr \<Rightarrow> pystr \<times> pystr" where
  "entry_of line = (takeWhile (\<lambda>c. c \<noteq> CHR '':'') line, drop 1 (dropWhile (\<lambda>c. c \<noteq> CHR '':'') line))"

definition entry_lines :: "bytes \<Rightarrow> pystr list" where
  "entry_lines content = filter (\<lambda>l. l \<noteq> []) (split_on lf content)"

definition demo_users_in :: "bytes \<Rightarrow> pystr \<rightharpoonup> pystr" where
  "demo_users_in content = map_of (map entry_of (entry_lines content))"

definition sasldb_content :: "machine \<Rightarrow> bytes" where
  "sasldb_content m = (case m_files m SASLDB of None \<Rightarrow> [] | Some (content, _) \<Rightarrow> content)"

definition set_sasldb :: "bytes \<Rightarrow> machine \<Rightarrow> machine" where
  "set_sasldb content m = m\<lparr>m_files := (m_files m)(SASLDB \<mapsto> (content, 384))\<rparr>"

definition demo_sasl_tools :: runner where
  "demo_sasl_tools argv inp m =
     (let exit0 = (\<lambda>out. Inr \<lparr>cp_returncode = 0, cp_stdout = out, cp_stderr = []\<rparr>)
      in if argv = [''sasldblistusers2''] then
           (exit0 (concat (map (\<lambda>l. listing_line (fst (entry_of l)) @ [lf]) (entry_lines (sasldb_content m)))), m)
         else if length argv = 6 \<and> take 5 argv = [''saslpasswd2'', ''-c'', ''-p'', ''-u'', SASL_REALM] then
           (exit0 [], set_sasldb (entry_line (last argv) (case inp of None \<Rightarrow> [] | Some p \<Rightarrow> p) @ lf # sasldb_content m) m)
         else if length argv = 5 \<and> take 4 argv = [''saslpasswd2'', ''-d'', ''-u'', SASL_REALM] then
           (exit0 [], set_sasldb (join [lf] (filter (\<lambda>l. fst (entry_of l) \<noteq> last argv) (entry_lines (sasldb_content m)))) m)
         else quiet_tools argv inp m)"

lemma machine_creds_content: "machine_creds demo_users_in m = demo_users_in (sasldb_content m)"
  by (auto simp: machine_creds_def sasldb_content_def demo_users_in_def entry_lines_def split: option.splits)

lemma set_sasldb_creds: "machine_creds demo_users_in (set_sasldb content m) = demo_users_in content"
  by (simp add: machine_creds_def set_sasldb_def)

lemma username_no_colon: "username_ok u \<Longrightarrow> CHR '':'' \<notin> set u"
  by (auto simp: username_ok_def is_ascii_alnum_def is_ascii_alpha_def is_digit_def code_def split: list.splits)

lemma username_no_lf: "username_ok u \<Longrightarrow> lf \<notin> set u"
  by (auto simp: username_ok_def is_ascii_alnum_def is_ascii_alpha_def is_digit_def code_def lf_def split: list.splits)

lemma entry_of_line: "CHR '':'' \<notin> set u \<Longrightarrow> entry_of (entry_line u p) = (u, p)"
  by (induction u) (auto simp: entry_of_def entry_line_def)

lemma demo_users_in_Cons:
  assumes "username_ok u" "lf \<notin> set p"
  shows "demo_users_in (entry_line u p @ lf # content) = (demo_users_in content)(u \<mapsto> p)"
proof -
  have "lf \<notin> set (entry_line u p)" using username_no_lf[OF assms(1)] assms(2) by (simp add: entry_line_def) (simp add: lf_def)
  then have "entry_lines (entry_line u p @ lf # content) = entry_line u p # entry_lines content"
    unfolding entry_lines_def by (simp add: split_on_app) (simp add: entry_line_def)
  then show ?thesis using entry_of_line[OF username_no_colon[OF assms(1)]] by (simp add: demo_users_in_def)
qed

lemma split_on_no_member: "l \<in> set (split_on c s) \<Longrightarrow> c \<notin> set l"
proof (induction s arbitrary: l)
  case (Cons x s)
  obtain y ys where y: "split_on c s = y # ys" by (cases "split_on c s") auto
  then show ?case using Cons by (auto split: if_splits)
qed simp

lemma demo_users_in_join:
  assumes "set lines \<subseteq> set (entry_lines content)"
  shows "demo_users_in (join [lf] lines) = map_of (map entry_of lines)"
proof -
  have no: "x \<in> set lines \<Longrightarrow> lf \<notin> set x \<and> x \<noteq> []" for x
    using assms split_on_no_member by (auto simp: entry_lines_def)
  have "entry_lines (join [lf] lines) = lines"
  proof (cases "lines = []")
    case False
    then have "split_on lf (join [lf] lines) = lines" using no by (intro split_on_join) auto
    then show ?thesis using no by (simp add: entry_lines_def filter_id_conv)
  qed (simp add: entry_lines_def)
  then show ?thesis by (simp add: demo_users_in_def)
qed

lemma map_of_filter_fst: "map_of (map f (filter (\<lambda>l. fst (f l) \<noteq> u) xs)) = (map_of (map f xs))(u := None)"
  by (induction xs) (auto simp: fun_eq_iff split: prod.splits)

lemma splitlines_lines:
  "\<forall>l\<in>set ls. \<forall>c\<in>set l. \<not> is_line_break c \<Longrightarrow> splitlines (concat (map (\<lambda>l. l @ [lf]) ls)) = ls"
proof (induction ls)
  case (Cons l ls)
  have lf: "code lf = 10" by (simp add: lf_def code_def)
  have one: "(\<And>c. c \<in> set x \<Longrightarrow> \<not> is_line_break c) \<Longrightarrow> splitlines_from cr acc (x @ [lf]) = [rev acc @ x]"
    if "cr \<longrightarrow> x \<noteq> []" for cr acc x
    using that by (induction x arbitrary: cr acc) (auto simp: lf is_line_break_def)
  have no: "c \<in> set l \<Longrightarrow> \<not> is_line_break c" for c using Cons.prems by simp
  have "splitlines (l @ [lf]) = [l]" using one[of False l "[]", OF _ no] by (simp add: splitlines_def)
  then show ?case
    using splitlines_append[OF lf, of l "concat (map (\<lambda>l. l @ [lf]) ls)"] Cons by simp
qed simp

lemma listing_no_break:
  assumes "username_ok u" "c \<in> set (listing_line u)"
  shows "\<not> is_line_break c"
proof -
  have "\<not> is_line_break c" if "c \<in> set u" using username_chars[OF assms(1) that] by (auto simp: is_line_break_def)
  moreover have "\<forall>c\<in>set (''@'' @ SASL_REALM @ '': userPassword''). \<not> is_line_break c"
    by (simp add: SASL_REALM_def is_line_break_def code_def)
  ultimately show ?thesis using assms(2) unfolding listing_line_def set_append by blast
qed

lemma demo_sasl_tools_ok: "sasl_tools demo_users_in demo_sasl_tools"
  unfolding sasl_tools_def
proof (intro conjI)
  show "sets_passwords demo_users_in demo_sasl_tools"
    unfolding sets_passwords_def
  proof (intro allI impI disjI1)
    fix u p m r m'
    assume a: "username_ok u \<and> alnum_password p \<and>
      demo_sasl_tools [''saslpasswd2'', ''-c'', ''-p'', ''-u'', SASL_REALM, u] (Some p) m = (r, m')"
    then have "lf \<notin> set p" by (auto simp: alnum_password_def is_ascii_alnum_def is_ascii_alpha_def is_digit_def lf_def code_def)
    moreover have "m' = set_sasldb (entry_line u p @ lf # sasldb_content m) m"
      using a by (simp add: demo_sasl_tools_def Let_def)
    ultimately show "machine_creds demo_users_in m' = (machine_creds demo_users_in m)(u \<mapsto> p)"
      using a demo_users_in_Cons by (simp add: set_sasldb_creds machine_creds_content[of m])
  qed
  show "deletes_users demo_users_in demo_sasl_tools"
    unfolding deletes_users_def
  proof (intro allI impI disjI1)
    fix u m r m'
    assume a: "username_ok u \<and> demo_sasl_tools [''saslpasswd2'', ''-d'', ''-u'', SASL_REALM, u] None m = (r, m')"
    then have "m' = set_sasldb (join [lf] (filter (\<lambda>l. fst (entry_of l) \<noteq> u) (entry_lines (sasldb_content m)))) m"
      by (simp add: demo_sasl_tools_def Let_def)
    then show "machine_creds demo_users_in m' = (machine_creds demo_users_in m)(u := None)"
      by (simp add: set_sasldb_creds machine_creds_content[of m] demo_users_in_join[of _ "sasldb_content m"]
          map_of_filter_fst) (simp add: demo_users_in_def)
  qed
  show "lists_users demo_users_in demo_sasl_tools"
    unfolding lists_users_def
  proof (intro allI impI conjI)
    fix m r m' c
    assume a: "usernames_ok (machine_creds demo_users_in m) \<and> demo_sasl_tools [''sasldblistusers2''] None m = (r, m')"
    then show "machine_creds demo_users_in m' = machine_creds demo_users_in m"
      by (simp add: demo_sasl_tools_def Let_def)
    assume c: "r = Inr c \<and> cp_returncode c = 0"
    let ?ls = "map (\<lambda>l. listing_line (fst (entry_of l))) (entry_lines (sasldb_content m))"
    have doms: "dom (machine_creds demo_users_in m) = (\<lambda>l. fst (entry_of l)) ` set (entry_lines (sasldb_content m))"
      by (simp add: machine_creds_content demo_users_in_def dom_map_of_conv_image_fst image_image)
    have "cp_stdout c = concat (map (\<lambda>l. l @ [lf]) ?ls)"
      using a c by (auto simp: demo_sasl_tools_def Let_def comp_def)
    moreover have "splitlines (concat (map (\<lambda>l. l @ [lf]) ?ls)) = ?ls"
      using a listing_no_break unfolding usernames_ok_def doms by (intro splitlines_lines) auto
    ultimately show "set (splitlines (cp_stdout c)) = listing_line ` dom (machine_creds demo_users_in m)"
      unfolding doms by (simp add: image_image)
  qed
qed

end
