(* ===== verification/Senders.thy ===== *)
theory Senders
  imports Permissions Schemas
begin

text \<open>
  \<open>api/routes/senders.py\<close>: the addresses that may be sent from.  A route returns its answer or exception
  and the database as of its last commit; several routes commit twice, the change first and its audit row
  after.
\<close>

section \<open>The request environment\<close>

record admin_request =
  aq_admin_id :: int
  aq_ip :: "pystr option"
  aq_now :: datetime
  aq_new_id :: int
  aq_audit_id :: int
  aq_nonce :: bytes

definition audit_admin ::
  "admin_request \<Rightarrow> pystr \<Rightarrow> pystr \<Rightarrow> int \<Rightarrow> (pystr \<times> json) list \<Rightarrow> db \<Rightarrow> db" where
  "audit_admin rq action target_type target_id detail d =
     record_audit (aq_audit_id rq) (aq_now rq) (Some (aq_admin_id rq)) action (Some target_type) (Some target_id)
       (Some detail) (aq_ip rq) d"

text \<open>\<open>func.lower\<close> of SQLite, which folds ASCII letters only.\<close>

definition sql_lower :: "pystr \<Rightarrow> pystr" where
  "sql_lower s = map (\<lambda>c. if 65 \<le> code c \<and> code c \<le> 90 then char_of (code c + 32) else c) s"

section \<open>Reading\<close>

record sender_read =
  sd_id :: int
  sd_address :: pystr
  sd_upstream_account_id :: int
  sd_enabled :: bool
  sd_description :: "pystr option"
  sd_created_at :: datetime
  sd_allowed_local_user_count :: nat

definition sender_by_id :: "int \<Rightarrow> db \<Rightarrow> sender option" where
  "sender_by_id sender_id d = tbl_get sn_id sender_id (senders d)"

definition sender_not_found :: http_error where
  "sender_not_found = HTTPException 404 ''Sender not found''"

definition allowed_user_count :: "db \<Rightarrow> int \<Rightarrow> nat" where
  "allowed_user_count d sender_id = length (filter (\<lambda>p. pm_sender_id p = sender_id) (permissions d))"

definition sender_to_read :: "db \<Rightarrow> sender \<Rightarrow> sender_read" where
  "sender_to_read d s =
     \<lparr>sd_id = sn_id s, sd_address = sn_address s, sd_upstream_account_id = sn_upstream_account_id s,
      sd_enabled = sn_enabled s, sd_description = sn_description s, sd_created_at = sn_created_at s,
      sd_allowed_local_user_count = allowed_user_count d (sn_id s)\<rparr>"

definition list_senders :: "db \<Rightarrow> sender_read list" where
  "list_senders d = map (sender_to_read d) (sort_key sn_address (senders d))"

definition get_sender :: "int \<Rightarrow> db \<Rightarrow> http_error + sender_read" where
  "get_sender sender_id d =
     (case sender_by_id sender_id d of None \<Rightarrow> Inl sender_not_found | Some s \<Rightarrow> Inr (sender_to_read d s))"

text \<open>The users a sender is granted to, in the order of the users.\<close>

definition delete_sender_precheck :: "int \<Rightarrow> db \<Rightarrow> http_error + pystr list" where
  "delete_sender_precheck sender_id d =
     (case sender_by_id sender_id d of None \<Rightarrow> Inl sender_not_found
      | Some _ \<Rightarrow> Inr [lu_name u. u \<leftarrow> local_users d, p \<leftarrow> permissions d,
                         pm_local_smtp_user_id p = lu_id u \<and> pm_sender_id p = sender_id])"

definition get_sender_permissions :: "int \<Rightarrow> db \<Rightarrow> http_error + sender_read \<times> (int \<times> pystr \<times> pystr \<times> bool) list" where
  "get_sender_permissions sender_id d =
     (case sender_by_id sender_id d of None \<Rightarrow> Inl sender_not_found
      | Some s \<Rightarrow>
          (let granted_ids = map pm_local_smtp_user_id (filter (\<lambda>p. pm_sender_id p = sender_id) (permissions d))
           in Inr (sender_to_read d s,
                   map (\<lambda>u. (lu_id u, lu_name u, lu_username u, lu_id u \<in> set granted_ids))
                     (sort_key lu_name (local_users d)))))"

section \<open>The checks\<close>

definition require_upstream_account :: "db \<Rightarrow> int \<Rightarrow> http_error option" where
  "require_upstream_account d upstream_account_id =
     (if tbl_get ua_id upstream_account_id (accounts d) = None
      then Some (HTTPException 422 ''Unknown upstream_account_id'') else None)"

definition address_taken :: http_error where
  "address_taken = HTTPException 409 ''A sender with this address already exists''"

definition require_unique_address :: "db \<Rightarrow> pystr \<Rightarrow> int option \<Rightarrow> http_error option" where
  "require_unique_address d address ignore_id =
     (if \<exists>s\<in>set (senders d). sql_lower (sn_address s) = lower address \<and> ignore_id \<noteq> Some (sn_id s)
      then Some address_taken else None)"

text \<open>The unique index on the address, exact, as it sees the rows other than \<open>ignore_id\<close>.\<close>

definition address_conflict :: "db \<Rightarrow> pystr \<Rightarrow> int option \<Rightarrow> bool" where
  "address_conflict d address ignore_id \<longleftrightarrow>
     (\<exists>s\<in>set (senders d). sn_address s = address \<and> ignore_id \<noteq> Some (sn_id s))"

section \<open>Changing\<close>

definition created_sender :: "admin_request \<Rightarrow> sender_create \<Rightarrow> sender" where
  "created_sender rq p =
     \<lparr>sn_id = aq_new_id rq, sn_address = sc_address p, sn_upstream_account_id = sc_upstream_account_id p,
      sn_enabled = sc_enabled p, sn_description = sc_description p, sn_created_at = aq_now rq\<rparr>"

definition create_sender :: "admin_request \<Rightarrow> sender_create \<Rightarrow> db \<Rightarrow> (http_error + sender_read) \<times> db" where
  "create_sender rq p d =
     (case require_upstream_account d (sc_upstream_account_id p) of Some e \<Rightarrow> (Inl e, d) | None \<Rightarrow>
      (case require_unique_address d (sc_address p) None of Some e \<Rightarrow> (Inl e, d) | None \<Rightarrow>
       if address_conflict d (sc_address p) None then (Inl address_taken, d)
       else
         (let s = created_sender rq p;
              d2 = audit_admin rq ''sender.create'' ''sender'' (sn_id s) [(''address'', JStr (sn_address s))]
                     (d\<lparr>senders := senders d @ [s]\<rparr>)
          in (Inr (sender_to_read d2 s), d2))))"

text \<open>\<open>setattr\<close> for the given fields; a null where the column has none is refused by the schema before.\<close>

definition patched :: "'a \<Rightarrow> 'a option option \<Rightarrow> 'a" where
  "patched current v = (case v of Some (Some x) \<Rightarrow> x | _ \<Rightarrow> current)"

definition updated_sender :: "sender_update \<Rightarrow> sender \<Rightarrow> sender" where
  "updated_sender p s =
     s\<lparr>sn_address := patched (sn_address s) (sp_address p),
       sn_upstream_account_id := patched (sn_upstream_account_id s) (sp_upstream_account_id p),
       sn_enabled := patched (sn_enabled s) (sp_enabled p),
       sn_description := given_or (sn_description s) (sp_description p)\<rparr>"

definition given_sender_fields :: "sender_update \<Rightarrow> pystr list" where
  "given_sender_fields p =
     (if sp_address p \<noteq> None then [''address''] else []) @
     (if sp_description p \<noteq> None then [''description''] else []) @
     (if sp_enabled p \<noteq> None then [''enabled''] else []) @
     (if sp_upstream_account_id p \<noteq> None then [''upstream_account_id''] else [])"

definition update_sender :: "admin_request \<Rightarrow> int \<Rightarrow> sender_update \<Rightarrow> db \<Rightarrow> (http_error + sender_read) \<times> db" where
  "update_sender rq sender_id p d =
     (case sender_by_id sender_id d of None \<Rightarrow> (Inl sender_not_found, d) | Some s \<Rightarrow>
      (case (case sp_upstream_account_id p of Some (Some a) \<Rightarrow> require_upstream_account d a | _ \<Rightarrow> None) of
         Some e \<Rightarrow> (Inl e, d) | None \<Rightarrow>
       (case (case sp_address p of Some (Some a) \<Rightarrow> require_unique_address d a (Some sender_id) | _ \<Rightarrow> None) of
          Some e \<Rightarrow> (Inl e, d) | None \<Rightarrow>
        if address_conflict d (sn_address (updated_sender p s)) (Some sender_id) then (Inl address_taken, d)
        else
          (let d2 = audit_admin rq ''sender.update'' ''sender'' sender_id
                      [(''fields'', JList (map JStr (given_sender_fields p)))]
                      (d\<lparr>senders := tbl_upd sn_id sender_id (updated_sender p) (senders d)\<rparr>)
           in (Inr (sender_to_read d2 (updated_sender p s)), d2)))))"

text \<open>\<open>db.delete(sender)\<close> with the \<open>ON DELETE\<close> clauses of the tables that refer to it.\<close>

definition cascade_sender :: "int \<Rightarrow> db \<Rightarrow> db" where
  "cascade_sender sender_id d =
     d\<lparr>senders := tbl_del sn_id sender_id (senders d),
       permissions := filter (\<lambda>p. pm_sender_id p \<noteq> sender_id) (permissions d),
       settings_row := map_option (\<lambda>r. if rs_notify_sender_id r = Some sender_id then r\<lparr>rs_notify_sender_id := None\<rparr> else r)
                         (settings_row d)\<rparr>"

definition delete_sender :: "admin_request \<Rightarrow> int \<Rightarrow> db \<Rightarrow> (http_error + unit) \<times> db" where
  "delete_sender rq sender_id d =
     (case sender_by_id sender_id d of None \<Rightarrow> (Inl sender_not_found, d)
      | Some s \<Rightarrow>
          (Inr (), audit_admin rq ''sender.delete'' ''sender'' sender_id [(''address'', JStr (sn_address s))]
             (cascade_sender sender_id d)))"

section \<open>Permissions\<close>

definition sender_grant :: "admin_request \<Rightarrow> int \<Rightarrow> int \<Rightarrow> db \<Rightarrow> (http_error + unit) \<times> db" where
  "sender_grant rq sender_id local_user_id d =
     (case sender_by_id sender_id d of None \<Rightarrow> (Inl sender_not_found, d)
      | Some s \<Rightarrow>
          (case tbl_get lu_id local_user_id (local_users d) of
             None \<Rightarrow> (Inl (HTTPException 404 ''Local SMTP user not found''), d)
           | Some u \<Rightarrow>
               (Inr (), audit_admin rq ''permission.grant'' ''user_sender_permission'' sender_id
                  [(''sender'', JStr (sn_address s)), (''local_user'', JStr (lu_username u))]
                  (grant_permission (aq_now rq) local_user_id sender_id (Some (aq_admin_id rq)) d))))"

definition sender_revoke :: "admin_request \<Rightarrow> int \<Rightarrow> int \<Rightarrow> db \<Rightarrow> (http_error + unit) \<times> db" where
  "sender_revoke rq sender_id local_user_id d =
     (case sender_by_id sender_id d of None \<Rightarrow> (Inl sender_not_found, d)
      | Some s \<Rightarrow>
          (Inr (), audit_admin rq ''permission.revoke'' ''user_sender_permission'' sender_id
             [(''sender'', JStr (sn_address s)),
              (''local_user'', case tbl_get lu_id local_user_id (local_users d) of
                 None \<Rightarrow> JNull | Some u \<Rightarrow> JStr (lu_username u))]
             (revoke_permission local_user_id sender_id d)))"

text \<open>SQLite folds the case of ASCII letters only, Python that of all: a stored upper case letter outside ASCII is never found.\<close>

lemma uppercase_umlaut_not_unique:
  "require_unique_address (empty_db\<lparr>senders := [\<lparr>sn_id = 1, sn_address = [CHR 0xDC] @ ''@x.de'', sn_upstream_account_id = 1, sn_enabled = True,
      sn_description = None, sn_created_at = 0\<rparr>]\<rparr>) ([CHR 0xFC] @ ''@x.de'') None = None"
  by code_simp

end
