(* ===== verification/Local_Users.thy ===== *)
theory Local_Users
  imports Credential_Store Senders
begin

text \<open>
  \<open>api/routes/local_users.py\<close>, with \<open>core/password_generation.py\<close> and \<open>core/sasldb_reconcile.py\<close>: the
  SMTP users.  A route takes the database and the state behind the SASL operations and returns both; what
  was flushed before an exception is rolled back, what the control surface did is not.
\<close>

section \<open>Passwords\<close>

definition PASSWORD_ALPHABET :: pystr where
  "PASSWORD_ALPHABET = ''abcdefghijklmnopqrstuvwxyzABCDEFGHIJKLMNOPQRSTUVWXYZ0123456789''"

definition DEFAULT_LENGTH :: nat where "DEFAULT_LENGTH = 24"

text \<open>\<open>choice i s\<close> is the result of the i-th \<open>secrets.choice(s)\<close>.\<close>

definition generate_password :: "(nat \<Rightarrow> pystr \<Rightarrow> char) \<Rightarrow> nat \<Rightarrow> pystr" where
  "generate_password choice n = map (\<lambda>i. choice i PASSWORD_ALPHABET) [0..<n]"

section \<open>The request environment\<close>

record 'w sasl_rpc =
  sr_set :: "pystr \<Rightarrow> pystr \<Rightarrow> 'w \<Rightarrow> (ctl_error + unit) \<times> 'w"
  sr_delete :: "pystr \<Rightarrow> 'w \<Rightarrow> (ctl_error + unit) \<times> 'w"
  sr_list :: "'w \<Rightarrow> (ctl_error + pystr list) \<times> 'w"

definition surface_sasl :: "channel sasl_rpc" where
  "surface_sasl = \<lparr>sr_set = ctl_sasl_set_user, sr_delete = ctl_sasl_delete_user, sr_list = ctl_sasl_list_users\<rparr>"

text \<open>
  The signed-in admin, the client address, the clock readings, the ids the database assigns, the random
  choices, and Argon2 with the salt of this request.
\<close>

record user_request =
  ur_admin_id :: int
  ur_ip :: "pystr option"
  ur_now :: datetime
  ur_created_at :: datetime
  ur_audit_at :: datetime
  ur_read_at :: datetime
  ur_user_id :: int
  ur_audit_id :: int
  ur_choice :: "nat \<Rightarrow> pystr \<Rightarrow> char"
  ur_hash :: "pystr \<Rightarrow> pystr"

definition new_password :: "user_request \<Rightarrow> pystr" where
  "new_password rq = generate_password (ur_choice rq) DEFAULT_LENGTH"

definition audit_user :: "user_request \<Rightarrow> pystr \<Rightarrow> int \<Rightarrow> (pystr \<times> json) list \<Rightarrow> db \<Rightarrow> db" where
  "audit_user rq action target_id detail d =
     record_audit (ur_audit_id rq) (ur_audit_at rq) (Some (ur_admin_id rq)) action (Some ''local_smtp_user'')
       (Some target_id) (Some detail) (ur_ip rq) d"

section \<open>Reading\<close>

record local_user_read =
  ld_id :: int
  ld_name :: pystr
  ld_username :: pystr
  ld_enabled :: bool
  ld_created_at :: datetime
  ld_password_last_rotated_at :: "datetime option"
  ld_allowed_sender_count :: nat
  ld_rate_limit_per_hour :: "int option"
  ld_rate_limit_burst :: "int option"
  ld_sent_this_hour :: int
  ld_burst_tokens_available :: "int option"

definition user_by_id :: "int \<Rightarrow> db \<Rightarrow> local_smtp_user option" where
  "user_by_id user_id d = tbl_get lu_id user_id (local_users d)"

definition user_not_found :: http_error where
  "user_not_found = HTTPException 404 ''Local SMTP user not found''"

definition allowed_sender_count :: "db \<Rightarrow> int \<Rightarrow> nat" where
  "allowed_sender_count d user_id = length (filter (\<lambda>p. pm_local_smtp_user_id p = user_id) (permissions d))"

text \<open>\<open>int(x)\<close>: towards zero.\<close>

definition py_int :: "rat \<Rightarrow> int" where
  "py_int x = (if x \<ge> 0 then \<lfloor>x\<rfloor> else \<lceil>x\<rceil>)"

definition to_read :: "datetime \<Rightarrow> db \<Rightarrow> local_smtp_user \<Rightarrow> local_user_read" where
  "to_read now d u =
     \<lparr>ld_id = lu_id u, ld_name = lu_name u, ld_username = lu_username u, ld_enabled = lu_enabled u,
      ld_created_at = lu_created_at u, ld_password_last_rotated_at = lu_password_last_rotated_at u,
      ld_allowed_sender_count = allowed_sender_count d (lu_id u),
      ld_rate_limit_per_hour = lu_rate_limit_per_hour u, ld_rate_limit_burst = lu_rate_limit_burst u,
      ld_sent_this_hour = current_usage now (lu_id u) d,
      ld_burst_tokens_available = (case (lu_rate_limit_burst u, lu_rate_limit_per_hour u) of
         (Some burst, Some per_hour) \<Rightarrow> Some (py_int (current_burst_tokens now (lu_id u) burst per_hour d))
       | _ \<Rightarrow> None)\<rparr>"

definition list_local_users :: "datetime \<Rightarrow> db \<Rightarrow> local_user_read list" where
  "list_local_users now d = map (to_read now d) (sort_key lu_name (local_users d))"

definition get_user :: "datetime \<Rightarrow> int \<Rightarrow> db \<Rightarrow> http_error + local_user_read" where
  "get_user now user_id d =
     (case user_by_id user_id d of None \<Rightarrow> Inl user_not_found | Some u \<Rightarrow> Inr (to_read now d u))"

text \<open>The join of senders and permissions, in the order of the senders.\<close>

definition granted_senders :: "db \<Rightarrow> int \<Rightarrow> sender list" where
  "granted_senders d user_id =
     [s. s \<leftarrow> senders d, p \<leftarrow> permissions d, pm_sender_id p = sn_id s \<and> pm_local_smtp_user_id p = user_id]"

definition delete_user_precheck :: "int \<Rightarrow> db \<Rightarrow> http_error + pystr list" where
  "delete_user_precheck user_id d =
     (case user_by_id user_id d of None \<Rightarrow> Inl user_not_found
      | Some _ \<Rightarrow> Inr (map sn_address (granted_senders d user_id)))"

record connection_details =
  cd_host :: pystr
  cd_port :: int
  cd_tls_mode :: pystr
  cd_username :: pystr
  cd_from_addresses :: "pystr list"

definition connection_details_of :: "pystr \<Rightarrow> int \<Rightarrow> int \<Rightarrow> db \<Rightarrow> http_error + connection_details" where
  "connection_details_of submission_host submission_port user_id d =
     (case user_by_id user_id d of None \<Rightarrow> Inl user_not_found
      | Some u \<Rightarrow> Inr \<lparr>cd_host = submission_host, cd_port = submission_port, cd_tls_mode = ''STARTTLS'',
          cd_username = lu_username u,
          cd_from_addresses = sort (map sn_address (filter sn_enabled (granted_senders d user_id)))\<rparr>)"

definition get_user_permissions ::
  "datetime \<Rightarrow> int \<Rightarrow> db \<Rightarrow> http_error + local_user_read \<times> (int \<times> pystr \<times> bool) list" where
  "get_user_permissions now user_id d =
     (case user_by_id user_id d of None \<Rightarrow> Inl user_not_found
      | Some u \<Rightarrow>
          (let granted_ids = map pm_sender_id (filter (\<lambda>p. pm_local_smtp_user_id p = user_id) (permissions d))
           in Inr (to_read now d u,
                   map (\<lambda>s. (sn_id s, sn_address s, sn_id s \<in> set granted_ids)) (sort_key sn_address (senders d)))))"

section \<open>The checks\<close>

definition rate_limits_ok :: "int option \<Rightarrow> int option \<Rightarrow> bool" where
  "rate_limits_ok per_hour burst \<longleftrightarrow> \<not> (burst \<noteq> None \<and> per_hour = None)"

definition burst_needs_hourly :: http_error where
  "burst_needs_hourly = HTTPException 422 ''rate_limit_burst requires rate_limit_per_hour to also be set.''"

definition last_applied :: "db \<Rightarrow> datetime option" where
  "last_applied d =
     (case map cg_generated_at (filter cg_applied (generations d)) of [] \<Rightarrow> None | t # ts \<Rightarrow> Some (fold max ts t))"

definition deleted_since_last_apply :: "db \<Rightarrow> pystr \<Rightarrow> bool" where
  "deleted_since_last_apply d username \<longleftrightarrow>
     (\<exists>a\<in>set (audits d). al_action a = ''local_user.delete'' \<and>
        (case last_applied d of None \<Rightarrow> True | Some t \<Rightarrow> al_timestamp a > t) \<and>
        jget ''username'' (case al_detail a of None \<Rightarrow> [] | Some detail \<Rightarrow> detail) = JStr username)"

definition set_sasl_or_503 :: "'w sasl_rpc \<Rightarrow> pystr \<Rightarrow> pystr \<Rightarrow> 'w \<Rightarrow> (http_error + unit) \<times> 'w" where
  "set_sasl_or_503 R username password w =
     (case sr_set R username password w of
        (Inl (PostfixControlError e), w') \<Rightarrow> (Inl (HTTPException 503 e), w')
      | (Inr _, w') \<Rightarrow> (Inr (), w'))"

definition delete_sasl_or_503 :: "'w sasl_rpc \<Rightarrow> pystr \<Rightarrow> 'w \<Rightarrow> (http_error + unit) \<times> 'w" where
  "delete_sasl_or_503 R username w =
     (case sr_delete R username w of
        (Inl (PostfixControlError e), w') \<Rightarrow> (Inl (HTTPException 503 e), w')
      | (Inr _, w') \<Rightarrow> (Inr (), w'))"

section \<open>Creating\<close>

definition username_taken :: http_error where
  "username_taken = HTTPException 409 ''Username already in use''"

definition deletion_pending :: "pystr \<Rightarrow> http_error" where
  "deletion_pending username = HTTPException 409 (''A local user named '' @ py_repr username @
     '' was deleted since the configuration was last applied, so Postfix still lets that name send as the old user'' @
     [CHR 39] @ ''s senders. Apply the pending configuration changes first, then create the user.'')"

definition created_user :: "user_request \<Rightarrow> local_user_create \<Rightarrow> local_smtp_user" where
  "created_user rq p =
     \<lparr>lu_id = ur_user_id rq, lu_name = lc_name p, lu_username = lc_username p,
      lu_password_hash = ur_hash rq (new_password rq), lu_enabled = True, lu_created_at = ur_created_at rq,
      lu_password_last_rotated_at = Some (ur_now rq), lu_rate_limit_per_hour = lc_rate_limit_per_hour p,
      lu_rate_limit_burst = lc_rate_limit_burst p, lu_streak_started_at = None, lu_streak_last_at = None\<rparr>"

definition create_user ::
  "'w sasl_rpc \<Rightarrow> user_request \<Rightarrow> local_user_create \<Rightarrow> db \<Rightarrow> 'w \<Rightarrow>
   (http_error + local_user_read \<times> pystr) \<times> db \<times> 'w" where
  "create_user R rq p d w =
     (if \<exists>u\<in>set (local_users d). sql_lower (lu_username u) = lower (lc_username p) then (Inl username_taken, d, w)
      else if deleted_since_last_apply d (lc_username p) then (Inl (deletion_pending (lc_username p)), d, w)
      else if \<not> rate_limits_ok (lc_rate_limit_per_hour p) (lc_rate_limit_burst p) then (Inl burst_needs_hourly, d, w)
      else
        (let user = created_user rq p;
             d1 = d\<lparr>local_users := local_users d @ [user]\<rparr>
         in case set_sasl_or_503 R (lc_username p) (new_password rq) w of
              (Inl e, w') \<Rightarrow> (Inl e, d, w')
            | (Inr _, w') \<Rightarrow>
                (let d2 = audit_user rq ''local_user.create'' (lu_id user)
                            [(''username'', JStr (lu_username user))] d1
                 in (Inr (to_read (ur_read_at rq) d2 user, new_password rq), d2, w'))))"

section \<open>Changing\<close>

text \<open>The two transitions of \<open>enabled\<close>, as changes of the row.\<close>

definition disabled_user :: "local_smtp_user \<Rightarrow> local_smtp_user" where
  "disabled_user u = u\<lparr>lu_enabled := False\<rparr>"

definition reenabled_user :: "user_request \<Rightarrow> local_smtp_user \<Rightarrow> local_smtp_user" where
  "reenabled_user rq u =
     u\<lparr>lu_password_hash := ur_hash rq (new_password rq), lu_password_last_rotated_at := Some (ur_now rq),
       lu_enabled := True, lu_streak_started_at := None, lu_streak_last_at := None\<rparr>"

definition switch_enabled ::
  "'w sasl_rpc \<Rightarrow> user_request \<Rightarrow> bool option option \<Rightarrow> local_smtp_user \<Rightarrow> 'w \<Rightarrow>
   (http_error + (local_smtp_user \<Rightarrow> local_smtp_user) \<times> pystr option) \<times> 'w" where
  "switch_enabled R rq enabled user w =
     (case enabled of
        None \<Rightarrow> (Inr (id, None), w)
      | Some v \<Rightarrow>
          if v = Some (lu_enabled user) then (Inr (id, None), w)
          else if v = Some False then
            (case delete_sasl_or_503 R (lu_username user) w of
               (Inl e, w') \<Rightarrow> (Inl e, w')
             | (Inr _, w') \<Rightarrow> (Inr (disabled_user, None), w'))
          else
            (case set_sasl_or_503 R (lu_username user) (new_password rq) w of
               (Inl e, w') \<Rightarrow> (Inl e, w')
             | (Inr _, w') \<Rightarrow> (Inr (reenabled_user rq, Some (new_password rq)), w')))"

definition given_fields :: "local_user_update \<Rightarrow> pystr list" where
  "given_fields p =
     (if lp_enabled p \<noteq> None then [''enabled''] else []) @
     (if lp_name p \<noteq> None then [''name''] else []) @
     (if lp_rate_limit_burst p \<noteq> None then [''rate_limit_burst''] else []) @
     (if lp_rate_limit_per_hour p \<noteq> None then [''rate_limit_per_hour''] else [])"

definition update_user ::
  "'w sasl_rpc \<Rightarrow> user_request \<Rightarrow> int \<Rightarrow> local_user_update \<Rightarrow> db \<Rightarrow> 'w \<Rightarrow>
   (http_error + local_user_read \<times> pystr option) \<times> db \<times> 'w" where
  "update_user R rq user_id p d w =
     (case user_by_id user_id d of
        None \<Rightarrow> (Inl user_not_found, d, w)
      | Some user \<Rightarrow>
          (let effective_hourly = given_or (lu_rate_limit_per_hour user) (lp_rate_limit_per_hour p);
               effective_burst = given_or (lu_rate_limit_burst user) (lp_rate_limit_burst p);
               limits_given = (lp_rate_limit_per_hour p \<noteq> None \<or> lp_rate_limit_burst p \<noteq> None)
           in if limits_given \<and> \<not> rate_limits_ok effective_hourly effective_burst
              then (Inl burst_needs_hourly, d, w)
              else case switch_enabled R rq (lp_enabled p) user w of
                (Inl e, w') \<Rightarrow> (Inl e, d, w')
              | (Inr (switch, revealed), w') \<Rightarrow>
                  (case lp_name p of
                     Some None \<Rightarrow> (Inl internal_error, d, w')
                   | name \<Rightarrow>
                       (let rename = (case name of Some (Some n) \<Rightarrow> (\<lambda>u. u\<lparr>lu_name := n\<rparr>) | _ \<Rightarrow> id);
                            limits = (if limits_given
                                      then (\<lambda>u. u\<lparr>lu_rate_limit_per_hour := effective_hourly,
                                                  lu_rate_limit_burst := effective_burst\<rparr>)
                                      else id);
                            change = limits \<circ> rename \<circ> switch;
                            d2 = audit_user rq ''local_user.update'' user_id
                                   [(''fields'', JList (map JStr (given_fields p)))] (upd_user user_id change d)
                        in (Inr (to_read (ur_read_at rq) d2 (change user), revealed), d2, w')))))"

definition regenerate_password ::
  "'w sasl_rpc \<Rightarrow> user_request \<Rightarrow> int \<Rightarrow> db \<Rightarrow> 'w \<Rightarrow> (http_error + pystr) \<times> db \<times> 'w" where
  "regenerate_password R rq user_id d w =
     (case user_by_id user_id d of
        None \<Rightarrow> (Inl user_not_found, d, w)
      | Some user \<Rightarrow>
          (let password = new_password rq;
               d1 = upd_user user_id (\<lambda>u. u\<lparr>lu_password_hash := ur_hash rq password,
                      lu_password_last_rotated_at := Some (ur_now rq)\<rparr>) d
           in case set_sasl_or_503 R (lu_username user) password w of
                (Inl e, w') \<Rightarrow> (Inl e, d, w')
              | (Inr _, w') \<Rightarrow>
                  (Inr password, audit_user rq ''local_user.regenerate_password'' user_id
                     [(''username'', JStr (lu_username user))] d1, w')))"

section \<open>Deleting\<close>

text \<open>\<open>db.delete(user)\<close> with the \<open>ON DELETE\<close> clauses of the tables that refer to the row.\<close>

definition cascade_user :: "int \<Rightarrow> db \<Rightarrow> db" where
  "cascade_user user_id d =
     d\<lparr>local_users := tbl_del lu_id user_id (local_users d),
       permissions := filter (\<lambda>p. pm_local_smtp_user_id p \<noteq> user_id) (permissions d),
       counters := filter (\<lambda>c. rc_local_smtp_user_id c \<noteq> user_id) (counters d),
       buckets := filter (\<lambda>b. bb_local_smtp_user_id b \<noteq> user_id) (buckets d),
       mail_logs := map (\<lambda>m. if ml_local_smtp_user_id m = Some user_id then m\<lparr>ml_local_smtp_user_id := None\<rparr> else m)
                      (mail_logs d)\<rparr>"

definition delete_user ::
  "'w sasl_rpc \<Rightarrow> user_request \<Rightarrow> int \<Rightarrow> db \<Rightarrow> 'w \<Rightarrow> (http_error + unit) \<times> db \<times> 'w" where
  "delete_user R rq user_id d w =
     (case user_by_id user_id d of
        None \<Rightarrow> (Inl user_not_found, d, w)
      | Some user \<Rightarrow>
          (case delete_sasl_or_503 R (lu_username user) w of
             (Inl e, w') \<Rightarrow> (Inl e, d, w')
           | (Inr _, w') \<Rightarrow>
               (Inr (), audit_user rq ''local_user.delete'' user_id [(''username'', JStr (lu_username user))]
                  (cascade_user user_id d), w')))"

section \<open>Permissions\<close>

definition audit_permission :: "user_request \<Rightarrow> pystr \<Rightarrow> int \<Rightarrow> json \<Rightarrow> json \<Rightarrow> db \<Rightarrow> db" where
  "audit_permission rq action sender_id address username d =
     record_audit (ur_audit_id rq) (ur_audit_at rq) (Some (ur_admin_id rq)) action (Some ''user_sender_permission'')
       (Some sender_id) (Some [(''sender'', address), (''local_user'', username)]) (ur_ip rq) d"

definition grant :: "user_request \<Rightarrow> int \<Rightarrow> int \<Rightarrow> db \<Rightarrow> (http_error + unit) \<times> db" where
  "grant rq user_id sender_id d =
     (case user_by_id user_id d of
        None \<Rightarrow> (Inl user_not_found, d)
      | Some user \<Rightarrow>
          (case tbl_get sn_id sender_id (senders d) of
             None \<Rightarrow> (Inl (HTTPException 404 ''Sender not found''), d)
           | Some s \<Rightarrow>
               (Inr (), audit_permission rq ''permission.grant'' sender_id (JStr (sn_address s)) (JStr (lu_username user))
                  (grant_permission (ur_now rq) user_id sender_id (Some (ur_admin_id rq)) d))))"

definition revoke :: "user_request \<Rightarrow> int \<Rightarrow> int \<Rightarrow> db \<Rightarrow> (http_error + unit) \<times> db" where
  "revoke rq user_id sender_id d =
     (case user_by_id user_id d of
        None \<Rightarrow> (Inl user_not_found, d)
      | Some user \<Rightarrow>
          (Inr (), audit_permission rq ''permission.revoke'' sender_id
             (case tbl_get sn_id sender_id (senders d) of None \<Rightarrow> JNull | Some s \<Rightarrow> JStr (sn_address s))
             (JStr (lu_username user)) (revoke_permission user_id sender_id d)))"

section \<open>Reconciliation at start\<close>

definition enabled_names :: "db \<Rightarrow> pystr list" where
  "enabled_names d = map lu_username (filter lu_enabled (local_users d))"

fun remove_stale :: "'w sasl_rpc \<Rightarrow> pystr list \<Rightarrow> pystr list \<Rightarrow> 'w \<Rightarrow> pystr list \<times> 'w" where
  "remove_stale R allowed [] w = ([], w)"
| "remove_stale R allowed (username # live) w =
     (if username \<in> set allowed then remove_stale R allowed live w
      else (case sr_delete R username w of
          (Inl e, w') \<Rightarrow> remove_stale R allowed live w'
        | (Inr _, w') \<Rightarrow> (let (removed, w'') = remove_stale R allowed live w' in (username # removed, w''))))"

definition reconcile_sasldb :: "'w sasl_rpc \<Rightarrow> db \<Rightarrow> 'w \<Rightarrow> pystr list \<times> 'w" where
  "reconcile_sasldb R d w =
     (case sr_list R w of
        (Inl e, w') \<Rightarrow> ([], w')
      | (Inr live, w') \<Rightarrow> remove_stale R (enabled_names d) live w')"

end
