(* ===== verification/User_Events.thy ===== *)
theory User_Events
  imports Local_Users
begin

text \<open>
  Sequences of what changes the SMTP users: the admin's requests, the automatic disabling of
  \<open>Rate_Limit_Jobs\<close> and the reconciliation at each start.  Every route is first analysed into the ways it
  can end; from these the invariants of the user table follow for every sequence.
\<close>

section \<open>Sequences of events\<close>

datatype user_event =
    Create user_request local_user_create
  | Update user_request int local_user_update
  | Regenerate user_request int
  | Delete user_request int
  | Grant user_request int int
  | Revoke user_request int int
  | Auto_disable "int \<Rightarrow> int" datetime datetime datetime
  | Restart

definition failure :: "http_error + 'a \<Rightarrow> http_error option" where
  "failure r = (case r of Inl e \<Rightarrow> Some e | Inr _ \<Rightarrow> None)"

fun user_step :: "'w sasl_rpc \<Rightarrow> user_event \<Rightarrow> db \<times> 'w \<Rightarrow> http_error option \<times> db \<times> 'w" where
  "user_step R (Create rq p) (d, w) =
     (if \<not> local_user_create_ok p then (Some (HTTPException 422 ''invalid body''), d, w)
      else (let (r, s) = create_user R rq p d w in (failure r, s)))"
| "user_step R (Update rq uid p) (d, w) =
     (if \<not> local_user_update_ok p then (Some (HTTPException 422 ''invalid body''), d, w)
      else (let (r, s) = update_user R rq uid p d w in (failure r, s)))"
| "user_step R (Regenerate rq uid) (d, w) = (let (r, s) = regenerate_password R rq uid d w in (failure r, s))"
| "user_step R (Delete rq uid) (d, w) = (let (r, s) = delete_user R rq uid d w in (failure r, s))"
| "user_step R (Grant rq uid sid) (d, w) = (let (r, d') = grant rq uid sid d in (failure r, d', w))"
| "user_step R (Revoke rq uid sid) (d, w) = (let (r, d') = revoke rq uid sid d in (failure r, d', w))"
| "user_step R (Auto_disable aid now1 now2 now3) (d, w) =
     (None, rate_limit_abuse_tick (sr_delete R) aid now1 now2 now3 d w)"
| "user_step R Restart (d, w) = (None, d, snd (reconcile_sasldb R d w))"

fun user_run :: "'w sasl_rpc \<Rightarrow> user_event list \<Rightarrow> db \<times> 'w \<Rightarrow> db \<times> 'w" where
  "user_run R [] s = s"
| "user_run R (ev # evs) s = user_run R evs (snd (user_step R ev s))"

section \<open>The users, as an invariant\<close>

definition user_ok :: "local_smtp_user \<Rightarrow> bool" where
  "user_ok u \<longleftrightarrow> username_ok (lu_username u) \<and> single_line_name (lu_name u) \<and>
     limit_ok (lu_rate_limit_per_hour u) \<and> limit_ok (lu_rate_limit_burst u) \<and>
     rate_limits_ok (lu_rate_limit_per_hour u) (lu_rate_limit_burst u)"

definition folded_name :: "local_smtp_user \<Rightarrow> pystr" where
  "folded_name u = lower (lu_username u)"

definition users_wf :: "db \<Rightarrow> bool" where
  "users_wf d \<longleftrightarrow> (\<forall>u\<in>set (local_users d). user_ok u) \<and> keys_distinct folded_name (local_users d)"

lemma sql_lower_char:
  "code c < 128 \<Longrightarrow> (if 65 \<le> code c \<and> code c \<le> 90 then char_of (code c + 32) else c) = lower_char c"
  unfolding lower_char_def by (rule if_cong[OF _ refl refl]) arith

lemma sql_lower_ascii: "\<forall>c\<in>set s. code c < 128 \<Longrightarrow> sql_lower s = lower s"
  unfolding sql_lower_def lower_def by (rule map_cong[OF refl sql_lower_char]) blast

lemma alnum_ascii: "is_ascii_alnum c \<Longrightarrow> code c < 128"
  by (auto simp: is_ascii_alnum_def is_ascii_alpha_def is_digit_def)

lemma username_ascii: "username_ok u \<Longrightarrow> \<forall>c\<in>set u. code c < 128"
  by (cases u) (auto simp: username_ok_def dest!: alnum_ascii)

lemma sql_lower_username: "username_ok u \<Longrightarrow> sql_lower u = lower u"
  by (simp add: sql_lower_ascii username_ascii)

lemma audit_user_simps [simp]:
  "local_users (audit_user rq a k e d) = local_users d"
  "permissions (audit_user rq a k e d) = permissions d"
  "generations (audit_user rq a k e d) = generations d"
  by (simp_all add: audit_user_def)

lemma cascade_user_simps [simp]:
  "local_users (cascade_user uid d) = tbl_del lu_id uid (local_users d)"
  "audits (cascade_user uid d) = audits d" "generations (cascade_user uid d) = generations d"
  by (simp_all add: cascade_user_def)

text \<open>The status that reports an unreachable control surface.\<close>

definition is_503 :: "http_error \<Rightarrow> bool" where
  "is_503 e \<longleftrightarrow> (\<exists>m. e = HTTPException 503 m)"

lemma is_503_simps [simp]:
  "\<not> is_503 username_taken" "\<not> is_503 (deletion_pending u)" "\<not> is_503 burst_needs_hourly"
  "\<not> is_503 user_not_found" "\<not> is_503 internal_error" "is_503 (HTTPException n m) \<longleftrightarrow> n = 503"
  by (simp_all add: is_503_def username_taken_def deletion_pending_def burst_needs_hourly_def user_not_found_def
      internal_error_def)

lemma set_sasl_cases:
  "set_sasl_or_503 R u p w = (r, w') \<Longrightarrow>
   (r = Inr () \<and> sr_set R u p w = (Inr (), w')) \<or> (\<exists>e x. r = Inl e \<and> is_503 e \<and> sr_set R u p w = (Inl x, w'))"
  by (auto simp: set_sasl_or_503_def split: prod.splits sum.splits ctl_error.splits)

lemma delete_sasl_cases:
  "delete_sasl_or_503 R u w = (r, w') \<Longrightarrow>
   (r = Inr () \<and> sr_delete R u w = (Inr (), w')) \<or> (\<exists>e x. r = Inl e \<and> is_503 e \<and> sr_delete R u w = (Inl x, w'))"
  by (auto simp: delete_sasl_or_503_def split: prod.splits sum.splits ctl_error.splits)

text \<open>A route that returns: the shape of its result.\<close>

lemma create_user_cases:
  assumes "create_user R rq p d w = (r, d', w')"
  obtains (refused) e where "r = Inl e" "d' = d" "w' = w" "\<not> is_503 e"
  | (unreachable) x e where "sr_set R (lc_username p) (new_password rq) w = (Inl x, w')" "d' = d" "r = Inl e" "is_503 e"
  | (created) read where "sr_set R (lc_username p) (new_password rq) w = (Inr (), w')" "r = Inr (read, new_password rq)"
      "\<not> (\<exists>u\<in>set (local_users d). sql_lower (lu_username u) = lower (lc_username p))"
      "\<not> deleted_since_last_apply d (lc_username p)"
      "rate_limits_ok (lc_rate_limit_per_hour p) (lc_rate_limit_burst p)"
      "d' = audit_user rq ''local_user.create'' (ur_user_id rq) [(''username'', JStr (lc_username p))]
              (d\<lparr>local_users := local_users d @ [created_user rq p]\<rparr>)"
proof -
  let ?taken = "\<exists>u\<in>set (local_users d). sql_lower (lu_username u) = lower (lc_username p)"
  let ?pending = "deleted_since_last_apply d (lc_username p)"
  let ?limits = "rate_limits_ok (lc_rate_limit_per_hour p) (lc_rate_limit_burst p)"
  consider "?taken \<or> ?pending \<or> \<not> ?limits" | "\<not> ?taken" "\<not> ?pending" "?limits" by blast
  then show ?thesis
  proof cases
    case 1
    then have "\<exists>e. r = Inl e \<and> d' = d \<and> w' = w \<and> \<not> is_503 e"
      using assms unfolding create_user_def by (cases ?taken; cases ?pending) auto
    then show ?thesis using refused by blast
  next
    case 2
    obtain s w1 where s: "set_sasl_or_503 R (lc_username p) (new_password rq) w = (s, w1)" by fastforce
    have body: "create_user R rq p d w = (case s of Inl e \<Rightarrow> (Inl e, d, w1)
          | Inr _ \<Rightarrow> let d2 = audit_user rq ''local_user.create'' (ur_user_id rq) [(''username'', JStr (lc_username p))]
                       (d\<lparr>local_users := local_users d @ [created_user rq p]\<rparr>)
                    in (Inr (to_read (ur_read_at rq) d2 (created_user rq p), new_password rq), d2, w1))"
      using 2 unfolding create_user_def by (simp add: Let_def s created_user_def split: sum.split)
    from set_sasl_cases[OF s] show ?thesis
    proof (elim disjE exE conjE)
      assume "s = Inr ()" "sr_set R (lc_username p) (new_password rq) w = (Inr (), w1)"
      then show ?thesis using created 2 assms body by (auto simp: Let_def)
    next
      fix e x assume "s = Inl e" "is_503 e" "sr_set R (lc_username p) (new_password rq) w = (Inl x, w1)"
      then show ?thesis using unreachable assms body by auto
    qed
  qed
qed

lemma regenerate_cases:
  assumes "regenerate_password R rq uid d w = (r, d', w')"
  obtains (refused) e where "r = Inl e" "d' = d" "w' = w" "user_by_id uid d = None"
  | (unreachable) u x e where "user_by_id uid d = Some u" "sr_set R (lu_username u) (new_password rq) w = (Inl x, w')" "d' = d"
      "r = Inl e" "is_503 e"
  | (changed) u where "user_by_id uid d = Some u" "sr_set R (lu_username u) (new_password rq) w = (Inr (), w')"
      "r = Inr (new_password rq)"
      "d' = audit_user rq ''local_user.regenerate_password'' uid [(''username'', JStr (lu_username u))]
              (upd_user uid (\<lambda>u. u\<lparr>lu_password_hash := ur_hash rq (new_password rq),
                      lu_password_last_rotated_at := Some (ur_now rq)\<rparr>) d)"
proof (cases "user_by_id uid d")
  case None
  then show ?thesis using assms refused by (auto simp: regenerate_password_def)
next
  case (Some u)
  obtain s w1 where s: "set_sasl_or_503 R (lu_username u) (new_password rq) w = (s, w1)" by fastforce
  from set_sasl_cases[OF s] show ?thesis
    using assms s Some changed unreachable by (auto simp: regenerate_password_def Let_def)
qed

lemma delete_cases':
  assumes "delete_user R rq uid d w = (r, d', w')"
  obtains (refused) e where "r = Inl e" "d' = d" "w' = w" "user_by_id uid d = None"
  | (unreachable) u x e where "user_by_id uid d = Some u" "sr_delete R (lu_username u) w = (Inl x, w')" "d' = d"
      "r = Inl e" "is_503 e"
  | (deleted) u where "user_by_id uid d = Some u" "sr_delete R (lu_username u) w = (Inr (), w')" "r = Inr ()"
      "d' = audit_user rq ''local_user.delete'' uid [(''username'', JStr (lu_username u))] (cascade_user uid d)"
proof (cases "user_by_id uid d")
  case None
  then show ?thesis using assms refused by (auto simp: delete_user_def)
next
  case (Some u)
  obtain s w1 where s: "delete_sasl_or_503 R (lu_username u) w = (s, w1)" by fastforce
  from delete_sasl_cases[OF s] show ?thesis
    using assms s Some deleted unreachable by (auto simp: delete_user_def Let_def)
qed

lemma switch_cases:
  assumes "switch_enabled R rq enabled u w = (r, w')"
  obtains (kept) "r = Inr (id, None)" "w' = w"
  | (refused) x e where "r = Inl e" "is_503 e" "enabled = Some (Some False)" "lu_enabled u" "sr_delete R (lu_username u) w = (Inl x, w')"
  | (unreachable) x e where "r = Inl e" "is_503 e" "enabled \<noteq> Some (Some (lu_enabled u))" "enabled \<noteq> Some (Some False)"
      "sr_set R (lu_username u) (new_password rq) w = (Inl x, w')"
  | (disabled) "r = Inr (disabled_user, None)" "enabled = Some (Some False)" "sr_delete R (lu_username u) w = (Inr (), w')"
  | (reenabled) "r = Inr (reenabled_user rq, Some (new_password rq))" "enabled \<noteq> Some (Some (lu_enabled u))"
      "enabled \<noteq> Some (Some False)" "sr_set R (lu_username u) (new_password rq) w = (Inr (), w')"
proof -
  obtain s1 w1 where s1: "delete_sasl_or_503 R (lu_username u) w = (s1, w1)" by fastforce
  obtain s2 w2 where s2: "set_sasl_or_503 R (lu_username u) (new_password rq) w = (s2, w2)" by fastforce
  consider "enabled = None \<or> enabled = Some (Some (lu_enabled u))"
    | "enabled = Some (Some False)" "lu_enabled u"
    | v where "enabled = Some v" "v \<noteq> Some (lu_enabled u)" "v \<noteq> Some False"
    by (cases enabled) auto
  then show ?thesis
  proof cases
    case 1
    then show ?thesis using assms kept by (auto simp: switch_enabled_def)
  next
    case 2
    then have r: "(r, w') = (case s1 of Inl e \<Rightarrow> (Inl e, w1) | Inr _ \<Rightarrow> (Inr (disabled_user, None), w1))"
      using assms s1 by (simp add: switch_enabled_def split: sum.splits)
    from delete_sasl_cases[OF s1] show ?thesis using r 2 refused disabled by auto
  next
    case 3
    then have r: "(r, w') = (case s2 of Inl e \<Rightarrow> (Inl e, w2) | Inr _ \<Rightarrow> (Inr (reenabled_user rq, Some (new_password rq)), w2))"
      using assms s2 by (simp add: switch_enabled_def split: sum.splits)
    from set_sasl_cases[OF s2] show ?thesis using r 3 unreachable reenabled by auto
  qed
qed

text \<open>The row that a successful \<open>update_user\<close> writes.\<close>

definition limits_given :: "local_user_update \<Rightarrow> bool" where
  "limits_given p \<longleftrightarrow> lp_rate_limit_per_hour p \<noteq> None \<or> lp_rate_limit_burst p \<noteq> None"

definition updated_user ::
  "local_user_update \<Rightarrow> local_smtp_user \<Rightarrow> (local_smtp_user \<Rightarrow> local_smtp_user) \<Rightarrow> local_smtp_user \<Rightarrow> local_smtp_user" where
  "updated_user p user switch u =
     (let u1 = switch u; u2 = (case lp_name p of Some (Some n) \<Rightarrow> u1\<lparr>lu_name := n\<rparr> | _ \<Rightarrow> u1)
      in if limits_given p
         then u2\<lparr>lu_rate_limit_per_hour := given_or (lu_rate_limit_per_hour user) (lp_rate_limit_per_hour p),
                 lu_rate_limit_burst := given_or (lu_rate_limit_burst user) (lp_rate_limit_burst p)\<rparr>
         else u2)"

lemma update_cases:
  assumes "update_user R rq uid p d w = (r, d', w')" "local_user_update_ok p"
  obtains (refused) e where "r = Inl e" "d' = d" "w' = w" "\<not> is_503 e"
  | (unreachable) u e where "user_by_id uid d = Some u" "switch_enabled R rq (lp_enabled p) u w = (Inl e, w')" "r = Inl e" "d' = d"
  | (changed) u switch revealed read where "user_by_id uid d = Some u"
      "switch_enabled R rq (lp_enabled p) u w = (Inr (switch, revealed), w')" "r = Inr (read, revealed)"
      "\<not> (limits_given p \<and> \<not> rate_limits_ok (given_or (lu_rate_limit_per_hour u) (lp_rate_limit_per_hour p))
           (given_or (lu_rate_limit_burst u) (lp_rate_limit_burst p)))"
      "d' = audit_user rq ''local_user.update'' uid [(''fields'', JList (map JStr (given_fields p)))]
              (upd_user uid (updated_user p u switch) d)"
proof (cases "user_by_id uid d")
  case None
  then show ?thesis using assms refused by (auto simp: update_user_def)
next
  case (Some u)
  let ?bad = "limits_given p \<and> \<not> rate_limits_ok (given_or (lu_rate_limit_per_hour u) (lp_rate_limit_per_hour p))
           (given_or (lu_rate_limit_burst u) (lp_rate_limit_burst p))"
  obtain s w1 where s: "switch_enabled R rq (lp_enabled p) u w = (s, w1)" by fastforce
  show ?thesis
  proof (cases ?bad)
    case True
    then show ?thesis using assms Some refused by (auto simp: update_user_def limits_given_def Let_def)
  next
    case False
    note body = assms(1)[unfolded update_user_def Some option.case Let_def, folded limits_given_def,
        unfolded if_not_P[OF False] s prod.case]
    show ?thesis
    proof (cases s)
      case (Inl e)
      have "Inl e = r" "d = d'" "w1 = w'" using body[unfolded Inl sum.case prod.inject] by blast+
      then show ?thesis using unreachable[OF Some] s Inl by blast
    next
      case (Inr x)
      obtain switch revealed where x: "x = (switch, revealed)" by fastforce
      define rename where "rename = (case lp_name p of Some (Some n) \<Rightarrow> (\<lambda>u :: local_smtp_user. u\<lparr>lu_name := n\<rparr>) | _ \<Rightarrow> id)"
      have upd: "(if limits_given p
                 then (\<lambda>v. v\<lparr>lu_rate_limit_per_hour := given_or (lu_rate_limit_per_hour u) (lp_rate_limit_per_hour p),
                             lu_rate_limit_burst := given_or (lu_rate_limit_burst u) (lp_rate_limit_burst p)\<rparr>)
                 else id) \<circ> rename \<circ> switch = updated_user p u switch"
        by (rule ext) (simp add: updated_user_def rename_def Let_def split: option.splits)
      have "r = Inr (to_read (ur_read_at rq) d' (updated_user p u switch u), revealed) \<and>
          d' = audit_user rq ''local_user.update'' uid [(''fields'', JList (map JStr (given_fields p)))]
              (upd_user uid (updated_user p u switch) d) \<and> w' = w1"
      proof (cases "lp_name p")
        case None
        show ?thesis
          unfolding upd[symmetric] rename_def None option.case
          using body[unfolded Inr x sum.case prod.case None option.case prod.inject] by (elim conjE) (simp only: simp_thms)
      next
        case (Some nm)
        then obtain n where n: "lp_name p = Some (Some n)"
          using assms(2) by (cases nm) (simp_all add: local_user_update_ok_def not_nulled_def)
        show ?thesis
          unfolding upd[symmetric] rename_def n option.case
          using body[unfolded Inr x sum.case prod.case n option.case prod.inject] by (elim conjE) (simp only: simp_thms)
      qed
      then show ?thesis using changed Some s Inr x False by blast
    qed
  qed
qed

section \<open>The invariant is kept\<close>

lemma updated_user_keeps:
  assumes "switch_enabled R rq enabled u w = (Inr (switch, revealed), w')"
  shows "lu_id (updated_user p user switch v) = lu_id v" "lu_username (updated_user p user switch v) = lu_username v"
proof -
  have "lu_id (switch v) = lu_id v \<and> lu_username (switch v) = lu_username v"
    using assms by (cases rule: switch_cases) (simp_all add: disabled_user_def reenabled_user_def)
  then show "lu_id (updated_user p user switch v) = lu_id v" "lu_username (updated_user p user switch v) = lu_username v"
    by (auto simp: updated_user_def Let_def split: option.splits)
qed

lemma updated_user_enabled: "lu_enabled (updated_user p user switch v) = lu_enabled (switch v)"
  by (auto simp: updated_user_def Let_def split: option.splits)

lemma given_limit_ok: "if_given (\<lambda>n. n \<ge> 1) v \<Longrightarrow> limit_ok l \<Longrightarrow> limit_ok (given_or l v)"
  by (auto simp: if_given_def limit_ok_def given_or_def split: option.splits)

lemma updated_user_ok:
  assumes "user_ok user" "user_ok v" "local_user_update_ok p"
    and "switch_enabled R rq enabled user w = (Inr (switch, revealed), w')"
    and "\<not> (limits_given p \<and> \<not> rate_limits_ok (given_or (lu_rate_limit_per_hour user) (lp_rate_limit_per_hour p))
           (given_or (lu_rate_limit_burst user) (lp_rate_limit_burst p)))"
  shows "user_ok (updated_user p user switch v)"
proof -
  have switch: "user_ok (switch v)"
    using assms(4,2) by (cases rule: switch_cases) (simp_all add: user_ok_def disabled_user_def reenabled_user_def)
  define u2 where "u2 = (case lp_name p of Some (Some n) \<Rightarrow> switch v\<lparr>lu_name := n\<rparr> | _ \<Rightarrow> switch v)"
  have u2: "user_ok u2"
    using switch assms(3) by (auto simp: u2_def user_ok_def local_user_update_ok_def if_given_def split: option.splits)
  show ?thesis
  proof (cases "limits_given p")
    case True
    then have "rate_limits_ok (given_or (lu_rate_limit_per_hour user) (lp_rate_limit_per_hour p))
        (given_or (lu_rate_limit_burst user) (lp_rate_limit_burst p))" using assms(5) by blast
    moreover have "limit_ok (given_or (lu_rate_limit_per_hour user) (lp_rate_limit_per_hour p))"
      "limit_ok (given_or (lu_rate_limit_burst user) (lp_rate_limit_burst p))"
      using assms(1,3) by (auto simp: user_ok_def local_user_update_ok_def intro: given_limit_ok)
    ultimately show ?thesis
      using u2 True by (simp add: updated_user_def Let_def u2_def[symmetric] user_ok_def)
  next
    case False
    then show ?thesis using u2 by (simp add: updated_user_def Let_def u2_def[symmetric])
  qed
qed

lemma users_wf_cong: "local_users d' = local_users d \<Longrightarrow> users_wf d' = users_wf d"
  by (simp add: users_wf_def)

lemma users_wf_upd:
  assumes "users_wf d" "\<And>v. lu_username (f v) = lu_username v" "\<And>v. user_ok v \<Longrightarrow> user_ok (f v)"
  shows "users_wf (upd_user uid f d)"
proof -
  have "keys_distinct folded_name (tbl_upd lu_id uid f (local_users d)) = keys_distinct folded_name (local_users d)"
    using assms(2) by (simp add: keys_distinct_def map_tbl_upd folded_name_def)
  then show ?thesis using assms by (auto simp: users_wf_def set_tbl_upd)
qed

lemma created_user_ok: "local_user_create_ok p \<Longrightarrow> rate_limits_ok (lc_rate_limit_per_hour p) (lc_rate_limit_burst p) \<Longrightarrow>
    user_ok (created_user rq p)"
  by (simp add: local_user_create_ok_def user_ok_def created_user_def)

lemma users_wf_create:
  assumes "users_wf d" "user_ok u" "\<not> (\<exists>v\<in>set (local_users d). sql_lower (lu_username v) = lower (lu_username u))"
  shows "users_wf (d\<lparr>local_users := local_users d @ [u]\<rparr>)"
proof -
  have "sql_lower (lu_username v) = folded_name v" if "v \<in> set (local_users d)" for v
    using assms(1) that by (simp add: users_wf_def user_ok_def folded_name_def sql_lower_username)
  then have "\<forall>v\<in>set (local_users d). folded_name v \<noteq> folded_name u"
    using assms(3) by (auto simp: folded_name_def)
  then show ?thesis using assms(1,2) by (simp add: users_wf_def keys_distinct_snoc tbl_get_None_iff)
qed

lemma users_wf_del: "users_wf d \<Longrightarrow> users_wf (cascade_user uid d)"
  by (simp add: users_wf_def keys_distinct_filter[of _ _ "\<lambda>r. lu_id r \<noteq> uid"] tbl_del_def)

lemma user_ok_enabled [simp]: "user_ok (u\<lparr>lu_enabled := b\<rparr>) = user_ok u"
  by (simp add: user_ok_def)

lemma user_ok_password [simp]: "user_ok (u\<lparr>lu_password_hash := h, lu_password_last_rotated_at := t\<rparr>) = user_ok u"
  by (simp add: user_ok_def)

lemma abuse_tick_users:
  assumes "rate_limit_abuse_tick del aid now1 now2 now3 d w = (d', w')"
  obtains ids where "local_users d' = map (\<lambda>v. if lu_id v \<in> ids then v\<lparr>lu_enabled := False\<rparr> else v) (local_users d)"
proof -
  obtain out where run: "run_rate_limit_abuse_detection del aid now1 now2 now3 d w = (out, d', w')"
    using assms unfolding rate_limit_abuse_tick_def by (metis prod.collapse snd_conv)
  show ?thesis by (rule that) (rule abuse_facts(2)[OF run])
qed

lemma user_by_id_mem: "user_by_id uid d = Some u \<Longrightarrow> u \<in> set (local_users d) \<and> lu_id u = uid"
  by (auto simp: user_by_id_def dest: tbl_get_SomeD)

lemma grant_users: "grant rq uid sid d = (r, d') \<Longrightarrow> local_users d' = local_users d \<and> generations d' = generations d"
  by (auto simp: grant_def audit_permission_def grant_permission_def split: option.splits)

lemma revoke_users: "revoke rq uid sid d = (r, d') \<Longrightarrow> local_users d' = local_users d \<and> generations d' = generations d"
  by (auto simp: revoke_def audit_permission_def revoke_permission_def split: option.splits)

lemma user_step_wf:
  assumes wf: "users_wf d" and step: "user_step R ev (d, w) = (out, d', w')"
  shows "users_wf d'"
proof (cases ev)
  case (Create rq p)
  show ?thesis
  proof (cases "local_user_create_ok p")
    case True
    then obtain r where c: "create_user R rq p d w = (r, d', w')"
      using step Create by (auto split: prod.splits)
    then show ?thesis
    proof (cases rule: create_user_cases)
      case (created read)
      then have "\<not> (\<exists>v\<in>set (local_users d). sql_lower (lu_username v) = lower (lu_username (created_user rq p)))"
        by (simp add: created_user_def)
      from users_wf_create[OF wf created_user_ok[OF True created(5)] this] show ?thesis
        unfolding created(6) by (simp add: users_wf_def)
    qed (use wf in simp_all)
  qed (use wf step Create in simp)
next
  case (Update rq uid p)
  show ?thesis
  proof (cases "local_user_update_ok p")
    case True
    then obtain r where c: "update_user R rq uid p d w = (r, d', w')"
      using step Update by (auto split: prod.splits)
    from this True show ?thesis
    proof (cases rule: update_cases)
      case (changed u switch revealed read)
      have "user_ok u" using wf user_by_id_mem[OF changed(1)] by (simp add: users_wf_def)
      then have "users_wf (upd_user uid (updated_user p u switch) d)"
        by (intro users_wf_upd[OF wf] updated_user_keeps[OF changed(2)] updated_user_ok[OF _ _ True changed(2,4)])
      then show ?thesis unfolding changed(5) by (simp add: users_wf_def)
    qed (use wf in simp_all)
  qed (use wf step Update in simp)
next
  case (Regenerate rq uid)
  then obtain r where c: "regenerate_password R rq uid d w = (r, d', w')" using step by (auto split: prod.splits)
  then show ?thesis
  proof (cases rule: regenerate_cases)
    case (changed u)
    have "users_wf (upd_user uid (\<lambda>u. u\<lparr>lu_password_hash := ur_hash rq (new_password rq),
                      lu_password_last_rotated_at := Some (ur_now rq)\<rparr>) d)"
      by (rule users_wf_upd[OF wf]) simp_all
    then show ?thesis unfolding changed(4) by (simp add: users_wf_def)
  qed (use wf in simp_all)
next
  case (Delete rq uid)
  then obtain r where c: "delete_user R rq uid d w = (r, d', w')" using step by (auto split: prod.splits)
  then show ?thesis
  proof (cases rule: delete_cases')
    case (deleted u)
    then show ?thesis using users_wf_del[OF wf, of uid] unfolding deleted(4) by (simp add: users_wf_def)
  qed (use wf in simp_all)
next
  case (Auto_disable aid now1 now2 now3)
  then obtain ids where users: "local_users d' = map (\<lambda>v. if lu_id v \<in> ids then v\<lparr>lu_enabled := False\<rparr> else v) (local_users d)"
    using step by (auto elim: abuse_tick_users)
  have "map folded_name (local_users d') = map folded_name (local_users d)"
    unfolding users by (simp add: folded_name_def)
  moreover have "\<forall>u\<in>set (local_users d'). user_ok u" using wf users by (auto simp: users_wf_def)
  ultimately show ?thesis using wf by (simp add: users_wf_def keys_distinct_def)
next
  case (Grant rq uid sid)
  then show ?thesis using step wf by (auto dest!: grant_users simp: users_wf_def split: prod.splits)
next
  case (Revoke rq uid sid)
  then show ?thesis using step wf by (auto dest!: revoke_users simp: users_wf_def split: prod.splits)
next
  case Restart
  then show ?thesis using step wf by simp
qed

lemma user_run_wf: "users_wf (fst s) \<Longrightarrow> users_wf (fst (user_run R evs s))"
proof (induction evs arbitrary: s)
  case (Cons ev evs)
  obtain d w where s: "s = (d, w)" by fastforce
  obtain out d' w' where step: "user_step R ev (d, w) = (out, d', w')" by (rule prod_cases3)
  show ?case using Cons.IH[of "(d', w')"] user_step_wf[OF _ step] Cons.prems by (simp add: s step)
qed simp

text \<open>
  What holds of the values a request is served with: the ids the database assigns are unused, and
  \<open>secrets.choice\<close> picks an element.
\<close>

definition choices_ok :: "user_request \<Rightarrow> bool" where
  "choices_ok rq \<longleftrightarrow> (\<forall>i s. s \<noteq> [] \<longrightarrow> ur_choice rq i s \<in> set s)"

definition served_ok :: "user_event \<Rightarrow> db \<Rightarrow> bool" where
  "served_ok ev d \<longleftrightarrow> (case ev of Create rq p \<Rightarrow> choices_ok rq \<and> user_by_id (ur_user_id rq) d = None
     | Update rq uid p \<Rightarrow> choices_ok rq | Regenerate rq uid \<Rightarrow> choices_ok rq | _ \<Rightarrow> True)"

fun run_ok :: "'w sasl_rpc \<Rightarrow> user_event list \<Rightarrow> db \<times> 'w \<Rightarrow> bool" where
  "run_ok R [] s = True"
| "run_ok R (ev # evs) s = (served_ok ev (fst s) \<and> run_ok R evs (snd (user_step R ev s)))"

lemma password_alphabet: "\<forall>c\<in>set PASSWORD_ALPHABET. is_ascii_alnum c"
  by (simp add: PASSWORD_ALPHABET_def is_ascii_alnum_def is_ascii_alpha_def is_digit_def code_def)

lemma alphabet_nonempty: "PASSWORD_ALPHABET \<noteq> []"
  by (simp add: PASSWORD_ALPHABET_def)

lemma new_password_alnum:
  assumes "choices_ok rq"
  shows "alnum_password (new_password rq)" "length (new_password rq) = 24"
proof -
  have "ur_choice rq i PASSWORD_ALPHABET \<in> set PASSWORD_ALPHABET" for i
    using assms alphabet_nonempty unfolding choices_ok_def by blast
  then show "alnum_password (new_password rq)"
    using password_alphabet
    by (auto simp: alnum_password_def new_password_def generate_password_def DEFAULT_LENGTH_def)
  show "length (new_password rq) = 24" by (simp add: new_password_def generate_password_def DEFAULT_LENGTH_def)
qed

lemma step_ids:
  assumes ids: "keys_distinct lu_id (local_users d)" and served: "served_ok ev d"
    and step: "user_step R ev (d, w) = (out, d', w')"
  shows "keys_distinct lu_id (local_users d')"
proof (cases ev)
  case (Create rq p)
  then consider "d' = d" | r where "create_user R rq p d w = (r, d', w')"
    using step by (auto split: if_splits prod.splits)
  then show ?thesis
  proof cases
    case 2
    then show ?thesis
    proof (cases rule: create_user_cases)
      case (created read)
      have users: "local_users d' = local_users d @ [created_user rq p]" unfolding created(6) by simp
      show ?thesis
        using ids served unfolding users keys_distinct_snoc Create
        by (simp add: served_ok_def user_by_id_def created_user_def)
    qed (use ids in simp_all)
  qed (use ids in simp)
next
  case (Update rq uid p)
  then consider "d' = d" | r where "update_user R rq uid p d w = (r, d', w')" "local_user_update_ok p"
    using step by (auto split: if_splits prod.splits)
  then show ?thesis
  proof cases
    case 2
    then show ?thesis
    proof (cases rule: update_cases)
      case (changed u switch revealed read)
      show ?thesis using ids updated_user_keeps(1)[OF changed(2)] unfolding changed(5) by (simp add: keys_distinct_upd)
    qed (use ids in simp_all)
  qed (use ids in simp)
next
  case (Regenerate rq uid)
  then obtain r where "regenerate_password R rq uid d w = (r, d', w')" using step by (auto split: prod.splits)
  then show ?thesis
  proof (cases rule: regenerate_cases)
    case (changed u)
    show ?thesis using ids unfolding changed(4) by (simp add: keys_distinct_upd)
  qed (use ids in simp_all)
next
  case (Delete rq uid)
  then obtain r where "delete_user R rq uid d w = (r, d', w')" using step by (auto split: prod.splits)
  then show ?thesis
  proof (cases rule: delete_cases')
    case (deleted u)
    show ?thesis using ids unfolding deleted(4) by (simp add: keys_distinct_del)
  qed (use ids in simp_all)
next
  case (Auto_disable aid now1 now2 now3)
  then obtain s where users: "local_users d' = map (\<lambda>v. if lu_id v \<in> s then v\<lparr>lu_enabled := False\<rparr> else v) (local_users d)"
    using step by (auto elim: abuse_tick_users)
  have "map lu_id (local_users d') = map lu_id (local_users d)" unfolding users by simp
  then show ?thesis using ids by (simp add: keys_distinct_def)
next
  case (Grant rq uid sid)
  then show ?thesis using step ids by (auto dest!: grant_users split: prod.splits)
next
  case (Revoke rq uid sid)
  then show ?thesis using step ids by (auto dest!: revoke_users split: prod.splits)
next
  case Restart
  then show ?thesis using step ids by simp
qed

text \<open>
  C27. Usernames stay valid and unique without regard to case, and limits stay consistent, through every
  sequence of requests, automatic disablings and starts, whatever the control surface answers: every user
  has a valid name and username, limits of at least one, and no burst limit without an hourly limit.
\<close>

theorem users_stay_wellformed:
  assumes "users_wf d" and "user_run R evs (d, w) = (d', w')"
  shows "(\<forall>u\<in>set (local_users d'). username_ok (lu_username u) \<and> single_line_name (lu_name u) \<and>
      limit_ok (lu_rate_limit_per_hour u) \<and> limit_ok (lu_rate_limit_burst u) \<and>
      (lu_rate_limit_burst u \<noteq> None \<longrightarrow> lu_rate_limit_per_hour u \<noteq> None)) \<and>
    distinct (map (\<lambda>u. lower (lu_username u)) (local_users d'))"
proof -
  have "users_wf d'" using user_run_wf[of "(d, w)" R evs] assms by simp
  moreover have "map folded_name (local_users d') = map (\<lambda>u. lower (lu_username u)) (local_users d')"
    by (simp add: folded_name_def)
  ultimately show ?thesis by (auto simp: users_wf_def keys_distinct_def user_ok_def rate_limits_ok_def)
qed

text \<open>A request with the values it is served with, and a body.\<close>

definition demo_user_request :: user_request where
  "demo_user_request = \<lparr>ur_admin_id = 1, ur_ip = None, ur_now = 0, ur_created_at = 0, ur_audit_at = hours 1, ur_read_at = 0,
     ur_user_id = 2, ur_audit_id = 1, ur_choice = (\<lambda>i s. hd s), ur_hash = (\<lambda>s. ''hash'')\<rparr>"

definition demo_user_create :: "pystr \<Rightarrow> local_user_create" where
  "demo_user_create username = \<lparr>lc_name = ''Printer'', lc_username = username, lc_rate_limit_per_hour = Some 100,
     lc_rate_limit_burst = Some 10\<rparr>"

lemma demo_choices: "choices_ok demo_user_request"
  by (simp add: choices_ok_def demo_user_request_def)

lemma demo_users_wf: "users_wf demo_mail_db"
  by (simp add: users_wf_def demo_mail_db_def grant_permission_def empty_db_def demo_mail_user_def user_ok_def
      username_ok_def single_line_name_def no_control_characters_def limit_ok_def rate_limits_ok_def
      is_ascii_alnum_def is_ascii_alpha_def is_digit_def code_def)

lemma demo_ids: "keys_distinct lu_id (local_users demo_mail_db)"
  by (simp add: demo_mail_db_def grant_permission_def empty_db_def)

lemma demo_user_by_id: "user_by_id 1 demo_mail_db = Some demo_mail_user" "user_by_id 2 demo_mail_db = None"
  by (simp_all add: user_by_id_def demo_mail_db_def grant_permission_def empty_db_def demo_mail_user_def)

lemma demo_enabled: "enabled_names demo_mail_db = [''app'']"
  by (simp add: enabled_names_def demo_mail_db_def grant_permission_def empty_db_def demo_mail_user_def)

lemma demo_request_id [simp]: "ur_user_id demo_user_request = 2"
  by (simp add: demo_user_request_def)

text \<open>A control surface that always obeys.\<close>

definition obedient :: "unit sasl_rpc" where
  "obedient = \<lparr>sr_set = (\<lambda>u p w. (Inr (), w)), sr_delete = (\<lambda>u w. (Inr (), w)), sr_list = (\<lambda>w. (Inr [], w))\<rparr>"

theorem users_stay_wellformed_witness:
  "\<exists>d' w'. user_run obedient
       [Create demo_user_request (demo_user_create ''printer''), Delete demo_user_request 1] (demo_mail_db, ()) = (d', w') \<and>
     distinct (map (\<lambda>u. lower (lu_username u)) (local_users d'))"
proof -
  let ?evs = "[Create demo_user_request (demo_user_create ''printer''), Delete demo_user_request 1]"
  obtain d' w' where run: "user_run obedient ?evs (demo_mail_db, ()) = (d', w')" by (rule prod.exhaust)
  show ?thesis using users_stay_wellformed[OF demo_users_wf run] run by blast
qed

end
