(* ===== verification/Credential_Safety.thy ===== *)
theory Credential_Safety
  imports User_Events
begin

text \<open>
  Which credentials are live after any sequence of requests, jobs and starts, on the contract
  \<open>credential_store\<close>; and, through its interpretation, on the control surface: drift is accounted for, a
  start repairs it, a revealed password is the live one, a revocation is immediate.
\<close>

section \<open>Credentials without an enabled user\<close>

definition stale :: "(pystr \<rightharpoonup> pystr) \<Rightarrow> db \<Rightarrow> pystr set" where
  "stale C d = dom C - set (enabled_names d)"

text \<open>
  The names an event may leave stale: a creation or re-enabling the control surface did not confirm, and a
  regeneration for a disabled user.
\<close>

definition disabled_name :: "db \<Rightarrow> int \<Rightarrow> pystr set" where
  "disabled_name d uid = {lu_username u | u. user_by_id uid d = Some u \<and> \<not> lu_enabled u}"

definition unconfirmed :: "http_error option \<Rightarrow> bool" where
  "unconfirmed out \<longleftrightarrow> (case out of None \<Rightarrow> False | Some e \<Rightarrow> is_503 e)"

fun blamed :: "user_event \<Rightarrow> http_error option \<Rightarrow> db \<Rightarrow> pystr set" where
  "blamed (Create rq p) out d = (if unconfirmed out then {lc_username p} else {})"
| "blamed (Update rq uid p) out d = (if unconfirmed out then disabled_name d uid else {})"
| "blamed (Regenerate rq uid) out d = disabled_name d uid"
| "blamed _ out d = {}"

fun blamed_in :: "'w sasl_rpc \<Rightarrow> user_event list \<Rightarrow> db \<times> 'w \<Rightarrow> pystr set" where
  "blamed_in R [] s = {}"
| "blamed_in R (ev # evs) s =
     blamed ev (fst (user_step R ev s)) (fst s) \<union> blamed_in R evs (snd (user_step R ev s))"

lemma in_enabled_names: "x \<in> set (enabled_names d) \<longleftrightarrow> (\<exists>v\<in>set (local_users d). lu_enabled v \<and> lu_username v = x)"
  unfolding enabled_names_def by force

lemma enabled_names_upd:
  assumes "keys_distinct lu_id (local_users d)" "user_by_id uid d = Some u" "\<And>v. lu_username (f v) = lu_username v"
  shows "set (enabled_names d) - {lu_username u} \<subseteq> set (enabled_names (upd_user uid f d))"
    and "lu_enabled (f u) \<Longrightarrow> lu_username u \<in> set (enabled_names (upd_user uid f d))"
proof -
  note u = user_by_id_mem[OF assms(2)]
  show "set (enabled_names d) - {lu_username u} \<subseteq> set (enabled_names (upd_user uid f d))"
  proof
    fix x assume x: "x \<in> set (enabled_names d) - {lu_username u}"
    then have "x \<in> set (enabled_names d)" by (rule DiffD1)
    then obtain v where v: "v \<in> set (local_users d)" "lu_enabled v" "lu_username v = x"
      unfolding in_enabled_names by (elim bexE conjE)
    have ne: "v \<noteq> u" using x v(3) by (simp, metis)
    then have "lu_id v \<noteq> uid" using keys_distinct_inj[OF assms(1) v(1), of u] u ne by metis
    then have "v \<in> set (local_users (upd_user uid f d))" using v(1) by (auto simp: set_tbl_upd image_iff)
    then show "x \<in> set (enabled_names (upd_user uid f d))" using v unfolding in_enabled_names by blast
  qed
  assume "lu_enabled (f u)"
  moreover have "f u \<in> set (local_users (upd_user uid f d))" using u by (force simp: set_tbl_upd)
  ultimately show "lu_username u \<in> set (enabled_names (upd_user uid f d))"
    using assms(3)[of u] unfolding in_enabled_names by blast
qed

lemma enabled_names_del:
  assumes "keys_distinct lu_id (local_users d)" "user_by_id uid d = Some u"
  shows "set (enabled_names d) - {lu_username u} \<subseteq> set (enabled_names (cascade_user uid d))"
proof
  fix x assume x: "x \<in> set (enabled_names d) - {lu_username u}"
  then have "x \<in> set (enabled_names d)" by (rule DiffD1)
  then obtain v where v: "v \<in> set (local_users d)" "lu_enabled v" "lu_username v = x"
    unfolding in_enabled_names by (elim bexE conjE)
  have ne: "v \<noteq> u" using x v(3) by (simp, metis)
  then have "lu_id v \<noteq> uid" using keys_distinct_inj[OF assms(1) v(1), of u] user_by_id_mem[OF assms(2)] ne by metis
  then have "v \<in> set (local_users (cascade_user uid d))" using v(1) by simp
  then show "x \<in> set (enabled_names (cascade_user uid d))" using v unfolding in_enabled_names by blast
qed

lemma enabled_names_cong: "local_users d' = local_users d \<Longrightarrow> enabled_names d' = enabled_names d"
  by (simp add: enabled_names_def)

lemma stale_cong: "local_users d' = local_users d \<Longrightarrow> stale C d' = stale C d"
  by (simp add: stale_def enabled_names_def)

lemma keys_distinct_upd_user:
  "(\<And>v. lu_id (f v) = lu_id v) \<Longrightarrow> keys_distinct lu_id (local_users (upd_user uid f d)) = keys_distinct lu_id (local_users d)"
  by (simp add: keys_distinct_upd)

lemma stale_upd:
  assumes "keys_distinct lu_id (local_users d)" "user_by_id uid d = Some u" "\<And>v. lu_username (f v) = lu_username v"
    and "dom C' - {lu_username u} \<subseteq> dom C" "lu_enabled (f u) \<or> lu_username u \<notin> dom C' \<or> lu_username u \<in> N"
  shows "stale C' (upd_user uid f d) \<subseteq> stale C d \<union> N"
  using enabled_names_upd[OF assms(1,2), of f, OF assms(3)] assms(4,5) unfolding stale_def by blast

context credential_store
begin

definition store_rpc :: "'w sasl_rpc" where
  "store_rpc = \<lparr>sr_set = store_set, sr_delete = store_delete, sr_list = store_list\<rparr>"

lemma store_rpc_simps [simp]:
  "sr_set store_rpc = store_set" "sr_delete store_rpc = store_delete" "sr_list store_rpc = store_list"
  by (simp_all add: store_rpc_def)

lemma set_dom: "inv w \<Longrightarrow> alnum_password p \<Longrightarrow> store_set u p w = (r, w') \<Longrightarrow> dom (creds w') - {u} \<subseteq> dom (creds w)"
  by (drule (2) set_cases) auto

lemma set_keeps_inv: "inv w \<Longrightarrow> alnum_password p \<Longrightarrow> store_set u p w = (r, w') \<Longrightarrow> inv w'"
  using set_inv[of w p u] by simp

lemma delete_keeps_inv: "inv w \<Longrightarrow> store_delete u w = (r, w') \<Longrightarrow> inv w'"
  using delete_inv[of w u] by simp

lemma delete_gone: "inv w \<Longrightarrow> store_delete u w = (Inr x, w') \<Longrightarrow> creds w' u = None"
  by (drule (1) delete_ok) simp

lemma remove_stale_facts:
  assumes "inv w" "remove_stale store_rpc allowed live w = (removed, w')"
  shows "inv w' \<and> (\<forall>u\<in>set allowed. creds w' u = creds w u) \<and> dom (creds w') \<subseteq> dom (creds w) - set removed \<and>
    set removed \<subseteq> set live - set allowed \<and>
    (length removed = length (filter (\<lambda>u. u \<notin> set allowed) live) \<longrightarrow> set live - set allowed \<subseteq> set removed) \<and>
    length removed \<le> length (filter (\<lambda>u. u \<notin> set allowed) live)"
  using assms
proof (induction live arbitrary: w removed)
  case (Cons u live)
  show ?case
  proof (cases "u \<in> set allowed")
    case True
    then show ?thesis using Cons by auto
  next
    case False
    obtain r w1 where del: "store_delete u w = (r, w1)" by fastforce
    note w1 = delete_keeps_inv[OF Cons.prems(1) del] delete_shrinks[OF Cons.prems(1) del]
    have other: "\<forall>v\<in>set allowed. creds w1 v = creds w v"
      using delete_other[OF Cons.prems(1) del] False by metis
    show ?thesis
    proof (cases r)
      case (Inl e)
      then have rs: "remove_stale store_rpc allowed live w1 = (removed, w')" using Cons.prems(2) False del by simp
      define A B C where doms: "A = dom (creds w)" "B = dom (creds w1)" "C = dom (creds w')"
      from Cons.IH[OF w1(1) rs] w1(2) other False show ?thesis unfolding doms[symmetric] by auto
    next
      case (Inr x)
      obtain rest w2 where rest: "remove_stale store_rpc allowed live w1 = (rest, w2)" by fastforce
      then have eq: "removed = u # rest" "w' = w2" using Cons.prems(2) False del Inr by simp_all
      have gone: "u \<notin> dom (creds w1)" using delete_gone[OF Cons.prems(1) del[unfolded Inr]] by auto
      define A B C where doms: "A = dom (creds w)" "B = dom (creds w1)" "C = dom (creds w')"
      from Cons.IH[OF w1(1) rest[folded eq(2)]] w1(2) other False gone show ?thesis unfolding eq(1) doms[symmetric] by auto
    qed
  qed
qed simp

lemma reconcile_facts:
  assumes "inv w" "reconcile_sasldb store_rpc d w = (removed, w')"
  shows "inv w'" "u \<in> set (enabled_names d) \<Longrightarrow> creds w' u = creds w u"
    and "stale (creds w') d \<subseteq> stale (creds w) d - set removed" "set removed \<subseteq> stale (creds w) d"
    and "store_list w = (Inr live, w1) \<Longrightarrow>
      length removed = length (filter (\<lambda>u. u \<notin> set (enabled_names d)) live) \<Longrightarrow> stale (creds w') d = {}"
proof -
  obtain r w0 where l: "store_list w = (r, w0)" by fastforce
  note w0 = list_inv[OF assms(1), unfolded l snd_conv] list_creds[OF assms(1), unfolded l snd_conv]
  have all: "inv w' \<and> (\<forall>u\<in>set (enabled_names d). creds w' u = creds w u) \<and>
      stale (creds w') d \<subseteq> stale (creds w) d - set removed \<and> set removed \<subseteq> stale (creds w) d \<and>
      (store_list w = (Inr live, w1) \<and> length removed = length (filter (\<lambda>u. u \<notin> set (enabled_names d)) live) \<longrightarrow>
        stale (creds w') d = {})" for live w1
  proof (cases r)
    case (Inl e)
    then show ?thesis using assms l w0 by (auto simp: reconcile_sasldb_def stale_def)
  next
    case (Inr us)
    then have rs: "remove_stale store_rpc (enabled_names d) us w0 = (removed, w')"
      using assms(2) l by (simp add: reconcile_sasldb_def)
    have us: "set us = dom (creds w)" using list_ok[OF assms(1)] l Inr by blast
    note f = remove_stale_facts[OF w0(1) rs, unfolded w0(2) us]
    define A C where doms: "A = dom (creds w)" "C = dom (creds w')"
    from f Inr l show ?thesis unfolding stale_def doms[symmetric] by auto
  qed
  from all show "inv w'" by blast
  from all show "u \<in> set (enabled_names d) \<Longrightarrow> creds w' u = creds w u" by blast
  from all show "stale (creds w') d \<subseteq> stale (creds w) d - set removed" by blast
  from all show "set removed \<subseteq> stale (creds w) d" by blast
  from all show "store_list w = (Inr live, w1) \<Longrightarrow>
      length removed = length (filter (\<lambda>u. u \<notin> set (enabled_names d)) live) \<Longrightarrow> stale (creds w') d = {}" by blast
qed

text \<open>The loop of the abuse job: who is disabled has lost the credential.\<close>

lemma disable_loop_stale:
  assumes "inv w" "keys_distinct lu_id (local_users d)" "disable_loop store_delete aid now us d w = (out, d', w')"
    and "\<forall>u\<in>set us. \<exists>v. user_by_id (lu_id u) d = Some v \<and> lu_username v = lu_username u"
  shows "inv w' \<and> keys_distinct lu_id (local_users d') \<and> stale (creds w') d' \<subseteq> stale (creds w) d"
  using assms
proof (induction us arbitrary: w d out)
  case (Cons u us)
  obtain r w1 where del: "store_delete (lu_username u) w = (r, w1)" by fastforce
  note w1 = delete_keeps_inv[OF Cons.prems(1) del] delete_shrinks[OF Cons.prems(1) del]
  show ?case
  proof (cases r)
    case (Inl e)
    then have "disable_loop store_delete aid now us d w1 = (out, d', w')" using Cons.prems(3) del by simp
    from Cons.IH[OF w1(1) Cons.prems(2) this] Cons.prems(4) have "inv w' \<and> keys_distinct lu_id (local_users d')"
      "stale (creds w') d' \<subseteq> stale (creds w1) d" by auto
    then show ?thesis using w1(2) unfolding stale_def by blast
  next
    case (Inr x)
    let ?f = "\<lambda>v. v\<lparr>lu_enabled := False\<rparr>"
    define d1 where "d1 = disable_user aid now u d"
    have d1: "local_users d1 = local_users (upd_user (lu_id u) ?f d)" by (simp add: d1_def disable_user_def)
    obtain out1 d2 w2 where rest: "disable_loop store_delete aid now us d1 w1 = (out1, d2, w2)" by (rule prod_cases3)
    have eq: "d2 = d'" "w2 = w'" using Cons.prems(3) del Inr rest by (simp_all add: d1_def[symmetric])
    have dist: "keys_distinct lu_id (local_users d1)"
      using Cons.prems(2) unfolding d1 by (simp add: keys_distinct_upd)
    have still: "\<forall>v\<in>set us. \<exists>z. user_by_id (lu_id v) d1 = Some z \<and> lu_username z = lu_username v"
    proof
      fix v assume "v \<in> set us"
      then obtain z where "user_by_id (lu_id v) d = Some z" "lu_username z = lu_username v" using Cons.prems(4) by auto
      then show "\<exists>z. user_by_id (lu_id v) d1 = Some z \<and> lu_username z = lu_username v"
        unfolding user_by_id_def d1 by (auto simp: tbl_get_upd)
    qed
    obtain v where v: "user_by_id (lu_id u) d = Some v" "lu_username v = lu_username u" using Cons.prems(4) by auto
    have "lu_username v \<notin> dom (creds w1)"
      using delete_gone[OF Cons.prems(1) del[unfolded Inr]] v(2) by auto
    then have "stale (creds w1) (upd_user (lu_id u) ?f d) \<subseteq> stale (creds w) d \<union> {}"
      by (intro stale_upd[OF Cons.prems(2) v(1)]) (use w1(2) in auto)
    then have "stale (creds w1) d1 \<subseteq> stale (creds w) d" using stale_cong[OF d1] by simp
    then show ?thesis using Cons.IH[OF w1(1) dist rest[unfolded eq] still] by blast
  qed
qed simp

lemma abuse_tick_stale:
  assumes "inv w" "keys_distinct lu_id (local_users d)" "rate_limit_abuse_tick store_delete aid now1 now2 now3 d w = (d', w')"
  shows "inv w' \<and> keys_distinct lu_id (local_users d') \<and> stale (creds w') d' \<subseteq> stale (creds w) d"
proof -
  let ?d1 = "d\<lparr>settings_row := Some (the_settings d)\<rparr>"
  let ?cand = "filter (abuse_candidate (now1 - minutes (rs_rate_limit_abuse_threshold_minutes (the_settings d)))
        (now2 - DEFER_STREAK_GAP)) (local_users d)"
  show ?thesis
  proof (cases "rs_rate_limit_abuse_auto_disable_enabled (the_settings d)")
    case False
    then show ?thesis
      using assms by (auto simp: rate_limit_abuse_tick_def run_rate_limit_abuse_detection_def get_relay_settings_eq
          stale_def enabled_names_def)
  next
    case True
    obtain out where loop: "disable_loop store_delete aid now3 ?cand ?d1 w = (out, d', w')"
      using assms(3) True
      by (simp add: rate_limit_abuse_tick_def run_rate_limit_abuse_detection_def get_relay_settings_eq Let_def)
        (metis prod.collapse snd_conv)
    have cand: "\<forall>u\<in>set ?cand. \<exists>v. user_by_id (lu_id u) ?d1 = Some v \<and> lu_username v = lu_username u"
      using tbl_get_mem[OF assms(2)] by (auto simp: user_by_id_def)
    have dist: "keys_distinct lu_id (local_users ?d1)" using assms(2) by simp
    show ?thesis
      using disable_loop_stale[OF assms(1) dist loop cand] stale_cong[of ?d1 d] by simp
  qed
qed

end

context credential_store
begin

lemma create_stale:
  assumes "inv w" "keys_distinct lu_id (local_users d)" "user_by_id (ur_user_id rq) d = None"
    and "create_user store_rpc rq p d w = (r, d', w')" and alnum: "alnum_password (new_password rq)"
  shows "inv w' \<and> keys_distinct lu_id (local_users d') \<and>
    stale (creds w') d' \<subseteq> stale (creds w) d \<union> blamed (Create rq p) (failure r) d"
  using assms(4)
proof (cases rule: create_user_cases)
  case (refused e)
  then show ?thesis using assms(1,2) by simp
next
  case (unreachable x e)
  have "store_set (lc_username p) (new_password rq) w = (Inl x, w')" using unreachable(1) by simp
  note s = set_keeps_inv[OF assms(1) alnum this] set_dom[OF assms(1) alnum this]
  have "blamed (Create rq p) (failure r) d = {lc_username p}"
    using unreachable(3,4) by (simp add: failure_def unconfirmed_def)
  then show ?thesis using s assms(2) unfolding unreachable(2) stale_def by blast
next
  case (created read)
  let ?u = "created_user rq p"
  have "store_set (lc_username p) (new_password rq) w = (Inr (), w')" using created(1) by simp
  note s = set_keeps_inv[OF assms(1) alnum this] set_dom[OF assms(1) alnum this]
  have users: "local_users d' = local_users d @ [?u]" unfolding created(6) by simp
  have "keys_distinct lu_id (local_users d')"
    using assms(2,3) unfolding users keys_distinct_snoc by (simp add: user_by_id_def created_user_def)
  moreover have "set (enabled_names d') = insert (lc_username p) (set (enabled_names d))"
    by (simp add: enabled_names_def users created_user_def)
  ultimately show ?thesis using s unfolding stale_def by blast
qed

lemma update_stale:
  assumes "inv w" "keys_distinct lu_id (local_users d)" "local_user_update_ok p"
    and "update_user store_rpc rq uid p d w = (r, d', w')" and alnum: "alnum_password (new_password rq)"
  shows "inv w' \<and> keys_distinct lu_id (local_users d') \<and>
    stale (creds w') d' \<subseteq> stale (creds w) d \<union> blamed (Update rq uid p) (failure r) d"
  using assms(4,3)
proof (cases rule: update_cases)
  case (refused e)
  then show ?thesis using assms(1,2) by simp
next
  case (unreachable u e)
  from unreachable(2) show ?thesis
  proof (cases rule: switch_cases)
    case (refused x e')
    have "store_delete (lu_username u) w = (Inl x, w')" using refused(5) by simp
    note s = delete_keeps_inv[OF assms(1) this] delete_shrinks[OF assms(1) this]
    then show ?thesis using assms(2) unfolding unreachable(4) stale_def by blast
  next
    case (unreachable x e')
    have "store_set (lu_username u) (new_password rq) w = (Inl x, w')" using unreachable(5) by simp
    note s = set_keeps_inv[OF assms(1) alnum this] set_dom[OF assms(1) alnum this]
    have out: "unconfirmed (failure r)"
      using unreachable(1,2) \<open>r = Inl e\<close> by (simp add: failure_def unconfirmed_def)
    have "lu_username u \<in> set (enabled_names d) \<or> lu_username u \<in> disabled_name d uid"
      using user_by_id_mem[OF \<open>user_by_id uid d = Some u\<close>] \<open>user_by_id uid d = Some u\<close>
      unfolding in_enabled_names disabled_name_def by blast
    then show ?thesis using s out assms(2) unfolding \<open>d' = d\<close> stale_def by auto
  qed simp_all
next
  case (changed u switch revealed read)
  note keep = updated_user_keeps[OF changed(2)]
  have users: "local_users d' = local_users (upd_user uid (updated_user p u switch) d)" unfolding changed(5) by simp
  have dist: "keys_distinct lu_id (local_users d')"
    using assms(2) keep(1) unfolding users by (simp add: keys_distinct_upd)
  have "inv w' \<and> stale (creds w') (upd_user uid (updated_user p u switch) d) \<subseteq> stale (creds w) d \<union> {}"
    using changed(2)
  proof (cases rule: switch_cases)
    case kept
    have "stale (creds w) (upd_user uid (updated_user p u switch) d) \<subseteq> stale (creds w) d \<union> {}"
    proof (cases "lu_enabled u \<or> lu_username u \<notin> dom (creds w)")
      case True
      then show ?thesis
        using kept by (intro stale_upd[OF assms(2) changed(1) keep(2)]) (auto simp: updated_user_enabled)
    next
      case False
      have "set (enabled_names d) \<subseteq> set (enabled_names (upd_user uid (updated_user p u switch) d))"
      proof
        fix x assume "x \<in> set (enabled_names d)"
        then obtain v where v: "v \<in> set (local_users d)" "lu_enabled v" "lu_username v = x"
          unfolding in_enabled_names by (elim bexE conjE)
        let ?v = "if lu_id v = uid then updated_user p u switch v else v"
        have "?v \<in> set (local_users (upd_user uid (updated_user p u switch) d))" using v(1) by (simp add: set_tbl_upd)
        moreover have "lu_enabled ?v" "lu_username ?v = x" using v kept keep(2) by (simp_all add: updated_user_enabled)
        ultimately show "x \<in> set (enabled_names (upd_user uid (updated_user p u switch) d))"
          unfolding in_enabled_names by blast
      qed
      then show ?thesis unfolding stale_def by blast
    qed
    then show ?thesis using kept assms(1) by simp
  next
    case disabled
    have del: "store_delete (lu_username u) w = (Inr (), w')" using disabled(3) by simp
    note s = delete_keeps_inv[OF assms(1) del] delete_shrinks[OF assms(1) del] delete_gone[OF assms(1) del]
    have "stale (creds w') (upd_user uid (updated_user p u switch) d) \<subseteq> stale (creds w) d \<union> {}"
      using s by (intro stale_upd[OF assms(2) changed(1) keep(2)]) auto
    then show ?thesis using s(1) by blast
  next
    case reenabled
    have set: "store_set (lu_username u) (new_password rq) w = (Inr (), w')" using reenabled(4) by simp
    note s = set_keeps_inv[OF assms(1) alnum set] set_dom[OF assms(1) alnum set]
    have "stale (creds w') (upd_user uid (updated_user p u switch) d) \<subseteq> stale (creds w) d \<union> {}"
      using s(2) reenabled(1)
      by (intro stale_upd[OF assms(2) changed(1) keep(2)]) (simp_all add: updated_user_enabled reenabled_user_def)
    then show ?thesis using s(1) by blast
  qed simp_all
  then show ?thesis using dist stale_cong[OF users] by auto
qed

lemma regenerate_stale:
  assumes "inv w" "keys_distinct lu_id (local_users d)"
    and "regenerate_password store_rpc rq uid d w = (r, d', w')" and alnum: "alnum_password (new_password rq)"
  shows "inv w' \<and> keys_distinct lu_id (local_users d') \<and>
    stale (creds w') d' \<subseteq> stale (creds w) d \<union> blamed (Regenerate rq uid) (failure r) d"
  using assms(3)
proof (cases rule: regenerate_cases)
  case (refused e)
  then show ?thesis using assms(1,2) by simp
next
  case (unreachable u x e)
  have "store_set (lu_username u) (new_password rq) w = (Inl x, w')" using unreachable(2) by simp
  note s = set_keeps_inv[OF assms(1) alnum this] set_dom[OF assms(1) alnum this]
  have "lu_username u \<in> set (enabled_names d) \<or> lu_username u \<in> disabled_name d uid"
    using user_by_id_mem[OF unreachable(1)] unreachable(1) unfolding in_enabled_names disabled_name_def by blast
  then show ?thesis using s assms(2) unfolding unreachable(3) stale_def by auto
next
  case (changed u)
  let ?f = "\<lambda>u. u\<lparr>lu_password_hash := ur_hash rq (new_password rq), lu_password_last_rotated_at := Some (ur_now rq)\<rparr>"
  have set: "store_set (lu_username u) (new_password rq) w = (Inr (), w')" using changed(2) by simp
  note s = set_keeps_inv[OF assms(1) alnum set] set_dom[OF assms(1) alnum set]
  have users: "local_users d' = local_users (upd_user uid ?f d)" unfolding changed(4) by simp
  have "lu_enabled u \<or> lu_username u \<in> disabled_name d uid" using changed(1) unfolding disabled_name_def by blast
  then have "stale (creds w') (upd_user uid ?f d) \<subseteq> stale (creds w) d \<union> disabled_name d uid"
    using s(2) by (intro stale_upd[OF assms(2) changed(1)]) simp_all
  moreover have "keys_distinct lu_id (local_users d')" using assms(2) unfolding users by (simp add: keys_distinct_upd)
  ultimately show ?thesis using s(1) stale_cong[OF users] by simp
qed

lemma delete_stale:
  assumes "inv w" "keys_distinct lu_id (local_users d)" "delete_user store_rpc rq uid d w = (r, d', w')"
  shows "inv w' \<and> keys_distinct lu_id (local_users d') \<and> stale (creds w') d' \<subseteq> stale (creds w) d"
  using assms(3)
proof (cases rule: delete_cases')
  case (refused e)
  then show ?thesis using assms(1,2) by simp
next
  case (unreachable u x e)
  have "store_delete (lu_username u) w = (Inl x, w')" using unreachable(2) by simp
  note s = delete_keeps_inv[OF assms(1) this] delete_shrinks[OF assms(1) this]
  then show ?thesis using assms(2) unfolding unreachable(3) stale_def by blast
next
  case (deleted u)
  have del: "store_delete (lu_username u) w = (Inr (), w')" using deleted(2) by simp
  note s = delete_keeps_inv[OF assms(1) del] delete_shrinks[OF assms(1) del] delete_gone[OF assms(1) del]
  have users: "local_users d' = local_users (cascade_user uid d)" unfolding deleted(4) by simp
  have "lu_username u \<notin> dom (creds w')" using s(3) by auto
  then have "stale (creds w') (cascade_user uid d) \<subseteq> stale (creds w) d"
    using s(2) enabled_names_del[OF assms(2) deleted(1)] unfolding stale_def by blast
  moreover have "keys_distinct lu_id (local_users d')"
    using assms(2) unfolding users by (simp add: keys_distinct_del)
  ultimately show ?thesis using s(1) stale_cong[OF users] by simp
qed

lemma step_stale:
  assumes "inv w" "keys_distinct lu_id (local_users d)"
    and served: "served_ok ev d"
    and step: "user_step store_rpc ev (d, w) = (out, d', w')"
  shows "inv w' \<and> keys_distinct lu_id (local_users d') \<and> stale (creds w') d' \<subseteq> stale (creds w) d \<union> blamed ev out d"
proof (cases ev)
  case (Create rq p)
  show ?thesis
  proof (cases "local_user_create_ok p")
    case True
    then obtain r where c: "create_user store_rpc rq p d w = (r, d', w')" and out: "out = failure r"
      using step Create by (auto split: prod.splits)
    have "choices_ok rq" "user_by_id (ur_user_id rq) d = None" using served Create by (simp_all add: served_ok_def)
    then show ?thesis using create_stale[OF assms(1,2) _ c new_password_alnum(1)] unfolding out Create by blast
  qed (use step Create assms(1,2) in auto)
next
  case (Update rq uid p)
  show ?thesis
  proof (cases "local_user_update_ok p")
    case True
    then obtain r where "update_user store_rpc rq uid p d w = (r, d', w')" "out = failure r"
      using step Update by (auto split: prod.splits)
    then show ?thesis
      using update_stale[OF assms(1,2) True] served Update new_password_alnum(1) by (simp add: served_ok_def)
  qed (use step Update assms(1,2) in auto)
next
  case (Regenerate rq uid)
  then obtain r where "regenerate_password store_rpc rq uid d w = (r, d', w')" "out = failure r"
    using step by (auto split: prod.splits)
  then show ?thesis
    using regenerate_stale[OF assms(1,2)] served Regenerate new_password_alnum(1) by (simp add: served_ok_def)
next
  case (Delete rq uid)
  then obtain r where "delete_user store_rpc rq uid d w = (r, d', w')" using step by (auto split: prod.splits)
  then show ?thesis using delete_stale[OF assms(1,2)] Delete by simp
next
  case (Grant rq uid sid)
  then have "local_users d' = local_users d" "w' = w" using step by (auto dest!: grant_users split: prod.splits)
  then show ?thesis using assms(1,2) by (simp add: stale_def enabled_names_def)
next
  case (Revoke rq uid sid)
  then have "local_users d' = local_users d" "w' = w" using step by (auto dest!: revoke_users split: prod.splits)
  then show ?thesis using assms(1,2) by (simp add: stale_def enabled_names_def)
next
  case (Auto_disable aid now1 now2 now3)
  then have "rate_limit_abuse_tick store_delete aid now1 now2 now3 d w = (d', w')" using step by simp
  then show ?thesis using abuse_tick_stale[OF assms(1,2)] Auto_disable by auto
next
  case Restart
  obtain removed w0 where rec: "reconcile_sasldb store_rpc d w = (removed, w0)" by fastforce
  then have "w' = w0" "d' = d" using step Restart by simp_all
  then show ?thesis using reconcile_facts(1,3)[OF assms(1) rec] assms(2) Restart by auto
qed

lemma run_stale:
  assumes "inv w" "keys_distinct lu_id (local_users d)" "run_ok store_rpc evs (d, w)"
    and "user_run store_rpc evs (d, w) = (d', w')"
  shows "inv w' \<and> stale (creds w') d' \<subseteq> stale (creds w) d \<union> blamed_in store_rpc evs (d, w)"
  using assms
proof (induction evs arbitrary: d w)
  case (Cons ev evs)
  obtain out d1 w1 where step: "user_step store_rpc ev (d, w) = (out, d1, w1)" by (rule prod_cases3)
  note s = step_stale[OF Cons.prems(1,2) _ step]
  have f: "served_ok ev d" "run_ok store_rpc evs (d1, w1)" using Cons.prems(3) step by simp_all
  have "inv w' \<and> stale (creds w') d' \<subseteq> stale (creds w1) d1 \<union> blamed_in store_rpc evs (d1, w1)"
    using Cons.IH[of w1 d1] s[OF f(1)] f(2) Cons.prems(4) step by simp
  moreover have "blamed_in store_rpc (ev # evs) (d, w) = blamed ev out d \<union> blamed_in store_rpc evs (d1, w1)"
    by (simp add: step)
  ultimately show ?case using s[OF f(1)] by blast
qed simp

end

section \<open>On the control surface\<close>

lemma surface_rpc_eq: "surface_store.store_rpc = surface_sasl"
  by (simp add: surface_store.store_rpc_def surface_sasl_def)

lemmas surface_facts = surface_store.run_stale[unfolded surface_rpc_eq] surface_store.reconcile_facts[unfolded surface_rpc_eq]

lemma surface_sasl_simps [simp]:
  "sr_set surface_sasl = ctl_sasl_set_user" "sr_delete surface_sasl = ctl_sasl_delete_user"
  "sr_list surface_sasl = ctl_sasl_list_users"
  by (simp_all add: surface_sasl_def)

text \<open>
  C5. Who can authenticate: over any sequence of admin requests, automatic disablings and application
  starts, with the control surface lost, failing or timing out at any point, a live credential without an
  enabled user behind it existed already at the beginning or is accounted for: its name was left by a
  creation or re-enabling that answered 503, or by a regeneration for a disabled user.
\<close>

theorem live_credentials_accounted:
  assumes "store_ok users_in c" and "keys_distinct lu_id (local_users d)"
    and "run_ok surface_sasl evs (d, c)" and "user_run surface_sasl evs (d, c) = (d', c')"
  shows "stale (live_creds users_in c') d' \<subseteq> stale (live_creds users_in c) d \<union> blamed_in surface_sasl evs (d, c)"
  using surface_facts(1)[OF assms] by blast

text \<open>
  C28. The application start repairs drift (issue 185): reconciliation never touches the credential of an
  enabled user, whatever fails; the users it reports as removed were stale and are gone; no stale
  credential appears; and when the listing and every deletion succeed, none is left.
\<close>

theorem restart_reconciles:
  assumes "store_ok users_in c" and "reconcile_sasldb surface_sasl d c = (removed, c')"
  shows "(\<forall>u\<in>set (enabled_names d). live_creds users_in c' u = live_creds users_in c u) \<and>
    set removed \<subseteq> stale (live_creds users_in c) d \<and>
    stale (live_creds users_in c') d \<subseteq> stale (live_creds users_in c) d - set removed \<and>
    (\<forall>live c1. ctl_sasl_list_users c = (Inr live, c1) \<and>
        length removed = length (filter (\<lambda>u. u \<notin> set (enabled_names d)) live) \<longrightarrow>
      stale (live_creds users_in c') d = {})"
  using surface_facts(3-6)[OF assms] by blast

definition has_row :: "db \<Rightarrow> pystr \<Rightarrow> pystr \<Rightarrow> bool" where
  "has_row d username hash \<longleftrightarrow>
     (\<exists>u\<in>set (local_users d). lu_username u = username \<and> lu_enabled u \<and> lu_password_hash u = hash)"

lemma upd_user_row:
  "user_by_id uid d = Some u \<Longrightarrow> f u \<in> set (local_users (upd_user uid f d))"
  by (drule user_by_id_mem) (force simp: set_tbl_upd)

lemma create_reveals:
  assumes "store_ok users_in c" "choices_ok rq" "create_user surface_sasl rq p d c = (Inr (read, password), d', c')"
  shows "password = new_password rq" "live_creds users_in c' (lc_username p) = Some password"
    "has_row d' (lc_username p) (ur_hash rq password)"
proof -
  from assms(3) have all: "password = new_password rq \<and> live_creds users_in c' (lc_username p) = Some password \<and>
      has_row d' (lc_username p) (ur_hash rq password)"
  proof (cases rule: create_user_cases)
    case (created r)
    then have "live_creds users_in c' = (live_creds users_in c)(lc_username p \<mapsto> new_password rq)"
      using surface_store.set_ok[OF assms(1) new_password_alnum(1)[OF assms(2)]] by simp
    then show ?thesis using created(2) unfolding created(6) by (simp add: has_row_def created_user_def)
  qed simp_all
  then show "password = new_password rq" "live_creds users_in c' (lc_username p) = Some password"
    "has_row d' (lc_username p) (ur_hash rq password)" by blast+
qed

lemma regenerate_reveals:
  assumes "store_ok users_in c" "choices_ok rq" "regenerate_password surface_sasl rq uid d c = (Inr password, d', c')"
  shows "\<exists>u. user_by_id uid d = Some u \<and> password = new_password rq \<and>
      live_creds users_in c' (lu_username u) = Some password \<and>
      (lu_enabled u \<longrightarrow> has_row d' (lu_username u) (ur_hash rq password))"
  using assms(3)
proof (cases rule: regenerate_cases)
  case (changed u)
  let ?f = "\<lambda>u. u\<lparr>lu_password_hash := ur_hash rq (new_password rq), lu_password_last_rotated_at := Some (ur_now rq)\<rparr>"
  have "live_creds users_in c' = (live_creds users_in c)(lu_username u \<mapsto> new_password rq)"
    using changed(2) surface_store.set_ok[OF assms(1) new_password_alnum(1)[OF assms(2)]] by simp
  moreover have "?f u \<in> set (local_users d')"
    using upd_user_row[OF changed(1), of ?f] unfolding changed(4) by simp
  then have "lu_enabled u \<longrightarrow> has_row d' (lu_username u) (ur_hash rq (new_password rq))"
    unfolding has_row_def by (intro impI bexI[of _ "?f u"]) simp_all
  ultimately show ?thesis using changed(1,3) by auto
qed simp_all

lemma update_reveals:
  assumes "store_ok users_in c" "choices_ok rq" "local_user_update_ok p"
    and "update_user surface_sasl rq uid p d c = (Inr (read, Some password), d', c')"
  shows "\<exists>u. user_by_id uid d = Some u \<and> password = new_password rq \<and>
      live_creds users_in c' (lu_username u) = Some password \<and> has_row d' (lu_username u) (ur_hash rq password)"
  using assms(4,3)
proof (cases rule: update_cases)
  case (changed u switch revealed r)
  have row: "updated_user p u switch u \<in> set (local_users d')"
    using upd_user_row[OF changed(1)] unfolding changed(5) by simp
  have hash: "lu_password_hash (updated_user p u switch v) = lu_password_hash (switch v)" for v
    by (auto simp: updated_user_def Let_def split: option.splits)
  from changed(2) show ?thesis
  proof (cases rule: switch_cases)
    case reenabled
    have sw: "switch = reenabled_user rq" using reenabled(1) by simp
    have "live_creds users_in c' = (live_creds users_in c)(lu_username u \<mapsto> new_password rq)"
      using reenabled(4) surface_store.set_ok[OF assms(1) new_password_alnum(1)[OF assms(2)]] by simp
    moreover have "lu_username (updated_user p u switch u) = lu_username u \<and> lu_enabled (updated_user p u switch u) \<and>
        lu_password_hash (updated_user p u switch u) = ur_hash rq (new_password rq)"
      unfolding updated_user_keeps[OF changed(2)] updated_user_enabled hash by (simp add: sw reenabled_user_def)
    then have "has_row d' (lu_username u) (ur_hash rq (new_password rq))"
      unfolding has_row_def by (rule bexI[OF _ row])
    ultimately show ?thesis using changed(1,3) reenabled(1) by auto
  qed (use changed(3) in simp_all)
qed simp_all


text \<open>
  C7. A revocation is immediate: when deleting a user, or disabling an enabled one, is answered with
  success, the user has no live credential any more; after the deletion no row, permission, counter or
  bucket of the user is left.
\<close>

theorem revocation_is_immediate:
  assumes "store_ok users_in c" and "user_by_id uid d = Some u"
  shows "(delete_user surface_sasl rq uid d c = (Inr (), d', c') \<longrightarrow>
      live_creds users_in c' (lu_username u) = None \<and> user_by_id uid d' = None \<and>
      \<not> (\<exists>p\<in>set (permissions d'). pm_local_smtp_user_id p = uid) \<and>
      \<not> (\<exists>k\<in>set (counters d'). rc_local_smtp_user_id k = uid) \<and>
      \<not> (\<exists>b\<in>set (buckets d'). bb_local_smtp_user_id b = uid)) \<and>
    (local_user_update_ok q \<and> lp_enabled q = Some (Some False) \<and> lu_enabled u \<and>
      update_user surface_sasl rq uid q d c = (Inr read, d', c') \<longrightarrow>
      live_creds users_in c' (lu_username u) = None)"
proof (rule conjI; rule impI)
  assume "delete_user surface_sasl rq uid d c = (Inr (), d', c')"
  then show "live_creds users_in c' (lu_username u) = None \<and> user_by_id uid d' = None \<and>
      \<not> (\<exists>p\<in>set (permissions d'). pm_local_smtp_user_id p = uid) \<and>
      \<not> (\<exists>k\<in>set (counters d'). rc_local_smtp_user_id k = uid) \<and>
      \<not> (\<exists>b\<in>set (buckets d'). bb_local_smtp_user_id b = uid)"
  proof (cases rule: delete_cases')
    case (deleted v)
    then have v: "v = u" using assms(2) by simp
    show ?thesis
      using surface_store.delete_ok[OF assms(1), of "lu_username u" "()" c'] deleted(2) unfolding deleted(4) v
      by (simp add: user_by_id_def tbl_get_del audit_user_def cascade_user_def)
  qed simp_all
next
  assume a: "local_user_update_ok q \<and> lp_enabled q = Some (Some False) \<and> lu_enabled u \<and>
      update_user surface_sasl rq uid q d c = (Inr read, d', c')"
  then have "update_user surface_sasl rq uid q d c = (Inr read, d', c')" "local_user_update_ok q" by blast+
  then show "live_creds users_in c' (lu_username u) = None"
  proof (cases rule: update_cases)
    case (changed v switch revealed r)
    then have v: "v = u" using assms(2) by simp
    from changed(2) have "ctl_sasl_delete_user (lu_username u) c = (Inr (), c')"
      using a unfolding v by (auto simp: switch_enabled_def delete_sasl_or_503_def
          split: prod.splits sum.splits ctl_error.splits if_splits)
    then show ?thesis using surface_store.delete_ok[OF assms(1)] by auto
  qed simp_all
qed

text \<open>
  \<open>regenerate_password\<close> does not look at \<open>enabled\<close>: it gives a disabled user a working credential again,
  which the database does not show and only the next start removes.
\<close>

lemma regenerate_revives_disabled:
  assumes "store_ok users_in c" "choices_ok rq" "user_by_id uid d = Some u" "\<not> lu_enabled u"
    and "keys_distinct folded_name (local_users d)"
    and "regenerate_password surface_sasl rq uid d c = (Inr password, d', c')"
  shows "live_creds users_in c' (lu_username u) = Some password \<and> lu_username u \<in> stale (live_creds users_in c') d'"
proof -
  have live: "live_creds users_in c' (lu_username u) = Some password"
    using regenerate_reveals[OF assms(1,2,6)] assms(3) by auto
  have "lu_username u \<notin> set (enabled_names d)"
  proof
    assume "lu_username u \<in> set (enabled_names d)"
    then obtain v where v: "v \<in> set (local_users d)" "lu_enabled v" "lu_username v = lu_username u"
      unfolding in_enabled_names by (elim bexE conjE)
    then have "v = u"
      using keys_distinct_inj[OF assms(5) v(1), of u] user_by_id_mem[OF assms(3)] by (simp add: folded_name_def)
    then show False using v(2) assms(4) by simp
  qed
  moreover have "enabled_names d' = enabled_names d"
    using assms(6)
  proof (cases rule: regenerate_cases)
    case (changed v)
    let ?f = "\<lambda>u. u\<lparr>lu_password_hash := ur_hash rq (new_password rq), lu_password_last_rotated_at := Some (ur_now rq)\<rparr>"
    have "map lu_username (filter lu_enabled (tbl_upd lu_id uid ?f L)) = map lu_username (filter lu_enabled L)" for L
      by (induction L) auto
    then show ?thesis unfolding changed(4) by (simp add: enabled_names_def)
  qed simp_all
  ultimately show ?thesis using live unfolding stale_def by auto
qed

section \<open>Concrete runs\<close>

definition demo_sasl_channel :: channel where
  "demo_sasl_channel = demo_channel\<lparr>ch_env := demo_env\<lparr>sf_run := demo_sasl_tools\<rparr>,
     ch_machine := set_sasldb ''ghost:x'' demo_machine\<rparr>"

lemma demo_live: "live_creds demo_users_in demo_sasl_channel = [''ghost'' \<mapsto> ''x'']"
proof -
  have "map entry_of (entry_lines ''ghost:x'') = [(''ghost'', ''x'')]"
    by (simp add: entry_lines_def entry_of_def lf_def)
  then show ?thesis by (simp add: live_creds_def demo_sasl_channel_def set_sasldb_creds demo_users_in_def)
qed

lemma demo_store_ok: "store_ok demo_users_in demo_sasl_channel"
  by (simp add: store_ok_def demo_live usernames_ok_def) (simp add: demo_sasl_channel_def demo_sasl_tools_ok
      username_ok_def is_ascii_alnum_def is_ascii_alpha_def is_digit_def code_def)

theorem live_credentials_accounted_witness:
  "\<exists>d' c'. user_run surface_sasl [Create demo_user_request (demo_user_create ''printer''), Delete demo_user_request 1]
       (demo_mail_db, demo_sasl_channel) = (d', c') \<and>
     stale (live_creds demo_users_in c') d' \<subseteq> {''ghost'', ''printer''}"
proof -
  let ?evs = "[Create demo_user_request (demo_user_create ''printer''), Delete demo_user_request 1]"
  let ?s = "(demo_mail_db, demo_sasl_channel)"
  obtain d' c' where run: "user_run surface_sasl ?evs ?s = (d', c')" by fastforce
  have "run_ok surface_sasl ?evs ?s"
    by (simp add: served_ok_def demo_choices demo_user_by_id del: user_step.simps)
  from live_credentials_accounted[OF demo_store_ok demo_ids this run]
  have "stale (live_creds demo_users_in c') d' \<subseteq> stale [''ghost'' \<mapsto> ''x''] demo_mail_db \<union> blamed_in surface_sasl ?evs ?s"
    by (simp only: demo_live)
  moreover have "blamed_in surface_sasl ?evs ?s \<subseteq> {''printer''}"
    by (simp add: demo_user_create_def del: user_step.simps)
  ultimately show ?thesis using run by (auto simp: stale_def)
qed

theorem restart_reconciles_witness:
  "\<exists>removed c'. reconcile_sasldb surface_sasl demo_mail_db demo_sasl_channel = (removed, c') \<and>
     set removed \<subseteq> {''ghost''} \<and> stale (live_creds demo_users_in c') demo_mail_db \<subseteq> {''ghost''} - set removed"
proof -
  obtain removed c' where rec: "reconcile_sasldb surface_sasl demo_mail_db demo_sasl_channel = (removed, c')" by fastforce
  have "stale (live_creds demo_users_in demo_sasl_channel) demo_mail_db = {''ghost''}"
    by (simp add: demo_live stale_def demo_enabled)
  then show ?thesis using restart_reconciles[OF demo_store_ok rec] rec by auto
qed

lemma demo_set_user:
  assumes "username_ok u"
  shows "\<exists>c'. ctl_sasl_set_user u p demo_sasl_channel = (Inr (), c')"
proof -
  let ?m = "ch_machine demo_sasl_channel"
  let ?payload = "[(''op'', JStr ''sasl_set_user''), (''username'', JStr u), (''password'', JStr p)]"
  let ?m1 = "set_sasldb (entry_line u p @ lf # sasldb_content ?m) ?m"
  have healthy: "\<not> m_faulty ?m n" for n by (simp add: demo_sasl_channel_def set_sasldb_def demo_machine_def)
  have run: "demo_sasl_tools [''saslpasswd2'', ''-c'', ''-p'', ''-u'', SASL_REALM, u] (Some p) ?m =
      (Inr \<lparr>cp_returncode = 0, cp_stdout = [], cp_stderr = []\<rparr>, ?m1)"
    by (simp add: demo_sasl_tools_def Let_def)
  obtain m2 where sync: "sync_or_error ''saslpasswd2'' ?m1 = (Inr response_ok, m2)"
    using healthy by (auto simp: sync_or_error_def sync_sasldb_to_volume_def set_sasldb_def andthen_def open_trunc_def
        write_content_def syscall_def)
  have "sasl_set_user demo_sasl_tools ?payload ?m = (Inr response_ok, m2)"
    using assms run sync by (simp add: sasl_set_user_def andthen_def check_def require_username_def require_str_def jget_def)
  moreover have "handler_for (ch_env demo_sasl_channel) (JStr ''sasl_set_user'') = Some (sasl_set_user demo_sasl_tools)"
    by (simp add: handler_for_def demo_sasl_channel_def)
  moreover have "ch_fate demo_sasl_channel (ch_calls demo_sasl_channel) = Delivered"
    by (simp add: demo_sasl_channel_def demo_channel_def)
  ultimately show ?thesis
    by (simp add: ctl_sasl_set_user_def ctl_call_def reading_def handle_request_op response_ok_def jget_def truthy_def)
qed

lemma demo_created:
  "\<exists>read d' c'. create_user surface_sasl demo_user_request (demo_user_create ''printer'') demo_mail_db demo_sasl_channel =
     (Inr (read, replicate 24 (CHR ''a'')), d', c')"
proof -
  have ok: "username_ok ''printer''"
    by (simp add: username_ok_def is_ascii_alnum_def is_ascii_alpha_def is_digit_def code_def)
  have pw: "new_password demo_user_request = replicate 24 (CHR ''a'')"
    by (simp add: new_password_def generate_password_def DEFAULT_LENGTH_def demo_user_request_def PASSWORD_ALPHABET_def
        map_replicate_const)
  obtain c' where c': "ctl_sasl_set_user ''printer'' (new_password demo_user_request) demo_sasl_channel = (Inr (), c')"
    using demo_set_user[OF ok] by blast
  have free: "\<not> (\<exists>u\<in>set (local_users demo_mail_db). sql_lower (lu_username u) = lower ''printer'')"
    by (simp add: demo_mail_db_def grant_permission_def empty_db_def demo_mail_user_def sql_lower_def lower_def)
  have "\<not> deleted_since_last_apply demo_mail_db ''printer''"
    by (simp add: deleted_since_last_apply_def demo_mail_db_def grant_permission_def empty_db_def)
  then show ?thesis
    using free c' by (simp add: create_user_def demo_user_create_def rate_limits_ok_def set_sasl_or_503_def Let_def pw)
qed


lemma demo_delete_user:
  assumes "username_ok u"
  shows "\<exists>c'. ctl_sasl_delete_user u demo_sasl_channel = (Inr (), c')"
proof -
  let ?m = "ch_machine demo_sasl_channel"
  let ?payload = "[(''op'', JStr ''sasl_delete_user''), (''username'', JStr u)]"
  let ?m1 = "set_sasldb (join [lf] (filter (\<lambda>l. fst (entry_of l) \<noteq> u) (entry_lines (sasldb_content ?m)))) ?m"
  have healthy: "\<not> m_faulty ?m n" for n by (simp add: demo_sasl_channel_def set_sasldb_def demo_machine_def)
  have base: "\<exists>content. m_files ?m SASLDB = Some (content, 384)"
    by (simp add: demo_sasl_channel_def set_sasldb_def)
  obtain listing where list: "demo_sasl_tools [''sasldblistusers2''] None ?m = (Inr listing, ?m)" "cp_returncode listing = 0"
    by (simp add: demo_sasl_tools_def Let_def)
  have run: "demo_sasl_tools [''saslpasswd2'', ''-d'', ''-u'', SASL_REALM, u] None ?m =
      (Inr \<lparr>cp_returncode = 0, cp_stdout = [], cp_stderr = []\<rparr>, ?m1)"
    by (simp add: demo_sasl_tools_def Let_def)
  have sync: "\<exists>m2. sync_or_error ''saslpasswd2 -d'' ?m1 = (Inr response_ok, m2)"
    "\<exists>m2. sync_or_error ''saslpasswd2 -d'' ?m = (Inr response_ok, m2)"
    using healthy base by (auto simp: sync_or_error_def sync_sasldb_to_volume_def set_sasldb_def andthen_def open_trunc_def
        write_content_def syscall_def)
  then have "\<exists>m2. sasl_delete_user demo_sasl_tools ?payload ?m = (Inr response_ok, m2)"
    using assms run list
    by (auto simp: sasl_delete_user_def sasl_user_exists_def andthen_def check_def return_def require_username_def
        require_str_def jget_def)
  then obtain m2 where "sasl_delete_user demo_sasl_tools ?payload ?m = (Inr response_ok, m2)" by blast
  moreover have "handler_for (ch_env demo_sasl_channel) (JStr ''sasl_delete_user'') = Some (sasl_delete_user demo_sasl_tools)"
    by (simp add: handler_for_def demo_sasl_channel_def)
  moreover have "ch_fate demo_sasl_channel (ch_calls demo_sasl_channel) = Delivered"
    by (simp add: demo_sasl_channel_def demo_channel_def)
  ultimately show ?thesis
    by (simp add: ctl_sasl_delete_user_def ctl_call_def reading_def handle_request_op response_ok_def jget_def truthy_def)
qed

theorem revocation_is_immediate_witness:
  "\<exists>d' c'. delete_user surface_sasl demo_user_request 1 demo_mail_db demo_sasl_channel = (Inr (), d', c') \<and>
     live_creds demo_users_in c' ''app'' = None \<and> permissions d' = []"
proof -
  have ok: "username_ok ''app''"
    by (simp add: username_ok_def is_ascii_alnum_def is_ascii_alpha_def is_digit_def code_def)
  have name: "lu_username demo_mail_user = ''app''" by (simp add: demo_mail_user_def)
  obtain c' where c': "ctl_sasl_delete_user ''app'' demo_sasl_channel = (Inr (), c')" using demo_delete_user[OF ok] by blast
  define d' where "d' = audit_user demo_user_request ''local_user.delete'' 1 [(''username'', JStr ''app'')]
      (cascade_user 1 demo_mail_db)"
  have del: "delete_user surface_sasl demo_user_request 1 demo_mail_db demo_sasl_channel = (Inr (), d', c')"
    using c' by (simp add: delete_user_def demo_user_by_id(1) name delete_sasl_or_503_def d'_def)
  note r = revocation_is_immediate[OF demo_store_ok demo_user_by_id(1), THEN conjunct1, rule_format, OF del, unfolded name]
  have "permissions d' = []"
    by (simp add: d'_def cascade_user_def demo_mail_db_def grant_permission_def empty_db_def)
  then show ?thesis using r del by blast
qed

end
