(* ===== verification/Username_Reuse.thy ===== *)
theory Username_Reuse
  imports User_Events
begin

text \<open>
  Applying a configuration is a manual step, so the live login map may still list the name of a deleted
  user.  The check \<open>_deleted_since_last_apply\<close> keeps such a name from being given to somebody else.
\<close>

section \<open>Names of deleted users\<close>

text \<open>
  A name is accounted for when a user still has it, or its deletion is on record after the last applied
  configuration.
\<close>

definition accounted :: "pystr \<Rightarrow> db \<Rightarrow> bool" where
  "accounted n d \<longleftrightarrow> (\<exists>u\<in>set (local_users d). lu_username u = n) \<or> deleted_since_last_apply d n"

definition deletes_after :: "datetime option \<Rightarrow> user_event \<Rightarrow> bool" where
  "deletes_after t ev \<longleftrightarrow> (case (ev, t) of (Delete rq uid, Some t) \<Rightarrow> t < ur_audit_at rq | _ \<Rightarrow> True)"

lemma pending_mono:
  "set (audits d) \<subseteq> set (audits d') \<Longrightarrow> generations d' = generations d \<Longrightarrow>
   deleted_since_last_apply d n \<Longrightarrow> deleted_since_last_apply d' n"
  unfolding deleted_since_last_apply_def last_applied_def by auto

lemma accounted_mono:
  assumes "accounted n d" "set (audits d) \<subseteq> set (audits d')" "generations d' = generations d"
    and "lu_username ` set (local_users d) \<subseteq> lu_username ` set (local_users d')"
  shows "accounted n d'"
  using assms(1,4) pending_mono[OF assms(2,3)] unfolding accounted_def by (metis image_iff subsetD)

lemma audit_user_audits: "set (audits d) \<subseteq> set (audits (audit_user rq a k e d))"
  by (simp add: audit_user_def)

lemma permission_audits:
  "grant rq uid sid d = (r, d') \<Longrightarrow> set (audits d) \<subseteq> set (audits d')"
  "revoke rq uid sid d = (r', d'') \<Longrightarrow> set (audits d) \<subseteq> set (audits d'')"
  by (auto simp: grant_def revoke_def audit_permission_def grant_permission_def revoke_permission_def record_audit_def
      split: option.splits)

lemma disable_loop_audits:
  "disable_loop del aid now us d w = (out, d', w') \<Longrightarrow> set (audits d) \<subseteq> set (audits d') \<and> generations d' = generations d"
proof (induction us arbitrary: d w out d' w')
  case (Cons u us)
  have one: "set (audits d) \<subseteq> set (audits (disable_user aid now u d))" "generations (disable_user aid now u d) = generations d"
    by (auto simp: disable_user_def record_audit_def upd_user_def)
  obtain r w1 where "del (lu_username u) w = (r, w1)" by fastforce
  then show ?case
    using Cons.prems Cons.IH one by (cases r) (fastforce split: prod.splits)+
qed simp

lemma abuse_tick_audits:
  assumes "rate_limit_abuse_tick del aid now1 now2 now3 d w = (d', w')"
  shows "set (audits d) \<subseteq> set (audits d') \<and> generations d' = generations d"
proof (cases "rs_rate_limit_abuse_auto_disable_enabled (the_settings d)")
  case False
  then show ?thesis
    using assms by (auto simp: rate_limit_abuse_tick_def run_rate_limit_abuse_detection_def get_relay_settings_eq)
next
  case True
  let ?cand = "filter (abuse_candidate (now1 - minutes (rs_rate_limit_abuse_threshold_minutes (the_settings d)))
        (now2 - DEFER_STREAK_GAP)) (local_users d)"
  obtain out where "disable_loop del aid now3 ?cand (d\<lparr>settings_row := Some (the_settings d)\<rparr>) w = (out, d', w')"
    using assms True
    by (simp add: rate_limit_abuse_tick_def run_rate_limit_abuse_detection_def get_relay_settings_eq Let_def)
      (metis prod.collapse snd_conv)
  from disable_loop_audits[OF this] show ?thesis by simp
qed

lemma upd_user_names:
  "(\<And>v. lu_username (f v) = lu_username v) \<Longrightarrow>
   lu_username ` set (local_users (upd_user uid f d)) = lu_username ` set (local_users d)"
  unfolding list.set_map[symmetric] by (simp add: map_tbl_upd)

lemma upd_user_audits [simp]: "audits (upd_user uid f d) = audits d" "generations (upd_user uid f d) = generations d"
  by (simp_all add: upd_user_def)

lemma step_accounted:
  assumes ids: "keys_distinct lu_id (local_users d)" and acc: "accounted n d" and late: "deletes_after (last_applied d) ev"
    and step: "user_step R ev (d, w) = (out, d', w')"
  shows "accounted n d' \<and> generations d' = generations d"
proof (cases ev)
  case (Create rq p)
  then consider "d' = d" | r where "create_user R rq p d w = (r, d', w')"
    using step by (auto split: if_splits prod.splits)
  then show ?thesis
  proof cases
    case 2
    then show ?thesis
    proof (cases rule: create_user_cases)
      case (created read)
      have "generations d' = generations d" unfolding created(6) by simp
      moreover have "set (audits d) \<subseteq> set (audits d')" unfolding created(6) by (simp add: audit_user_def record_audit_def subset_insertI)
      moreover have "lu_username ` set (local_users d) \<subseteq> lu_username ` set (local_users d')" unfolding created(6) by auto
      ultimately show ?thesis using accounted_mono[OF acc] by blast
    qed (use acc in simp_all)
  qed (use acc in simp)
next
  case (Update rq uid p)
  then consider "d' = d" | r where "update_user R rq uid p d w = (r, d', w')" "local_user_update_ok p"
    using step by (auto split: if_splits prod.splits)
  then show ?thesis
  proof cases
    case 2
    then show ?thesis
    proof (cases rule: update_cases)
      case (changed u switch revealed read)
      have "generations d' = generations d" unfolding changed(5) by simp
      moreover have "set (audits d) \<subseteq> set (audits d')"
        unfolding changed(5) by (simp add: audit_user_def record_audit_def subset_insertI)
      moreover have "lu_username ` set (local_users d) \<subseteq> lu_username ` set (local_users d')"
        using upd_user_names[of "updated_user p u switch"] updated_user_keeps(2)[OF changed(2)] unfolding changed(5) by simp
      ultimately show ?thesis using accounted_mono[OF acc] by blast
    qed (use acc in simp_all)
  qed (use acc in simp)
next
  case (Regenerate rq uid)
  then obtain r where "regenerate_password R rq uid d w = (r, d', w')" using step by (auto split: prod.splits)
  then show ?thesis
  proof (cases rule: regenerate_cases)
    case (changed u)
    have "generations d' = generations d" unfolding changed(4) by simp
    moreover have "set (audits d) \<subseteq> set (audits d')"
      unfolding changed(4) by (simp add: audit_user_def record_audit_def subset_insertI)
    moreover have "lu_username ` set (local_users d) \<subseteq> lu_username ` set (local_users d')"
      using upd_user_names[of "\<lambda>u. u\<lparr>lu_password_hash := ur_hash rq (new_password rq),
          lu_password_last_rotated_at := Some (ur_now rq)\<rparr>"] unfolding changed(4) by simp
    ultimately show ?thesis using accounted_mono[OF acc] by blast
  qed (use acc in simp_all)
next
  case (Delete rq uid)
  then obtain r where "delete_user R rq uid d w = (r, d', w')" using step by (auto split: prod.splits)
  then show ?thesis
  proof (cases rule: delete_cases')
    case (deleted u)
    have gens: "generations d' = generations d" unfolding deleted(4) by simp
    have audits: "set (audits d) \<subseteq> set (audits d')"
      unfolding deleted(4) by (simp add: audit_user_def record_audit_def subset_insertI)
    show ?thesis
    proof (cases "n = lu_username u")
      case True
      have "deleted_since_last_apply d' n"
        using late gens unfolding deleted(4) True deletes_after_def Delete
        by (auto simp: deleted_since_last_apply_def audit_user_def record_audit_def jget_def last_applied_def
            split: option.splits)
      then show ?thesis using gens unfolding accounted_def by blast
    next
      case False
      have "\<exists>v\<in>set (local_users d'). lu_username v = n" if v: "v \<in> set (local_users d)" "lu_username v = n" for v
      proof -
        have "lu_id v \<noteq> uid"
          using keys_distinct_inj[OF ids v(1), of u] user_by_id_mem[OF deleted(1)] False v(2) by metis
        then show ?thesis using v unfolding deleted(4) by auto
      qed
      then show ?thesis using acc pending_mono[OF audits gens] gens unfolding accounted_def by blast
    qed
  qed (use acc in simp_all)
next
  case (Grant rq uid sid)
  then obtain r where g: "grant rq uid sid d = (r, d')" using step by (auto split: prod.splits)
  show ?thesis using accounted_mono[OF acc permission_audits(1)[OF g]] grant_users[OF g] by simp
next
  case (Revoke rq uid sid)
  then obtain r where g: "revoke rq uid sid d = (r, d')" using step by (auto split: prod.splits)
  show ?thesis using accounted_mono[OF acc permission_audits(2)[OF g]] revoke_users[OF g] by simp
next
  case (Auto_disable aid now1 now2 now3)
  then have t: "rate_limit_abuse_tick (sr_delete R) aid now1 now2 now3 d w = (d', w')" using step by simp
  then obtain s where users: "local_users d' = map (\<lambda>v. if lu_id v \<in> s then v\<lparr>lu_enabled := False\<rparr> else v) (local_users d)"
    by (rule abuse_tick_users)
  have "map lu_username (local_users d') = map lu_username (local_users d)" unfolding users by simp
  then have "lu_username ` set (local_users d) \<subseteq> lu_username ` set (local_users d')"
    unfolding list.set_map[symmetric] by simp
  then show ?thesis using accounted_mono[OF acc] abuse_tick_audits[OF t] by blast
next
  case Restart
  then show ?thesis using step acc by simp
qed

lemma run_accounted:
  assumes "keys_distinct lu_id (local_users d)" "accounted n d" "run_ok R evs (d, w)"
    and "\<forall>ev\<in>set evs. deletes_after (last_applied d) ev" "user_run R evs (d, w) = (d', w')"
  shows "accounted n d'"
  using assms
proof (induction evs arbitrary: d w)
  case (Cons ev evs)
  obtain out d1 w1 where step: "user_step R ev (d, w) = (out, d1, w1)" by (rule prod_cases3)
  have served: "served_ok ev d" "run_ok R evs (d1, w1)" using Cons.prems(3) step by simp_all
  have one: "accounted n d1" "generations d1 = generations d"
    using step_accounted[OF Cons.prems(1,2) _ step] Cons.prems(4) by simp_all
  have "last_applied d1 = last_applied d" using one(2) by (simp add: last_applied_def)
  then show ?case
    using Cons.IH[OF step_ids[OF Cons.prems(1) served(1) step] one(1) served(2)] Cons.prems(4,5) step by simp
qed simp

lemma accounted_refused:
  assumes "users_wf d" "accounted (lc_username p) d"
  shows "\<exists>e. create_user R rq p d w = (Inl e, d, w) \<and> e \<in> {username_taken, deletion_pending (lc_username p)}"
proof (cases "\<exists>u\<in>set (local_users d). sql_lower (lu_username u) = lower (lc_username p)")
  case True
  then show ?thesis by (simp add: create_user_def)
next
  case False
  have "sql_lower (lu_username u) = lower (lu_username u)" if "u \<in> set (local_users d)" for u
    using assms(1) that by (simp add: users_wf_def user_ok_def sql_lower_username)
  then have "\<not> (\<exists>u\<in>set (local_users d). lu_username u = lc_username p)" using False by metis
  then have "deleted_since_last_apply d (lc_username p)" using assms(2) unfolding accounted_def by blast
  then show ?thesis using False by (simp add: create_user_def)
qed



text \<open>
  The check compares names exactly, while usernames are otherwise unique without regard to case because
  Postfix folds them: after \<open>app\<close> is deleted, \<open>App\<close> can be created at once.
\<close>

lemma case_variant_not_pending:
  "\<exists>d'. deleted_since_last_apply d' ''app'' \<and> \<not> deleted_since_last_apply d' ''App'' \<and> lower ''App'' = lower ''app''"
proof -
  let ?d = "audit_user demo_user_request ''local_user.delete'' 1 [(''username'', JStr ''app'')] empty_db"
  have "deleted_since_last_apply ?d ''app'' \<and> \<not> deleted_since_last_apply ?d ''App''"
    by (simp add: deleted_since_last_apply_def audit_user_def record_audit_def last_applied_def empty_db_def jget_def)
  moreover have "lower ''App'' = lower ''app''" by code_simp
  ultimately show ?thesis by blast
qed

end
