(* ===== verification/Upstream_Test.thy ===== *)
theory Upstream_Test
  imports Interval_Job Secrets
begin

text \<open>
  The application's own SMTP sessions with an upstream server: \<open>core/smtp_transport.py\<close>,
  \<open>core/test_connection.py\<close>, \<open>core/upstream_testing.py\<close>, \<open>core/scheduled_tests.py\<close> and the sending half of
  \<open>core/mailer.py\<close>.  \<open>smtplib\<close> and the resolver are the record \<open>upstream_net\<close> of what each call of one
  session returns or raises; every call is also recorded in a trace, in order.  A byte string from the
  server is in its decoded form.
\<close>

section \<open>The network\<close>

text \<open>
  What \<open>smtplib\<close>, \<open>ssl\<close> and \<open>socket\<close> raise: the first four are subclasses of \<open>OSError\<close> (\<open>SMTPException\<close>
  is one, too), a \<open>ValueError\<close> and anything else are not.
\<close>

datatype net_exn =
    SSLError pystr
  | SMTPConnectError pystr
  | SMTPException pystr
  | SocketError pystr
  | NetValueError pystr
  | OtherException pystr

fun exn_text :: "net_exn \<Rightarrow> pystr" where
  "exn_text (SSLError t) = t" | "exn_text (SMTPConnectError t) = t" | "exn_text (SMTPException t) = t"
| "exn_text (SocketError t) = t" | "exn_text (NetValueError t) = t" | "exn_text (OtherException t) = t"

definition is_os_error :: "net_exn \<Rightarrow> bool" where
  "is_os_error e \<longleftrightarrow> (case e of NetValueError _ \<Rightarrow> False | OtherException _ \<Rightarrow> False | _ \<Rightarrow> True)"

record upstream_net =
  un_resolve :: "net_exn + unit"
  un_connect :: "net_exn + int \<times> pystr"
  un_ehlo :: "net_exn + unit"
  un_starttls :: "net_exn + int \<times> pystr"
  un_ehlo_again :: "net_exn + unit"
  un_login :: "net_exn + int \<times> pystr"
  un_send :: "net_exn + unit"

text \<open>The calls of a session; the flag of a TLS session says that the certificate is verified.\<close>

datatype smtp_call =
    Connect_plain pystr int
  | Connect_tls pystr int bool
  | Ehlo
  | Start_tls pystr bool
  | Login pystr pystr
  | Send_message pystr pystr pystr pystr
  | Quit

type_synonym 'a session = "(net_exn + 'a) \<times> smtp_call list"

definition tls_context :: "bool \<Rightarrow> bool" where
  "tls_context skip_verify = (\<not> skip_verify)"

definition code_text :: "int \<times> pystr \<Rightarrow> pystr" where
  "code_text r = str_of_int (fst r) @ '' '' @ snd r"

definition connect_and_greet :: "upstream_net \<Rightarrow> pystr \<Rightarrow> int \<Rightarrow> tls_mode \<Rightarrow> bool \<Rightarrow> pystr session" where
  "connect_and_greet N host port tls_mode skip_verify =
     (case un_connect N of Inl e \<Rightarrow> Inl e | Inr r \<Rightarrow> Inr (code_text r),
      [case tls_mode of Implicit \<Rightarrow> Connect_tls host port (tls_context skip_verify) | Starttls \<Rightarrow> Connect_plain host port])"

definition upgrade_to_starttls :: "upstream_net \<Rightarrow> pystr \<Rightarrow> bool \<Rightarrow> pystr session" where
  "upgrade_to_starttls N host skip_verify =
     (case un_ehlo N of Inl e \<Rightarrow> (Inl e, [Ehlo])
      | Inr _ \<Rightarrow>
          (case un_starttls N of Inl e \<Rightarrow> (Inl e, [Ehlo, Start_tls host (tls_context skip_verify)])
           | Inr r \<Rightarrow>
               (case un_ehlo_again N of Inl e \<Rightarrow> Inl e | Inr _ \<Rightarrow> Inr (code_text r),
                [Ehlo, Start_tls host (tls_context skip_verify), Ehlo])))"

section \<open>Testing a connection\<close>

definition CANONICAL_STEPS :: "pystr list" where
  "CANONICAL_STEPS = [''DNS resolution'', ''TCP connection'', ''TLS handshake'', ''Server greeting'', ''AUTH'']"

record step_result =
  st_name :: pystr
  st_passed :: bool
  st_detail :: pystr

type_synonym test_report = "step_result list"

definition succeeded :: "test_report \<Rightarrow> bool" where
  "succeeded steps \<longleftrightarrow> (\<forall>s\<in>set steps. st_passed s)"

definition not_attempted :: "pystr \<Rightarrow> bool \<Rightarrow> step_result" where
  "not_attempted name previous_failed = \<lparr>st_name = name, st_passed = False,
     st_detail = (if previous_failed then ''Not attempted '' @ em_dash @ '' a previous step failed'' else ''Not attempted'')\<rparr>"

fun finalize_from :: "(pystr \<times> bool \<times> pystr) list \<Rightarrow> bool \<Rightarrow> pystr list \<Rightarrow> test_report" where
  "finalize_from results previous_failed [] = []"
| "finalize_from results previous_failed (name # names) =
     (let step = (case map_of results name of
            Some (passed, detail) \<Rightarrow> \<lparr>st_name = name, st_passed = passed, st_detail = detail\<rparr>
          | None \<Rightarrow> not_attempted name previous_failed)
      in step # finalize_from results (previous_failed \<or> \<not> st_passed step) names)"

definition finalize_report :: "(pystr \<times> bool \<times> pystr) list \<Rightarrow> test_report" where
  "finalize_report results = finalize_from results False CANONICAL_STEPS"

definition tls_done :: "tls_mode \<Rightarrow> (pystr \<times> bool \<times> pystr) list" where
  "tls_done tls_mode = (if tls_mode = Implicit
     then [(''TLS handshake'', True, ''Implicit TLS established during connection'')] else [])"

text \<open>The last part: AUTH over the established session.\<close>

definition test_auth ::
  "upstream_net \<Rightarrow> pystr \<Rightarrow> pystr \<Rightarrow> (pystr \<times> bool \<times> pystr) list \<Rightarrow> smtp_call list \<Rightarrow> test_report session" where
  "test_auth N username password results trace =
     (case un_login N of
        Inr r \<Rightarrow> (Inr (finalize_report (results @ [(''AUTH'', True, code_text r)])), trace @ [Login username password, Quit])
      | Inl e \<Rightarrow>
          (if is_os_error e then Inr (finalize_report (results @ [(''AUTH'', False, exn_text e)])) else Inl e,
           trace @ [Login username password, Quit]))"

text \<open>\<open>except (SMTPException, SSLError, OSError, ValueError)\<close>\<close>

definition starttls_failure :: "net_exn \<Rightarrow> bool" where
  "starttls_failure e \<longleftrightarrow> (case e of OtherException _ \<Rightarrow> False | _ \<Rightarrow> True)"

definition test_upstream_connection ::
  "upstream_net \<Rightarrow> pystr \<Rightarrow> int \<Rightarrow> tls_mode \<Rightarrow> pystr \<Rightarrow> pystr \<Rightarrow> bool \<Rightarrow> test_report session" where
  "test_upstream_connection N host port tls_mode username password tls_skip_verify =
     (case un_resolve N of
        Inl e \<Rightarrow> (if is_os_error e then Inr (finalize_report [(''DNS resolution'', False, exn_text e)]) else Inl e, [])
      | Inr _ \<Rightarrow>
          (let dns = (''DNS resolution'', True, ''Resolved '' @ host);
               tcp = (''TCP connection'', True, ''Connected to '' @ host @ '':'' @ str_of_int port);
               (connected, t1) = connect_and_greet N host port tls_mode tls_skip_verify
           in case connected of
                Inl (SSLError e) \<Rightarrow> (Inr (finalize_report [dns, tcp, (''TLS handshake'', False, e)]), t1)
              | Inl (SMTPConnectError e) \<Rightarrow>
                  (Inr (finalize_report ([dns, tcp] @ tls_done tls_mode @ [(''Server greeting'', False, e)])), t1)
              | Inl e \<Rightarrow>
                  (if is_os_error e then Inr (finalize_report [dns, (''TCP connection'', False, exn_text e)]) else Inl e, t1)
              | Inr greeting \<Rightarrow>
                  (let so_far = [dns, tcp] @ tls_done tls_mode @ [(''Server greeting'', True, greeting)]
                   in if tls_mode = Implicit then test_auth N username password so_far t1
                      else
                        (let (upgraded, t2) = upgrade_to_starttls N host tls_skip_verify
                         in case upgraded of
                              Inl e \<Rightarrow>
                                (if starttls_failure e
                                 then (Inr (finalize_report (so_far @ [(''TLS handshake'', False, exn_text e)])), t1 @ t2 @ [Quit])
                                 else (Inl e, t1 @ t2))
                            | Inr tls_detail \<Rightarrow>
                                test_auth N username password (so_far @ [(''TLS handshake'', True, tls_detail)]) (t1 @ t2)))))"

section \<open>Sending a message\<close>

text \<open>
  \<open>EmailMessage\<close> refuses a header value with a line break; \<open>formataddr\<close> of the standard library is an
  argument.  The fields of \<open>Send_message\<close> are From, To, Subject and the content.
\<close>

definition header_ok :: "pystr \<Rightarrow> bool" where
  "header_ok v \<longleftrightarrow> CHR 10 \<notin> set v \<and> CHR 13 \<notin> set v"

datatype mail_error = Mail_secret secret_error | Mail_net net_exn

definition from_header :: "(pystr \<Rightarrow> pystr \<Rightarrow> pystr) \<Rightarrow> pystr option \<Rightarrow> pystr \<Rightarrow> pystr" where
  "from_header formataddr from_name address =
     (case from_name of Some (c # cs) \<Rightarrow> formataddr (c # cs) address | _ \<Rightarrow> address)"

text \<open>The body of the \<open>try\<close>, after the connection.\<close>

definition mail_session ::
  "(pystr \<Rightarrow> pystr \<Rightarrow> pystr) \<Rightarrow> upstream_net \<Rightarrow> sender \<Rightarrow> upstream_account \<Rightarrow> pystr \<Rightarrow> pystr list \<Rightarrow> pystr \<Rightarrow> pystr \<Rightarrow>
   pystr option \<Rightarrow> unit session" where
  "mail_session formataddr N s a password to_addrs subject body from_name =
     (let (tls, t2) = (if ua_tls_mode a = Implicit then (Inr [], [])
                       else upgrade_to_starttls N (ua_host a) (ua_tls_skip_verify a));
          from = from_header formataddr from_name (sn_address s);
          recipients = join '', '' to_addrs
      in case tls of
           Inl e \<Rightarrow> (Inl e, t2)
         | Inr _ \<Rightarrow>
             (case un_login N of
                Inl e \<Rightarrow> (Inl e, t2 @ [Login (ua_username a) password])
              | Inr _ \<Rightarrow>
                  if \<not> (header_ok from \<and> header_ok recipients \<and> header_ok subject)
                  then (Inl (NetValueError ''Header values may not contain linefeed or carriage return characters''),
                        t2 @ [Login (ua_username a) password])
                  else (un_send N, t2 @ [Login (ua_username a) password, Send_message from recipients subject body])))"

definition send_alert_email ::
  "(bytes \<Rightarrow> secret_error + pystr) \<Rightarrow> (pystr \<Rightarrow> pystr \<Rightarrow> pystr) \<Rightarrow> upstream_net \<Rightarrow> sender \<Rightarrow> upstream_account \<Rightarrow>
   pystr list \<Rightarrow> pystr \<Rightarrow> pystr \<Rightarrow> pystr option \<Rightarrow> (mail_error + unit) \<times> smtp_call list" where
  "send_alert_email decrypt formataddr N s a to_addrs subject body from_name =
     (case decrypt (ua_encrypted_password a) of
        Inl e \<Rightarrow> (Inl (Mail_secret e), [])
      | Inr password \<Rightarrow>
          (let (connected, t1) = connect_and_greet N (ua_host a) (ua_port a) (ua_tls_mode a) (ua_tls_skip_verify a)
           in case connected of
                Inl e \<Rightarrow> (Inl (Mail_net e), t1)
              | Inr _ \<Rightarrow>
                  (let (r, t) = mail_session formataddr N s a password to_addrs subject body from_name
                   in (case r of Inl e \<Rightarrow> Inl (Mail_net e) | Inr _ \<Rightarrow> Inr (), t1 @ t @ [Quit]))))"

section \<open>Keeping the result\<close>

definition apply_test_result :: "datetime \<Rightarrow> test_report \<Rightarrow> upstream_account \<Rightarrow> upstream_account" where
  "apply_test_result now report a =
     a\<lparr>ua_last_test_at := Some now,
       ua_last_test_result := Some (if succeeded report then Test_success else Test_failure),
       ua_last_test_error := (if succeeded report then None
         else Some (join ''; '' (map (\<lambda>s. st_name s @ '': '' @ st_detail s) (filter (\<lambda>s. \<not> st_passed s) report))))\<rparr>"

definition upd_account :: "int \<Rightarrow> (upstream_account \<Rightarrow> upstream_account) \<Rightarrow> db \<Rightarrow> db" where
  "upd_account account_id f d = d\<lparr>accounts := tbl_upd ua_id account_id f (accounts d)\<rparr>"

section \<open>The scheduled batch\<close>

text \<open>
  The loop over the enabled accounts: \<open>net a\<close> is the network as the session for \<open>a\<close> meets it, \<open>clock a\<close>
  the time its result is stamped with.  An account whose password does not decrypt is skipped; an exception
  the test does not turn into a step, or a decrypted password that is not UTF-8, leaves the loop, and nothing
  of the batch is committed.
\<close>

fun test_batch ::
  "(bytes \<Rightarrow> secret_error + pystr) \<Rightarrow> (upstream_account \<Rightarrow> upstream_net) \<Rightarrow> (upstream_account \<Rightarrow> datetime) \<Rightarrow>
   upstream_account list \<Rightarrow> db \<Rightarrow> nat \<times> nat \<Rightarrow> (net_exn + nat \<times> nat) \<times> db \<times> smtp_call list" where
  "test_batch decrypt net clock [] d counts = (Inr counts, d, [])"
| "test_batch decrypt net clock (a # rest) d counts =
     (case decrypt (ua_encrypted_password a) of
        Inl UnicodeDecodeError \<Rightarrow> (Inl (NetValueError ''invalid start byte''), d, [])
      | Inl _ \<Rightarrow> test_batch decrypt net clock rest d counts
      | Inr password \<Rightarrow>
          (let (result, t) = test_upstream_connection (net a) (ua_host a) (ua_port a) (ua_tls_mode a) (ua_username a)
                               password (ua_tls_skip_verify a)
           in case result of
                Inl e \<Rightarrow> (Inl e, d, t)
              | Inr report \<Rightarrow>
                  (let (r, d', ts) = test_batch decrypt net clock rest
                         (upd_account (ua_id a) (apply_test_result (clock a) report) d)
                         (Suc (fst counts), snd counts + (if succeeded report then 0 else 1))
                   in (r, d', t @ ts))))"

definition run_connection_test_batch ::
  "(bytes \<Rightarrow> secret_error + pystr) \<Rightarrow> (upstream_account \<Rightarrow> upstream_net) \<Rightarrow> (upstream_account \<Rightarrow> datetime) \<Rightarrow>
   int \<Rightarrow> datetime \<Rightarrow> db \<Rightarrow> (net_exn + nat) \<times> db \<times> smtp_call list" where
  "run_connection_test_batch decrypt net clock audit_id now d =
     (case test_batch decrypt net clock (filter ua_enabled (accounts d)) d (0, 0) of
        (Inl e, _, t) \<Rightarrow> (Inl e, d, t)
      | (Inr (tested, failures), d', t) \<Rightarrow>
          (Inr tested,
           if tested = 0 then d'
           else record_audit audit_id now None ''upstream_account.scheduled_test'' None None
             (Some [(''tested'', JInt (int tested)), (''failures'', JInt (int failures))]) None d', t))"

text \<open>
  One tick, with the clock readings for the elapsed time and the stamp.  A tick that returns early, or
  whose batch raises, closes its session without a commit.
\<close>

record test_tick =
  tt_started :: datetime
  tt_stamped :: datetime
  tt_net :: "upstream_account \<Rightarrow> upstream_net"
  tt_clock :: "upstream_account \<Rightarrow> datetime"
  tt_audit_id :: int
  tt_audit_at :: datetime

definition connection_test_tick :: "(bytes \<Rightarrow> secret_error + pystr) \<Rightarrow> test_tick \<Rightarrow> db \<Rightarrow> db \<times> smtp_call list" where
  "connection_test_tick decrypt e d0 =
     (let (settings, d1) = get_relay_settings d0
      in case rs_connection_test_interval_minutes settings of
           None \<Rightarrow> (d0, [])
         | Some interval \<Rightarrow>
             (let (state, d2) = get_background_job_state d1
              in if (case bj_connection_test_last_run_at state of None \<Rightarrow> False
                     | Some t \<Rightarrow> tt_started e - t < minutes interval)
                 then (d0, [])
                 else case run_connection_test_batch decrypt (tt_net e) (tt_clock e) (tt_audit_id e) (tt_audit_at e) d2 of
                     (Inl _, _, t) \<Rightarrow> (d0, t)
                   | (Inr _, d3, t) \<Rightarrow>
                       (d3\<lparr>job_state := Some (state\<lparr>bj_connection_test_last_run_at := Some (tt_stamped e)\<rparr>)\<rparr>, t)))"

section \<open>What a session does\<close>

text \<open>
  A trace that keeps the password safe: it starts with the connection to the account's server, and a login
  comes only over a TLS session with that server that was established with the verification the account
  asks for (during the connection, or by a successful STARTTLS before the login); nothing is sent before
  the login.
\<close>

definition tls_open :: "upstream_net \<Rightarrow> pystr \<Rightarrow> int \<Rightarrow> tls_mode \<Rightarrow> bool \<Rightarrow> smtp_call list \<Rightarrow> bool" where
  "tls_open N host port tls_mode skip trace \<longleftrightarrow>
     (case tls_mode of
        Implicit \<Rightarrow> trace = [Connect_tls host port (\<not> skip)] \<and> (\<exists>r. un_connect N = Inr r)
      | Starttls \<Rightarrow> trace = [Connect_plain host port, Ehlo, Start_tls host (\<not> skip), Ehlo] \<and> (\<exists>r. un_starttls N = Inr r))"

definition no_secrets :: "smtp_call list \<Rightarrow> bool" where
  "no_secrets trace \<longleftrightarrow> list_all (\<lambda>c. case c of Login _ _ \<Rightarrow> False | Send_message _ _ _ _ \<Rightarrow> False | _ \<Rightarrow> True) trace"

lemma no_secrets_simps [simp]:
  "no_secrets []" "no_secrets (Connect_plain h p # t) = no_secrets t" "no_secrets (Connect_tls h p v # t) = no_secrets t"
  "no_secrets (Ehlo # t) = no_secrets t" "no_secrets (Start_tls h v # t) = no_secrets t" "no_secrets (Quit # t) = no_secrets t"
  by (simp_all add: no_secrets_def)

lemma no_secrets_append [simp]: "no_secrets (t1 @ t2) \<longleftrightarrow> no_secrets t1 \<and> no_secrets t2"
  by (simp add: no_secrets_def)

lemma greet_trace:
  "connect_and_greet N host port m skip = (r, t) \<Longrightarrow> no_secrets t \<and>
    (r = Inr g \<longrightarrow> m = Implicit \<longrightarrow> tls_open N host port m skip t) \<and> (m = Starttls \<longrightarrow> t = [Connect_plain host port])"
  by (cases m) (auto simp: connect_and_greet_def tls_open_def tls_context_def split: sum.splits)

lemma upgrade_trace:
  "upgrade_to_starttls N host skip = (r, t) \<Longrightarrow> no_secrets t \<and>
    (r = Inr x \<longrightarrow> tls_open N host port Starttls skip (Connect_plain host port # t))"
  by (auto simp: upgrade_to_starttls_def tls_open_def tls_context_def split: sum.splits)

lemma finalize_names: "map st_name (finalize_from results b names) = names"
  by (induction names arbitrary: b) (auto simp: Let_def not_attempted_def split: option.splits)

lemma finalize_success:
  "succeeded (finalize_from results b names) \<longleftrightarrow> (\<forall>n\<in>set names. \<exists>d. map_of results n = Some (True, d))"
proof (induction names arbitrary: b)
  case (Cons n names)
  then show ?case by (cases "map_of results n") (auto simp: succeeded_def Let_def not_attempted_def)
qed (simp add: succeeded_def)

lemma report_success:
  "succeeded (finalize_report results) \<longleftrightarrow> (\<forall>n\<in>set CANONICAL_STEPS. \<exists>d. map_of results n = Some (True, d))"
  by (simp add: finalize_report_def finalize_success)

lemma report_names: "map st_name (finalize_report results) = CANONICAL_STEPS"
  by (simp add: finalize_report_def finalize_names)

lemma test_trace:
  assumes "test_upstream_connection N host port m u p skip = (r, t)"
  shows "no_secrets t \<or> (\<exists>t0. t = t0 @ [Login u p, Quit] \<and> tls_open N host port m skip t0)"
proof (cases "un_resolve N")
  case (Inl e)
  then show ?thesis using assms by (auto simp: test_upstream_connection_def split: if_splits)
next
  case (Inr x)
  obtain c t1 where g: "connect_and_greet N host port m skip = (c, t1)" by fastforce
  note t1 = greet_trace[OF g]
  show ?thesis
  proof (cases c)
    case (Inl e)
    then have "t = t1" using assms \<open>un_resolve N = Inr x\<close> g
      by (cases e) (auto simp: test_upstream_connection_def Let_def)
    then show ?thesis using t1 by blast
  next
    case (Inr greeting)
    have auth: "\<exists>t0. t = t0 @ [Login u p, Quit] \<and> t0 = t'" if "test_auth N u p results t' = (r, t)" for results t'
      using that by (auto simp: test_auth_def split: sum.splits)
    show ?thesis
    proof (cases m)
      case Implicit
      then have "\<exists>results. test_auth N u p results t1 = (r, t)"
        using assms \<open>un_resolve N = Inr x\<close> g Inr by (auto simp: test_upstream_connection_def Let_def)
      then show ?thesis using auth t1 Inr Implicit by blast
    next
      case Starttls
      obtain s t2 where up: "upgrade_to_starttls N host skip = (s, t2)" by fastforce
      note t2 = upgrade_trace[OF up]
      show ?thesis
      proof (cases s)
        case (Inl e)
        then have "t = t1 @ t2 @ [Quit] \<or> t = t1 @ t2"
          using assms \<open>un_resolve N = Inr x\<close> g \<open>c = Inr greeting\<close> Starttls up
          by (auto simp: test_upstream_connection_def Let_def split: if_splits)
        moreover have "no_secrets t1" "no_secrets t2" using t1 t2 by blast+
        ultimately have "no_secrets t" by (elim disjE) simp_all
        then show ?thesis by blast
      next
        case (Inr d)
        then have "\<exists>results. test_auth N u p results (t1 @ t2) = (r, t)"
          using assms \<open>un_resolve N = Inr x\<close> g \<open>c = Inr greeting\<close> Starttls up
          by (auto simp: test_upstream_connection_def Let_def)
        then show ?thesis using auth t1 t2 Inr Starttls by fastforce
      qed
    qed
  qed
qed

lemma mail_session_trace:
  assumes "mail_session formataddr N s a password to_addrs subject body from_name = (r, t)"
  shows "no_secrets t \<or> (\<exists>t2 rest. t = t2 @ Login (ua_username a) password # rest \<and>
      (if ua_tls_mode a = Implicit then t2 = []
       else \<exists>x. upgrade_to_starttls N (ua_host a) (ua_tls_skip_verify a) = (Inr x, t2)) \<and>
      (rest = [] \<or> (\<exists>f to. rest = [Send_message f to subject body] \<and> header_ok f \<and> header_ok to \<and> header_ok subject \<and>
         (\<exists>x. un_login N = Inr x))))"
proof -
  define tls where "tls = (if ua_tls_mode a = Implicit then (Inr [], [])
                       else upgrade_to_starttls N (ua_host a) (ua_tls_skip_verify a))"
  obtain c t2 where c: "tls = (c, t2)" by fastforce
  note body = assms[unfolded mail_session_def Let_def, folded tls_def, unfolded c prod.case]
  show ?thesis
  proof (cases c)
    case (Inl e)
    then have "ua_tls_mode a \<noteq> Implicit" "t = t2" using c body by (auto simp: tls_def split: if_splits)
    then show ?thesis using upgrade_trace[of N "ua_host a" "ua_tls_skip_verify a" c t2] c by (simp add: tls_def)
  next
    case (Inr x)
    have tls: "if ua_tls_mode a = Implicit then t2 = []
       else \<exists>x. upgrade_to_starttls N (ua_host a) (ua_tls_skip_verify a) = (Inr x, t2)"
      using c Inr by (auto simp: tls_def split: if_splits)
    show ?thesis
    proof (cases "un_login N")
      case (Inl e)
      then show ?thesis using body Inr tls by auto
    next
      case (Inr y)
      let ?f = "from_header formataddr from_name (sn_address s)" and ?to = "join '', '' to_addrs"
      show ?thesis
      proof (cases "header_ok ?f \<and> header_ok ?to \<and> header_ok subject")
        case True
        then have "t = t2 @ Login (ua_username a) password # [Send_message ?f ?to subject body]"
          using body \<open>c = Inr x\<close> Inr by simp
        then show ?thesis using tls True Inr by blast
      next
        case False
        then have "t = t2 @ Login (ua_username a) password # []" using body \<open>c = Inr x\<close> Inr by auto
        then show ?thesis using tls by blast
      qed
    qed
  qed
qed

lemma mail_trace:
  assumes "send_alert_email decrypt formataddr N s a to_addrs subject body from_name = (r, t)"
  shows "no_secrets t \<or> (\<exists>t0 password sent. decrypt (ua_encrypted_password a) = Inr password \<and>
      t = t0 @ Login (ua_username a) password # sent @ [Quit] \<and>
      tls_open N (ua_host a) (ua_port a) (ua_tls_mode a) (ua_tls_skip_verify a) t0 \<and>
      (sent = [] \<or> (\<exists>f to. sent = [Send_message f to subject body] \<and> header_ok f \<and> header_ok to \<and> header_ok subject \<and>
         (\<exists>x. un_login N = Inr x))))"
proof (cases "decrypt (ua_encrypted_password a)")
  case (Inl e)
  then show ?thesis using assms by (simp add: send_alert_email_def)
next
  case (Inr password)
  let ?m = "ua_tls_mode a" and ?skip = "ua_tls_skip_verify a" and ?h = "ua_host a" and ?port = "ua_port a"
  obtain c t1 where g: "connect_and_greet N ?h ?port ?m ?skip = (c, t1)" by fastforce
  note t1 = greet_trace[OF g]
  show ?thesis
  proof (cases c)
    case (Inl e)
    then show ?thesis using assms Inr g t1 by (auto simp: send_alert_email_def)
  next
    case (Inr greeting)
    obtain q t2 where ms: "mail_session formataddr N s a password to_addrs subject body from_name = (q, t2)" by fastforce
    have t: "t = t1 @ t2 @ [Quit]"
      using assms \<open>decrypt (ua_encrypted_password a) = Inr password\<close> g Inr ms by (simp add: send_alert_email_def)
    from mail_session_trace[OF ms] show ?thesis
    proof
      assume "no_secrets t2"
      moreover have "no_secrets t1" using t1 by blast
      ultimately have "no_secrets t" unfolding t by simp
      then show ?thesis by blast
    next
      assume "\<exists>t3 rest. t2 = t3 @ Login (ua_username a) password # rest \<and>
        (if ?m = Implicit then t3 = [] else \<exists>x. upgrade_to_starttls N ?h ?skip = (Inr x, t3)) \<and>
        (rest = [] \<or> (\<exists>f to. rest = [Send_message f to subject body] \<and> header_ok f \<and> header_ok to \<and> header_ok subject \<and>
           (\<exists>x. un_login N = Inr x)))"
      then obtain t3 rest where t3: "t2 = t3 @ Login (ua_username a) password # rest"
        "if ?m = Implicit then t3 = [] else \<exists>x. upgrade_to_starttls N ?h ?skip = (Inr x, t3)"
        and rest: "rest = [] \<or> (\<exists>f to. rest = [Send_message f to subject body] \<and> header_ok f \<and> header_ok to \<and>
           header_ok subject \<and> (\<exists>x. un_login N = Inr x))" by blast
      have "tls_open N ?h ?port ?m ?skip (t1 @ t3)"
      proof (cases ?m)
        case Implicit
        then show ?thesis using t1 Inr t3(2) by simp
      next
        case Starttls
        then obtain x where "upgrade_to_starttls N ?h ?skip = (Inr x, t3)" using t3(2) by auto
        from upgrade_trace[OF this] t1 Starttls show ?thesis by auto
      qed
      moreover have "t = (t1 @ t3) @ Login (ua_username a) password # rest @ [Quit]" unfolding t t3(1) by simp
      ultimately show ?thesis using rest \<open>decrypt (ua_encrypted_password a) = Inr password\<close> by blast
    qed
  qed
qed

text \<open>
  C9. The upstream password leaves the application only over a TLS session with the account's own server:
  whatever the network answers, a connection test and an alert mail log in at most once, with the account's
  user name and stored password, after a TLS session to the account's host was established with exactly the
  certificate verification the account asks for; a test never sends a message, and a mail is sent after
  the login, with headers free of line breaks.
\<close>

theorem password_only_over_tls:
  assumes "test_upstream_connection N (ua_host a) (ua_port a) (ua_tls_mode a) (ua_username a) password (ua_tls_skip_verify a) = (r, t)"
    and "send_alert_email decrypt formataddr N s a to_addrs subject body from_name = (r', t')"
  shows "(no_secrets t \<or> (\<exists>t0. t = t0 @ [Login (ua_username a) password, Quit] \<and>
        tls_open N (ua_host a) (ua_port a) (ua_tls_mode a) (ua_tls_skip_verify a) t0)) \<and>
    (no_secrets t' \<or> (\<exists>t0 password sent. decrypt (ua_encrypted_password a) = Inr password \<and>
        t' = t0 @ Login (ua_username a) password # sent @ [Quit] \<and>
        tls_open N (ua_host a) (ua_port a) (ua_tls_mode a) (ua_tls_skip_verify a) t0 \<and>
        (sent = [] \<or> (\<exists>f to. sent = [Send_message f to subject body] \<and> header_ok f \<and> header_ok to \<and> header_ok subject \<and>
           (\<exists>x. un_login N = Inr x)))))"
  by (rule conjI[OF test_trace[OF assms(1)] mail_trace[OF assms(2)]])

section \<open>What a report says\<close>

definition reachable_and_authenticated :: "upstream_net \<Rightarrow> tls_mode \<Rightarrow> bool" where
  "reachable_and_authenticated N m \<longleftrightarrow> \<not> isl (un_resolve N) \<and> \<not> isl (un_connect N) \<and>
     (m = Starttls \<longrightarrow> \<not> isl (un_ehlo N) \<and> \<not> isl (un_starttls N) \<and> \<not> isl (un_ehlo_again N)) \<and> \<not> isl (un_login N)"

lemma connect_isl: "connect_and_greet N host port m skip = (c, t) \<Longrightarrow> isl c = isl (un_connect N)"
  by (auto simp: connect_and_greet_def split: sum.splits)

lemma upgrade_isl:
  "upgrade_to_starttls N host skip = (c, t) \<Longrightarrow>
   isl c = (isl (un_ehlo N) \<or> isl (un_starttls N) \<or> isl (un_ehlo_again N))"
  by (auto simp: upgrade_to_starttls_def split: sum.splits)

lemma auth_report:
  assumes "test_auth N u p results t0 = (Inr report, t)" "map_of results ''AUTH'' = None"
    and "\<forall>n\<in>set CANONICAL_STEPS. n \<noteq> ''AUTH'' \<longrightarrow> (\<exists>d. map_of results n = Some (True, d))"
  shows "map st_name report = CANONICAL_STEPS \<and> (succeeded report \<longleftrightarrow> \<not> isl (un_login N))"
proof (cases "un_login N")
  case (Inl e)
  then have r: "report = finalize_report (results @ [(''AUTH'', False, exn_text e)])"
    using assms(1) by (auto simp: test_auth_def split: if_splits)
  have "\<not> succeeded report" unfolding r report_success using assms(2) by (auto simp: CANONICAL_STEPS_def map_add_def)
  then show ?thesis using Inl r report_names by simp
next
  case (Inr x)
  then have r: "report = finalize_report (results @ [(''AUTH'', True, code_text x)])"
    using assms(1) by (simp add: test_auth_def)
  have "succeeded report"
    unfolding r report_success
  proof
    fix n assume "n \<in> set CANONICAL_STEPS"
    then show "\<exists>d. map_of (results @ [(''AUTH'', True, code_text x)]) n = Some (True, d)"
      using assms(2,3) by (cases "n = ''AUTH''") (auto simp: map_add_def)
  qed
  then show ?thesis using Inr r report_names by simp
qed

lemma failed_report:
  "map_of results n = Some (False, d) \<Longrightarrow> n \<in> set CANONICAL_STEPS \<Longrightarrow>
   map st_name (finalize_report results) = CANONICAL_STEPS \<and> \<not> succeeded (finalize_report results)"
  using report_names report_success by fastforce

lemma test_report:
  assumes "test_upstream_connection N host port m u p skip = (Inr report, t)"
  shows "map st_name report = CANONICAL_STEPS \<and> (succeeded report \<longleftrightarrow> reachable_and_authenticated N m)"
proof (cases "un_resolve N")
  case (Inl e)
  then have "report = finalize_report [(''DNS resolution'', False, exn_text e)]"
    using assms by (auto simp: test_upstream_connection_def split: if_splits)
  then show ?thesis using failed_report[of _ "''DNS resolution''"] Inl
    by (simp add: CANONICAL_STEPS_def reachable_and_authenticated_def)
next
  case (Inr x)
  let ?dns = "(''DNS resolution'', True, ''Resolved '' @ host)"
  let ?tcp = "(''TCP connection'', True, ''Connected to '' @ host @ '':'' @ str_of_int port)"
  obtain c t1 where g: "connect_and_greet N host port m skip = (c, t1)" by fastforce
  show ?thesis
  proof (cases c)
    case (Inl e)
    have bad: ?thesis if "report = finalize_report results" "map_of results n = Some (False, d)" "n \<in> set CANONICAL_STEPS"
      for results n d
      using failed_report[OF that(2,3)] that(1) connect_isl[OF g] Inl by (simp add: reachable_and_authenticated_def)
    show ?thesis
    proof (cases e)
      case (SSLError t)
      then have "report = finalize_report [?dns, ?tcp, (''TLS handshake'', False, t)]"
        using assms Inl \<open>un_resolve N = Inr x\<close> g by (simp add: test_upstream_connection_def)
      then show ?thesis by (rule bad[of _ "''TLS handshake''" t]) (simp_all add: CANONICAL_STEPS_def)
    next
      case (SMTPConnectError t)
      then have "report = finalize_report ([?dns, ?tcp] @ tls_done m @ [(''Server greeting'', False, t)])"
        using assms Inl \<open>un_resolve N = Inr x\<close> g by (simp add: test_upstream_connection_def)
      then show ?thesis by (rule bad[of _ "''Server greeting''" t]) (simp_all add: CANONICAL_STEPS_def tls_done_def)
    next
      case (SMTPException t)
      then have "report = finalize_report [?dns, (''TCP connection'', False, t)]"
        using assms Inl \<open>un_resolve N = Inr x\<close> g by (simp add: test_upstream_connection_def is_os_error_def)
      then show ?thesis by (rule bad[of _ "''TCP connection''" t]) (simp_all add: CANONICAL_STEPS_def)
    next
      case (SocketError t)
      then have "report = finalize_report [?dns, (''TCP connection'', False, t)]"
        using assms Inl \<open>un_resolve N = Inr x\<close> g by (simp add: test_upstream_connection_def is_os_error_def)
      then show ?thesis by (rule bad[of _ "''TCP connection''" t]) (simp_all add: CANONICAL_STEPS_def)
    qed (use assms Inl \<open>un_resolve N = Inr x\<close> g in \<open>simp_all add: test_upstream_connection_def is_os_error_def\<close>)
  next
    case (Inr greeting)
    let ?so_far = "[?dns, ?tcp] @ tls_done m @ [(''Server greeting'', True, greeting)]"
    have connected: "\<not> isl (un_connect N)" using connect_isl[OF g] Inr by simp
    show ?thesis
    proof (cases m)
      case Implicit
      then have "test_auth N u p ?so_far t1 = (Inr report, t)"
        using assms \<open>un_resolve N = Inr x\<close> g Inr by (simp add: test_upstream_connection_def)
      from auth_report[OF this] show ?thesis
        using connected \<open>un_resolve N = Inr x\<close> Implicit
        by (simp add: tls_done_def CANONICAL_STEPS_def reachable_and_authenticated_def)
    next
      case Starttls
      obtain s t2 where up: "upgrade_to_starttls N host skip = (s, t2)" by fastforce
      show ?thesis
      proof (cases s)
        case (Inl e)
        then have "report = finalize_report (?so_far @ [(''TLS handshake'', False, exn_text e)])"
          using assms \<open>un_resolve N = Inr x\<close> g \<open>c = Inr greeting\<close> Starttls up
          by (auto simp: test_upstream_connection_def split: if_splits)
        moreover have "map_of (?so_far @ [(''TLS handshake'', False, exn_text e)]) ''TLS handshake'' = Some (False, exn_text e)"
          using Starttls by (simp add: tls_done_def)
        ultimately show ?thesis
          using failed_report[of _ "''TLS handshake''"] upgrade_isl[OF up] Inl Starttls
          by (simp add: CANONICAL_STEPS_def reachable_and_authenticated_def) blast
      next
        case (Inr d)
        then have "test_auth N u p (?so_far @ [(''TLS handshake'', True, d)]) (t1 @ t2) = (Inr report, t)"
          using assms \<open>un_resolve N = Inr x\<close> g \<open>c = Inr greeting\<close> Starttls up by (simp add: test_upstream_connection_def)
        from auth_report[OF this] show ?thesis
          using connected \<open>un_resolve N = Inr x\<close> Starttls upgrade_isl[OF up] Inr
          by (simp add: tls_done_def CANONICAL_STEPS_def reachable_and_authenticated_def)
      qed
    qed
  qed
qed

section \<open>The scheduled tests\<close>

text \<open>One session as the batch makes it, and the row after it.\<close>

abbreviation session_of :: "(upstream_account \<Rightarrow> upstream_net) \<Rightarrow> upstream_account \<Rightarrow> pystr \<Rightarrow> test_report session" where
  "session_of net a password \<equiv> test_upstream_connection (net a) (ua_host a) (ua_port a) (ua_tls_mode a) (ua_username a)
     password (ua_tls_skip_verify a)"

definition tested_account ::
  "(bytes \<Rightarrow> secret_error + pystr) \<Rightarrow> (upstream_account \<Rightarrow> upstream_net) \<Rightarrow> (upstream_account \<Rightarrow> datetime) \<Rightarrow>
   upstream_account \<Rightarrow> upstream_account" where
  "tested_account decrypt net clock a =
     (case decrypt (ua_encrypted_password a) of
        Inl _ \<Rightarrow> a
      | Inr password \<Rightarrow> (case fst (session_of net a password) of Inl _ \<Rightarrow> a | Inr report \<Rightarrow> apply_test_result (clock a) report a))"

lemma apply_test_result_id [simp]: "ua_id (apply_test_result now report a) = ua_id a"
  by (simp add: apply_test_result_def)

lemma test_batch_rows:
  assumes "test_batch decrypt net clock as d counts = (Inr out, d', t)" "distinct (map ua_id as)"
    and "\<forall>a\<in>set as. \<forall>b\<in>set (accounts d). ua_id b = ua_id a \<longrightarrow> b = a"
  shows "accounts d' = map (\<lambda>b. if ua_id b \<in> ua_id ` set as then tested_account decrypt net clock b else b) (accounts d)"
  using assms
proof (induction as arbitrary: d counts t)
  case (Cons a as)
  show ?case
  proof (cases "decrypt (ua_encrypted_password a)")
    case (Inl e)
    then have "test_batch decrypt net clock as d counts = (Inr out, d', t)" using Cons.prems(1) by (cases e) simp_all
    from Cons.IH[OF this] have rows: "accounts d' =
        map (\<lambda>b. if ua_id b \<in> ua_id ` set as then tested_account decrypt net clock b else b) (accounts d)"
      using Cons.prems(2,3) by simp
    show ?thesis
      unfolding rows
    proof (rule map_cong[OF refl])
      fix b assume b: "b \<in> set (accounts d)"
      show "(if ua_id b \<in> ua_id ` set as then tested_account decrypt net clock b else b) =
          (if ua_id b \<in> ua_id ` set (a # as) then tested_account decrypt net clock b else b)"
      proof (cases "ua_id b = ua_id a")
        case True
        then have "b = a" using Cons.prems(3) b by simp
        then show ?thesis using Inl by (simp add: tested_account_def)
      qed simp
    qed
  next
    case (Inr password)
    obtain result t1 where s: "session_of net a password = (result, t1)" by fastforce
    then obtain report where report: "result = Inr report"
      using Cons.prems(1) Inr by (cases result) simp_all
    let ?d1 = "upd_account (ua_id a) (apply_test_result (clock a) report) d"
    obtain counts' t2 where rest: "test_batch decrypt net clock as ?d1 counts' = (Inr out, d', t2)"
      using Cons.prems(1) Inr s report by (auto simp: Let_def split: prod.splits)
    have d1: "accounts ?d1 = tbl_upd ua_id (ua_id a) (apply_test_result (clock a) report) (accounts d)"
      by (simp add: upd_account_def)
    have others: "\<forall>x\<in>set as. \<forall>b\<in>set (accounts ?d1). ua_id b = ua_id x \<longrightarrow> b = x"
      using Cons.prems(2,3) unfolding d1 set_tbl_upd by (auto split: if_splits)
    have tested: "tested_account decrypt net clock a = apply_test_result (clock a) report a"
      using Inr s report by (simp add: tested_account_def)
    have rows: "accounts d' =
        map (\<lambda>b. if ua_id b \<in> ua_id ` set as then tested_account decrypt net clock b else b) (accounts ?d1)"
      using Cons.IH[OF rest _ others] Cons.prems(2) by simp
    show ?thesis
      unfolding rows d1 tbl_upd_def map_map
    proof (rule map_cong[OF refl])
      fix b assume b: "b \<in> set (accounts d)"
      show "((\<lambda>b. if ua_id b \<in> ua_id ` set as then tested_account decrypt net clock b else b) \<circ>
            (\<lambda>r. if ua_id r = ua_id a then apply_test_result (clock a) report r else r)) b =
          (if ua_id b \<in> ua_id ` set (a # as) then tested_account decrypt net clock b else b)"
      proof (cases "ua_id b = ua_id a")
        case True
        then have "b = a" using Cons.prems(3) b by simp
        moreover have "ua_id a \<notin> ua_id ` set as" using Cons.prems(2) by simp
        ultimately show ?thesis using tested by simp
      qed simp
    qed
  qed
qed simp

definition tick_raises :: "(bytes \<Rightarrow> secret_error + pystr) \<Rightarrow> test_tick \<Rightarrow> db \<Rightarrow> bool" where
  "tick_raises decrypt e d \<longleftrightarrow>
     isl (fst (run_connection_test_batch decrypt (tt_net e) (tt_clock e) (tt_audit_id e) (tt_audit_at e)
        (d\<lparr>settings_row := Some (the_settings d), job_state := Some (the_jobs d)\<rparr>)))"

lemma the_jobs_settings [simp]: "the_jobs (d\<lparr>settings_row := r\<rparr>) = the_jobs d"
  by (cases "job_state d") simp_all

lemma test_batch_settings:
  "test_batch decrypt net clock as d counts = (r, d', t) \<Longrightarrow> settings_row d' = settings_row d"
proof (induction as arbitrary: d counts t)
  case (Cons a as)
  show ?case
  proof (cases "decrypt (ua_encrypted_password a)")
    case (Inl e)
    then show ?thesis using Cons by (cases e) simp_all
  next
    case (Inr password)
    obtain result t1 where s: "session_of net a password = (result, t1)" by (rule prod.exhaust)
    show ?thesis
    proof (cases result)
      case (Inl e)
      then show ?thesis using Cons.prems Inr s by simp
    next
      case (Inr report)
      let ?d1 = "upd_account (ua_id a) (apply_test_result (clock a) report) d"
      obtain t2 where "test_batch decrypt net clock as ?d1
          (Suc (fst counts), snd counts + (if succeeded report then 0 else 1)) = (r, d', t2)"
        using Cons.prems \<open>decrypt _ = _\<close> s Inr by (auto simp: Let_def split: prod.splits)
      from Cons.IH[OF this] show ?thesis by (simp add: upd_account_def)
    qed
  qed
qed simp

lemma batch_settings:
  assumes "run_connection_test_batch decrypt net clock i now d = (r, d', t)"
  shows "settings_row d' = settings_row d"
proof -
  obtain r0 d0 t0 where b: "test_batch decrypt net clock (filter ua_enabled (accounts d)) d (0, 0) = (r0, d0, t0)"
    by (rule prod_cases3)
  from test_batch_settings[OF b] show ?thesis
    using assms by (cases r0) (auto simp: run_connection_test_batch_def b split: if_splits)
qed

text \<open>A tick that is due and does not raise.\<close>

lemma tick_works:
  assumes "rs_connection_test_interval_minutes (the_settings d) = Some i" "\<not> tick_raises decrypt e d"
    and "\<forall>t. bj_connection_test_last_run_at (the_jobs d) = Some t \<longrightarrow> minutes i \<le> tt_started e - t"
  shows "\<exists>n d3 t. run_connection_test_batch decrypt (tt_net e) (tt_clock e) (tt_audit_id e) (tt_audit_at e)
        (d\<lparr>settings_row := Some (the_settings d), job_state := Some (the_jobs d)\<rparr>) = (Inr n, d3, t) \<and>
     connection_test_tick decrypt e d =
       (d3\<lparr>job_state := Some ((the_jobs d)\<lparr>bj_connection_test_last_run_at := Some (tt_stamped e)\<rparr>)\<rparr>, t)"
proof -
  let ?d2 = "d\<lparr>settings_row := Some (the_settings d), job_state := Some (the_jobs d)\<rparr>"
  obtain r d3 t where run: "run_connection_test_batch decrypt (tt_net e) (tt_clock e) (tt_audit_id e) (tt_audit_at e) ?d2 = (r, d3, t)"
    by (rule prod_cases3)
  then obtain n where n: "r = Inr n" using assms(2) by (cases r) (simp_all add: tick_raises_def)
  have due: "\<not> (case bj_connection_test_last_run_at (the_jobs d) of None \<Rightarrow> False
                     | Some t \<Rightarrow> tt_started e - t < minutes i)"
    using assms(3) by (cases "bj_connection_test_last_run_at (the_jobs d)") auto
  have "connection_test_tick decrypt e d =
       (d3\<lparr>job_state := Some ((the_jobs d)\<lparr>bj_connection_test_last_run_at := Some (tt_stamped e)\<rparr>)\<rparr>, t)"
    unfolding connection_test_tick_def get_relay_settings_eq get_background_job_state_eq Let_def prod.case
    using due run n by (simp add: assms(1))
  then show ?thesis using run n by blast
qed

lemma tick_interval:
  "map_option minutes (rs_connection_test_interval_minutes (the_settings (fst (connection_test_tick decrypt e d)))) =
     map_option minutes (rs_connection_test_interval_minutes (the_settings d))"
proof -
  let ?d2 = "d\<lparr>settings_row := Some (the_settings d), job_state := Some (the_jobs d)\<rparr>"
  obtain r d3 t where run: "run_connection_test_batch decrypt (tt_net e) (tt_clock e) (tt_audit_id e) (tt_audit_at e) ?d2 = (r, d3, t)"
    by (rule prod_cases3)
  then have row: "settings_row d3 = Some (the_settings d)" using batch_settings[OF run] by simp
  have "fst (connection_test_tick decrypt e d) \<in>
      {d, d3\<lparr>job_state := Some ((the_jobs d)\<lparr>bj_connection_test_last_run_at := Some (tt_stamped e)\<rparr>)\<rparr>}"
    unfolding connection_test_tick_def get_relay_settings_eq get_background_job_state_eq Let_def prod.case
    using run by (cases r) (auto split: option.splits)
  moreover have "the_settings (d3\<lparr>job_state := j\<rparr>) = the_settings d" for j using row by simp
  ultimately show ?thesis by auto
qed

interpretation test_job: interval_job "\<lambda>e d. fst (connection_test_tick decrypt e d)" tt_started tt_stamped
  "\<lambda>d. bj_connection_test_last_run_at (the_jobs d)"
  "\<lambda>d. map_option minutes (rs_connection_test_interval_minutes (the_settings d))" "tick_raises decrypt" for decrypt
proof (unfold_locales, goal_cases)
  case (1 d e)
  then show ?case by (simp add: connection_test_tick_def get_relay_settings_eq)
next
  case (2 d i t e)
  then show ?case by (auto simp: connection_test_tick_def get_relay_settings_eq get_background_job_state_eq)
next
  case (3 e d)
  then show ?case
    by (auto simp: tick_raises_def connection_test_tick_def get_relay_settings_eq get_background_job_state_eq Let_def
        split: option.splits prod.splits sum.splits)
next
  case (4 d i e)
  then obtain m where "rs_connection_test_interval_minutes (the_settings d) = Some m" "i = minutes m" by auto
  with tick_works[of d m decrypt e] 4 show ?case by auto
next
  case (5 e d)
  show ?case by (rule tick_interval)
qed

section \<open>The batch as a whole\<close>

definition testable :: "(bytes \<Rightarrow> secret_error + pystr) \<Rightarrow> upstream_account \<Rightarrow> bool" where
  "testable decrypt a \<longleftrightarrow> ua_enabled a \<and> \<not> isl (decrypt (ua_encrypted_password a))"

lemma test_batch_count:
  "test_batch decrypt net clock as d counts = (Inr (tested, failures), d', t) \<Longrightarrow>
   tested = fst counts + length (filter (\<lambda>a. \<not> isl (decrypt (ua_encrypted_password a))) as)"
proof (induction as arbitrary: d counts t)
  case (Cons a as)
  show ?case
  proof (cases "decrypt (ua_encrypted_password a)")
    case (Inl e)
    then show ?thesis using Cons by (cases e) simp_all
  next
    case (Inr password)
    obtain result t1 where s: "session_of net a password = (result, t1)" by (rule prod.exhaust)
    obtain report where report: "result = Inr report" using Cons.prems Inr s by (cases result) simp_all
    obtain t2 where "test_batch decrypt net clock as (upd_account (ua_id a) (apply_test_result (clock a) report) d)
          (Suc (fst counts), snd counts + (if succeeded report then 0 else 1)) = (Inr (tested, failures), d', t2)"
      using Cons.prems Inr s report by (auto simp: Let_def split: prod.splits)
    from Cons.IH[OF this] Inr show ?thesis by simp
  qed
qed simp

lemma untestable_unchanged: "isl (decrypt (ua_encrypted_password a)) \<Longrightarrow> tested_account decrypt net clock a = a"
  by (auto simp: tested_account_def split: sum.splits)

text \<open>The effect of a batch that does not raise.\<close>

lemma batch_effect:
  assumes "run_connection_test_batch decrypt net clock i now d = (Inr n, d', t)" "distinct (map ua_id (accounts d))"
  shows "accounts d' = map (\<lambda>a. if testable decrypt a then tested_account decrypt net clock a else a) (accounts d) \<and>
    n = length (filter (testable decrypt) (accounts d))"
proof -
  let ?as = "filter ua_enabled (accounts d)"
  obtain r d0 t0 where b: "test_batch decrypt net clock ?as d (0, 0) = (r, d0, t0)" by (rule prod_cases3)
  obtain tested failures where r: "r = Inr (tested, failures)"
    using assms(1) by (cases r) (auto simp: run_connection_test_batch_def b)
  have n: "n = tested" and d': "accounts d' = accounts d0"
    using assms(1) by (auto simp: run_connection_test_batch_def b r)
  have same: "b = a" if "a \<in> set (accounts d)" "b \<in> set (accounts d)" "ua_id b = ua_id a" for a b
    using assms(2) that by (auto simp: distinct_map dest: inj_onD)
  have "accounts d0 = map (\<lambda>b. if ua_id b \<in> ua_id ` set ?as then tested_account decrypt net clock b else b) (accounts d)"
  proof (rule test_batch_rows)
    show "test_batch decrypt net clock ?as d (0, 0) = (Inr (tested, failures), d0, t0)" using b r by simp
    show "distinct (map ua_id ?as)" using assms(2) by (simp add: distinct_map_filter)
    show "\<forall>a\<in>set ?as. \<forall>b\<in>set (accounts d). ua_id b = ua_id a \<longrightarrow> b = a" using same by auto
  qed
  also have "\<dots> = map (\<lambda>a. if testable decrypt a then tested_account decrypt net clock a else a) (accounts d)"
  proof (rule map_cong[OF refl])
    fix b assume b: "b \<in> set (accounts d)"
    have "ua_id b \<in> ua_id ` set ?as \<longleftrightarrow> ua_enabled b" using same b by fastforce
    then show "(if ua_id b \<in> ua_id ` set ?as then tested_account decrypt net clock b else b) =
        (if testable decrypt b then tested_account decrypt net clock b else b)"
      using untestable_unchanged[of decrypt b net clock] by (auto simp: testable_def)
  qed
  finally have "accounts d' = map (\<lambda>a. if testable decrypt a then tested_account decrypt net clock a else a) (accounts d)"
    using d' by simp
  moreover have "tested = length (filter (testable decrypt) (accounts d))"
    using test_batch_count[OF b[unfolded r]] by (simp add: testable_def[abs_def] conj_commute)
  ultimately show ?thesis using n by simp
qed

definition session_raises ::
  "(bytes \<Rightarrow> secret_error + pystr) \<Rightarrow> (upstream_account \<Rightarrow> upstream_net) \<Rightarrow> upstream_account \<Rightarrow> bool" where
  "session_raises decrypt net a =
     (case decrypt (ua_encrypted_password a) of
        Inl e \<Rightarrow> e = UnicodeDecodeError
      | Inr password \<Rightarrow> isl (fst (session_of net a password)))"

lemma test_batch_raises:
  "isl (fst (test_batch decrypt net clock as d counts)) \<longleftrightarrow> (\<exists>a\<in>set as. session_raises decrypt net a)"
proof (induction as arbitrary: d counts)
  case (Cons a as)
  show ?case
  proof (cases "decrypt (ua_encrypted_password a)")
    case (Inl e)
    then show ?thesis using Cons by (cases e) (simp_all add: session_raises_def)
  next
    case (Inr password)
    obtain result t1 where s: "session_of net a password = (result, t1)" by (rule prod.exhaust)
    show ?thesis
    proof (cases result)
      case (Inl e)
      then show ?thesis using s \<open>decrypt _ = _\<close> by (simp add: session_raises_def)
    next
      case (Inr report)
      obtain r d' t2 where rest: "test_batch decrypt net clock as (upd_account (ua_id a) (apply_test_result (clock a) report) d)
          (Suc (fst counts), snd counts + (if succeeded report then 0 else 1)) = (r, d', t2)" by (rule prod_cases3)
      have "\<not> session_raises decrypt net a" using s Inr \<open>decrypt _ = _\<close> by (simp add: session_raises_def)
      moreover have "isl (fst (test_batch decrypt net clock (a # as) d counts)) = isl r"
        using s Inr \<open>decrypt _ = _\<close> rest by (simp add: Let_def)
      ultimately show ?thesis using Cons.IH[of "upd_account (ua_id a) (apply_test_result (clock a) report) d"] rest
        by (metis fst_conv list.set_intros(2) set_ConsD)
    qed
  qed
qed simp

lemma batch_raises:
  "isl (fst (run_connection_test_batch decrypt net clock i now d)) \<longleftrightarrow>
     (\<exists>a\<in>set (accounts d). ua_enabled a \<and> session_raises decrypt net a)"
proof -
  obtain r d0 t0 where b: "test_batch decrypt net clock (filter ua_enabled (accounts d)) d (0, 0) = (r, d0, t0)"
    by (rule prod_cases3)
  have "isl (fst (run_connection_test_batch decrypt net clock i now d)) = isl r"
    by (cases r) (auto simp: run_connection_test_batch_def b)
  then show ?thesis using test_batch_raises[of decrypt net clock "filter ua_enabled (accounts d)" d "(0, 0)"] b by auto
qed

text \<open>What a tested row says.\<close>

definition records_test :: "datetime \<Rightarrow> upstream_net \<Rightarrow> upstream_account \<Rightarrow> bool" where
  "records_test now N a \<longleftrightarrow>
     (let good = reachable_and_authenticated N (ua_tls_mode a)
      in ua_last_test_at a = Some now \<and>
         ua_last_test_result a = Some (if good then Test_success else Test_failure) \<and>
         (ua_last_test_error a = None) = good)"

lemma tested_records:
  assumes "testable decrypt a" "\<not> session_raises decrypt net a"
  shows "records_test (clock a) (net a) (tested_account decrypt net clock a)"
proof -
  obtain password where p: "decrypt (ua_encrypted_password a) = Inr password"
    using assms(1) by (cases "decrypt (ua_encrypted_password a)") (simp_all add: testable_def)
  obtain result t where s: "session_of net a password = (result, t)" by (rule prod.exhaust)
  then obtain report where "result = Inr report" using assms(2) p by (cases result) (simp_all add: session_raises_def)
  moreover from this s have "succeeded report \<longleftrightarrow> reachable_and_authenticated (net a) (ua_tls_mode a)"
    using test_report by metis
  ultimately show ?thesis using p s
    by (simp add: tested_account_def apply_test_result_def records_test_def Let_def)
qed

text \<open>
  C17. The scheduled tests leave an accurate record: a batch raises exactly if the session of some enabled
  account does, and then nothing of it is kept; otherwise it tests every enabled account whose password
  decrypts, returns their number and touches no other row, and each tested row says when, and
  \<open>success\<close> exactly if the host resolved, the connection stood, the TLS of the account's mode was
  established and the login was accepted, with an error text exactly otherwise.
\<close>

theorem scheduled_tests_accurate:
  assumes "run_connection_test_batch decrypt net clock i now d = (r, d', t)" "distinct (map ua_id (accounts d))"
  shows "isl r = (\<exists>a\<in>set (accounts d). ua_enabled a \<and> session_raises decrypt net a) \<and>
    (case r of Inl _ \<Rightarrow> d' = d
     | Inr n \<Rightarrow> n = length (filter (testable decrypt) (accounts d)) \<and>
         list_all2 (\<lambda>a b. if testable decrypt a then records_test (clock a) (net a) b else b = a) (accounts d) (accounts d'))"
proof (cases r)
  case (Inl e)
  have "d' = d" using assms(1) Inl by (auto simp: run_connection_test_batch_def split: sum.splits prod.splits)
  then show ?thesis using batch_raises[of decrypt net clock i now d] assms(1) Inl by simp
next
  case (Inr n)
  have quiet: "\<forall>a\<in>set (accounts d). ua_enabled a \<longrightarrow> \<not> session_raises decrypt net a"
    using batch_raises[of decrypt net clock i now d] assms(1) Inr by simp
  note effect = batch_effect[OF assms(1)[unfolded Inr] assms(2)]
  have "list_all2 (\<lambda>a b. if testable decrypt a then records_test (clock a) (net a) b else b = a) (accounts d) (accounts d')"
    unfolding conjunct1[OF effect] list_all2_map2
    by (rule list.rel_refl_strong) (use quiet tested_records[of decrypt _ net clock] in \<open>simp add: testable_def\<close>)
  then show ?thesis using effect quiet Inr by simp
qed

text \<open>
  A login that raises something else than an \<open>OSError\<close> (\<open>smtplib\<close> encodes the password as ASCII, and a
  \<open>UnicodeEncodeError\<close> is a \<open>ValueError\<close>) leaves the test, and so the whole batch.
\<close>

lemma login_value_error_raises:
  assumes "decrypt (ua_encrypted_password a) = Inr password" "un_login (net a) = Inl (NetValueError x)"
    and "\<not> isl (un_resolve (net a))" "\<not> isl (un_connect (net a))"
    and "ua_tls_mode a = Starttls \<longrightarrow>
      \<not> isl (un_ehlo (net a)) \<and> \<not> isl (un_starttls (net a)) \<and> \<not> isl (un_ehlo_again (net a))"
  shows "session_raises decrypt net a"
proof -
  have isl: "\<not> isl s \<longleftrightarrow> (\<exists>y. s = Inr y)" for s :: "net_exn + 'b" by (cases s) simp_all
  from assms obtain u v where "un_resolve (net a) = Inr u" "un_connect (net a) = Inr v" by (auto simp: isl)
  moreover have "ua_tls_mode a = Starttls \<longrightarrow> (\<exists>u v w. un_ehlo (net a) = Inr u \<and> un_starttls (net a) = Inr v \<and> un_ehlo_again (net a) = Inr w)"
    using assms(5) by (auto simp: isl)
  ultimately show ?thesis using assms(1,2)
    by (cases "ua_tls_mode a")
      (auto simp: session_raises_def test_upstream_connection_def connect_and_greet_def upgrade_to_starttls_def test_auth_def
        is_os_error_def Let_def)
qed

lemma raising_account_starves_schedule:
  assumes "a \<in> set (accounts d)" "ua_enabled a" "\<forall>e\<in>set es. session_raises decrypt (tt_net e) a"
  shows "test_job.run_ticks decrypt es d = d"
  using assms
proof (induction es)
  case (Cons e es)
  let ?d2 = "d\<lparr>settings_row := Some (the_settings d), job_state := Some (the_jobs d)\<rparr>"
  have "tick_raises decrypt e d"
    unfolding tick_raises_def batch_raises using Cons.prems by auto
  then show ?case using test_job.raised Cons by simp
qed simp

text \<open>A greeting that refuses the session counts as a passed step: \<open>connect\<close> returns its code, whatever it is.\<close>

lemma refusing_greeting_passes:
  "fst (test_upstream_connection
     \<lparr>un_resolve = Inr (), un_connect = Inr (554, ''go away''), un_ehlo = Inr (), un_starttls = Inl (SMTPException ''closed''),
      un_ehlo_again = Inr (), un_login = Inr (235, ''ok''), un_send = Inr ()\<rparr> ''smtp.example.net'' 587 Starttls ''relay'' ''pw'' False) =
   Inr [\<lparr>st_name = ''DNS resolution'', st_passed = True, st_detail = ''Resolved smtp.example.net''\<rparr>,
     \<lparr>st_name = ''TCP connection'', st_passed = True, st_detail = ''Connected to smtp.example.net:587''\<rparr>,
     \<lparr>st_name = ''TLS handshake'', st_passed = False, st_detail = ''closed''\<rparr>,
     \<lparr>st_name = ''Server greeting'', st_passed = True, st_detail = ''554 go away''\<rparr>,
     \<lparr>st_name = ''AUTH'', st_passed = False, st_detail = ''Not attempted '' @ em_dash @ '' a previous step failed''\<rparr>]"
  by code_simp

section \<open>Witnesses\<close>

definition demo_upstream :: upstream_account where
  "demo_upstream = \<lparr>ua_id = 5, ua_name = ''Mail'', ua_host = ''smtp.example.net'', ua_port = 587,
     ua_tls_mode = Starttls, ua_username = ''relay'', ua_encrypted_password = ''pw'', ua_enabled = True,
     ua_last_test_at = None, ua_last_test_result = None, ua_last_test_error = None,
     ua_rate_limit_per_hour = Some 100, ua_tls_skip_verify = False, ua_created_at = 0\<rparr>"

definition demo_net :: "upstream_net" where
  "demo_net = \<lparr>un_resolve = Inr (), un_connect = Inr (220, ''ready''), un_ehlo = Inr (), un_starttls = Inr (220, ''go''),
     un_ehlo_again = Inr (), un_login = Inr (235, ''ok''), un_send = Inr ()\<rparr>"

definition demo_alert_sender :: sender where
  "demo_alert_sender = \<lparr>sn_id = 7, sn_address = ''news@example.com'', sn_upstream_account_id = 5, sn_enabled = True,
     sn_description = None, sn_created_at = 0\<rparr>"

definition demo_trace :: "smtp_call list" where
  "demo_trace = [Connect_plain ''smtp.example.net'' 587, Ehlo, Start_tls ''smtp.example.net'' True, Ehlo, Login ''relay'' ''pw'',
     Send_message ''news@example.com'' ''ops@example.com'' ''Alert'' ''Body'', Quit]"

lemma password_only_over_tls_witness:
  "\<exists>t0 sent. demo_trace = t0 @ Login ''relay'' ''pw'' # sent @ [Quit] \<and>
     tls_open demo_net ''smtp.example.net'' 587 Starttls False t0"
proof -
  have trace: "send_alert_email Inr (\<lambda>n a. a) demo_net demo_alert_sender demo_upstream [''ops@example.com''] ''Alert'' ''Body'' None =
      (Inr (), demo_trace)"
    by code_simp
  have "\<not> no_secrets demo_trace" by code_simp
  moreover have "ua_encrypted_password demo_upstream = ''pw''" "ua_username demo_upstream = ''relay''" "ua_port demo_upstream = 587"
    "ua_host demo_upstream = ''smtp.example.net''" "ua_tls_mode demo_upstream = Starttls" "\<not> ua_tls_skip_verify demo_upstream"
    by (simp_all add: demo_upstream_def)
  ultimately show ?thesis
    using password_only_over_tls[OF surjective_pairing trace, of "''pw''"] by auto
qed

lemma scheduled_tests_accurate_witness:
  "\<exists>n d' t. run_connection_test_batch Inr (\<lambda>_. demo_net) (\<lambda>_. 60) 1 60 (empty_db\<lparr>accounts := [demo_upstream]\<rparr>) = (Inr n, d', t) \<and>
     n = 1 \<and> list_all2 (\<lambda>a b. if testable Inr a then records_test 60 demo_net b else b = a) [demo_upstream] (accounts d')"
proof -
  let ?run = "run_connection_test_batch Inr (\<lambda>_. demo_net) (\<lambda>_. 60) 1 60 (empty_db\<lparr>accounts := [demo_upstream]\<rparr>)"
  obtain r d' t where run: "?run = (r, d', t)" by (rule prod_cases3)
  have quiet: "\<not> session_raises Inr (\<lambda>_. demo_net) demo_upstream" by code_simp
  have "testable Inr demo_upstream" by code_simp
  then show ?thesis
    using scheduled_tests_accurate[OF run] quiet run by (cases r) (auto simp: empty_db_def)
qed

end
