(* ===== verification/Upstream_Accounts.thy ===== *)
theory Upstream_Accounts
  imports Senders Upstream_Test
begin

text \<open>
  \<open>api/routes/upstream_accounts.py\<close>: the servers that mail is relayed through.  The encryption of the
  stored password is that of \<open>Secrets\<close> with the nonce of the request; a connection test is the session of
  \<open>Upstream_Test\<close> with the network the request meets.
\<close>

section \<open>Reading\<close>

record upstream_account_read =
  ar_id :: int
  ar_name :: pystr
  ar_host :: pystr
  ar_port :: int
  ar_tls_mode :: tls_mode
  ar_username :: pystr
  ar_enabled :: bool
  ar_last_test_at :: "datetime option"
  ar_last_test_result :: "test_result option"
  ar_last_test_error :: "pystr option"
  ar_created_at :: datetime
  ar_rate_limit_per_hour :: "int option"
  ar_tls_skip_verify :: bool
  ar_sent_this_hour :: nat

definition account_by_id :: "int \<Rightarrow> db \<Rightarrow> upstream_account option" where
  "account_by_id account_id d = tbl_get ua_id account_id (accounts d)"

definition account_not_found :: http_error where
  "account_not_found = HTTPException 404 ''Upstream account not found''"

definition sent_this_hour :: "datetime \<Rightarrow> int \<Rightarrow> db \<Rightarrow> nat" where
  "sent_this_hour now account_id d =
     length (filter (\<lambda>m. ml_upstream_account_id m = Some account_id \<and> ml_status m = Sent \<and>
                         ml_timestamp m \<ge> now - hours 1) (mail_logs d))"

definition account_to_read :: "datetime \<Rightarrow> db \<Rightarrow> upstream_account \<Rightarrow> upstream_account_read" where
  "account_to_read now d a =
     \<lparr>ar_id = ua_id a, ar_name = ua_name a, ar_host = ua_host a, ar_port = ua_port a, ar_tls_mode = ua_tls_mode a,
      ar_username = ua_username a, ar_enabled = ua_enabled a, ar_last_test_at = ua_last_test_at a,
      ar_last_test_result = ua_last_test_result a, ar_last_test_error = ua_last_test_error a,
      ar_created_at = ua_created_at a, ar_rate_limit_per_hour = ua_rate_limit_per_hour a,
      ar_tls_skip_verify = ua_tls_skip_verify a, ar_sent_this_hour = sent_this_hour now (ua_id a) d\<rparr>"

definition list_accounts :: "datetime \<Rightarrow> db \<Rightarrow> upstream_account_read list" where
  "list_accounts now d = map (account_to_read now d) (sort_key ua_name (accounts d))"

definition get_account :: "datetime \<Rightarrow> int \<Rightarrow> db \<Rightarrow> http_error + upstream_account_read" where
  "get_account now account_id d =
     (case account_by_id account_id d of None \<Rightarrow> Inl account_not_found | Some a \<Rightarrow> Inr (account_to_read now d a))"

definition delete_account_precheck :: "int \<Rightarrow> db \<Rightarrow> http_error + pystr list" where
  "delete_account_precheck account_id d =
     (case account_by_id account_id d of None \<Rightarrow> Inl account_not_found
      | Some _ \<Rightarrow> Inr (map sn_address (filter (\<lambda>s. sn_upstream_account_id s = account_id) (senders d))))"

section \<open>Changing\<close>

text \<open>\<open>_encrypt_or_503\<close>; \<open>encrypt_secret\<close> raises nothing but \<open>EncryptionKeyNotConfigured\<close>.\<close>

definition encrypt_or_503 :: "aead \<Rightarrow> key_settings \<Rightarrow> admin_request \<Rightarrow> pystr \<Rightarrow> http_error + bytes" where
  "encrypt_or_503 A ks rq password =
     (case encrypt_secret A ks (aq_nonce rq) password of
        Inl (EncryptionKeyNotConfigured e) \<Rightarrow> Inl (HTTPException 503 e)
      | Inl _ \<Rightarrow> Inl internal_error
      | Inr blob \<Rightarrow> Inr blob)"

definition created_account :: "admin_request \<Rightarrow> upstream_account_create \<Rightarrow> bytes \<Rightarrow> upstream_account" where
  "created_account rq p blob =
     \<lparr>ua_id = aq_new_id rq, ua_name = uc_name p, ua_host = uc_host p, ua_port = uc_port p, ua_tls_mode = uc_tls_mode p,
      ua_username = uc_username p, ua_encrypted_password = blob, ua_enabled = True, ua_last_test_at = None,
      ua_last_test_result = None, ua_last_test_error = None, ua_rate_limit_per_hour = uc_rate_limit_per_hour p,
      ua_tls_skip_verify = uc_tls_skip_verify p, ua_created_at = aq_now rq\<rparr>"

definition create_account ::
  "aead \<Rightarrow> key_settings \<Rightarrow> admin_request \<Rightarrow> upstream_account_create \<Rightarrow> db \<Rightarrow> (http_error + upstream_account_read) \<times> db" where
  "create_account A ks rq p d =
     (case encrypt_or_503 A ks rq (uc_password p) of
        Inl e \<Rightarrow> (Inl e, d)
      | Inr blob \<Rightarrow>
          (let a = created_account rq p blob;
               d2 = audit_admin rq ''upstream_account.create'' ''upstream_account'' (ua_id a)
                      [(''name'', JStr (ua_name a)), (''host'', JStr (ua_host a))] (d\<lparr>accounts := accounts d @ [a]\<rparr>)
           in (Inr (account_to_read (aq_now rq) d2 a), d2)))"

text \<open>
  The fields that decide where the stored password is sent: those of \<open>_DESTINATION_FIELDS\<close> that the body
  changes, and an opt-out of the certificate verification.
\<close>

definition changes_field :: "'a \<Rightarrow> 'a option option \<Rightarrow> bool" where
  "changes_field current v \<longleftrightarrow> v \<noteq> None \<and> v \<noteq> Some (Some current)"

definition redirects :: "upstream_account \<Rightarrow> upstream_account_update \<Rightarrow> bool" where
  "redirects a p \<longleftrightarrow>
     changes_field (ua_host a) (up_host p) \<or> changes_field (ua_port a) (up_port p) \<or>
     changes_field (ua_username a) (up_username p) \<or> changes_field (ua_tls_mode a) (up_tls_mode p) \<or>
     (up_tls_skip_verify p = Some (Some True) \<and> \<not> ua_tls_skip_verify a)"

text \<open>\<open>data.pop("password", None)\<close>, and whether it is true.\<close>

definition entered_password :: "upstream_account_update \<Rightarrow> pystr option" where
  "entered_password p = (case up_password p of Some (Some (c # cs)) \<Rightarrow> Some (c # cs) | _ \<Rightarrow> None)"

definition password_required :: http_error where
  "password_required = HTTPException 422
     ''Re-enter this account's password to change its host, port, username, TLS mode, or certificate verification.''"

text \<open>The assignments; a null where the column has none is refused by the schema before.\<close>

definition updated_account :: "upstream_account_update \<Rightarrow> bytes option \<Rightarrow> upstream_account \<Rightarrow> upstream_account" where
  "updated_account p blob a =
     a\<lparr>ua_name := patched (ua_name a) (up_name p), ua_host := patched (ua_host a) (up_host p),
       ua_port := patched (ua_port a) (up_port p), ua_tls_mode := patched (ua_tls_mode a) (up_tls_mode p),
       ua_username := patched (ua_username a) (up_username p), ua_enabled := patched (ua_enabled a) (up_enabled p),
       ua_rate_limit_per_hour := given_or (ua_rate_limit_per_hour a) (up_rate_limit_per_hour p),
       ua_tls_skip_verify := patched (ua_tls_skip_verify a) (up_tls_skip_verify p),
       ua_encrypted_password := (case blob of None \<Rightarrow> ua_encrypted_password a | Some b \<Rightarrow> b)\<rparr>"

definition given_account_fields :: "upstream_account_update \<Rightarrow> pystr list" where
  "given_account_fields p =
     (if up_enabled p \<noteq> None then [''enabled''] else []) @
     (if up_host p \<noteq> None then [''host''] else []) @
     (if up_name p \<noteq> None then [''name''] else []) @
     (if entered_password p \<noteq> None then [''password''] else []) @
     (if up_port p \<noteq> None then [''port''] else []) @
     (if up_rate_limit_per_hour p \<noteq> None then [''rate_limit_per_hour''] else []) @
     (if up_tls_mode p \<noteq> None then [''tls_mode''] else []) @
     (if up_tls_skip_verify p \<noteq> None then [''tls_skip_verify''] else []) @
     (if up_username p \<noteq> None then [''username''] else [])"

definition update_account ::
  "aead \<Rightarrow> key_settings \<Rightarrow> admin_request \<Rightarrow> int \<Rightarrow> upstream_account_update \<Rightarrow> db \<Rightarrow> (http_error + upstream_account_read) \<times> db" where
  "update_account A ks rq account_id p d =
     (case account_by_id account_id d of
        None \<Rightarrow> (Inl account_not_found, d)
      | Some a \<Rightarrow>
          if redirects a p \<and> entered_password p = None then (Inl password_required, d)
          else case (case entered_password p of None \<Rightarrow> Inr None
                     | Some password \<Rightarrow> map_sum id Some (encrypt_or_503 A ks rq password)) of
            Inl e \<Rightarrow> (Inl e, d)
          | Inr blob \<Rightarrow>
              (let d2 = audit_admin rq ''upstream_account.update'' ''upstream_account'' account_id
                          [(''fields'', JList (map JStr (given_account_fields p)))]
                          (upd_account account_id (updated_account p blob) d)
               in (Inr (account_to_read (aq_now rq) d2 (updated_account p blob a)), d2)))"

section \<open>Deleting\<close>

text \<open>
  The unit of work clears \<open>senders.upstream_account_id\<close> of the senders that refer to the row, which that
  column refuses; the log rows keep their mail and lose the account.
\<close>

definition account_referenced :: http_error where
  "account_referenced = HTTPException 409
     ''This account is still referenced by one or more senders. Reassign or delete those senders first.''"

definition cascade_account :: "int \<Rightarrow> db \<Rightarrow> db" where
  "cascade_account account_id d =
     d\<lparr>accounts := tbl_del ua_id account_id (accounts d),
       mail_logs := map (\<lambda>m. if ml_upstream_account_id m = Some account_id then m\<lparr>ml_upstream_account_id := None\<rparr> else m)
                      (mail_logs d)\<rparr>"

definition delete_account :: "admin_request \<Rightarrow> int \<Rightarrow> db \<Rightarrow> (http_error + unit) \<times> db" where
  "delete_account rq account_id d =
     (case account_by_id account_id d of
        None \<Rightarrow> (Inl account_not_found, d)
      | Some a \<Rightarrow>
          if \<exists>s\<in>set (senders d). sn_upstream_account_id s = account_id then (Inl account_referenced, d)
          else (Inr (), audit_admin rq ''upstream_account.delete'' ''upstream_account'' account_id
                  [(''name'', JStr (ua_name a))] (cascade_account account_id d)))"

section \<open>Testing\<close>

definition test_connection ::
  "aead \<Rightarrow> key_settings \<Rightarrow> datetime \<Rightarrow> upstream_net \<Rightarrow> int \<Rightarrow> db \<Rightarrow> (http_error + bool \<times> test_report) \<times> db \<times> smtp_call list" where
  "test_connection A ks now N account_id d =
     (case account_by_id account_id d of
        None \<Rightarrow> (Inl account_not_found, d, [])
      | Some a \<Rightarrow>
          (case decrypt_secret A ks (ua_encrypted_password a) of
             Inl (EncryptionKeyNotConfigured e) \<Rightarrow> (Inl (HTTPException 503 e), d, [])
           | Inl (DecryptionFailed e) \<Rightarrow> (Inl (HTTPException 503 e), d, [])
           | Inl UnicodeDecodeError \<Rightarrow> (Inl internal_error, d, [])
           | Inr password \<Rightarrow>
               (case session_of (\<lambda>_. N) a password of
                  (Inl e, t) \<Rightarrow> (Inl internal_error, d, t)
                | (Inr report, t) \<Rightarrow>
                    (Inr (succeeded report, report), upd_account account_id (apply_test_result now report) d, t))))"

end
