(* ===== verification/Broker_Events.thy ===== *)
theory Broker_Events
  imports Upstream_Accounts User_Events
begin

text \<open>
  Sequences of everything that changes what the configuration is generated from: the requests on upstream
  accounts, senders and permissions, the connection tests, and the events of \<open>User_Events\<close>.  The invariant of
  the routing tables (unique keys, references that resolve, rows that passed the checks of their schema) and
  the provenance of every stored password follow for every such sequence.
\<close>

section \<open>Events\<close>

datatype routing_event =
    New_account admin_request upstream_account_create
  | Change_account admin_request int upstream_account_update
  | Drop_account admin_request int
  | Test_account datetime upstream_net int
  | Test_round test_tick
  | New_sender admin_request sender_create
  | Change_sender admin_request int sender_update
  | Drop_sender admin_request int
  | Grant_sender admin_request int int
  | Revoke_sender admin_request int int

definition invalid_body :: http_error where
  "invalid_body = HTTPException 422 ''invalid body''"

text \<open>The key and the address parser the application runs with.\<close>

record broker_env =
  be_aead :: aead
  be_keys :: key_settings
  be_email_str :: "pystr \<Rightarrow> pystr option"

fun routing_step :: "broker_env \<Rightarrow> routing_event \<Rightarrow> db \<Rightarrow> http_error option \<times> db" where
  "routing_step E (New_account rq p) d =
     (if upstream_account_create_ok p then apfst failure (create_account (be_aead E) (be_keys E) rq p d)
      else (Some invalid_body, d))"
| "routing_step E (Change_account rq aid p) d =
     (if upstream_account_update_ok p then apfst failure (update_account (be_aead E) (be_keys E) rq aid p d)
      else (Some invalid_body, d))"
| "routing_step E (Drop_account rq aid) d = apfst failure (delete_account rq aid d)"
| "routing_step E (Test_account now N aid) d =
     (let (r, d', t) = test_connection (be_aead E) (be_keys E) now N aid d in (failure r, d'))"
| "routing_step E (Test_round tick) d = (None, fst (connection_test_tick (decrypt_secret (be_aead E) (be_keys E)) tick d))"
| "routing_step E (New_sender rq raw) d =
     (case parse_sender_create (be_email_str E) raw of None \<Rightarrow> (Some invalid_body, d)
      | Some p \<Rightarrow> apfst failure (create_sender rq p d))"
| "routing_step E (Change_sender rq sid raw) d =
     (case parse_sender_update (be_email_str E) raw of None \<Rightarrow> (Some invalid_body, d)
      | Some p \<Rightarrow> apfst failure (update_sender rq sid p d))"
| "routing_step E (Drop_sender rq sid) d = apfst failure (delete_sender rq sid d)"
| "routing_step E (Grant_sender rq sid uid) d = apfst failure (sender_grant rq sid uid d)"
| "routing_step E (Revoke_sender rq sid uid) d = apfst failure (sender_revoke rq sid uid d)"

datatype broker_event = Routing routing_event | Users user_event

fun broker_step :: "broker_env \<Rightarrow> 'w sasl_rpc \<Rightarrow> broker_event \<Rightarrow> db \<times> 'w \<Rightarrow> db \<times> 'w" where
  "broker_step E R (Routing ev) (d, w) = (snd (routing_step E ev d), w)"
| "broker_step E R (Users ev) s = snd (user_step R ev s)"

fun broker_run :: "broker_env \<Rightarrow> 'w sasl_rpc \<Rightarrow> broker_event list \<Rightarrow> db \<times> 'w \<Rightarrow> db \<times> 'w" where
  "broker_run E R [] s = s"
| "broker_run E R (ev # evs) s = broker_run E R evs (broker_step E R ev s)"

lemma broker_run_append: "broker_run E R (evs @ evs') s = broker_run E R evs' (broker_run E R evs s)"
  by (induction evs arbitrary: s) simp_all

section \<open>What a step changes\<close>

lemma audit_admin_simps [simp]:
  "local_users (audit_admin rq a k i e d) = local_users d" "permissions (audit_admin rq a k i e d) = permissions d"
  "senders (audit_admin rq a k i e d) = senders d" "accounts (audit_admin rq a k i e d) = accounts d"
  by (simp_all add: audit_admin_def)

text \<open>The part of an account row that no connection test touches.\<close>

definition core_of :: "upstream_account \<Rightarrow> upstream_account" where
  "core_of a = a\<lparr>ua_last_test_at := None, ua_last_test_result := None, ua_last_test_error := None\<rparr>"

lemma core_of_simps [simp]:
  "ua_id (core_of a) = ua_id a" "ua_name (core_of a) = ua_name a" "ua_host (core_of a) = ua_host a"
  "ua_port (core_of a) = ua_port a" "ua_tls_mode (core_of a) = ua_tls_mode a" "ua_username (core_of a) = ua_username a"
  "ua_encrypted_password (core_of a) = ua_encrypted_password a" "ua_enabled (core_of a) = ua_enabled a"
  "ua_rate_limit_per_hour (core_of a) = ua_rate_limit_per_hour a" "ua_tls_skip_verify (core_of a) = ua_tls_skip_verify a"
  by (simp_all add: core_of_def)

lemma core_apply_test_result [simp]: "core_of (apply_test_result now report a) = core_of a"
  by (simp add: core_of_def apply_test_result_def)

lemma upd_account_simps [simp]:
  "local_users (upd_account i f d) = local_users d" "permissions (upd_account i f d) = permissions d"
  "senders (upd_account i f d) = senders d" "accounts (upd_account i f d) = tbl_upd ua_id i f (accounts d)"
  by (simp_all add: upd_account_def)

text \<open>Nothing but the results of tests: the frame of the test events.\<close>

definition tests_only :: "db \<Rightarrow> db \<Rightarrow> bool" where
  "tests_only d d' \<longleftrightarrow> map core_of (accounts d') = map core_of (accounts d) \<and> senders d' = senders d \<and>
     permissions d' = permissions d \<and> local_users d' = local_users d"

lemma tests_only_refl [simp]: "tests_only d d"
  by (simp add: tests_only_def)

lemma tests_only_upd: "tests_only (upd_account i (apply_test_result now report) d) d' \<Longrightarrow> tests_only d d'"
  by (simp add: tests_only_def map_tbl_upd)

lemma test_batch_tests_only:
  "test_batch decrypt net clock as d counts = (r, d', t) \<Longrightarrow> tests_only d d'"
proof (induction as arbitrary: d counts t)
  case (Cons a as)
  show ?case
  proof (cases "decrypt (ua_encrypted_password a)")
    case (Inl e)
    then show ?thesis using Cons by (cases e) auto
  next
    case (Inr password)
    obtain result t1 where s: "session_of net a password = (result, t1)" by (rule prod.exhaust)
    show ?thesis
    proof (cases result)
      case (Inl e)
      then show ?thesis using Cons.prems Inr s by simp
    next
      case (Inr report)
      let ?d1 = "upd_account (ua_id a) (apply_test_result (clock a) report) d"
      obtain t2 where "test_batch decrypt net clock as ?d1
          (Suc (fst counts), snd counts + (if succeeded report then 0 else 1)) = (r, d', t2)"
        using Cons.prems \<open>decrypt _ = _\<close> s Inr by (auto simp: Let_def split: prod.splits)
      from tests_only_upd[OF Cons.IH[OF this]] show ?thesis .
    qed
  qed
qed simp

lemma tick_tests_only: "tests_only d (fst (connection_test_tick decrypt e d))"
proof -
  let ?d2 = "d\<lparr>settings_row := Some (the_settings d), job_state := Some (the_jobs d)\<rparr>"
  obtain r0 d0 t0 where b: "test_batch decrypt (tt_net e) (tt_clock e) (filter ua_enabled (accounts ?d2)) ?d2 (0, 0) = (r0, d0, t0)"
    by (rule prod_cases3)
  have d0: "tests_only d d0" using test_batch_tests_only[OF b] by (simp add: tests_only_def)
  obtain r d3 t where run: "run_connection_test_batch decrypt (tt_net e) (tt_clock e) (tt_audit_id e) (tt_audit_at e) ?d2 = (r, d3, t)"
    by (rule prod_cases3)
  have "r = Inl x \<or> tests_only d d3" for x
    using run d0 b by (cases r0) (auto simp: run_connection_test_batch_def tests_only_def split: if_splits)
  then show ?thesis
    unfolding connection_test_tick_def get_relay_settings_eq get_background_job_state_eq Let_def prod.case
    using run by (cases r) (auto split: option.splits simp: tests_only_def)
qed

lemma test_connection_tests_only: "test_connection A ks now N i d = (r, d', t) \<Longrightarrow> tests_only d d'"
  by (auto simp: test_connection_def tests_only_def map_tbl_upd split: option.splits sum.splits secret_error.splits prod.splits)

section \<open>The events on users\<close>

definition user_ids :: "db \<Rightarrow> int set" where
  "user_ids d = lu_id ` set (local_users d)"

definition sender_ids :: "db \<Rightarrow> int set" where
  "sender_ids d = sn_id ` set (senders d)"

definition account_ids :: "db \<Rightarrow> int set" where
  "account_ids d = ua_id ` set (accounts d)"

text \<open>Every reference resolves.\<close>

definition refs_ok :: "db \<Rightarrow> bool" where
  "refs_ok d \<longleftrightarrow> (\<forall>s\<in>set (senders d). sn_upstream_account_id s \<in> account_ids d) \<and>
     (\<forall>p\<in>set (permissions d). pm_sender_id p \<in> sender_ids d \<and> pm_local_smtp_user_id p \<in> user_ids d)"

lemma user_by_id_ids: "user_by_id i d = Some u \<Longrightarrow> i \<in> user_ids d"
  by (auto simp: user_ids_def dest: user_by_id_mem)

lemma sender_ids_get: "tbl_get sn_id i (senders d) = Some s \<Longrightarrow> i \<in> sender_ids d"
  by (auto simp: sender_ids_def dest: tbl_get_SomeD)

lemma permissions_grant:
  "p \<in> set (permissions (grant_permission now uid sid g d)) \<Longrightarrow>
   p \<in> set (permissions d) \<or> (pm_local_smtp_user_id p = uid \<and> pm_sender_id p = sid)"
  by (auto simp: grant_permission_def split: option.splits)

lemma grant_frame [simp]:
  "local_users (grant_permission now uid sid g d) = local_users d" "senders (grant_permission now uid sid g d) = senders d"
  "accounts (grant_permission now uid sid g d) = accounts d"
  by (simp_all add: grant_permission_def split: option.split)

lemma revoke_frame [simp]:
  "local_users (revoke_permission uid sid d) = local_users d" "senders (revoke_permission uid sid d) = senders d"
  "accounts (revoke_permission uid sid d) = accounts d"
  "set (permissions (revoke_permission uid sid d)) \<subseteq> set (permissions d)"
  by (auto simp: revoke_permission_def)

lemma ids_upd_user: "(\<And>u. lu_id (f u) = lu_id u) \<Longrightarrow> user_ids (upd_user i f d) = user_ids d"
  unfolding user_ids_def upd_user_def set_map[symmetric] by (simp add: map_tbl_upd)

lemma ids_simps [simp]:
  "user_ids (audit_user rq a k e d) = user_ids d" "user_ids (audit_admin ra a t k e d) = user_ids d"
  "sender_ids (audit_admin ra a t k e d) = sender_ids d" "account_ids (audit_admin ra a t k e d) = account_ids d"
  by (simp_all add: user_ids_def sender_ids_def account_ids_def)

text \<open>
  The shape of a step on users: the routing tables stay, and either no user disappears and every new
  permission connects an existing user and sender, or one user goes together with its permissions.
\<close>

definition users_step_shape :: "db \<Rightarrow> db \<Rightarrow> bool" where
  "users_step_shape d d' \<longleftrightarrow> senders d' = senders d \<and> accounts d' = accounts d \<and>
     ((user_ids d \<subseteq> user_ids d' \<and>
       (\<forall>p\<in>set (permissions d'). p \<in> set (permissions d) \<or>
          (pm_sender_id p \<in> sender_ids d \<and> pm_local_smtp_user_id p \<in> user_ids d))) \<or>
      (\<exists>uid. user_ids d' = user_ids d - {uid} \<and>
         (\<forall>p\<in>set (permissions d'). p \<in> set (permissions d) \<and> pm_local_smtp_user_id p \<noteq> uid)))"

lemma shape_refl [simp]: "users_step_shape d d"
  by (simp add: users_step_shape_def)

lemma shapeI:
  "senders d' = senders d \<Longrightarrow> accounts d' = accounts d \<Longrightarrow> permissions d' = permissions d \<Longrightarrow>
   user_ids d \<subseteq> user_ids d' \<Longrightarrow> users_step_shape d d'"
  by (simp add: users_step_shape_def)

lemma audit_user_frame [simp]:
  "senders (audit_user rq a k e d) = senders d" "accounts (audit_user rq a k e d) = accounts d"
  by (simp_all add: audit_user_def)

lemma upd_user_frame [simp]:
  "senders (upd_user i f d) = senders d" "accounts (upd_user i f d) = accounts d" "permissions (upd_user i f d) = permissions d"
  by (simp_all add: upd_user_def)

lemma disable_loop_shape: "disable_loop del aid now us d w = (out, d', w') \<Longrightarrow>
   senders d' = senders d \<and> accounts d' = accounts d \<and> permissions d' = permissions d \<and> user_ids d' = user_ids d"
proof (induction us arbitrary: d w out w')
  case (Cons u us)
  have same: "user_ids (disable_user aid now u d) = user_ids d" for d
    unfolding disable_user_def user_ids_def record_audit_simps
    using ids_upd_user[of "\<lambda>v. v\<lparr>lu_enabled := False\<rparr>"] by (simp add: user_ids_def)
  have frame: "senders (disable_user aid now u d) = senders d" "accounts (disable_user aid now u d) = accounts d"
    "permissions (disable_user aid now u d) = permissions d" for d
    by (simp_all add: disable_user_def)
  obtain r w1 where r: "del (lu_username u) w = (r, w1)" by (rule prod.exhaust)
  show ?case
  proof (cases r)
    case (Inl e)
    then show ?thesis using Cons.prems r Cons.IH by simp
  next
    case (Inr x)
    then obtain out' where "disable_loop del aid now us (disable_user aid now u d) w1 = (out', d', w')"
      using Cons.prems r by (auto split: prod.splits)
    from Cons.IH[OF this] show ?thesis using same frame by simp
  qed
qed simp

lemma abuse_shape:
  assumes "rate_limit_abuse_tick del aid now1 now2 now3 d w = (d', w')"
  shows "users_step_shape d d'"
proof -
  obtain out where run: "run_rate_limit_abuse_detection del aid now1 now2 now3 d w = (out, d', w')"
    using assms by (metis rate_limit_abuse_tick_def prod.exhaust_sel)
  let ?d1 = "d\<lparr>settings_row := Some (the_settings d)\<rparr>"
  have ids: "user_ids ?d1 = user_ids d" by (simp add: user_ids_def)
  show ?thesis
  proof (cases "rs_rate_limit_abuse_auto_disable_enabled (the_settings d)")
    case True
    then obtain us where "disable_loop del aid now3 us ?d1 w = (out, d', w')"
      using run by (simp add: run_rate_limit_abuse_detection_def get_relay_settings_eq Let_def)
    from disable_loop_shape[OF this] show ?thesis by (intro shapeI) (simp_all add: ids)
  next
    case False
    then show ?thesis using run ids
      by (intro shapeI) (auto simp: run_rate_limit_abuse_detection_def get_relay_settings_eq)
  qed
qed

lemma user_step_shape:
  assumes step: "user_step R ev (d, w) = (out, d', w')"
  shows "users_step_shape d d'"
proof (cases ev)
  case (Create rq p)
  show ?thesis
  proof (cases "local_user_create_ok p")
    case True
    then obtain r where c: "create_user R rq p d w = (r, d', w')" using step Create by (auto split: prod.splits)
    then show ?thesis
    proof (cases rule: create_user_cases)
      case (created read)
      show ?thesis by (rule shapeI) (auto simp: created(6) audit_user_def user_ids_def)
    qed simp_all
  qed (use step Create in simp)
next
  case (Update rq uid p)
  show ?thesis
  proof (cases "local_user_update_ok p")
    case True
    then obtain r where c: "update_user R rq uid p d w = (r, d', w')" using step Update by (auto split: prod.splits)
    from this True show ?thesis
    proof (cases rule: update_cases)
      case (changed u switch revealed read)
      show ?thesis by (rule shapeI) (simp_all add: changed(5) ids_upd_user updated_user_keeps[OF changed(2)])
    qed simp_all
  qed (use step Update in simp)
next
  case (Regenerate rq uid)
  then obtain r where c: "regenerate_password R rq uid d w = (r, d', w')" using step by (auto split: prod.splits)
  then show ?thesis
  proof (cases rule: regenerate_cases)
    case (changed u)
    show ?thesis by (rule shapeI) (simp_all add: changed(4) ids_upd_user)
  qed simp_all
next
  case (Delete rq uid)
  then obtain r where c: "delete_user R rq uid d w = (r, d', w')" using step by (auto split: prod.splits)
  then show ?thesis
  proof (cases rule: delete_cases')
    case (deleted u)
    have "local_users d' = tbl_del lu_id uid (local_users d)" by (simp add: deleted(4))
    then have "user_ids d' = user_ids d - {uid}" by (auto simp: user_ids_def)
    moreover have "\<forall>p\<in>set (permissions d'). p \<in> set (permissions d) \<and> pm_local_smtp_user_id p \<noteq> uid"
      by (simp add: deleted(4) cascade_user_def)
    moreover have "senders d' = senders d" "accounts d' = accounts d" by (simp_all add: deleted(4) cascade_user_def)
    ultimately show ?thesis unfolding users_step_shape_def by blast
  qed simp_all
next
  case (Auto_disable aid now1 now2 now3)
  then show ?thesis using step by (auto intro: abuse_shape)
next
  case (Grant rq uid sid)
  then obtain r where g: "grant rq uid sid d = (r, d')" using step by (auto split: prod.splits)
  show ?thesis
  proof (cases "\<exists>u s. user_by_id uid d = Some u \<and> tbl_get sn_id sid (senders d) = Some s")
    case True
    then obtain u s where us: "user_by_id uid d = Some u" "tbl_get sn_id sid (senders d) = Some s" by blast
    have eq: "d' = audit_permission rq ''permission.grant'' sid (JStr (sn_address s)) (JStr (lu_username u))
        (grant_permission (ur_now rq) uid sid (Some (ur_admin_id rq)) d)"
      using g by (simp add: grant_def us)
    have d': "senders d' = senders d" "accounts d' = accounts d" "user_ids d' = user_ids d"
      "permissions d' = permissions (grant_permission (ur_now rq) uid sid (Some (ur_admin_id rq)) d)"
      by (simp_all add: eq audit_permission_def user_ids_def)
    have "\<forall>p\<in>set (permissions d'). p \<in> set (permissions d) \<or> (pm_sender_id p \<in> sender_ids d \<and> pm_local_smtp_user_id p \<in> user_ids d)"
    proof
      fix p assume "p \<in> set (permissions d')"
      then have "p \<in> set (permissions d) \<or> (pm_local_smtp_user_id p = uid \<and> pm_sender_id p = sid)"
        unfolding d'(4) by (rule permissions_grant)
      then show "p \<in> set (permissions d) \<or> (pm_sender_id p \<in> sender_ids d \<and> pm_local_smtp_user_id p \<in> user_ids d)"
        using user_by_id_ids[OF us(1)] sender_ids_get[OF us(2)] by blast
    qed
    then show ?thesis unfolding users_step_shape_def d'(1-3) by blast
  next
    case False
    then have "d' = d" using g by (auto simp: grant_def split: option.splits)
    then show ?thesis by simp
  qed
next
  case (Revoke rq uid sid)
  then obtain r where "revoke rq uid sid d = (r, d')" using step by (auto split: prod.splits)
  then have "senders d' = senders d \<and> accounts d' = accounts d \<and> user_ids d' = user_ids d \<and>
      set (permissions d') \<subseteq> set (permissions d)"
    using revoke_frame by (auto simp: revoke_def audit_permission_def user_ids_def revoke_permission_def split: option.splits)
  then show ?thesis by (auto simp: users_step_shape_def)
next
  case Restart
  then show ?thesis using step by simp
qed

lemma shape_refs:
  assumes "users_step_shape d d'" "refs_ok d"
  shows "refs_ok d'"
proof -
  have same: "senders d' = senders d" "account_ids d' = account_ids d" "sender_ids d' = sender_ids d"
    using assms(1) by (simp_all add: users_step_shape_def account_ids_def sender_ids_def)
  have "pm_sender_id p \<in> sender_ids d \<and> pm_local_smtp_user_id p \<in> user_ids d'" if p: "p \<in> set (permissions d')" for p
    using assms(1)[unfolded users_step_shape_def] assms(2)[unfolded refs_ok_def] p by blast
  then show ?thesis using assms(2) by (simp add: refs_ok_def same)
qed

section \<open>The requests on accounts and senders\<close>

definition accounts_only :: "db \<Rightarrow> db \<Rightarrow> bool" where
  "accounts_only d d' \<longleftrightarrow> senders d' = senders d \<and> permissions d' = permissions d \<and> local_users d' = local_users d"

lemma encrypt_or_503_Inr: "encrypt_or_503 A ks rq pw = Inr blob \<longleftrightarrow> encrypt_secret A ks (aq_nonce rq) pw = Inr blob"
  by (auto simp: encrypt_or_503_def split: sum.splits secret_error.splits)

lemma create_account_effect:
  assumes "create_account A ks rq p d = (r, d')"
  shows "d' = d \<or> (accounts_only d d' \<and> (\<exists>blob. encrypt_secret A ks (aq_nonce rq) (uc_password p) = Inr blob \<and>
    accounts d' = accounts d @ [created_account rq p blob]))"
proof (cases "encrypt_or_503 A ks rq (uc_password p)")
  case (Inl e)
  then show ?thesis using assms by (simp add: create_account_def)
next
  case (Inr blob)
  have "accounts_only d d'" "accounts d' = accounts d @ [created_account rq p blob]"
    using assms by (auto simp: create_account_def Inr Let_def accounts_only_def)
  then show ?thesis using iffD1[OF encrypt_or_503_Inr Inr] by blast
qed

text \<open>A blob that an update stores is the encryption of the password of its body.\<close>

definition stored_blob :: "aead \<Rightarrow> key_settings \<Rightarrow> admin_request \<Rightarrow> upstream_account_update \<Rightarrow> bytes option \<Rightarrow> bool" where
  "stored_blob A ks rq p blob \<longleftrightarrow>
     (case entered_password p of None \<Rightarrow> blob = None
      | Some pw \<Rightarrow> (\<exists>b. blob = Some b \<and> encrypt_secret A ks (aq_nonce rq) pw = Inr b))"

lemma update_account_effect:
  assumes "update_account A ks rq i p d = (r, d')"
  shows "d' = d \<or> (accounts_only d d' \<and> (\<exists>a blob. account_by_id i d = Some a \<and> (redirects a p \<longrightarrow> entered_password p \<noteq> None) \<and>
    stored_blob A ks rq p blob \<and> accounts d' = tbl_upd ua_id i (updated_account p blob) (accounts d)))"
proof (cases "account_by_id i d")
  case None
  then show ?thesis using assms by (simp add: update_account_def)
next
  case (Some a)
  show ?thesis
  proof (cases "redirects a p \<and> entered_password p = None")
    case True
    then show ?thesis using assms Some by (simp add: update_account_def)
  next
    case False
    define blob where "blob = (case entered_password p of None \<Rightarrow> Inr None
                     | Some password \<Rightarrow> map_sum id Some (encrypt_or_503 A ks rq password))"
    show ?thesis
    proof (cases blob)
      case (Inl e)
      then have "d' = d" using assms[unfolded update_account_def Some option.case if_not_P[OF False], folded blob_def] by simp
      then show ?thesis by simp
    next
      case (Inr b)
      note body = assms[unfolded update_account_def Some option.case if_not_P[OF False], folded blob_def, unfolded Inr sum.case Let_def]
      have "stored_blob A ks rq p b"
      proof (cases "entered_password p")
        case None
        then show ?thesis using Inr by (simp add: blob_def stored_blob_def)
      next
        case (Some pw)
        show ?thesis
        proof (cases "encrypt_or_503 A ks rq pw")
          case (Inr x)
          then show ?thesis using \<open>blob = Inr b\<close> Some iffD1[OF encrypt_or_503_Inr Inr] by (simp add: blob_def stored_blob_def)
        qed (use Inr Some in \<open>simp add: blob_def\<close>)
      qed
      moreover have "accounts_only d d'" "accounts d' = tbl_upd ua_id i (updated_account p b) (accounts d)"
        using body by (auto simp: accounts_only_def)
      ultimately show ?thesis using Some False by blast
    qed
  qed
qed

lemma delete_account_effect:
  assumes "delete_account rq i d = (r, d')"
  shows "d' = d \<or> (accounts_only d d' \<and> accounts d' = tbl_del ua_id i (accounts d) \<and>
    \<not> (\<exists>s\<in>set (senders d). sn_upstream_account_id s = i))"
proof (cases "account_by_id i d = None \<or> (\<exists>s\<in>set (senders d). sn_upstream_account_id s = i)")
  case True
  then show ?thesis using assms by (auto simp: delete_account_def split: option.splits)
next
  case False
  then show ?thesis using assms by (auto simp: delete_account_def accounts_only_def cascade_account_def)
qed

text \<open>Likewise for the senders.\<close>

definition senders_only :: "db \<Rightarrow> db \<Rightarrow> bool" where
  "senders_only d d' \<longleftrightarrow> accounts d' = accounts d \<and> local_users d' = local_users d"

lemma require_account_ids: "require_upstream_account d a = None \<Longrightarrow> a \<in> account_ids d"
  by (cases "tbl_get ua_id a (accounts d)") (force simp: require_upstream_account_def account_ids_def dest: tbl_get_SomeD)+

lemma create_sender_effect:
  assumes "create_sender rq p d = (r, d')"
  shows "d' = d \<or> (senders_only d d' \<and> permissions d' = permissions d \<and> senders d' = senders d @ [created_sender rq p] \<and>
    sc_upstream_account_id p \<in> account_ids d \<and> \<not> address_conflict d (sc_address p) None)"
proof (cases "require_upstream_account d (sc_upstream_account_id p) = None \<and>
    require_unique_address d (sc_address p) None = None \<and> \<not> address_conflict d (sc_address p) None")
  case False
  then have "d' = d" using assms by (auto simp: create_sender_def split: option.splits if_splits)
  then show ?thesis by simp
next
  case True
  then have "sc_upstream_account_id p \<in> account_ids d" using require_account_ids by blast
  moreover have "senders_only d d'" "permissions d' = permissions d" "senders d' = senders d @ [created_sender rq p]"
    using assms True by (auto simp: create_sender_def Let_def senders_only_def)
  ultimately show ?thesis using True by blast
qed

lemma update_sender_effect:
  assumes "update_sender rq i p d = (r, d')"
  shows "d' = d \<or> (senders_only d d' \<and> permissions d' = permissions d \<and>
    (\<exists>s. sender_by_id i d = Some s \<and> \<not> address_conflict d (sn_address (updated_sender p s)) (Some i)) \<and>
    senders d' = tbl_upd sn_id i (updated_sender p) (senders d) \<and>
    (\<forall>a. sp_upstream_account_id p = Some (Some a) \<longrightarrow> a \<in> account_ids d))"
proof (cases "sender_by_id i d")
  case None
  then show ?thesis using assms by (simp add: update_sender_def)
next
  case (Some s)
  define acc where "acc = (case sp_upstream_account_id p of Some (Some a) \<Rightarrow> require_upstream_account d a | _ \<Rightarrow> None)"
  define adr where "adr = (case sp_address p of Some (Some a) \<Rightarrow> require_unique_address d a (Some i) | _ \<Rightarrow> None)"
  note body = assms[unfolded update_sender_def Some option.case, folded acc_def adr_def]
  show ?thesis
  proof (cases "acc = None \<and> adr = None \<and> \<not> address_conflict d (sn_address (updated_sender p s)) (Some i)")
    case False
    then have "d' = d" using body by (auto split: option.splits if_splits)
    then show ?thesis by simp
  next
    case True
    have "\<forall>a. sp_upstream_account_id p = Some (Some a) \<longrightarrow> a \<in> account_ids d"
      using conjunct1[OF True] require_account_ids unfolding acc_def by auto
    moreover have "senders_only d d'" "permissions d' = permissions d" "senders d' = tbl_upd sn_id i (updated_sender p) (senders d)"
      using body True by (auto simp: Let_def senders_only_def)
    ultimately show ?thesis using Some True by blast
  qed
qed

lemma delete_sender_effect:
  assumes "delete_sender rq i d = (r, d')"
  shows "d' = d \<or> (senders_only d d' \<and> senders d' = tbl_del sn_id i (senders d) \<and>
    permissions d' = filter (\<lambda>p. pm_sender_id p \<noteq> i) (permissions d))"
  using assms by (cases "sender_by_id i d") (auto simp: delete_sender_def cascade_sender_def senders_only_def)

lemma sender_grant_effect:
  assumes "sender_grant rq i j d = (r, d')"
  shows "senders d' = senders d \<and> senders_only d d' \<and> (\<forall>p\<in>set (permissions d').
    p \<in> set (permissions d) \<or> (pm_sender_id p \<in> sender_ids d \<and> pm_local_smtp_user_id p \<in> user_ids d))"
proof (cases "sender_by_id i d = None \<or> tbl_get lu_id j (local_users d) = None")
  case True
  then have "d' = d" using assms by (auto simp: sender_grant_def split: option.splits)
  then show ?thesis by (simp add: senders_only_def)
next
  case False
  then obtain s u where su: "sender_by_id i d = Some s" "tbl_get lu_id j (local_users d) = Some u"
    by (cases "sender_by_id i d"; cases "tbl_get lu_id j (local_users d)") simp_all
  then have ids: "i \<in> sender_ids d" "j \<in> user_ids d"
    using sender_ids_get user_by_id_ids by (auto simp: sender_by_id_def user_by_id_def)
  have "senders d' = senders d" "senders_only d d'"
    "permissions d' = permissions (grant_permission (aq_now rq) j i (Some (aq_admin_id rq)) d)"
    using assms su by (auto simp: sender_grant_def senders_only_def)
  then show ?thesis using permissions_grant ids by metis
qed

lemma sender_revoke_effect:
  assumes "sender_revoke rq i j d = (r, d')"
  shows "senders d' = senders d \<and> senders_only d d' \<and> set (permissions d') \<subseteq> set (permissions d)"
  using assms by (cases "sender_by_id i d") (auto simp: sender_revoke_def senders_only_def revoke_permission_def)

section \<open>The invariant of the routing tables\<close>

definition account_ok :: "broker_env \<Rightarrow> upstream_account \<Rightarrow> bool" where
  "account_ok E a \<longleftrightarrow> single_line_name (ua_name a) \<and> host_ok (ua_host a) \<and> port_ok (ua_port a) \<and>
     upstream_username_ok (ua_username a) \<and> limit_ok (ua_rate_limit_per_hour a) \<and>
     (\<forall>p. decrypt_secret (be_aead E) (be_keys E) (ua_encrypted_password a) = Inr p \<longrightarrow> upstream_password_ok p)"

definition routing_wf :: "broker_env \<Rightarrow> db \<Rightarrow> bool" where
  "routing_wf E d \<longleftrightarrow> refs_ok d \<and> keys_distinct ua_id (accounts d) \<and> keys_distinct sn_id (senders d) \<and>
     keys_distinct sn_address (senders d) \<and> (\<forall>s\<in>set (senders d). \<exists>raw. be_email_str E raw = Some (sn_address s)) \<and>
     (\<forall>a\<in>set (accounts d). account_ok E a)"

text \<open>What the database and the random generator provide for an event: a fresh id, a nonce of 12 bytes.\<close>

definition routing_served :: "routing_event \<Rightarrow> db \<Rightarrow> bool" where
  "routing_served ev d \<longleftrightarrow> (case ev of
       New_account rq p \<Rightarrow> aq_new_id rq \<notin> account_ids d \<and> length (aq_nonce rq) = NONCE_SIZE
     | Change_account rq i p \<Rightarrow> length (aq_nonce rq) = NONCE_SIZE
     | New_sender rq p \<Rightarrow> aq_new_id rq \<notin> sender_ids d
     | _ \<Rightarrow> True)"

lemma account_ok_core: "account_ok E (core_of a) = account_ok E a"
  by (simp add: account_ok_def)

lemma created_account_ok:
  assumes "upstream_account_create_ok p" "aead_ok (be_aead E)" "length (aq_nonce rq) = NONCE_SIZE"
    and "encrypt_secret (be_aead E) (be_keys E) (aq_nonce rq) (uc_password p) = Inr blob"
  shows "account_ok E (created_account rq p blob)"
  using assms(1) decrypt_encrypted[OF assms(2-4)]
  by (simp add: account_ok_def created_account_def upstream_account_create_ok_def)

lemma patched_ok: "if_given P v \<Longrightarrow> P x \<Longrightarrow> P (patched x v)"
  by (simp add: patched_def if_given_def split: option.splits)

lemma entered_password_ok: "upstream_account_update_ok p \<Longrightarrow> entered_password p = Some pw \<Longrightarrow> upstream_password_ok pw"
  by (auto simp: entered_password_def upstream_account_update_ok_def if_given_def split: option.splits list.splits)

lemma updated_account_ok:
  assumes "account_ok E a" "upstream_account_update_ok p" "aead_ok (be_aead E)" "length (aq_nonce rq) = NONCE_SIZE"
    and "stored_blob (be_aead E) (be_keys E) rq p blob"
  shows "account_ok E (updated_account p blob a)"
proof -
  let ?dec = "decrypt_secret (be_aead E) (be_keys E)"
  have "\<forall>pw. ?dec (ua_encrypted_password (updated_account p blob a)) = Inr pw \<longrightarrow> upstream_password_ok pw"
  proof (cases "entered_password p")
    case None
    then have "ua_encrypted_password (updated_account p blob a) = ua_encrypted_password a"
      using assms(5) by (simp add: stored_blob_def updated_account_def)
    then show ?thesis using assms(1) by (simp add: account_ok_def)
  next
    case (Some pw)
    then obtain b where b: "blob = Some b" "encrypt_secret (be_aead E) (be_keys E) (aq_nonce rq) pw = Inr b"
      using assms(5) by (auto simp: stored_blob_def)
    then have "?dec (ua_encrypted_password (updated_account p blob a)) = Inr pw"
      using decrypt_encrypted[OF assms(3,4) b(2)] by (simp add: updated_account_def)
    then show ?thesis using entered_password_ok[OF assms(2) Some] by simp
  qed
  moreover have "limit_ok (ua_rate_limit_per_hour (updated_account p blob a))"
    using assms(1,2) by (simp add: account_ok_def upstream_account_update_ok_def updated_account_def given_limit_ok)
  ultimately show ?thesis
    using assms(1,2) by (simp add: account_ok_def upstream_account_update_ok_def updated_account_def patched_ok)
qed

text \<open>The steps of each kind keep it.\<close>

lemma tests_only_wf:
  assumes "tests_only d d'" "routing_wf E d"
  shows "routing_wf E d'"
proof -
  have core: "map core_of (accounts d') = map core_of (accounts d)" using assms(1) by (simp add: tests_only_def)
  have "map ua_id (accounts d') = map ua_id (accounts d)"
    using arg_cong[OF core, of "map ua_id"] by (simp add: comp_def)
  then have ids: "keys_distinct ua_id (accounts d') = keys_distinct ua_id (accounts d)" "account_ids d' = account_ids d"
    unfolding keys_distinct_def account_ids_def set_map[symmetric] by simp_all
  have same: "senders d' = senders d" "permissions d' = permissions d" "sender_ids d' = sender_ids d" "user_ids d' = user_ids d"
    using assms(1) by (simp_all add: tests_only_def sender_ids_def user_ids_def)
  have "(\<forall>a\<in>set (accounts d'). account_ok E a) = (\<forall>a\<in>set (map core_of (accounts d')). account_ok E a)"
    by (simp add: account_ok_core)
  also have "\<dots> = (\<forall>a\<in>set (accounts d). account_ok E a)"
    unfolding core by (simp add: account_ok_core)
  finally show ?thesis using assms(2) by (simp add: routing_wf_def refs_ok_def ids same)
qed

lemma shape_wf:
  assumes "users_step_shape d d'" "routing_wf E d"
  shows "routing_wf E d'"
  using assms(2) shape_refs[OF assms(1)] assms(1) by (simp add: routing_wf_def users_step_shape_def)

lemma accounts_only_refs:
  assumes "accounts_only d d'" "refs_ok d" "\<forall>s\<in>set (senders d). sn_upstream_account_id s \<in> account_ids d'"
  shows "refs_ok d'"
proof -
  have "sender_ids d' = sender_ids d" "user_ids d' = user_ids d"
    using assms(1) by (simp_all add: accounts_only_def sender_ids_def user_ids_def)
  then show ?thesis using assms by (simp add: refs_ok_def accounts_only_def)
qed

lemma account_step_wf:
  assumes "routing_wf E d" "accounts_only d d'" "\<forall>s\<in>set (senders d). sn_upstream_account_id s \<in> account_ids d'"
    and "keys_distinct ua_id (accounts d')" "\<forall>a\<in>set (accounts d'). account_ok E a"
  shows "routing_wf E d'"
  using assms accounts_only_refs[OF assms(2) _ assms(3)] by (simp add: routing_wf_def accounts_only_def)

lemma create_account_wf:
  assumes wf: "routing_wf E d" and served: "routing_served (New_account rq p) d" and A: "aead_ok (be_aead E)"
    and ok: "upstream_account_create_ok p" and c: "create_account (be_aead E) (be_keys E) rq p d = (r, d')"
  shows "routing_wf E d'"
  using create_account_effect[OF c]
proof (elim disjE conjE exE)
  fix blob assume only: "accounts_only d d'" and blob: "encrypt_secret (be_aead E) (be_keys E) (aq_nonce rq) (uc_password p) = Inr blob"
    and acc: "accounts d' = accounts d @ [created_account rq p blob]"
  have "account_ids d' = insert (aq_new_id rq) (account_ids d)"
    by (simp add: account_ids_def acc created_account_def)
  moreover have "tbl_get ua_id (aq_new_id rq) (accounts d) = None"
    using served by (force simp: routing_served_def account_ids_def tbl_get_None_iff)
  ultimately show ?thesis
    using wf created_account_ok[OF ok A _ blob] served
    by (intro account_step_wf[OF wf only])
      (auto simp: routing_wf_def refs_ok_def acc keys_distinct_snoc routing_served_def created_account_def)
qed (use wf in simp)

lemma update_account_wf:
  assumes wf: "routing_wf E d" and served: "routing_served (Change_account rq i p) d" and A: "aead_ok (be_aead E)"
    and ok: "upstream_account_update_ok p" and c: "update_account (be_aead E) (be_keys E) rq i p d = (r, d')"
  shows "routing_wf E d'"
  using update_account_effect[OF c]
proof (elim disjE conjE exE)
  fix a blob assume only: "accounts_only d d'" and blob: "stored_blob (be_aead E) (be_keys E) rq p blob"
    and acc: "accounts d' = tbl_upd ua_id i (updated_account p blob) (accounts d)"
  have id: "ua_id (updated_account p blob a) = ua_id a" for a by (simp add: updated_account_def)
  have "account_ids d' = account_ids d"
    unfolding account_ids_def acc set_map[symmetric] by (simp add: map_tbl_upd id)
  moreover have "\<forall>a\<in>set (accounts d'). account_ok E a"
    using wf updated_account_ok[OF _ ok A _ blob] served by (auto simp: acc set_tbl_upd routing_wf_def routing_served_def)
  ultimately show ?thesis
    using wf by (intro account_step_wf[OF wf only]) (simp_all add: routing_wf_def refs_ok_def acc keys_distinct_upd id)
qed (use wf in simp)

lemma delete_account_wf:
  assumes wf: "routing_wf E d" and c: "delete_account rq i d = (r, d')"
  shows "routing_wf E d'"
  using delete_account_effect[OF c]
proof (elim disjE conjE)
  assume only: "accounts_only d d'" and acc: "accounts d' = tbl_del ua_id i (accounts d)"
    and free: "\<not> (\<exists>s\<in>set (senders d). sn_upstream_account_id s = i)"
  have "account_ids d' = account_ids d - {i}" by (auto simp: account_ids_def acc)
  then show ?thesis
    using wf free by (intro account_step_wf[OF wf only]) (auto simp: routing_wf_def refs_ok_def acc keys_distinct_del)
qed (use wf in simp)

lemma keys_distinct_upd_key:
  assumes "keys_distinct key rows" "keys_distinct f rows" "tbl_get key k rows = Some s"
    and "\<And>r. r \<in> set rows \<Longrightarrow> key r \<noteq> k \<Longrightarrow> f r \<noteq> f (g s)"
  shows "keys_distinct f (tbl_upd key k g rows)"
proof -
  have s: "r = s" if "r \<in> set rows" "key r = k" for r
    using tbl_get_mem[OF assms(1) that(1)] that(2) assms(3) by simp
  have "inj_on (\<lambda>r. if key r = k then f (g r) else f r) (set rows)"
  proof (rule inj_onI)
    fix x y assume xy: "x \<in> set rows" "y \<in> set rows"
      and eq: "(if key x = k then f (g x) else f x) = (if key y = k then f (g y) else f y)"
    show "x = y"
    proof (cases "key x = k"; cases "key y = k")
      assume "key x = k" "key y = k"
      then show ?thesis using s[OF xy(1)] s[OF xy(2)] by metis
    next
      assume k: "key x = k" "key y \<noteq> k"
      then have "f (g s) = f y" using eq s[OF xy(1)] by simp
      then show ?thesis using assms(4)[OF xy(2) k(2)] by metis
    next
      assume k: "key x \<noteq> k" "key y = k"
      then have "f x = f (g s)" using eq s[OF xy(2)] by simp
      then show ?thesis using assms(4)[OF xy(1) k(1)] by metis
    next
      assume "key x \<noteq> k" "key y \<noteq> k"
      then have "f x = f y" using eq by simp
      then show ?thesis using xy assms(2) unfolding keys_distinct_def distinct_map by (metis inj_onD)
    qed
  qed
  moreover have "map f (tbl_upd key k g rows) = map (\<lambda>r. if key r = k then f (g r) else f r) rows"
    by (simp add: tbl_upd_def)
  ultimately show ?thesis using assms(2) by (simp add: keys_distinct_def distinct_map)
qed

lemma parse_create_address: "parse_sender_create email raw = Some p \<Longrightarrow> email (sc_address raw) = Some (sc_address p)"
  by (auto simp: parse_sender_create_def)

lemma parse_update_address:
  assumes "parse_sender_update email raw = Some p" "sp_address p = Some (Some a)"
  shows "\<exists>x. email x = Some a"
proof (cases "\<exists>x. sp_address raw = Some (Some x)")
  case True
  then obtain x where x: "sp_address raw = Some (Some x)" by blast
  obtain b where b: "email x = Some b" "p = raw\<lparr>sp_address := Some (Some b)\<rparr>"
    using assms(1)[unfolded parse_sender_update_def x option.case] by (cases "email x") (simp_all split: if_splits)
  have "sp_address p = Some (Some b)" unfolding b(2) by simp
  then have "b = a" using assms(2) by simp
  then show ?thesis using b(1) by blast
next
  case False
  then have "p = raw"
    using assms(1) unfolding parse_sender_update_def by (cases "sp_address raw"; cases "the (sp_address raw)") (simp_all split: if_splits)
  then show ?thesis using False assms(2) by simp
qed

lemma sender_step_wf:
  assumes "routing_wf E d" "senders_only d d'" "keys_distinct sn_id (senders d')" "keys_distinct sn_address (senders d')"
    and "\<forall>s\<in>set (senders d'). sn_upstream_account_id s \<in> account_ids d"
    and "\<forall>s\<in>set (senders d'). \<exists>raw. be_email_str E raw = Some (sn_address s)"
    and "\<forall>p\<in>set (permissions d'). pm_sender_id p \<in> sender_ids d' \<and> pm_local_smtp_user_id p \<in> user_ids d"
  shows "routing_wf E d'"
  using assms by (simp add: routing_wf_def refs_ok_def senders_only_def account_ids_def user_ids_def)

lemma create_sender_wf:
  assumes wf: "routing_wf E d" and served: "routing_served (New_sender rq raw) d"
    and raw: "parse_sender_create (be_email_str E) raw = Some p" and c: "create_sender rq p d = (r, d')"
  shows "routing_wf E d'"
  using create_sender_effect[OF c]
proof (elim disjE conjE)
  assume only: "senders_only d d'" and perms: "permissions d' = permissions d" and sn: "senders d' = senders d @ [created_sender rq p]"
    and acc: "sc_upstream_account_id p \<in> account_ids d" and free: "\<not> address_conflict d (sc_address p) None"
  have new: "tbl_get sn_id (aq_new_id rq) (senders d) = None" "tbl_get sn_address (sc_address p) (senders d) = None"
    using served free by (force simp: routing_served_def sender_ids_def tbl_get_None_iff address_conflict_def)+
  have row: "sn_id (created_sender rq p) = aq_new_id rq" "sn_address (created_sender rq p) = sc_address p"
    "sn_upstream_account_id (created_sender rq p) = sc_upstream_account_id p"
    by (simp_all add: created_sender_def)
  have "sender_ids d' = insert (aq_new_id rq) (sender_ids d)" by (simp add: sender_ids_def sn row)
  then show ?thesis
    using wf new acc parse_create_address[OF raw]
    by (intro sender_step_wf[OF wf only]) (auto simp: routing_wf_def refs_ok_def sn perms keys_distinct_snoc row)
qed (use wf in simp)

lemma update_sender_wf:
  assumes wf: "routing_wf E d" and raw: "parse_sender_update (be_email_str E) raw = Some p"
    and c: "update_sender rq i p d = (r, d')"
  shows "routing_wf E d'"
  using update_sender_effect[OF c]
proof (elim disjE conjE exE)
  fix s assume only: "senders_only d d'" and perms: "permissions d' = permissions d"
    and s: "sender_by_id i d = Some s" and free: "\<not> address_conflict d (sn_address (updated_sender p s)) (Some i)"
    and sn: "senders d' = tbl_upd sn_id i (updated_sender p) (senders d)"
    and acc: "\<forall>a. sp_upstream_account_id p = Some (Some a) \<longrightarrow> a \<in> account_ids d"
  have id: "sn_id (updated_sender p s) = sn_id s" for s by (simp add: updated_sender_def)
  have ids: "sender_ids d' = sender_ids d"
    unfolding sender_ids_def sn set_map[symmetric] by (simp add: map_tbl_upd id)
  have "keys_distinct sn_address (senders d')"
    unfolding sn using wf s free
    by (intro keys_distinct_upd_key[of sn_id _ _ _ s]) (auto simp: routing_wf_def sender_by_id_def address_conflict_def)
  moreover have "sn_upstream_account_id (updated_sender p t) \<in> account_ids d" if "t \<in> set (senders d)" for t
    using that acc wf by (auto simp: updated_sender_def patched_def routing_wf_def refs_ok_def split: option.splits)
  moreover have "\<exists>x. be_email_str E x = Some (sn_address (updated_sender p t))" if "t \<in> set (senders d)" for t
  proof (cases "\<exists>a. sp_address p = Some (Some a)")
    case True
    then show ?thesis using parse_update_address[OF raw] by (auto simp: updated_sender_def patched_def)
  next
    case False
    then have "sn_address (updated_sender p t) = sn_address t"
      by (auto simp: updated_sender_def patched_def split: option.splits)
    then show ?thesis using wf that by (simp add: routing_wf_def)
  qed
  ultimately show ?thesis
    using wf ids by (intro sender_step_wf[OF wf only])
      (auto simp: routing_wf_def refs_ok_def sn perms keys_distinct_upd id set_tbl_upd split: if_splits)
qed (use wf in simp)

lemma keys_distinct_tbl_del: "keys_distinct f rows \<Longrightarrow> keys_distinct f (tbl_del key k rows)"
  by (simp add: keys_distinct_def tbl_del_def distinct_map_filter)

lemma delete_sender_wf:
  assumes wf: "routing_wf E d" and c: "delete_sender rq i d = (r, d')"
  shows "routing_wf E d'"
  using delete_sender_effect[OF c]
proof (elim disjE conjE)
  assume only: "senders_only d d'" and sn: "senders d' = tbl_del sn_id i (senders d)"
    and perms: "permissions d' = filter (\<lambda>p. pm_sender_id p \<noteq> i) (permissions d)"
  have "sender_ids d' = sender_ids d - {i}" by (auto simp: sender_ids_def sn)
  then show ?thesis
    using wf by (intro sender_step_wf[OF wf only]) (auto simp: routing_wf_def refs_ok_def sn perms keys_distinct_tbl_del)
qed (use wf in simp)

lemma permission_step_wf:
  assumes wf: "routing_wf E d" and only: "senders_only d d'" and sn: "senders d' = senders d"
    and perms: "\<forall>p\<in>set (permissions d').
      p \<in> set (permissions d) \<or> (pm_sender_id p \<in> sender_ids d \<and> pm_local_smtp_user_id p \<in> user_ids d)"
  shows "routing_wf E d'"
proof -
  have "sender_ids d' = sender_ids d" by (simp add: sender_ids_def sn)
  then show ?thesis
    using wf perms by (intro sender_step_wf[OF wf only]) (auto simp: routing_wf_def refs_ok_def sn)
qed

lemma routing_step_wf:
  assumes wf: "routing_wf E d" and served: "routing_served ev d" and A: "aead_ok (be_aead E)"
    and step: "routing_step E ev d = (out, d')"
  shows "routing_wf E d'"
proof (cases ev)
  case (New_account rq p)
  then show ?thesis using step served wf create_account_wf[OF wf _ A]
    by (cases "create_account (be_aead E) (be_keys E) rq p d") (auto split: if_splits)
next
  case (Change_account rq i p)
  then show ?thesis using step served wf update_account_wf[OF wf _ A]
    by (cases "update_account (be_aead E) (be_keys E) rq i p d") (auto split: if_splits)
next
  case (Drop_account rq i)
  then show ?thesis using step delete_account_wf[OF wf] by (cases "delete_account rq i d") auto
next
  case (Test_account now N i)
  then obtain r t where "test_connection (be_aead E) (be_keys E) now N i d = (r, d', t)"
    using step by (auto split: prod.splits)
  then show ?thesis using tests_only_wf[OF test_connection_tests_only wf] by blast
next
  case (Test_round tick)
  then have "d' = fst (connection_test_tick (decrypt_secret (be_aead E) (be_keys E)) tick d)" using step by simp
  then show ?thesis using tests_only_wf[OF tick_tests_only wf] by simp
next
  case (New_sender rq raw)
  then show ?thesis using step served wf create_sender_wf[OF wf, of rq raw] 
    by (auto split: option.splits simp: apfst_def map_prod_def split: prod.splits)
next
  case (Change_sender rq i raw)
  then show ?thesis using step wf update_sender_wf[OF wf]
    by (auto split: option.splits simp: apfst_def map_prod_def split: prod.splits)
next
  case (Drop_sender rq i)
  then show ?thesis using step delete_sender_wf[OF wf] by (cases "delete_sender rq i d") auto
next
  case (Grant_sender rq i j)
  then obtain r where "sender_grant rq i j d = (r, d')" using step by (cases "sender_grant rq i j d") auto
  then show ?thesis using sender_grant_effect permission_step_wf[OF wf] by blast
next
  case (Revoke_sender rq i j)
  then obtain r where "sender_revoke rq i j d = (r, d')" using step by (cases "sender_revoke rq i j d") auto
  then show ?thesis using sender_revoke_effect permission_step_wf[OF wf] by (metis subsetD)
qed

section \<open>Runs\<close>

fun broker_run_ok :: "broker_env \<Rightarrow> 'w sasl_rpc \<Rightarrow> broker_event list \<Rightarrow> db \<times> 'w \<Rightarrow> bool" where
  "broker_run_ok E R [] s = True"
| "broker_run_ok E R (ev # evs) s =
     ((case ev of Routing e \<Rightarrow> routing_served e (fst s) | Users e \<Rightarrow> True) \<and> broker_run_ok E R evs (broker_step E R ev s))"

lemma broker_run_ok_append:
  "broker_run_ok E R (evs @ evs') s \<longleftrightarrow> broker_run_ok E R evs s \<and> broker_run_ok E R evs' (broker_run E R evs s)"
  by (induction evs arbitrary: s) auto

lemma routing_step_users: "routing_step E ev d = (out, d') \<Longrightarrow> local_users d' = local_users d"
proof (cases ev)
  case (New_account rq p)
  moreover assume "routing_step E ev d = (out, d')"
  ultimately show ?thesis using create_account_effect[of "be_aead E" "be_keys E" rq p d]
    by (cases "create_account (be_aead E) (be_keys E) rq p d") (auto simp: accounts_only_def split: if_splits)
next
  case (Change_account rq i p)
  moreover assume "routing_step E ev d = (out, d')"
  ultimately show ?thesis using update_account_effect[of "be_aead E" "be_keys E" rq i p d]
    by (cases "update_account (be_aead E) (be_keys E) rq i p d") (auto simp: accounts_only_def split: if_splits)
next
  case (Drop_account rq i)
  moreover assume "routing_step E ev d = (out, d')"
  ultimately show ?thesis using delete_account_effect[of rq i d]
    by (cases "delete_account rq i d") (auto simp: accounts_only_def)
next
  case (Test_account now N i)
  moreover assume "routing_step E ev d = (out, d')"
  ultimately show ?thesis using test_connection_tests_only[of "be_aead E" "be_keys E" now N i d]
    by (auto simp: tests_only_def split: prod.splits)
next
  case (Test_round tick)
  moreover assume "routing_step E ev d = (out, d')"
  ultimately show ?thesis using tick_tests_only[of d] by (auto simp: tests_only_def)
next
  case (New_sender rq raw)
  moreover assume "routing_step E ev d = (out, d')"
  ultimately show ?thesis using create_sender_effect[of rq _ d]
    by (auto simp: senders_only_def apfst_def map_prod_def split: option.splits prod.splits)
next
  case (Change_sender rq i raw)
  moreover assume "routing_step E ev d = (out, d')"
  ultimately show ?thesis using update_sender_effect[of rq i _ d]
    by (auto simp: senders_only_def apfst_def map_prod_def split: option.splits prod.splits)
next
  case (Drop_sender rq i)
  moreover assume "routing_step E ev d = (out, d')"
  ultimately show ?thesis using delete_sender_effect[of rq i d]
    by (cases "delete_sender rq i d") (auto simp: senders_only_def)
next
  case (Grant_sender rq i j)
  moreover assume "routing_step E ev d = (out, d')"
  ultimately show ?thesis using sender_grant_effect[of rq i j d]
    by (cases "sender_grant rq i j d") (auto simp: senders_only_def)
next
  case (Revoke_sender rq i j)
  moreover assume "routing_step E ev d = (out, d')"
  ultimately show ?thesis using sender_revoke_effect[of rq i j d]
    by (cases "sender_revoke rq i j d") (auto simp: senders_only_def)
qed

definition broker_wf :: "broker_env \<Rightarrow> db \<Rightarrow> bool" where
  "broker_wf E d \<longleftrightarrow> routing_wf E d \<and> users_wf d"

lemma broker_step_wf:
  assumes "broker_wf E (fst s)" "case ev of Routing e \<Rightarrow> routing_served e (fst s) | Users e \<Rightarrow> True" "aead_ok (be_aead E)"
  shows "broker_wf E (fst (broker_step E R ev s))"
proof -
  obtain d w where s: "s = (d, w)" by (rule prod.exhaust)
  show ?thesis
  proof (cases ev)
    case (Routing e)
    obtain out d' where step: "routing_step E e d = (out, d')" by (rule prod.exhaust)
    have d: "routing_wf E d" "users_wf d" "routing_served e d" using assms(1,2) Routing s by (simp_all add: broker_wf_def)
    have "routing_wf E d'" "users_wf d'"
      using routing_step_wf[OF d(1,3) assms(3) step] users_wf_cong[OF routing_step_users[OF step]] d(2) by simp_all
    then show ?thesis using Routing s step by (simp add: broker_wf_def)
  next
    case (Users e)
    obtain out d' w' where step: "user_step R e (d, w) = (out, d', w')" by (rule prod_cases3)
    show ?thesis
      using shape_wf[OF user_step_shape[OF step]] user_step_wf[OF _ step] assms(1) Users s step by (simp add: broker_wf_def)
  qed
qed

lemma broker_run_wf:
  assumes "broker_wf E (fst s)" "broker_run_ok E R evs s" "aead_ok (be_aead E)"
  shows "broker_wf E (fst (broker_run E R evs s))"
  using assms by (induction evs arbitrary: s) (simp_all add: broker_step_wf)

lemma broker_wf_fields:
  assumes "broker_wf E d" "\<And>raw a. be_email_str E raw = Some a \<Longrightarrow> map_safe a"
  shows "fields_safe (decrypt_secret (be_aead E) (be_keys E)) d"
proof -
  have "map_safe (sn_address s)" if "s \<in> set (senders d)" for s
  proof -
    have "\<exists>raw. be_email_str E raw = Some (sn_address s)" using assms(1) that by (simp add: broker_wf_def routing_wf_def)
    then show ?thesis using assms(2) by blast
  qed
  moreover have "map_safe (lu_username u)" if "u \<in> set (local_users d)" for u
    using assms(1) that by (simp add: broker_wf_def users_wf_def user_ok_def username_map_safe)
  moreover have "map_safe (ua_host a) \<and> map_safe (ua_username a) \<and>
      (\<forall>p. decrypt_secret (be_aead E) (be_keys E) (ua_encrypted_password a) = Inr p \<longrightarrow> map_safe p)" if "a \<in> set (accounts d)" for a
    using assms(1) that host_map_safe upstream_username_map_safe no_control_map_safe
    by (auto simp: broker_wf_def routing_wf_def account_ok_def upstream_password_ok_def)
  ultimately show ?thesis by (simp add: fields_safe_def)
qed

text \<open>
  C11. What the configuration is generated from stays consistent over every sequence of requests on users,
  senders, permissions and upstream accounts, of connection tests and of jobs: every sender refers to an
  existing account and every permission to an existing sender and user, ids and addresses are unique, and no
  address, user name, host or decrypted password holds a character that could break out of its record in a
  Postfix map.
\<close>

theorem routing_tables_consistent:
  assumes "broker_wf E d" "broker_run_ok E R evs (d, w)" "aead_ok (be_aead E)"
    and "\<And>raw a. be_email_str E raw = Some a \<Longrightarrow> map_safe a"
    and "broker_run E R evs (d, w) = (d', w')"
  shows "refs_ok d' \<and> distinct (map ua_id (accounts d')) \<and> distinct (map sn_id (senders d')) \<and>
    distinct (map sn_address (senders d')) \<and> fields_safe (decrypt_secret (be_aead E) (be_keys E)) d'"
proof -
  have wf: "broker_wf E d'" using broker_run_wf[of E "(d, w)" R evs] assms(1-3,5) by simp
  then show ?thesis using broker_wf_fields[OF wf assms(4)]
    by (simp add: broker_wf_def routing_wf_def keys_distinct_def)
qed

section \<open>Witnesses\<close>

definition demo_broker_env :: broker_env where
  "demo_broker_env = \<lparr>be_aead = demo_aead,
     be_keys = \<lparr>ks_key_file = None, ks_encryption_key = Some (generate_encryption_key (replicate 32 (CHR ''k'')))\<rparr>,
     be_email_str = (\<lambda>a. if CHR ''@'' \<in> set a \<and> (\<forall>c\<in>set a. code c > 32) then Some a else None)\<rparr>"

definition demo_admin_request :: admin_request where
  "demo_admin_request = \<lparr>aq_admin_id = 1, aq_ip = None, aq_now = 0, aq_new_id = 5, aq_audit_id = 1, aq_nonce = replicate 12 (CHR ''n'')\<rparr>"

definition demo_account_create :: upstream_account_create where
  "demo_account_create = \<lparr>uc_name = ''Mail'', uc_host = ''smtp.example.net'', uc_port = 587, uc_tls_mode = Starttls,
     uc_username = ''relay'', uc_password = ''pw'', uc_rate_limit_per_hour = None, uc_tls_skip_verify = False\<rparr>"

text \<open>An account, a sender on it, and a request to move the account without its password, which is refused.\<close>

definition demo_events :: "broker_event list" where
  "demo_events =
     [Routing (New_account demo_admin_request demo_account_create),
      Routing (New_sender demo_admin_request
        \<lparr>sc_address = ''news@example.com'', sc_upstream_account_id = 5, sc_enabled = True, sc_description = None\<rparr>),
      Routing (Change_account demo_admin_request 5
        \<lparr>up_name = None, up_host = Some (Some ''evil.example.org''), up_port = None, up_tls_mode = None, up_username = None,
         up_password = None, up_enabled = None, up_rate_limit_per_hour = None, up_tls_skip_verify = None\<rparr>)]"

lemma demo_env_wf: "broker_wf demo_broker_env empty_db"
  by (simp add: broker_wf_def routing_wf_def refs_ok_def users_wf_def empty_db_def)

lemma demo_run_ok: "broker_run_ok demo_broker_env obedient demo_events (empty_db, ())"
  by code_simp

lemma demo_run_accounts:
  "map ua_host (accounts (fst (broker_run demo_broker_env obedient demo_events (empty_db, ())))) = [''smtp.example.net'']"
  by code_simp

lemma demo_run_senders:
  "map sn_address (senders (fst (broker_run demo_broker_env obedient demo_events (empty_db, ())))) = [''news@example.com'']"
  by code_simp

lemma demo_email_safe: "be_email_str demo_broker_env raw = Some a \<Longrightarrow> map_safe a"
  by (rule map_safeI) (force simp: demo_broker_env_def split: if_splits)

lemma demo_aead_env: "aead_ok (be_aead demo_broker_env)"
  by (simp add: demo_broker_env_def demo_aead_ok)

lemma routing_tables_consistent_witness:
  "let d = fst (broker_run demo_broker_env obedient demo_events (empty_db, ()))
   in map sn_address (senders d) = [''news@example.com''] \<and> refs_ok d \<and>
      fields_safe (decrypt_secret (be_aead demo_broker_env) (be_keys demo_broker_env)) d"
  using routing_tables_consistent[OF demo_env_wf demo_run_ok demo_aead_env demo_email_safe surjective_pairing] demo_run_senders
  by (simp add: Let_def)

end
