(* ===== verification/Password_Binding.thy ===== *)
theory Password_Binding
  imports Broker_Events
begin

text \<open>
  The rule of \<open>update_account\<close> that a changed destination needs the password again, over the sequences of
  \<open>Broker_Events\<close>: where each stored password was entered and what its account may have become since.
\<close>

section \<open>Where a password may go\<close>

definition keeps_destination :: "upstream_account \<Rightarrow> upstream_account \<Rightarrow> bool" where
  "keeps_destination a b \<longleftrightarrow> ua_id b = ua_id a \<and> ua_encrypted_password b = ua_encrypted_password a \<and>
     ua_host b = ua_host a \<and> ua_port b = ua_port a \<and> ua_username b = ua_username a \<and> ua_tls_mode b = ua_tls_mode a \<and>
     (ua_tls_skip_verify b \<longrightarrow> ua_tls_skip_verify a)"

text \<open>The password that a request enters for an account, with the nonce of its encryption.\<close>

definition entered :: "routing_event \<Rightarrow> int \<Rightarrow> (bytes \<times> pystr) option" where
  "entered ev i = (case ev of
       New_account rq p \<Rightarrow> if aq_new_id rq = i then Some (aq_nonce rq, uc_password p) else None
     | Change_account rq j p \<Rightarrow> if j = i then map_option (Pair (aq_nonce rq)) (entered_password p) else None
     | _ \<Rightarrow> None)"

lemma keeps_destination_refl [simp]: "keeps_destination a a"
  by (simp add: keeps_destination_def)

lemma keeps_destination_trans: "keeps_destination a b \<Longrightarrow> keeps_destination b c \<Longrightarrow> keeps_destination a c"
  by (auto simp: keeps_destination_def)

lemma keeps_destination_core: "core_of b = core_of a \<Longrightarrow> keeps_destination a b"
  unfolding keeps_destination_def by (metis core_of_simps)

lemma unchanged_patched: "\<not> changes_field x v \<Longrightarrow> patched x v = x"
  by (auto simp: changes_field_def patched_def split: option.splits)

lemma update_keeps_destination:
  assumes "\<not> redirects a p"
  shows "keeps_destination a (updated_account p None a)"
proof -
  have "patched (ua_host a) (up_host p) = ua_host a" "patched (ua_port a) (up_port p) = ua_port a"
    "patched (ua_username a) (up_username p) = ua_username a" "patched (ua_tls_mode a) (up_tls_mode p) = ua_tls_mode a"
    using assms by (simp_all add: redirects_def unchanged_patched)
  moreover have "patched (ua_tls_skip_verify a) (up_tls_skip_verify p) \<longrightarrow> ua_tls_skip_verify a"
    using assms by (cases "up_tls_skip_verify p"; cases "the (up_tls_skip_verify p)") (simp_all add: redirects_def patched_def)
  ultimately show ?thesis by (simp add: keeps_destination_def updated_account_def)
qed

lemma tests_only_provenance:
  assumes "tests_only d d'" "b \<in> set (accounts d')"
  shows "\<exists>a\<in>set (accounts d). keeps_destination a b"
proof -
  have core: "map core_of (accounts d') = map core_of (accounts d)" using assms(1) by (simp add: tests_only_def)
  have "core_of b \<in> set (map core_of (accounts d'))" using assms(2) by simp
  then have "core_of b \<in> set (map core_of (accounts d))" unfolding core .
  then obtain a where "a \<in> set (accounts d)" "core_of b = core_of a" unfolding set_map by (rule imageE)
  then show ?thesis using keeps_destination_core by blast
qed

text \<open>One step: a row keeps its password and destination, or the request entered the password.\<close>

definition from_request :: "broker_env \<Rightarrow> routing_event \<Rightarrow> upstream_account \<Rightarrow> bool" where
  "from_request E ev b \<longleftrightarrow> (\<exists>n pw. entered ev (ua_id b) = Some (n, pw) \<and>
     encrypt_secret (be_aead E) (be_keys E) n pw = Inr (ua_encrypted_password b))"

lemma update_provenance:
  assumes c: "update_account (be_aead E) (be_keys E) rq i p d = (r, d')" and ids: "keys_distinct ua_id (accounts d)"
    and b: "b \<in> set (accounts d')"
  shows "(\<exists>a\<in>set (accounts d). keeps_destination a b) \<or> from_request E (Change_account rq i p) b"
  using update_account_effect[OF c]
proof (elim disjE conjE exE)
  assume "d' = d"
  then show ?thesis using b keeps_destination_refl by blast
next
  fix a blob assume a: "account_by_id i d = Some a" and gate: "redirects a p \<longrightarrow> entered_password p \<noteq> None"
    and blob: "stored_blob (be_aead E) (be_keys E) rq p blob"
    and acc: "accounts d' = tbl_upd ua_id i (updated_account p blob) (accounts d)"
  obtain c where c: "c \<in> set (accounts d)" "b = (if ua_id c = i then updated_account p blob c else c)"
    using b unfolding acc set_tbl_upd by blast
  show ?thesis
  proof (cases "ua_id c = i")
    case True
    then have "c = a" using a tbl_get_mem[OF ids c(1)] by (simp add: account_by_id_def)
    show ?thesis
    proof (cases "entered_password p")
      case None
      then have "b = updated_account p None c" "\<not> redirects c p"
        using blob gate c(2) True \<open>c = a\<close> by (simp_all add: stored_blob_def)
      then show ?thesis using update_keeps_destination c(1) by metis
    next
      case (Some pw)
      then obtain x where x: "blob = Some x" "encrypt_secret (be_aead E) (be_keys E) (aq_nonce rq) pw = Inr x"
        using blob by (auto simp: stored_blob_def)
      have "ua_id b = i" "ua_encrypted_password b = x" using c(2) True x(1) by (simp_all add: updated_account_def)
      then show ?thesis using Some x(2) by (simp add: from_request_def entered_def)
    qed
  next
    case False
    then have "b = c" using c(2) by simp
    then show ?thesis using c(1) keeps_destination_refl by blast
  qed
qed

lemma create_provenance:
  assumes c: "create_account (be_aead E) (be_keys E) rq p d = (r, d')" and b: "b \<in> set (accounts d')"
  shows "(\<exists>a\<in>set (accounts d). keeps_destination a b) \<or> from_request E (New_account rq p) b"
  using create_account_effect[OF c]
proof (elim disjE conjE exE)
  assume "d' = d"
  then show ?thesis using b keeps_destination_refl by blast
next
  fix blob assume blob: "encrypt_secret (be_aead E) (be_keys E) (aq_nonce rq) (uc_password p) = Inr blob"
    and acc: "accounts d' = accounts d @ [created_account rq p blob]"
  have "b \<in> set (accounts d) \<or> b = created_account rq p blob" using b unfolding acc by auto
  moreover have "from_request E (New_account rq p) (created_account rq p blob)"
    using blob by (simp add: from_request_def entered_def created_account_def)
  ultimately show ?thesis using keeps_destination_refl by blast
qed

lemma same_accounts_provenance: "set (accounts d') \<subseteq> set (accounts d) \<Longrightarrow> b \<in> set (accounts d') \<Longrightarrow>
   \<exists>a\<in>set (accounts d). keeps_destination a b"
  using keeps_destination_refl by blast

lemma routing_provenance:
  assumes step: "routing_step E ev d = (out, d')" and ids: "keys_distinct ua_id (accounts d)" and b: "b \<in> set (accounts d')"
  shows "(\<exists>a\<in>set (accounts d). keeps_destination a b) \<or> from_request E ev b"
proof (cases ev)
  case (New_account rq p)
  show ?thesis
  proof (cases "upstream_account_create_ok p")
    case True
    obtain r where "create_account (be_aead E) (be_keys E) rq p d = (r, d')"
      using step New_account True by (cases "create_account (be_aead E) (be_keys E) rq p d") auto
    then show ?thesis using create_provenance[OF _ b] New_account by blast
  next
    case False
    then have "d' = d" using step New_account by simp
    then show ?thesis using b keeps_destination_refl by blast
  qed
next
  case (Change_account rq i p)
  show ?thesis
  proof (cases "upstream_account_update_ok p")
    case True
    obtain r where "update_account (be_aead E) (be_keys E) rq i p d = (r, d')"
      using step Change_account True by (cases "update_account (be_aead E) (be_keys E) rq i p d") auto
    then show ?thesis using update_provenance[OF _ ids b] Change_account by blast
  next
    case False
    then have "d' = d" using step Change_account by simp
    then show ?thesis using b keeps_destination_refl by blast
  qed
next
  case (Drop_account rq i)
  obtain r where "delete_account rq i d = (r, d')" using step Drop_account by (cases "delete_account rq i d") auto
  from delete_account_effect[OF this] have "set (accounts d') \<subseteq> set (accounts d)" by auto
  then show ?thesis using same_accounts_provenance[OF _ b] by blast
next
  case (Test_account now N i)
  then obtain r t where "test_connection (be_aead E) (be_keys E) now N i d = (r, d', t)"
    using step by (auto split: prod.splits)
  then show ?thesis using tests_only_provenance[OF test_connection_tests_only b] by blast
next
  case (Test_round tick)
  then have "d' = fst (connection_test_tick (decrypt_secret (be_aead E) (be_keys E)) tick d)" using step by simp
  then show ?thesis using tests_only_provenance[OF tick_tests_only] b by blast
next
  case (New_sender rq raw)
  have "accounts d' = accounts d"
  proof (cases "parse_sender_create (be_email_str E) raw")
    case (Some p)
    obtain r where "create_sender rq p d = (r, d')" using step New_sender Some by (cases "create_sender rq p d") auto
    from create_sender_effect[OF this] show ?thesis by (auto simp: senders_only_def)
  qed (use step New_sender in simp)
  then show ?thesis using b keeps_destination_refl by metis
next
  case (Change_sender rq i raw)
  have "accounts d' = accounts d"
  proof (cases "parse_sender_update (be_email_str E) raw")
    case (Some p)
    obtain r where "update_sender rq i p d = (r, d')" using step Change_sender Some by (cases "update_sender rq i p d") auto
    from update_sender_effect[OF this] show ?thesis by (auto simp: senders_only_def)
  qed (use step Change_sender in simp)
  then show ?thesis using b keeps_destination_refl by metis
next
  case (Drop_sender rq i)
  then obtain r where "delete_sender rq i d = (r, d')" using step by (cases "delete_sender rq i d") auto
  from delete_sender_effect[OF this] have "accounts d' = accounts d" by (auto simp: senders_only_def)
  then show ?thesis using b keeps_destination_refl by metis
next
  case (Grant_sender rq i j)
  then obtain r where "sender_grant rq i j d = (r, d')" using step by (cases "sender_grant rq i j d") auto
  from sender_grant_effect[OF this] have "accounts d' = accounts d" by (auto simp: senders_only_def)
  then show ?thesis using b keeps_destination_refl by metis
next
  case (Revoke_sender rq i j)
  then obtain r where "sender_revoke rq i j d = (r, d')" using step by (cases "sender_revoke rq i j d") auto
  from sender_revoke_effect[OF this] have "accounts d' = accounts d" by (auto simp: senders_only_def)
  then show ?thesis using b keeps_destination_refl by metis
qed

lemma user_provenance:
  assumes "user_step R ev (d, w) = (out, d', w')" "b \<in> set (accounts d')"
  shows "\<exists>a\<in>set (accounts d). keeps_destination a b"
proof -
  have "accounts d' = accounts d" using user_step_shape[OF assms(1)] by (simp add: users_step_shape_def)
  then show ?thesis using assms(2) keeps_destination_refl by metis
qed

text \<open>
  The event of a run that an account's password stems from: the request that entered it, with the row as that
  request left it.
\<close>

definition bound_by :: "broker_env \<Rightarrow> 'w sasl_rpc \<Rightarrow> broker_event list \<Rightarrow> db \<times> 'w \<Rightarrow> upstream_account \<Rightarrow> bool" where
  "bound_by E R evs s b \<longleftrightarrow> (\<exists>pre ev post a. evs = pre @ Routing ev # post \<and> from_request E ev a \<and>
     a \<in> set (accounts (fst (broker_run E R (pre @ [Routing ev]) s))) \<and> keeps_destination a b)"

lemma bound_by_snoc: "bound_by E R evs s a \<Longrightarrow> keeps_destination a b \<Longrightarrow> bound_by E R (evs @ [ev]) s b"
  unfolding bound_by_def
proof (elim exE conjE)
  fix pre e post c assume "evs = pre @ Routing e # post" "from_request E e c"
    "c \<in> set (accounts (fst (broker_run E R (pre @ [Routing e]) s)))" "keeps_destination c a" "keeps_destination a b"
  moreover from this have "evs @ [ev] = pre @ Routing e # (post @ [ev])" "keeps_destination c b"
    using keeps_destination_trans by auto
  ultimately show "\<exists>pre e post a. evs @ [ev] = pre @ Routing e # post \<and> from_request E e a \<and>
     a \<in> set (accounts (fst (broker_run E R (pre @ [Routing e]) s))) \<and> keeps_destination a b" by blast
qed

lemma run_provenance:
  assumes "broker_wf E (fst s)" "broker_run_ok E R evs s" "aead_ok (be_aead E)"
    and "b \<in> set (accounts (fst (broker_run E R evs s)))"
  shows "(\<exists>a\<in>set (accounts (fst s)). keeps_destination a b) \<or> bound_by E R evs s b"
  using assms(2,4)
proof (induction evs arbitrary: b rule: rev_induct)
  case Nil
  then have "b \<in> set (accounts (fst s))" by simp
  then show ?case using keeps_destination_refl by blast
next
  case (snoc ev evs)
  obtain d w where s: "broker_run E R evs s = (d, w)" by (rule prod.exhaust)
  have ok: "broker_run_ok E R evs s" using snoc.prems(1) by (simp add: broker_run_ok_append)
  have ids: "keys_distinct ua_id (accounts d)"
    using broker_run_wf[OF assms(1) ok assms(3)] s by (simp add: broker_wf_def routing_wf_def)
  have b: "b \<in> set (accounts (fst (broker_step E R ev (d, w))))" using snoc.prems(2) s by (simp add: broker_run_append)
  have "(\<exists>a\<in>set (accounts d). keeps_destination a b) \<or> (\<exists>e. ev = Routing e \<and> from_request E e b)"
  proof (cases ev)
    case (Routing e)
    obtain out d' where step: "routing_step E e d = (out, d')" by (rule prod.exhaust)
    then have "b \<in> set (accounts d')" using b Routing by simp
    from routing_provenance[OF step ids this] show ?thesis using Routing by blast
  next
    case (Users e)
    obtain out d' w' where step: "user_step R e (d, w) = (out, d', w')" by (rule prod_cases3)
    then have "b \<in> set (accounts d')" using b Users by simp
    from user_provenance[OF step this] show ?thesis by blast
  qed
  then show ?case
  proof (elim disjE bexE exE conjE)
    fix a assume a: "a \<in> set (accounts d)" "keeps_destination a b"
    then show ?case using snoc.IH[OF ok, of a] s bound_by_snoc keeps_destination_trans by (metis fst_conv)
  next
    fix e assume e: "ev = Routing e" "from_request E e b"
    have "bound_by E R (evs @ [ev]) s b"
      unfolding bound_by_def using e snoc.prems(2) keeps_destination_refl by blast
    then show ?case ..
  qed
qed

text \<open>
  C10. A stored password stays where it was entered for: over every sequence of events, the encrypted
  password of an account either is that of the start, with the host, port, user name and TLS mode the account
  had then and no certificate check less, or it was entered by a request of the sequence (a creation, or
  an update that carries the password), and the account still has the destination that request left it with.
\<close>

theorem password_bound_to_destination:
  assumes "broker_wf E d" "broker_run_ok E R evs (d, w)" "aead_ok (be_aead E)"
    and "broker_run E R evs (d, w) = (d', w')" "b \<in> set (accounts d')"
  shows "(\<exists>a\<in>set (accounts d). keeps_destination a b) \<or>
    (\<exists>pre ev post a n password. evs = pre @ Routing ev # post \<and> entered ev (ua_id b) = Some (n, password) \<and>
       decrypt_secret (be_aead E) (be_keys E) (ua_encrypted_password b) = Inr password \<and>
       a \<in> set (accounts (fst (broker_run E R (pre @ [Routing ev]) (d, w)))) \<and> keeps_destination a b)"
proof -
  have "b \<in> set (accounts (fst (broker_run E R evs (d, w))))" using assms(4,5) by simp
  from run_provenance[OF _ assms(2,3) this] assms(1)
  have "(\<exists>a\<in>set (accounts d). keeps_destination a b) \<or> bound_by E R evs (d, w) b" by simp
  then show ?thesis
  proof
    assume "bound_by E R evs (d, w) b"
    then obtain pre ev post a where evs: "evs = pre @ Routing ev # post" and req: "from_request E ev a"
      and a: "a \<in> set (accounts (fst (broker_run E R (pre @ [Routing ev]) (d, w))))" "keeps_destination a b"
      unfolding bound_by_def by blast
    obtain n pw where n: "entered ev (ua_id a) = Some (n, pw)"
      "encrypt_secret (be_aead E) (be_keys E) n pw = Inr (ua_encrypted_password a)"
      using req unfolding from_request_def by blast
    have "routing_served ev (fst (broker_run E R pre (d, w)))"
      using assms(2) by (simp add: evs broker_run_ok_append)
    then have "length n = NONCE_SIZE"
      using n(1) by (cases ev) (auto simp: entered_def routing_served_def split: if_splits)
    from decrypt_encrypted[OF assms(3) this n(2)] have "decrypt_secret (be_aead E) (be_keys E) (ua_encrypted_password b) = Inr pw"
      using a(2) by (simp add: keeps_destination_def)
    moreover have "entered ev (ua_id b) = Some (n, pw)" using a(2) n(1) by (simp add: keeps_destination_def)
    ultimately show ?thesis using evs a by blast
  qed blast
qed

lemma password_bound_to_destination_witness:
  "\<exists>b\<in>set (accounts (fst (broker_run demo_broker_env obedient demo_events (empty_db, ())))). \<exists>pre ev post a n password.
     demo_events = pre @ Routing ev # post \<and> entered ev (ua_id b) = Some (n, password) \<and>
     decrypt_secret (be_aead demo_broker_env) (be_keys demo_broker_env) (ua_encrypted_password b) = Inr password \<and>
     a \<in> set (accounts (fst (broker_run demo_broker_env obedient (pre @ [Routing ev]) (empty_db, ())))) \<and> keeps_destination a b"
proof -
  let ?d = "fst (broker_run demo_broker_env obedient demo_events (empty_db, ()))"
  obtain b where b: "b \<in> set (accounts ?d)" using demo_run_accounts by (cases "accounts ?d") auto
  have "\<not> (\<exists>a\<in>set (accounts empty_db). keeps_destination a b)" by (simp add: empty_db_def)
  with password_bound_to_destination[OF demo_env_wf demo_run_ok demo_aead_env surjective_pairing b] b show ?thesis by blast
qed

end
