(* ===== verification/Py_Regex.thy ===== *)
theory Py_Regex
  imports Prelude "HOL-Library.Sublist"
begin

text \<open>
  The part of Python's \<open>re\<close> that the application uses, as a backtracking matcher in continuation-passing
  style: the first way to match, in the order \<open>re\<close> tries them, whose continuation succeeds.  A match is the
  named groups it captured and the text after it.
\<close>

section \<open>Patterns\<close>

text \<open>
  \<open>Many P lo hi\<close> is \<open>[..]{lo,hi}\<close> (greedy, \<open>None\<close> for no bound), \<open>Few P\<close> is \<open>[..]*?\<close>, \<open>Ahead\<close> is \<open>(?=..)\<close>,
  \<open>At_end\<close> is \<open>$\<close>.
\<close>

datatype pattern =
    Empty
  | One "char \<Rightarrow> bool"
  | Many "char \<Rightarrow> bool" nat "nat option"
  | Few "char \<Rightarrow> bool"
  | Group pystr pattern
  | Then pattern pattern
  | Maybe pattern
  | Or pattern pattern
  | Ahead pattern
  | At_end
  | Word_boundary

type_synonym groups = "(pystr \<times> pystr) list"

type_synonym matched = "groups \<times> pystr"

type_synonym cont = "char option \<Rightarrow> pystr \<Rightarrow> groups \<Rightarrow> matched option"

definition orelse :: "'a option \<Rightarrow> 'a option \<Rightarrow> 'a option" where
  "orelse a b = (case a of Some x \<Rightarrow> Some x | None \<Rightarrow> b)"

fun many :: "(char \<Rightarrow> bool) \<Rightarrow> nat \<Rightarrow> nat option \<Rightarrow> cont \<Rightarrow> char option \<Rightarrow> pystr \<Rightarrow> groups \<Rightarrow> matched option" where
  "many P lo hi k prev [] gs = (if lo = 0 then k prev [] gs else None)"
| "many P lo hi k prev (c # s) gs =
     orelse (if P c \<and> hi \<noteq> Some 0 then many P (lo - 1) (map_option (\<lambda>h. h - 1) hi) k (Some c) s gs else None)
       (if lo = 0 then k prev (c # s) gs else None)"

fun few :: "(char \<Rightarrow> bool) \<Rightarrow> cont \<Rightarrow> char option \<Rightarrow> pystr \<Rightarrow> groups \<Rightarrow> matched option" where
  "few P k prev [] gs = k prev [] gs"
| "few P k prev (c # s) gs = orelse (k prev (c # s) gs) (if P c then few P k (Some c) s gs else None)"

definition is_boundary :: "char option \<Rightarrow> pystr \<Rightarrow> bool" where
  "is_boundary prev s \<longleftrightarrow>
     (case prev of None \<Rightarrow> False | Some c \<Rightarrow> is_word c) \<noteq> (case s of [] \<Rightarrow> False | c # _ \<Rightarrow> is_word c)"

text \<open>\<open>$\<close> also holds before a line feed that ends the text.\<close>

definition is_end :: "pystr \<Rightarrow> bool" where
  "is_end s \<longleftrightarrow> s = [] \<or> s = [CHR 10]"

primrec run_pattern :: "pattern \<Rightarrow> cont \<Rightarrow> char option \<Rightarrow> pystr \<Rightarrow> groups \<Rightarrow> matched option" where
  "run_pattern Empty k prev s gs = k prev s gs"
| "run_pattern (One P) k prev s gs = (case s of [] \<Rightarrow> None | c # s' \<Rightarrow> if P c then k (Some c) s' gs else None)"
| "run_pattern (Many P lo hi) k prev s gs = many P lo hi k prev s gs"
| "run_pattern (Few P) k prev s gs = few P k prev s gs"
| "run_pattern (Group name r) k prev s gs =
     run_pattern r (\<lambda>prev' s' gs'. k prev' s' ((name, take (length s - length s') s) # gs')) prev s gs"
| "run_pattern (Then r1 r2) k prev s gs = run_pattern r1 (run_pattern r2 k) prev s gs"
| "run_pattern (Maybe r) k prev s gs = orelse (run_pattern r k prev s gs) (k prev s gs)"
| "run_pattern (Or r1 r2) k prev s gs = orelse (run_pattern r1 k prev s gs) (run_pattern r2 k prev s gs)"
| "run_pattern (Ahead r) k prev s gs =
     (case run_pattern r (\<lambda>prev' s' gs'. Some (gs', s')) prev s gs of None \<Rightarrow> None | Some (gs', _) \<Rightarrow> k prev s gs')"
| "run_pattern At_end k prev s gs = (if is_end s then k prev s gs else None)"
| "run_pattern Word_boundary k prev s gs = (if is_boundary prev s then k prev s gs else None)"

fun seq :: "pattern list \<Rightarrow> pattern" where
  "seq [] = Empty"
| "seq [r] = r"
| "seq (r # rs) = Then r (seq rs)"

text \<open>A literal text, and the usual classes; the dot excludes the line feed.\<close>

definition lit :: "pystr \<Rightarrow> pattern" where
  "lit s = seq (map (\<lambda>c. One (\<lambda>d. d = c)) s)"

definition dot :: "char \<Rightarrow> bool" where "dot c \<longleftrightarrow> c \<noteq> CHR 10"

definition not_space :: "char \<Rightarrow> bool" where "not_space c \<longleftrightarrow> \<not> is_space c"

definition other_than :: "pystr \<Rightarrow> char \<Rightarrow> bool" where "other_than cs c \<longleftrightarrow> c \<notin> set cs"

section \<open>Functions of \<open>re\<close>\<close>

definition finish :: cont where
  "finish prev s gs = Some (gs, s)"

text \<open>\<open>pattern.match(s)\<close>, \<open>pattern.search(s)\<close>, \<open>m.group(name)\<close>, \<open>pattern.sub("", s)\<close>.\<close>

definition re_match :: "pattern \<Rightarrow> pystr \<Rightarrow> groups option" where
  "re_match r s = map_option fst (run_pattern r finish None s [])"

fun search_from :: "pattern \<Rightarrow> char option \<Rightarrow> pystr \<Rightarrow> groups option" where
  "search_from r prev [] = map_option fst (run_pattern r finish prev [] [])"
| "search_from r prev (c # s) =
     orelse (map_option fst (run_pattern r finish prev (c # s) [])) (search_from r (Some c) s)"

definition re_search :: "pattern \<Rightarrow> pystr \<Rightarrow> groups option" where
  "re_search r s = search_from r None s"

definition group :: "pystr \<Rightarrow> groups \<Rightarrow> pystr option" where
  "group name gs = map_of gs name"

definition group_of :: "pystr \<Rightarrow> groups option \<Rightarrow> pystr option" where
  "group_of name m = (case m of None \<Rightarrow> None | Some gs \<Rightarrow> group name gs)"

text \<open>Only for patterns that match no empty text and do not look back.\<close>

function re_remove :: "pattern \<Rightarrow> pystr \<Rightarrow> pystr" where
  "re_remove r [] = []"
| "re_remove r (c # s) =
     (case run_pattern r finish None (c # s) [] of
        Some (gs, rest) \<Rightarrow> if length rest < length (c # s) then re_remove r rest else c # re_remove r s
      | None \<Rightarrow> c # re_remove r s)"
  by pat_completeness auto
termination
  by (relation "measure (\<lambda>(r, s). length s)") auto

section \<open>Lemmas\<close>

lemma orelse_simps [simp]: "orelse (Some x) b = Some x" "orelse None b = b"
  by (simp_all add: orelse_def)

lemma orelse_None [simp]: "orelse a None = a"
  by (cases a) simp_all

text \<open>Greedy matching takes all it can when the rest then matches.\<close>

lemma many_all:
  assumes "\<forall>c\<in>set a. P c" "lo \<le> length a" "case b of [] \<Rightarrow> True | c # _ \<Rightarrow> \<not> P c"
    and "k (if a = [] then prev else Some (last a)) b gs = Some r"
  shows "many P lo None k prev (a @ b) gs = Some r"
  using assms
proof (induction a arbitrary: lo prev)
  case Nil
  then show ?case by (cases b) auto
next
  case (Cons c a)
  have "many P (lo - 1) None k (Some c) (a @ b) gs = Some r"
    by (rule Cons.IH) (use Cons.prems in \<open>auto split: if_splits\<close>)
  then show ?case using Cons.prems(1) by simp
qed

lemma many_upto:
  assumes "\<forall>c\<in>set a. P c" "lo \<le> length a" "length a = hi"
    and "k (if a = [] then prev else Some (last a)) b gs = Some r"
  shows "many P lo (Some hi) k prev (a @ b) gs = Some r"
  using assms
proof (induction a arbitrary: lo hi prev)
  case Nil
  then show ?case by (cases b) auto
next
  case (Cons c a)
  have "many P (lo - 1) (Some (hi - 1)) k (Some c) (a @ b) gs = Some r"
    by (rule Cons.IH) (use Cons.prems in \<open>auto split: if_splits\<close>)
  then show ?case using Cons.prems by simp
qed

lemma run_Empty: "run_pattern Empty k = k"
  by (simp add: fun_eq_iff)

lemma run_seq_Cons: "run_pattern (seq (r # rs)) k prev s gs = run_pattern r (run_pattern (seq rs) k) prev s gs"
  by (cases rs) (simp_all add: run_Empty)

lemma run_seq_Nil [simp]: "run_pattern (seq []) k prev s gs = k prev s gs"
  by simp

lemma run_lit: "run_pattern (lit w) k prev (w @ s) gs = k (if w = [] then prev else Some (last w)) s gs"
proof (induction w arbitrary: prev)
  case (Cons c w)
  have "run_pattern (lit (c # w)) k prev ((c # w) @ s) gs = run_pattern (lit w) k (Some c) (w @ s) gs"
    unfolding lit_def list.map run_seq_Cons by simp
  then show ?case using Cons by simp
qed (simp add: lit_def)

lemma run_lit_mismatch: "\<not> prefix w s \<Longrightarrow> run_pattern (lit w) k prev s gs = None"
proof (induction w arbitrary: s prev)
  case (Cons c w)
  then show ?case unfolding lit_def list.map run_seq_Cons by (cases s) auto
qed simp

text \<open>What a successful match has matched: the text that was taken, and the class of its characters.\<close>

lemma orelse_SomeD: "orelse a b = Some x \<Longrightarrow> a = Some x \<or> b = Some x"
  by (cases a) simp_all

lemma many_sound:
  "many P lo hi k prev s gs = Some x \<Longrightarrow>
   \<exists>a b prev'. s = a @ b \<and> (\<forall>c\<in>set a. P c) \<and> lo \<le> length a \<and> (\<forall>h. hi = Some h \<longrightarrow> length a \<le> h) \<and> k prev' b gs = Some x"
proof (induction P lo hi k prev s gs rule: many.induct)
  case (1 P lo hi k prev gs)
  then show ?case by (intro exI[of _ "[]"]) (auto split: if_splits)
next
  case (2 P lo hi k prev c s gs)
  from orelse_SomeD[OF 2(2)[unfolded many.simps]] show ?case
  proof
    assume l: "(if P c \<and> hi \<noteq> Some 0 then many P (lo - 1) (map_option (\<lambda>h. h - 1) hi) k (Some c) s gs else None) = Some x"
    then have c: "P c \<and> hi \<noteq> Some 0" by (simp split: if_splits)
    then obtain a b p where ab: "s = a @ b" "\<forall>c\<in>set a. P c" "lo - 1 \<le> length a"
        "\<forall>h. map_option (\<lambda>h. h - 1) hi = Some h \<longrightarrow> length a \<le> h" "k p b gs = Some x"
      using 2(1) l by (simp split: if_splits) blast
    have "\<forall>h. hi = Some h \<longrightarrow> length (c # a) \<le> h"
    proof (intro allI impI)
      fix h assume h: "hi = Some h"
      then have "length a \<le> h - 1" using ab(4) by simp
      moreover have "h \<noteq> 0" using c h by simp
      ultimately show "length (c # a) \<le> h" by simp
    qed
    moreover have "c # s = (c # a) @ b" "\<forall>d\<in>set (c # a). P d" "lo \<le> length (c # a)" using ab c by auto
    ultimately show ?thesis using ab(5) by blast
  next
    assume "(if lo = 0 then k prev (c # s) gs else None) = Some x"
    then have "lo = 0" "k prev (c # s) gs = Some x" by (simp_all split: if_splits)
    then show ?thesis by (intro exI[of _ "[]"] exI[of _ "c # s"] exI[of _ prev]) simp
  qed
qed

lemma few_sound:
  "few P k prev s gs = Some x \<Longrightarrow> \<exists>a b prev'. s = a @ b \<and> (\<forall>c\<in>set a. P c) \<and> k prev' b gs = Some x"
proof (induction P k prev s gs rule: few.induct)
  case (1 P k prev gs)
  then show ?case by auto
next
  case (2 P k prev c s gs)
  from orelse_SomeD[OF 2(2)[unfolded few.simps]] show ?case
  proof
    assume "k prev (c # s) gs = Some x"
    then show ?thesis by (intro exI[of _ "[]"] exI[of _ "c # s"] exI[of _ prev]) simp
  next
    assume l: "(if P c then few P k (Some c) s gs else None) = Some x"
    then have "P c" by (simp split: if_splits)
    with 2(1) l obtain a b p where "s = a @ b" "\<forall>c\<in>set a. P c" "k p b gs = Some x" by auto
    then show ?thesis using \<open>P c\<close> by (intro exI[of _ "c # a"] exI[of _ b] exI[of _ p]) simp
  qed
qed

lemma lit_sound: "run_pattern (lit w) k prev s gs = Some x \<Longrightarrow> \<exists>t prev'. s = w @ t \<and> k prev' t gs = Some x"
proof -
  assume m: "run_pattern (lit w) k prev s gs = Some x"
  then have "prefix w s" using run_lit_mismatch by fastforce
  then obtain t where "s = w @ t" by (auto simp: prefix_def)
  then show ?thesis using m run_lit by metis
qed

end
