(* ===== verification/Mail_Log_Parser.thy ===== *)
theory Mail_Log_Parser
  imports Py_Regex Models Civil_Time
begin

text \<open>
  \<open>core/mail_log_parser.py\<close>: one line of the Postfix log as an event.  The patterns are those of the source,
  for the matcher of \<open>Py_Regex\<close>; the clock of the \<open>datetime.now\<close> call is an argument.
\<close>

section \<open>The patterns\<close>

definition spaces :: pattern where "spaces = Many is_space 1 None"

definition opt_spaces :: pattern where "opt_spaces = Many is_space 0 None"

definition non_spaces :: pattern where "non_spaces = Many not_space 1 None"

definition digits :: "nat \<Rightarrow> nat option \<Rightarrow> pattern" where "digits lo hi = Many is_digit lo hi"

definition any :: "nat \<Rightarrow> pattern" where "any lo = Many dot lo None"

definition LINE_RE :: pattern where
  "LINE_RE = seq [Many is_word 3 (Some 3), spaces, digits 1 (Some 2), spaces, digits 2 (Some 2), lit '':'', digits 2 (Some 2),
     lit '':'', digits 2 (Some 2), spaces, non_spaces, spaces, lit ''postfix/'',
     Group ''service'' (Many (\<lambda>c. is_word c \<or> c \<in> set ''./-'') 1 None), lit ''['', Group ''pid'' (digits 1 None), lit '']:'',
     opt_spaces, Group ''rest'' (any 0), At_end]"

definition QUEUE_ID_RE :: pattern where
  "QUEUE_ID_RE = seq [Ahead (seq [Many is_ascii_alnum 0 None, digits 1 (Some 1)]),
     Group ''1'' (Many is_ascii_alnum 6 (Some 16)), lit '':'', opt_spaces, Group ''2'' (any 0), At_end]"

definition SASL_USERNAME_RE :: pattern where
  "SASL_USERNAME_RE = seq [lit ''sasl_username='', Group ''value'' non_spaces]"

definition FROM_RE :: pattern where
  "FROM_RE = seq [lit ''from=<'', Group ''value'' (Many (other_than ''>'') 0 None), lit ''>'']"

definition TO_RE :: pattern where
  "TO_RE = seq [Word_boundary, lit ''to=<'', Group ''value'' (Many (other_than ''>'') 0 None), lit ''>'']"

definition STATUS_RE :: pattern where
  "STATUS_RE = seq [lit ''status='', Group ''status'' (Many is_word 1 None),
     Maybe (seq [spaces, lit ''('', Group ''detail'' (any 0), lit '')'']), opt_spaces, At_end]"

definition RELAY_RE :: pattern where
  "RELAY_RE = seq [lit ''relay='', Group ''host'' (Many (\<lambda>c. c \<noteq> CHR ''['' \<and> \<not> is_space c \<and> c \<noteq> CHR '','') 1 None), lit ''['',
     Many (other_than '']'') 0 None, lit '']:'', Group ''port'' (digits 1 None)]"

definition NOQUEUE_REJECT_RE :: pattern where
  "NOQUEUE_REJECT_RE = seq [lit ''NOQUEUE: reject: '', Few dot, lit '': '',
     Group ''code_and_text'' (seq [digits 3 (Some 3), Many (other_than '';'') 0 None]), lit '';'', opt_spaces,
     Group ''rest'' (any 0), At_end]"

definition AUTH_FAILED_RE :: pattern where
  "AUTH_FAILED_RE = seq [lit ''warning: '', Group ''client'' non_spaces, lit '': SASL '', Group ''mechanism'' non_spaces,
     lit '' authentication failed: '', Group ''detail'' (any 0), At_end]"

definition TLS_HANDSHAKE_FAILED_RE :: pattern where
  "TLS_HANDSHAKE_FAILED_RE = seq [lit ''warning: '', Group ''client'' non_spaces, lit '': SSL_accept error from '', non_spaces,
     lit '': '', Group ''detail'' (any 1), At_end]"

definition LOST_CONNECTION_RE :: pattern where
  "LOST_CONNECTION_RE = seq [lit ''lost connection after '', Group ''phase'' non_spaces, lit '' from '', Group ''client'' non_spaces,
     At_end]"

section \<open>Events\<close>

datatype event_kind = Auth | Enqueued | Delivery | Reject

record log_event =
  le_kind :: event_kind
  le_timestamp :: datetime
  le_queue_id :: "pystr option"
  le_sasl_username :: "pystr option"
  le_envelope_sender :: "pystr option"
  le_recipient :: "pystr option"
  le_status :: "mail_status option"
  le_relay_host :: "pystr option"
  le_relay_port :: "int option"
  le_error :: "pystr option"

definition plain_event :: "event_kind \<Rightarrow> datetime \<Rightarrow> log_event" where
  "plain_event kind t = \<lparr>le_kind = kind, le_timestamp = t, le_queue_id = None, le_sasl_username = None,
     le_envelope_sender = None, le_recipient = None, le_status = None, le_relay_host = None, le_relay_port = None,
     le_error = None\<rparr>"

definition POSTFIX_STATUS_TO_MAIL_STATUS :: "(pystr \<times> mail_status) list" where
  "POSTFIX_STATUS_TO_MAIL_STATUS =
     [(''sent'', Sent), (''deferred'', Deferred), (''bounced'', Bounced), (''expired'', Bounced)]"

section \<open>The time stamp\<close>

text \<open>
  \<open>strptime\<close> with the format \<open>%b %d %H:%M:%S\<close> on a text that ends with it (the year is the one put in
  front): the expressions of the module \<open>_strptime\<close> in the C locale.
\<close>

definition month_names :: "pystr list" where
  "month_names = [''jan'', ''feb'', ''mar'', ''apr'', ''may'', ''jun'', ''jul'', ''aug'', ''sep'', ''oct'', ''nov'', ''dec'']"

definition month_number :: "pystr \<Rightarrow> int option" where
  "month_number name =
     map_of (zip month_names (map int [1..<13])) (lower name)"

definition dig :: "char \<Rightarrow> char \<Rightarrow> pattern" where
  "dig a b = One (\<lambda>c. code a \<le> code c \<and> code c \<le> code b)"

definition STRPTIME_RE :: pattern where
  "STRPTIME_RE = seq [Group ''b'' (Many is_ascii_alpha 3 (Some 3)), spaces,
     Group ''d'' (Or (seq [lit ''3'', dig (CHR ''0'') (CHR ''1'')]) (Or (seq [dig (CHR ''1'') (CHR ''2''), One is_digit])
       (Or (seq [lit ''0'', dig (CHR ''1'') (CHR ''9'')]) (Or (dig (CHR ''1'') (CHR ''9'')) (seq [lit '' '', dig (CHR ''1'') (CHR ''9'')]))))),
     spaces,
     Group ''H'' (Or (seq [lit ''2'', dig (CHR ''0'') (CHR ''3'')]) (Or (seq [dig (CHR ''0'') (CHR ''1''), One is_digit]) (One is_digit))),
     lit '':'', Group ''M'' (Or (seq [dig (CHR ''0'') (CHR ''5''), One is_digit]) (One is_digit)), lit '':'',
     Group ''S'' (Or (seq [lit ''6'', dig (CHR ''0'') (CHR ''1'')]) (Or (seq [dig (CHR ''0'') (CHR ''5''), One is_digit]) (One is_digit)))]"

definition int_of_digits :: "pystr \<Rightarrow> int" where
  "int_of_digits s = fold (\<lambda>c n. 10 * n + int (code c) - 48) (filter is_digit s) 0"

definition strptime :: "pystr \<Rightarrow> (int \<times> int \<times> int \<times> int \<times> int) option" where
  "strptime s =
     (case run_pattern STRPTIME_RE finish None s [] of
        Some (gs, []) \<Rightarrow>
          (case (month_number (the (group ''b'' gs)), map (\<lambda>n. int_of_digits (the (group n gs))) [''d'', ''H'', ''M'', ''S'']) of
             (Some month, [d, h, mi, sec]) \<Rightarrow> Some (month, d, h, mi, sec)
           | _ \<Rightarrow> None)
      | _ \<Rightarrow> None)"

definition is_leap :: "int \<Rightarrow> bool" where
  "is_leap y \<longleftrightarrow> y mod 4 = 0 \<and> (y mod 100 \<noteq> 0 \<or> y mod 400 = 0)"

definition days_in_month :: "int \<Rightarrow> int \<Rightarrow> int" where
  "days_in_month y m = (if m = 2 then (if is_leap y then 29 else 28) else if m \<in> {4, 6, 9, 11} then 30 else 31)"

definition year_of :: "datetime \<Rightarrow> int" where
  "year_of t = fst (civil_of_days (t div days 1))"

datatype value_error = ValueError pystr

text \<open>
  The current year is assumed, or the last one when that is more than a day ahead; \<open>replace(year=..)\<close> raises
  on a 29 February of a year that has none.
\<close>

definition parse_timestamp :: "datetime \<Rightarrow> pystr \<Rightarrow> value_error + datetime" where
  "parse_timestamp now line =
     (case strptime (take 15 line) of
        None \<Rightarrow> Inr now
      | Some (mo, d, h, mi, s) \<Rightarrow>
          (let y = year_of now
           in if days_in_month y mo < d \<or> 59 < s then Inr now
              else
                (let parsed = datetime_of y mo d h mi s 0
                 in if parsed - now > days 1
                    then (if days_in_month (y - 1) mo < d then Inl (ValueError ''day is out of range for month'')
                          else Inr (datetime_of (y - 1) mo d h mi s 0))
                    else Inr parsed)))"

section \<open>A line\<close>

text \<open>The part of a line behind its prefix, as an event at \<open>t\<close>; a text in front of a colon is a reason.\<close>

definition reject_event :: "datetime \<Rightarrow> groups \<Rightarrow> log_event" where
  "reject_event t noqueue =
     (let tail = the (group ''rest'' noqueue)
      in (plain_event Reject t)\<lparr>le_sasl_username := group_of ''value'' (re_search SASL_USERNAME_RE tail),
           le_envelope_sender := group_of ''value'' (re_search FROM_RE tail),
           le_recipient := group_of ''value'' (re_search TO_RE tail),
           le_error := Some (strip (the (group ''code_and_text'' noqueue)))\<rparr>)"

definition auth_failed_event :: "datetime \<Rightarrow> groups \<Rightarrow> log_event" where
  "auth_failed_event t m =
     (let detail = the (group ''detail'' m);
          reason = strip (rstrip_of (\<lambda>c. c \<in> set '', '') (re_remove SASL_USERNAME_RE detail))
      in (plain_event Reject t)\<lparr>le_sasl_username := group_of ''value'' (re_search SASL_USERNAME_RE detail),
           le_error := Some (''SASL '' @ the (group ''mechanism'' m) @ '' authentication failed: '' @ reason)\<rparr>)"

definition tls_failed_event :: "datetime \<Rightarrow> groups \<Rightarrow> log_event" where
  "tls_failed_event t m = (plain_event Reject t)\<lparr>le_error :=
     Some (''TLS handshake failed ('' @ the (group ''client'' m) @ ''): '' @ the (group ''detail'' m))\<rparr>"

definition lost_connection_event :: "datetime \<Rightarrow> groups \<Rightarrow> log_event" where
  "lost_connection_event t m = (plain_event Reject t)\<lparr>le_error :=
     Some (''Lost connection after '' @ the (group ''phase'' m) @ '' ('' @ the (group ''client'' m) @ '')'')\<rparr>"

definition delivery_event :: "datetime \<Rightarrow> pystr \<Rightarrow> pystr \<Rightarrow> log_event" where
  "delivery_event t queue_id body =
     (let status_match = re_search STATUS_RE body; relay_match = re_search RELAY_RE body;
          status = (case group_of ''status'' status_match of None \<Rightarrow> None | Some s \<Rightarrow> map_of POSTFIX_STATUS_TO_MAIL_STATUS s)
      in (plain_event Delivery t)\<lparr>le_queue_id := Some queue_id, le_recipient := group_of ''value'' (re_search TO_RE body),
           le_status := status, le_relay_host := group_of ''host'' relay_match,
           le_relay_port := map_option int_of_digits (group_of ''port'' relay_match),
           le_error := (if status \<noteq> Some Sent then group_of ''detail'' status_match else None)\<rparr>)"

definition queue_event :: "datetime \<Rightarrow> pystr \<Rightarrow> pystr \<Rightarrow> log_event option" where
  "queue_event t queue_id body =
     (case re_search SASL_USERNAME_RE body of
        Some m \<Rightarrow> Some ((plain_event Auth t)\<lparr>le_queue_id := Some queue_id, le_sasl_username := group ''value'' m\<rparr>)
      | None \<Rightarrow>
          if take 5 body = ''from=''
          then Some ((plain_event Enqueued t)\<lparr>le_queue_id := Some queue_id,
                 le_envelope_sender := group_of ''value'' (re_search FROM_RE body)\<rparr>)
          else if take 3 body = ''to='' then Some (delivery_event t queue_id body)
          else None)"

definition parse_rest :: "datetime \<Rightarrow> pystr \<Rightarrow> log_event option" where
  "parse_rest t rest =
     (case re_match NOQUEUE_REJECT_RE rest of Some m \<Rightarrow> Some (reject_event t m) | None \<Rightarrow>
      (case re_match AUTH_FAILED_RE rest of Some m \<Rightarrow> Some (auth_failed_event t m) | None \<Rightarrow>
       (case re_match TLS_HANDSHAKE_FAILED_RE rest of Some m \<Rightarrow> Some (tls_failed_event t m) | None \<Rightarrow>
        (case re_match LOST_CONNECTION_RE rest of Some m \<Rightarrow> Some (lost_connection_event t m) | None \<Rightarrow>
         (case re_match QUEUE_ID_RE rest of
            None \<Rightarrow> None
          | Some m \<Rightarrow> queue_event t (the (group ''1'' m)) (the (group ''2'' m)))))))"

definition parse_line :: "datetime \<Rightarrow> pystr \<Rightarrow> value_error + log_event option" where
  "parse_line now line =
     (case re_match LINE_RE line of
        None \<Rightarrow> Inr None
      | Some m \<Rightarrow>
          (case parse_timestamp now line of
             Inl e \<Rightarrow> Inl e
           | Inr t \<Rightarrow> Inr (parse_rest t (the (group ''rest'' m)))))"

text \<open>
  The part of a line an upstream server chose, its reply, is searched for \<open>sasl_username=\<close> as well: a
  delivery then counts as an authentication, of any user the server names.
\<close>

lemma reply_text_forges_auth:
  "map_sum (\<lambda>_. ()) (map_option (\<lambda>e. (le_kind e, le_sasl_username e)))
     (parse_line (datetime_of 2024 6 10 13 0 0 0)
       ''Jun 10 12:34:56 mail postfix/smtp[12]: 4ABC123DEF: to=<d@example.net>, status=deferred (host said: 451 sasl_username=victim x)'') =
   Inr (Some (Auth, Some ''victim''))"
  by code_simp

text \<open>A 29 February that lies ahead is moved to a year that may not have one.\<close>

lemma leap_day_line_raises:
  "parse_line (datetime_of 2024 1 15 0 0 0 0) ''Feb 29 10:00:00 mail postfix/qmgr[1]: 4ABC123DEF: removed'' =
   Inl (ValueError ''day is out of range for month'')"
  by code_simp

end
