(* ===== verification/Mail_Log_Ingest.thy ===== *)
theory Mail_Log_Ingest
  imports Mail_Log_Parser Postfix_Control
begin

text \<open>
  \<open>core/mail_log_ingest.py\<close>: the lines of the Postfix log become rows of the mail log, one row per queue id
  and one per rejection.  The lock \<open>_ingest_lock\<close> makes the calls of \<open>ingest_new_log_lines\<close> run one after the
  other, which is how a sequence of calls is modelled here.
\<close>

section \<open>One line\<close>

text \<open>
  A line with what its iteration reads besides: the clock, the random text of a synthesized queue id, the id
  the database assigns to a new row, and the two look-up tables of the call.
\<close>

record line_read =
  lr_text :: pystr
  lr_now :: datetime
  lr_uuid :: pystr
  lr_row_id :: int
  lr_users :: "(pystr \<times> int) list"
  lr_upstreams :: "(pystr \<times> int) list"

datatype ingest_error = Ingest_control ctl_error | Ingest_value value_error | Ingest_integrity

definition new_row :: "line_read \<Rightarrow> pystr \<Rightarrow> log_event \<Rightarrow> mail_log" where
  "new_row l queue_id event =
     \<lparr>ml_id = lr_row_id l, ml_queue_id = queue_id, ml_timestamp = le_timestamp event, ml_local_smtp_user_id = None,
      ml_envelope_sender = (case le_envelope_sender event of None \<Rightarrow> [] | Some a \<Rightarrow> a), ml_recipients = [],
      ml_upstream_account_id = None, ml_status = Queued, ml_error = None\<rparr>"

definition get_or_create :: "line_read \<Rightarrow> pystr \<Rightarrow> log_event \<Rightarrow> mail_log list \<Rightarrow> mail_log list" where
  "get_or_create l queue_id event rows =
     (if tbl_get ml_queue_id queue_id rows = None then rows @ [new_row l queue_id event] else rows)"

text \<open>What an event with a queue id does to the row of that id.\<close>

definition apply_delivery :: "line_read \<Rightarrow> log_event \<Rightarrow> mail_log \<Rightarrow> mail_log" where
  "apply_delivery l event row =
     row\<lparr>ml_recipients := (case le_recipient event of
            Some (c # cs) \<Rightarrow> if c # cs \<in> set (ml_recipients row) then ml_recipients row else ml_recipients row @ [c # cs]
          | _ \<Rightarrow> ml_recipients row),
         ml_status := (case le_status event of None \<Rightarrow> ml_status row | Some s \<Rightarrow> s),
         ml_error := (case le_error event of None \<Rightarrow> ml_error row | Some e \<Rightarrow> Some e),
         ml_upstream_account_id := (case map_of (lr_upstreams l) (ml_envelope_sender row) of
            None \<Rightarrow> ml_upstream_account_id row | Some a \<Rightarrow> Some a)\<rparr>"

definition apply_event :: "line_read \<Rightarrow> log_event \<Rightarrow> mail_log \<Rightarrow> mail_log" where
  "apply_event l event row =
     (case le_kind event of
        Auth \<Rightarrow> (case le_sasl_username event of
                   Some (c # cs) \<Rightarrow> row\<lparr>ml_local_smtp_user_id := map_of (lr_users l) (c # cs)\<rparr> | _ \<Rightarrow> row)
      | Enqueued \<Rightarrow> (case le_envelope_sender event of Some a \<Rightarrow> row\<lparr>ml_envelope_sender := a\<rparr> | None \<Rightarrow> row)
      | Delivery \<Rightarrow> apply_delivery l event row
      | Reject \<Rightarrow> row)"

definition reject_row :: "line_read \<Rightarrow> log_event \<Rightarrow> mail_log" where
  "reject_row l event =
     \<lparr>ml_id = lr_row_id l, ml_queue_id = ''REJECT-'' @ take 12 (lr_uuid l), ml_timestamp = le_timestamp event,
      ml_local_smtp_user_id = (case le_sasl_username event of Some (c # cs) \<Rightarrow> map_of (lr_users l) (c # cs) | _ \<Rightarrow> None),
      ml_envelope_sender = (case le_envelope_sender event of None \<Rightarrow> [] | Some a \<Rightarrow> a),
      ml_recipients = (case le_recipient event of Some (c # cs) \<Rightarrow> [c # cs] | _ \<Rightarrow> []),
      ml_upstream_account_id = None, ml_status = Rejected, ml_error = le_error event\<rparr>"

text \<open>A second row with a queue id is what the unique index refuses.\<close>

definition ingest_event :: "line_read \<Rightarrow> log_event \<Rightarrow> mail_log list \<Rightarrow> ingest_error + mail_log list" where
  "ingest_event l event rows =
     (if le_kind event = Reject
      then (if tbl_get ml_queue_id (ml_queue_id (reject_row l event)) rows = None then Inr (rows @ [reject_row l event])
            else Inl Ingest_integrity)
      else (case le_queue_id event of
          None \<Rightarrow> Inr rows
        | Some q \<Rightarrow> Inr (tbl_upd ml_queue_id q (apply_event l event) (get_or_create l q event rows))))"

definition ingest_line :: "line_read \<Rightarrow> mail_log list \<Rightarrow> ingest_error + mail_log list" where
  "ingest_line l rows =
     (case parse_line (lr_now l) (lr_text l) of
        Inl e \<Rightarrow> Inl (Ingest_value e)
      | Inr None \<Rightarrow> Inr rows
      | Inr (Some event) \<Rightarrow> ingest_event l event rows)"

fun ingest_lines :: "line_read list \<Rightarrow> mail_log list \<Rightarrow> ingest_error + mail_log list" where
  "ingest_lines [] rows = Inr rows"
| "ingest_lines (l # ls) rows = (case ingest_line l rows of Inl e \<Rightarrow> Inl e | Inr rows' \<Rightarrow> ingest_lines ls rows')"

section \<open>One call\<close>

text \<open>What one call finds: for its i-th line the clock, the random text and the row id.\<close>

record ingest_env =
  ie_now :: "nat \<Rightarrow> datetime"
  ie_uuid :: "nat \<Rightarrow> pystr"
  ie_row_id :: "nat \<Rightarrow> int"

definition get_state :: "db \<Rightarrow> mail_log_ingest_state \<times> db" where
  "get_state d =
     (let (s, row) = get_or_create_singleton (ingest_state d) \<lparr>is_byte_offset = 0, is_maillog_inode = None\<rparr>
      in (s, d\<lparr>ingest_state := row\<rparr>))"

text \<open>\<open>dict(rows)\<close>: the last row of a key counts.\<close>

definition reads_of :: "ingest_env \<Rightarrow> db \<Rightarrow> pystr list \<Rightarrow> line_read list" where
  "reads_of env d lines =
     map (\<lambda>(i, text). \<lparr>lr_text = text, lr_now = ie_now env i, lr_uuid = ie_uuid env i, lr_row_id = ie_row_id env i,
         lr_users = rev (map (\<lambda>u. (lu_username u, lu_id u)) (local_users d)),
         lr_upstreams = rev (map (\<lambda>s. (sn_address s, sn_upstream_account_id s)) (senders d))\<rparr>)
       (zip [0..<length lines] lines)"

text \<open>The operation of the control surface is an argument, as is the state behind it.\<close>

type_synonym 'w tailer = "int \<Rightarrow> int option \<Rightarrow> 'w \<Rightarrow> (ctl_error + maillog_tail) \<times> 'w"

definition ingest_new_log_lines ::
  "'w tailer \<Rightarrow> ingest_env \<Rightarrow> db \<Rightarrow> 'w \<Rightarrow> (ingest_error + nat) \<times> db \<times> 'w" where
  "ingest_new_log_lines tailer env d w =
     (let (state, d1) = get_state d
      in case tailer (is_byte_offset state) (is_maillog_inode state) w of
           (Inl e, w') \<Rightarrow> (Inl (Ingest_control e), d, w')
         | (Inr t, w') \<Rightarrow>
             (case ingest_lines (reads_of env d1 (mt_lines t)) (mail_logs d1) of
                Inl e \<Rightarrow> (Inl e, d, w')
              | Inr rows \<Rightarrow>
                  (Inr (length (mt_lines t)),
                   d1\<lparr>mail_logs := rows,
                      ingest_state := Some \<lparr>is_byte_offset = mt_new_offset t, is_maillog_inode = mt_inode t\<rparr>\<rparr>, w')))"

section \<open>The tick\<close>

definition MAX_CHUNKS_PER_TICK :: nat where "MAX_CHUNKS_PER_TICK = 50"

text \<open>At most \<open>n\<close> calls, until one finds nothing; what earlier calls committed stays when a later one raises.\<close>

fun ingest_chunks :: "nat \<Rightarrow> 'w tailer \<Rightarrow> (nat \<Rightarrow> ingest_env) \<Rightarrow> nat \<Rightarrow> db \<Rightarrow> 'w \<Rightarrow> (ingest_error + nat) \<times> db \<times> 'w" where
  "ingest_chunks 0 tailer env so_far d w = (Inr so_far, d, w)"
| "ingest_chunks (Suc n) tailer env so_far d w =
     (case ingest_new_log_lines tailer (env n) d w of
        (Inl e, d', w') \<Rightarrow> (Inl e, d', w')
      | (Inr processed, d', w') \<Rightarrow>
          if processed = 0 then (Inr so_far, d', w') else ingest_chunks n tailer env (so_far + processed) d' w')"

definition ingest_until_caught_up :: "'w tailer \<Rightarrow> (nat \<Rightarrow> ingest_env) \<Rightarrow> db \<Rightarrow> 'w \<Rightarrow> (ingest_error + nat) \<times> db \<times> 'w" where
  "ingest_until_caught_up tailer env d w = ingest_chunks MAX_CHUNKS_PER_TICK tailer env 0 d w"

text \<open>
  The tick, with \<open>_last_tick_failed\<close> before and after and what it logs; an exception other than
  \<open>PostfixControlError\<close> leaves it to the scheduler.
\<close>

datatype ingest_message = Ingestion_failed | Ingestion_recovered

definition mail_log_ingest_tick ::
  "'w tailer \<Rightarrow> (nat \<Rightarrow> ingest_env) \<Rightarrow> bool \<Rightarrow> db \<Rightarrow> 'w \<Rightarrow> (ingest_error + ingest_message option) \<times> bool \<times> db \<times> 'w" where
  "mail_log_ingest_tick tailer env last_tick_failed d w =
     (case ingest_until_caught_up tailer env d w of
        (Inl (Ingest_control e), d', w') \<Rightarrow> (Inr (if last_tick_failed then None else Some Ingestion_failed), True, d', w')
      | (Inl e, d', w') \<Rightarrow> (Inl e, last_tick_failed, d', w')
      | (Inr n, d', w') \<Rightarrow> (Inr (if last_tick_failed then Some Ingestion_recovered else None), False, d', w'))"

end
