(* ===== verification/Mail_Log_Story.thy ===== *)
theory Mail_Log_Story
  imports Mail_Log_Ingest
begin

text \<open>
  What the mail log says: the row of a queue id is the story of the events of that id, whatever lines come
  between them and however the lines are cut into calls; and over any sequence of calls, failing or not, every
  complete line of the log file has been ingested exactly once, in order.
\<close>

section \<open>Lines in several batches\<close>

lemma ingest_lines_append:
  "ingest_lines (xs @ ys) rows =
     (case ingest_lines xs rows of Inl e \<Rightarrow> Inl e | Inr rows' \<Rightarrow> ingest_lines ys rows')"
  by (induction xs arbitrary: rows) (auto split: sum.splits)

section \<open>Queue ids\<close>

definition queue_id_text :: "pystr \<Rightarrow> bool" where
  "queue_id_text q \<longleftrightarrow> 6 \<le> length q \<and> length q \<le> 16 \<and> (\<forall>c\<in>set q. is_ascii_alnum c) \<and> (\<exists>c\<in>set q. is_digit c)"

lemma take_prefix_length: "s = a @ b \<Longrightarrow> take (length s - length b) s = a"
  by simp

lemma digit_alnum: "is_digit c \<Longrightarrow> is_ascii_alnum c"
  by (simp add: is_ascii_alnum_def)

lemma colon_not_alnum: "\<not> is_ascii_alnum (CHR '':'')"
  by (simp add: is_ascii_alnum_def is_ascii_alpha_def is_digit_def code_def)

lemma queue_id_match:
  assumes "re_match QUEUE_ID_RE rest = Some gs"
  shows "queue_id_text (the (group ''1'' gs))"
proof -
  obtain s' where m: "run_pattern QUEUE_ID_RE finish None rest [] = Some (gs, s')"
    using assms by (auto simp: re_match_def)
  define k1 where "k1 = run_pattern (seq [Group ''1'' (Many is_ascii_alnum 6 (Some 16)), lit '':'', opt_spaces, Group ''2'' (any 0), At_end]) finish"
  obtain gs1 t1 where ahead: "run_pattern (seq [Many is_ascii_alnum 0 None, digits 1 (Some 1)]) (\<lambda>prev' s' gs'. Some (gs', s')) None rest [] = Some (gs1, t1)"
    and m1: "k1 None rest gs1 = Some (gs, s')"
    using m unfolding QUEUE_ID_RE_def run_seq_Cons[of "Ahead _"] run_pattern.simps k1_def by (auto split: option.splits)
  obtain a0 d b1 where first: "rest = a0 @ d @ b1" "\<forall>c\<in>set a0. is_ascii_alnum c" "\<forall>c\<in>set d. is_digit c" "1 \<le> length d" "gs1 = []"
    using ahead by (auto simp: digits_def dest!: many_sound)
  obtain a b p where a: "rest = a @ b" "\<forall>c\<in>set a. is_ascii_alnum c" "6 \<le> length a" "length a \<le> 16"
    and m2: "run_pattern (seq [lit '':'', opt_spaces, Group ''2'' (any 0), At_end]) finish p b ((''1'', take (length rest - length b) rest) # gs1) = Some (gs, s')"
    using m1 unfolding k1_def run_seq_Cons run_pattern.simps(5) run_pattern.simps(3) by (auto dest!: many_sound)
  obtain t p' where b: "b = '':'' @ t"
    and m3: "run_pattern (seq [opt_spaces, Group ''2'' (any 0), At_end]) finish p' t [(''1'', a)] = Some (gs, s')"
    using m2 unfolding run_seq_Cons first(5) take_prefix_length[OF a(1)] by (auto dest!: lit_sound)
  have "\<exists>x. gs = [(''2'', x), (''1'', a)]"
    using m3 by (auto simp: opt_spaces_def any_def finish_def dest!: many_sound split: if_splits)
  then have "group ''1'' gs = Some a" by (auto simp: group_def)
  moreover have "\<exists>c\<in>set a. is_digit c"
  proof -
    obtain c where c: "c \<in> set d" "is_digit c" using first(3,4) by (cases d) auto
    have "length (a0 @ d) \<le> length a"
    proof (rule ccontr)
      assume "\<not> length (a0 @ d) \<le> length a"
      moreover have eq: "(a0 @ d) @ b1 = a @ '':'' @ t" using first(1) a(1) b by simp
      ultimately have "(a0 @ d) ! length a = CHR '':''"
        by (metis append_Cons leI nth_append nth_append_length)
      moreover have "(a0 @ d) ! length a \<in> set (a0 @ d)" using \<open>\<not> length (a0 @ d) \<le> length a\<close> by (intro nth_mem) simp
      ultimately show False using first(2,3) digit_alnum colon_not_alnum by auto
    qed
    then obtain r where "a = (a0 @ d) @ r" using first(1) a(1) by (metis append_assoc append_eq_append_conv_if append_take_drop_id)
    then show ?thesis using c by auto
  qed
  ultimately show ?thesis using a by (simp add: queue_id_text_def)
qed

text \<open>The queue id of an event is one; an event of a rejection has none.\<close>

lemma queue_event_id: "queue_event t q body = Some ev \<Longrightarrow> le_queue_id ev = Some q \<and> le_kind ev \<noteq> Reject"
  by (auto simp: queue_event_def delivery_event_def plain_event_def Let_def split: option.splits if_splits)

lemma parsed_queue_id:
  assumes "parse_line now line = Inr (Some ev)" "le_kind ev \<noteq> Reject"
  shows "\<exists>q. le_queue_id ev = Some q \<and> queue_id_text q"
proof -
  obtain m t where "parse_rest t (the (group ''rest'' m)) = Some ev"
    using assms(1) by (auto simp: parse_line_def split: option.splits sum.splits)
  then have rest: "parse_rest t r = Some ev" if "r = the (group ''rest'' m)" for r using that by simp
  define r where "r = the (group ''rest'' m)"
  have kinds: "le_kind (reject_event t g) = Reject" "le_kind (auth_failed_event t g) = Reject"
    "le_kind (tls_failed_event t g) = Reject" "le_kind (lost_connection_event t g) = Reject" for g
    by (simp_all add: reject_event_def auth_failed_event_def tls_failed_event_def lost_connection_event_def plain_event_def Let_def)
  obtain g where "re_match QUEUE_ID_RE r = Some g" "queue_event t (the (group ''1'' g)) (the (group ''2'' g)) = Some ev"
    using rest[OF r_def] assms(2) kinds by (auto simp: parse_rest_def split: option.splits)
  then show ?thesis using queue_id_match queue_event_id by blast
qed

section \<open>Rows as stories\<close>

definition events_of :: "pystr \<Rightarrow> line_read list \<Rightarrow> (line_read \<times> log_event) list" where
  "events_of q ls = concat (map (\<lambda>l. case parse_line (lr_now l) (lr_text l) of
       Inr (Some ev) \<Rightarrow> if le_kind ev \<noteq> Reject \<and> le_queue_id ev = Some q then [(l, ev)] else []
     | _ \<Rightarrow> []) ls)"

definition rejects_of :: "line_read list \<Rightarrow> (line_read \<times> log_event) list" where
  "rejects_of ls = concat (map (\<lambda>l. case parse_line (lr_now l) (lr_text l) of
       Inr (Some ev) \<Rightarrow> if le_kind ev = Reject then [(l, ev)] else []
     | _ \<Rightarrow> []) ls)"

fun story :: "pystr \<Rightarrow> (line_read \<times> log_event) list \<Rightarrow> mail_log option \<Rightarrow> mail_log option" where
  "story q [] row = row"
| "story q ((l, ev) # evs) row =
     story q evs (Some (apply_event l ev (case row of None \<Rightarrow> new_row l q ev | Some r \<Rightarrow> r)))"

definition is_reject_id :: "pystr \<Rightarrow> bool" where
  "is_reject_id q \<longleftrightarrow> take 7 q = ''REJECT-''"

definition reject_rows :: "mail_log list \<Rightarrow> mail_log list" where
  "reject_rows rows = filter (\<lambda>r. is_reject_id (ml_queue_id r)) rows"

lemma events_of_Cons: "events_of q (l # ls) = events_of q [l] @ events_of q ls"
  by (simp add: events_of_def)

lemma rejects_of_Cons: "rejects_of (l # ls) = rejects_of [l] @ rejects_of ls"
  by (simp add: rejects_of_def)

lemma story_append: "story q (evs @ evs') row = story q evs' (story q evs row)"
  by (induction evs arbitrary: row) auto

lemma queue_id_not_reject: "queue_id_text q \<Longrightarrow> \<not> is_reject_id q"
proof
  assume q: "queue_id_text q" "is_reject_id q"
  then have "CHR ''-'' \<in> set (take 7 q)" by (simp add: is_reject_id_def)
  then have "CHR ''-'' \<in> set q" using set_take_subset by fastforce
  then have "is_ascii_alnum (CHR ''-'')" using q(1) by (simp add: queue_id_text_def)
  then show False by (simp add: is_ascii_alnum_def is_ascii_alpha_def is_digit_def code_def)
qed

lemma apply_event_id [simp]: "ml_queue_id (apply_event l ev r) = ml_queue_id r"
  by (simp add: apply_event_def apply_delivery_def split: event_kind.split option.split list.split)

lemma new_row_id [simp]: "ml_queue_id (new_row l q ev) = q"
  by (simp add: new_row_def)

lemma reject_row_id [simp]: "is_reject_id (ml_queue_id (reject_row l ev))"
  by (simp add: reject_row_def is_reject_id_def)

lemma reject_rows_upd:
  assumes "\<not> is_reject_id q"
  shows "reject_rows (tbl_upd ml_queue_id q (apply_event l ev) rows) = reject_rows rows"
  using assms by (induction rows) (auto simp: reject_rows_def)

text \<open>One line: a rejection adds its row, any other event continues the story of its queue id.\<close>

lemma line_story:
  assumes "ingest_line l rows = Inr rows'" "keys_distinct ml_queue_id rows"
  shows "keys_distinct ml_queue_id rows' \<and>
    (\<not> is_reject_id q \<longrightarrow> tbl_get ml_queue_id q rows' = story q (events_of q [l]) (tbl_get ml_queue_id q rows)) \<and>
    reject_rows rows' = reject_rows rows @ map (\<lambda>(l, ev). reject_row l ev) (rejects_of [l])"
proof (cases "parse_line (lr_now l) (lr_text l)")
  case (Inl e)
  then show ?thesis using assms by (simp add: ingest_line_def)
next
  case (Inr parsed)
  show ?thesis
  proof (cases parsed)
    case None
    then show ?thesis using assms Inr by (simp add: ingest_line_def events_of_def rejects_of_def)
  next
    case (Some ev)
    note p = Inr[unfolded Some]
    have step: "ingest_event l ev rows = Inr rows'" using assms(1) p by (simp add: ingest_line_def)
    show ?thesis
    proof (cases "le_kind ev = Reject")
      case True
      then have new: "tbl_get ml_queue_id (ml_queue_id (reject_row l ev)) rows = None" "rows' = rows @ [reject_row l ev]"
        using step by (simp_all add: ingest_event_def split: if_splits)
      have "tbl_get ml_queue_id q rows' = tbl_get ml_queue_id q rows" if "\<not> is_reject_id q"
        using that reject_row_id[of l ev] unfolding new(2) by (auto simp: tbl_get_append split: option.split)
      then show ?thesis using assms(2) new True p
        by (simp add: events_of_def rejects_of_def reject_rows_def keys_distinct_snoc)
    next
      case False
      then obtain i where i: "le_queue_id ev = Some i" "queue_id_text i" using parsed_queue_id[OF p] by blast
      let ?rows = "get_or_create l i ev rows"
      have rows': "rows' = tbl_upd ml_queue_id i (apply_event l ev) ?rows"
        using step False i by (simp add: ingest_event_def)
      have keys: "keys_distinct ml_queue_id ?rows" using assms(2) by (simp add: get_or_create_def keys_distinct_snoc)
      have get: "tbl_get ml_queue_id q ?rows =
          (if q = i then Some (case tbl_get ml_queue_id i rows of None \<Rightarrow> new_row l i ev | Some r \<Rightarrow> r)
           else tbl_get ml_queue_id q rows)"
        by (auto simp: get_or_create_def tbl_get_append split: option.split)
      have "tbl_get ml_queue_id q rows' = story q (events_of q [l]) (tbl_get ml_queue_id q rows)"
        unfolding rows' using get p False i(1) by (auto simp: tbl_get_upd events_of_def split: option.split)
      moreover have "reject_rows ?rows = reject_rows rows"
        using queue_id_not_reject[OF i(2)] by (simp add: get_or_create_def reject_rows_def)
      then have "reject_rows rows' = reject_rows rows"
        unfolding rows' reject_rows_upd[OF queue_id_not_reject[OF i(2)]] .
      ultimately show ?thesis using keys False p unfolding rows' by (simp add: keys_distinct_upd rejects_of_def)
    qed
  qed
qed

lemma lines_story:
  assumes "ingest_lines ls rows = Inr rows'" "keys_distinct ml_queue_id rows"
  shows "keys_distinct ml_queue_id rows' \<and>
    (\<not> is_reject_id q \<longrightarrow> tbl_get ml_queue_id q rows' = story q (events_of q ls) (tbl_get ml_queue_id q rows)) \<and>
    reject_rows rows' = reject_rows rows @ map (\<lambda>(l, ev). reject_row l ev) (rejects_of ls)"
  using assms
proof (induction ls arbitrary: rows)
  case Nil
  then show ?case by (simp add: events_of_def rejects_of_def)
next
  case (Cons l ls)
  obtain rows1 where r1: "ingest_line l rows = Inr rows1" "ingest_lines ls rows1 = Inr rows'"
    using Cons.prems(1) by (auto split: sum.splits)
  note l = line_story[OF r1(1) Cons.prems(2), of q]
  from Cons.IH[OF r1(2)] l show ?case
    unfolding events_of_Cons[of q l ls] rejects_of_Cons[of l ls] story_append by simp
qed

end
