(* ===== verification/Mail_Log_Exact.thy ===== *)
theory Mail_Log_Exact
  imports Mail_Log_Story
begin

text \<open>
  The two ends of the mail log together: the control surface that hands out the lines and the application that
  ingests them.  The locale states what the ingestion relies on; it is interpreted on the client of the
  control surface, over a channel that may lose requests and replies.
\<close>

section \<open>The source of the lines\<close>

definition ingested_upto :: "db \<Rightarrow> int" where
  "ingested_upto d = is_byte_offset (fst (get_state d))"

definition known_inode :: "db \<Rightarrow> int option" where
  "known_inode d = is_maillog_inode (fst (get_state d))"

lemma get_state_eq: "get_state d = (fst (get_state d), d\<lparr>ingest_state := Some (fst (get_state d))\<rparr>)"
  by (cases "ingest_state d") (simp_all add: get_state_def get_or_create_singleton_def)

lemma get_state_cong: "ingest_state d' = ingest_state d \<Longrightarrow> fst (get_state d') = fst (get_state d)"
  by (simp add: get_state_def get_or_create_singleton_def split: option.split)

lemma get_state_Some: "ingest_state d = Some s \<Longrightarrow> fst (get_state d) = s"
  by (simp add: get_state_def get_or_create_singleton_def)

lemma ingest_call:
  assumes "ingest_new_log_lines tailer env d w = (r, d', w')"
  obtains (control) e where "tailer (ingested_upto d) (known_inode d) w = (Inl e, w')" "d' = d" "r = Inl (Ingest_control e)"
  | (refused) t e where "tailer (ingested_upto d) (known_inode d) w = (Inr t, w')" "d' = d" "r = Inl e"
      "ingest_lines (reads_of env d (mt_lines t)) (mail_logs d) = Inl e"
  | (stored) t rows where "tailer (ingested_upto d) (known_inode d) w = (Inr t, w')" "r = Inr (length (mt_lines t))"
      "ingest_lines (reads_of env d (mt_lines t)) (mail_logs d) = Inr rows" "mail_logs d' = rows"
      "ingest_state d' = Some \<lparr>is_byte_offset = mt_new_offset t, is_maillog_inode = mt_inode t\<rparr>"
proof -
  define s where "s = fst (get_state d)"
  let ?d1 = "d\<lparr>ingest_state := Some s\<rparr>"
  have gs: "get_state d = (s, ?d1)" unfolding s_def by (rule get_state_eq)
  have at: "is_byte_offset s = ingested_upto d" "is_maillog_inode s = known_inode d"
    by (simp_all add: s_def ingested_upto_def known_inode_def)
  have reads: "reads_of env ?d1 ls = reads_of env d ls" for ls by (simp add: reads_of_def)
  obtain a w1 where a: "tailer (ingested_upto d) (known_inode d) w = (a, w1)" by (rule prod.exhaust)
  note body = assms[unfolded ingest_new_log_lines_def gs Let_def prod.case at a]
  show ?thesis
  proof (cases a)
    case (Inl e)
    then have "r = Inl (Ingest_control e)" "d' = d" "w' = w1" using body by simp_all
    then show ?thesis using control a Inl by blast
  next
    case (Inr t)
    show ?thesis
    proof (cases "ingest_lines (reads_of env d (mt_lines t)) (mail_logs d)")
      case (Inl e)
      then have "r = Inl e" "d' = d" "w' = w1" using body \<open>a = Inr t\<close> by (simp_all add: reads)
      then show ?thesis using refused a \<open>a = Inr t\<close> Inl by blast
    next
      case (Inr rows)
      then have "r = Inr (length (mt_lines t))" "w' = w1" "mail_logs d' = rows"
        "ingest_state d' = Some \<lparr>is_byte_offset = mt_new_offset t, is_maillog_inode = mt_inode t\<rparr>"
        using body \<open>a = Inr t\<close> by (auto simp: reads)
      then show ?thesis using stored a \<open>a = Inr t\<close> Inr by blast
    qed
  qed
qed

lemma reads_text: "map lr_text (reads_of env d lines) = lines"
proof -
  have "map lr_text (reads_of env d lines) = map snd (zip [0..<length lines] lines)"
    unfolding reads_of_def map_map by (rule map_cong) (auto simp: case_prod_unfold)
  then show ?thesis by simp
qed

text \<open>
  The contract: the log only grows in the course of a call, and a successful answer holds the next complete
  lines from the offset that was asked for, and the offset behind them.  \<open>live w\<close> says that the log is there
  and has not reached the size at which it is rotated.
\<close>

locale maillog_source =
  fixes tailer :: "'w tailer"
    and content :: "'w \<Rightarrow> bytes"
    and inode :: "'w \<Rightarrow> int"
    and live :: "'w \<Rightarrow> bool"
    and decode :: "'w \<Rightarrow> bytes \<Rightarrow> pystr"
  assumes grows: "live w \<Longrightarrow> tailer off i w = (r, w') \<Longrightarrow>
      inode w' = inode w \<and> decode w' = decode w \<and> (\<exists>added. content w' = content w @ added)"
    and answers: "live w \<Longrightarrow> i = None \<or> i = Some (inode w) \<Longrightarrow> n \<le> length (content w) \<Longrightarrow>
      tailer (int n) i w = (Inr t, w') \<Longrightarrow>
      mt_lines t = splitlines (decode w (next_complete n (content w'))) \<and>
      mt_new_offset t = int (n + length (next_complete n (content w'))) \<and> mt_inode t = Some (inode w)"
begin

text \<open>What other requests and Postfix do before a call: the ingestion's tables stay, the log grows.\<close>

definition other_work :: "(db \<Rightarrow> db) \<Rightarrow> bool" where
  "other_work f \<longleftrightarrow> (\<forall>d. mail_logs (f d) = mail_logs d \<and> ingest_state (f d) = ingest_state d)"

definition log_growth :: "('w \<Rightarrow> 'w) \<Rightarrow> bool" where
  "log_growth g \<longleftrightarrow> (\<forall>w. inode (g w) = inode w \<and> decode (g w) = decode w \<and>
     (\<exists>added. content (g w) = content w @ added))"

fun ingest_run :: "((db \<Rightarrow> db) \<times> ('w \<Rightarrow> 'w) \<times> ingest_env) list \<Rightarrow> db \<times> 'w \<Rightarrow> db \<times> 'w" where
  "ingest_run [] s = s"
| "ingest_run ((f, g, env) # calls) s = ingest_run calls (snd (ingest_new_log_lines tailer env (f (fst s)) (g (snd s))))"

text \<open>The log is there and short whenever it is read.\<close>

fun live_run :: "((db \<Rightarrow> db) \<times> ('w \<Rightarrow> 'w) \<times> ingest_env) list \<Rightarrow> db \<times> 'w \<Rightarrow> bool" where
  "live_run [] s = True"
| "live_run ((f, g, env) # calls) s =
     (live (g (snd s)) \<and> live_run calls (snd (ingest_new_log_lines tailer env (f (fst s)) (g (snd s)))))"

definition synced :: "db \<Rightarrow> 'w \<Rightarrow> nat \<Rightarrow> bool" where
  "synced d w n \<longleftrightarrow> ingested_upto d = int n \<and> n \<le> length (content w) \<and> whole_lines (take n (content w)) \<and>
     (known_inode d = None \<or> known_inode d = Some (inode w))"

lemma synced_grows:
  assumes "synced d w n" "ingest_state d' = ingest_state d" "inode w' = inode w" "content w' = content w @ added"
  shows "synced d' w' n" "take n (content w') = take n (content w)"
  using assms get_state_cong[OF assms(2)] by (simp_all add: synced_def ingested_upto_def known_inode_def)

text \<open>One call continues where the last successful one stopped.\<close>

lemma call_exact:
  assumes call: "ingest_new_log_lines tailer env d w = (r, d', w')" and synced: "synced d w n" and live: "live w"
    and safe: "newline_safe (decode w)"
  shows "\<exists>n' reads. synced d' w' n' \<and> ingest_lines reads (mail_logs d) = Inr (mail_logs d') \<and>
    splitlines (decode w (take n (content w))) @ map lr_text reads = splitlines (decode w (take n' (content w'))) \<and>
    inode w' = inode w \<and> decode w' = decode w"
  using call
proof (cases rule: ingest_call)
  case (control e)
  from grows[OF live control(1)] obtain added where added: "inode w' = inode w" "decode w' = decode w" "content w' = content w @ added"
    by blast
  note same = synced_grows[OF synced refl added(1,3)]
  show ?thesis unfolding control(2) using same added(1,2) by (intro exI[of _ n] exI[of _ "[]"]) simp
next
  case (refused t e)
  from grows[OF live refused(1)] obtain added where added: "inode w' = inode w" "decode w' = decode w" "content w' = content w @ added"
    by blast
  note same = synced_grows[OF synced refl added(1,3)]
  show ?thesis unfolding refused(2) using same added(1,2) by (intro exI[of _ n] exI[of _ "[]"]) simp
next
  case (stored t rows)
  from grows[OF live stored(1)] obtain added where added: "inode w' = inode w" "decode w' = decode w" "content w' = content w @ added"
    by blast
  let ?new = "next_complete n (content w')"
  have at: "ingested_upto d = int n" "n \<le> length (content w)" "whole_lines (take n (content w))"
    "known_inode d = None \<or> known_inode d = Some (inode w)"
    using synced by (simp_all add: synced_def)
  note answer = answers[OF live at(4,2) stored(1)[unfolded at(1)]]
  have len: "n \<le> length (content w')" "n + length ?new \<le> length (content w')"
    using at(2) added(3) next_complete_length[of n "content w'"] by simp_all
  have new: "take (n + length ?new) (content w') = take n (content w) @ ?new"
    using next_complete_take[OF len(1)] at(2) added(3) by simp
  have "whole_lines (take (n + length ?new) (content w'))"
    unfolding new by (rule whole_lines_append[OF at(3)]) (simp add: next_complete_def complete_part_whole)
  then have "synced d' w' (n + length ?new)"
    using answer len(2) added(1) by (simp add: synced_def ingested_upto_def known_inode_def get_state_Some[OF stored(5)])
  moreover have "splitlines (decode w (take n (content w))) @ mt_lines t = splitlines (decode w (take (n + length ?new) (content w')))"
    unfolding new using answer decoded_lines_append[OF safe at(3)] by simp
  ultimately show ?thesis using stored(3,4) added reads_text by metis
qed

lemma run_exact:
  assumes "\<forall>(f, g, env)\<in>set calls. other_work f \<and> log_growth g"
    and "synced d w n" "live_run calls (d, w)" "newline_safe (decode w)" "ingest_run calls (d, w) = (d', w')"
  shows "\<exists>n' reads. synced d' w' n' \<and> ingest_lines reads (mail_logs d) = Inr (mail_logs d') \<and>
    splitlines (decode w (take n (content w))) @ map lr_text reads = splitlines (decode w (take n' (content w')))"
  using assms
proof (induction calls arbitrary: d w n)
  case Nil
  then show ?case by (intro exI[of _ n] exI[of _ "[]"]) simp
next
  case (Cons call calls)
  obtain f g env where call: "call = (f, g, env)" by (rule prod_cases3)
  have f: "mail_logs (f d) = mail_logs d" "ingest_state (f d) = ingest_state d"
    using Cons.prems(1) call by (auto simp: other_work_def)
  have "log_growth g" using Cons.prems(1) call by simp
  then obtain added where g: "inode (g w) = inode w" "decode (g w) = decode w" "content (g w) = content w @ added"
    unfolding log_growth_def by blast
  obtain r d1 w1 where step: "ingest_new_log_lines tailer env (f d) (g w) = (r, d1, w1)" by (rule prod_cases3)
  have calls: "\<forall>(f, g, env)\<in>set calls. other_work f \<and> log_growth g" using Cons.prems(1) by simp
  have rest: "ingest_run calls (d1, w1) = (d', w')" using Cons.prems(5) call step by simp
  have live: "live (g w)" "live_run calls (d1, w1)" using Cons.prems(3) call step by simp_all
  note start = synced_grows[OF Cons.prems(2) f(2) g(1,3)]
  obtain n1 reads1 where one: "synced d1 w1 n1" "ingest_lines reads1 (mail_logs d) = Inr (mail_logs d1)"
    "splitlines (decode w (take n (content w))) @ map lr_text reads1 = splitlines (decode w (take n1 (content w1)))"
    "decode w1 = decode w"
    using call_exact[OF step start(1) live(1)] Cons.prems(4) start(2) g(2) f(1) by auto
  have "newline_safe (decode w1)" using Cons.prems(4) one(4) by simp
  from Cons.IH[OF calls one(1) live(2) this rest] obtain n' reads where
    two: "synced d' w' n'" "ingest_lines reads (mail_logs d1) = Inr (mail_logs d')"
    "splitlines (decode w (take n1 (content w1))) @ map lr_text reads = splitlines (decode w (take n' (content w')))"
    using one(4) by auto
  have "ingest_lines (reads1 @ reads) (mail_logs d) = Inr (mail_logs d')"
    using one(2) two(2) by (simp add: ingest_lines_append)
  moreover have "splitlines (decode w (take n (content w))) @ map lr_text (reads1 @ reads) = splitlines (decode w (take n' (content w')))"
    unfolding map_append append_assoc[symmetric] one(3) by (rule two(3))
  ultimately show ?case using two(1) by blast
qed

end

section \<open>The control surface as the source\<close>

definition channel_log :: "channel \<Rightarrow> bytes" where
  "channel_log c = (case m_maillog (ch_machine c) of None \<Rightarrow> [] | Some (b, _) \<Rightarrow> b)"

definition channel_inode :: "channel \<Rightarrow> int" where
  "channel_inode c = (case m_maillog (ch_machine c) of None \<Rightarrow> 0 | Some (_, i) \<Rightarrow> i)"

definition channel_live :: "channel \<Rightarrow> bool" where
  "channel_live c \<longleftrightarrow> (\<exists>b i. m_maillog (ch_machine c) = Some (b, i) \<and> length b < MAILLOG_ROTATE_BYTES)"

definition channel_decode :: "channel \<Rightarrow> bytes \<Rightarrow> pystr" where
  "channel_decode c = sf_decode (ch_env c)"

definition tail_payload :: "int \<Rightarrow> int option \<Rightarrow> payload" where
  "tail_payload off i = [(''op'', JStr ''tail_maillog''), (''since_offset'', JInt off),
     (''since_inode'', case i of None \<Rightarrow> JNull | Some x \<Rightarrow> JInt x)]"

lemma handle_tail:
  "handle_request E (Some (JObj (tail_payload off i))) m =
     (case tail_maillog (sf_run E) (sf_decode E) (sf_late E) (tail_payload off i) m of
        (Inl e, m') \<Rightarrow> (exn_response e, m') | (Inr r, m') \<Rightarrow> (r, m'))"
  by (simp add: handle_request_def handler_for_def tail_payload_def jget_def)

text \<open>The handler on a short log, whatever the request: the log grows by what Postfix appends meanwhile.\<close>

lemma tail_short:
  assumes log: "m_maillog m = Some (b, i)" and short: "length b < MAILLOG_ROTATE_BYTES"
  shows "\<exists>r. tail_maillog run decode late p m = (r, m\<lparr>m_maillog := Some (b @ late, i)\<rparr>)"
  using short by (auto simp: tail_maillog_def log Let_def split: sum.split)

lemma tail_answer:
  assumes log: "m_maillog m = Some (b, i)" and short: "length b < MAILLOG_ROTATE_BYTES"
    and since: "since = None \<or> since = Some i" and n: "n \<le> length b"
  shows "fst (tail_maillog run decode late (tail_payload (int n) since) m) =
      Inr [(''ok'', JBool True), (''lines'', JList (map JStr (splitlines (decode (next_complete n (b @ late)))))),
           (''new_offset'', JInt (int n + int (length (next_complete n (b @ late))))),
           (''truncated'', JBool False), (''inode'', JInt i)]"
proof -
  have start: "tail_start (jget ''since_inode'' (tail_payload (int n) since)) (since_offset_of (tail_payload (int n) since)) i
      (int (length b)) = Inr (False, int n)"
    using since n by (auto simp: tail_start_def tail_payload_def jget_def since_offset_of_def inode_differs_def)
  have "\<not> int (length b) \<ge> int MAILLOG_ROTATE_BYTES" using short by simp
  then show ?thesis
    by (simp only: tail_maillog_def log start Let_def next_complete_def option.case sum.case prod.case nat_int simp_thms if_False fst_conv)
qed

lemma strings_JStr: "strings (map JStr ls) = ls"
  by (simp add: strings_def List.map_filter_def comp_def)

lemma ctl_tail_call: "ctl_tail_maillog off i c =
   reading (\<lambda>r. \<lparr>mt_lines = strings (jlist ''lines'' r), mt_new_offset = jint ''new_offset'' r, mt_truncated = jbool ''truncated'' r,
                 mt_inode = (case jget ''inode'' r of JInt i \<Rightarrow> Some i | _ \<Rightarrow> None)\<rparr>)
     (ctl_call ''tail_maillog'' (tl (tail_payload off i)) c)"
  by (simp add: ctl_tail_maillog_def tail_payload_def)

lemma tail_payload_Cons: "(''op'', JStr ''tail_maillog'') # tl (tail_payload off i) = tail_payload off i"
  by (simp add: tail_payload_def)

interpretation surface_log: maillog_source ctl_tail_maillog channel_log channel_inode channel_live channel_decode
proof (unfold_locales, goal_cases)
  case (1 w off i r w')
  obtain b j where log: "m_maillog (ch_machine w) = Some (b, j)" "length b < MAILLOG_ROTATE_BYTES"
    using 1(1) by (auto simp: channel_live_def)
  obtain a where a: "tail_maillog (sf_run (ch_env w)) (sf_decode (ch_env w)) (sf_late (ch_env w)) (tail_payload off i) (ch_machine w) =
      (a, (ch_machine w)\<lparr>m_maillog := Some (b @ sf_late (ch_env w), j)\<rparr>)"
    using tail_short[OF log] by blast
  have "ch_env w' = ch_env w \<and> (m_maillog (ch_machine w') = Some (b, j) \<or> m_maillog (ch_machine w') = Some (b @ sf_late (ch_env w), j))"
    using 1(2) unfolding ctl_tail_call ctl_call_def tail_payload_Cons handle_tail a
    by (cases a; cases "ch_fate w (ch_calls w)") (auto simp: reading_def Let_def log(1) split: if_splits prod.splits)
  then show ?case using log by (auto simp: channel_inode_def channel_decode_def channel_log_def)
next
  case (2 w i n t w')
  obtain b j where log: "m_maillog (ch_machine w) = Some (b, j)" "length b < MAILLOG_ROTATE_BYTES"
    using 2(1) by (auto simp: channel_live_def)
  let ?late = "sf_late (ch_env w)"
  have since: "i = None \<or> i = Some j" and n: "n \<le> length b"
    using 2(2,3) log by (simp_all add: channel_inode_def channel_log_def)
  obtain a where a: "tail_maillog (sf_run (ch_env w)) (sf_decode (ch_env w)) ?late (tail_payload (int n) i) (ch_machine w) =
      (a, (ch_machine w)\<lparr>m_maillog := Some (b @ ?late, j)\<rparr>)"
    using tail_short[OF log] by blast
  note ans = tail_answer[OF log since n, of "sf_run (ch_env w)" "sf_decode (ch_env w)" ?late, unfolded a fst_conv]
  note call = 2(4)[unfolded ctl_tail_call ctl_call_def tail_payload_Cons handle_tail a ans Let_def prod.case sum.case]
  have "ch_fate w (ch_calls w) = Delivered" using call by (cases "ch_fate w (ch_calls w)") (auto simp: reading_def)
  then show ?case using call log
    by (auto simp: reading_def jget_def truthy_def jlist_def jint_def strings_JStr channel_inode_def channel_decode_def channel_log_def)
qed


definition demo_log_channel :: channel where
  "demo_log_channel = demo_channel\<lparr>ch_env := demo_env\<lparr>sf_decode := id, sf_late := []\<rparr>,
     ch_machine := demo_machine\<lparr>m_maillog := Some (''May  1 12:00:00 host postfix/qmgr[9]: 4XyZ1: from=<a@example.com>, size=1'' @ [CHR 10], 7)\<rparr>\<rparr>"

definition demo_ingest_env :: ingest_env where
  "demo_ingest_env = \<lparr>ie_now = (\<lambda>_. 1777000000000000), ie_uuid = (\<lambda>_. ''0123456789abcdef''), ie_row_id = int\<rparr>"


end
