(* ===== verification/Dns_Providers.thy ===== *)
theory Dns_Providers
  imports Postfix_Control
begin

text \<open>
  \<open>core/dns_utils.py\<close>, \<open>core/cloudflare_dns.py\<close> and \<open>core/manual_dns.py\<close>: the DNS-01 challenge record.
  The resolver of \<open>dnspython\<close> and the HTTP client \<open>requests\<close> are arguments: functions from a question to
  its answer, \<open>None\<close> or \<open>Inl\<close> where the library raises.  The wait for propagation is a loop over clock
  readings; it is a partial function, and returning is a theorem.
\<close>

section \<open>Authoritative name servers (\<open>core/dns_utils.py\<close>)\<close>

text \<open>\<open>".".join(labels[i:])\<close> for \<open>i in range(len(labels) - 1)\<close>\<close>

definition parent_names :: "pystr \<Rightarrow> pystr list" where
  "parent_names name =
     (let labels = split_on (CHR ''.'') name
      in map (\<lambda>i. join ''.'' (drop i labels)) [0..<length labels - 1])"

fun first_answered :: "(pystr \<Rightarrow> pystr list option) \<Rightarrow> pystr list \<Rightarrow> pystr list" where
  "first_answered lookup [] = []"
| "first_answered lookup (c # cs) =
     (case lookup c of None \<Rightarrow> first_answered lookup cs
      | Some targets \<Rightarrow> map (rstrip_of (\<lambda>x. x = CHR ''.'')) targets)"

definition authoritative_nameservers :: "(pystr \<Rightarrow> pystr list option) \<Rightarrow> pystr \<Rightarrow> pystr list" where
  "authoritative_nameservers lookup name = first_answered lookup (parent_names name)"

text \<open>
  \<open>lookup\<close> gives the strings of every TXT record at a name server; \<open>decode\<close> is
  \<open>bytes.decode("utf-8", errors="replace")\<close>.
\<close>

fun txt_record_visible_at ::
  "(pystr \<Rightarrow> pystr \<Rightarrow> bytes list list option) \<Rightarrow> (bytes \<Rightarrow> pystr) \<Rightarrow> pystr list \<Rightarrow> pystr \<Rightarrow> pystr \<Rightarrow> bool" where
  "txt_record_visible_at lookup decode [] name value = False"
| "txt_record_visible_at lookup decode (ns # nss) name value =
     (case lookup ns name of
        None \<Rightarrow> txt_record_visible_at lookup decode nss name value
      | Some reply \<Rightarrow>
          (\<exists>strings\<in>set reply. decode (concat strings) = value) \<or> txt_record_visible_at lookup decode nss name value)"

text \<open>
  The loop: \<open>clock i\<close> is the \<open>i\<close>-th reading of \<open>time.monotonic()\<close> in the test of the loop, \<open>visible i\<close> what the
  \<open>i\<close>-th attempt finds.  The result comes with the number of attempts.
\<close>

partial_function (option) wait_loop ::
  "(nat \<Rightarrow> rat) \<Rightarrow> (nat \<Rightarrow> bool) \<Rightarrow> rat \<Rightarrow> nat \<Rightarrow> (bool \<times> nat) option" where
  "wait_loop clock visible deadline attempt =
     (if clock attempt < deadline
      then (if visible attempt then Some (True, Suc attempt) else wait_loop clock visible deadline (Suc attempt))
      else Some (False, attempt))"

record dns_net =
  dn_ns :: "pystr \<Rightarrow> pystr list option"
  dn_txt :: "nat \<Rightarrow> pystr \<Rightarrow> pystr \<Rightarrow> bytes list list option"
  dn_decode :: "bytes \<Rightarrow> pystr"
  dn_start :: rat
  dn_clock :: "nat \<Rightarrow> rat"

definition wait_for_propagation_via_authoritative_dns ::
  "dns_net \<Rightarrow> pystr \<Rightarrow> pystr \<Rightarrow> rat \<Rightarrow> (bool \<times> nat) option" where
  "wait_for_propagation_via_authoritative_dns net name value timeout_seconds =
     (let deadline = fl (dn_start net + timeout_seconds);
          nameservers = authoritative_nameservers (dn_ns net) name
      in if nameservers = [] then Some (False, 0)
         else wait_loop (dn_clock net)
                (\<lambda>i. txt_record_visible_at (dn_txt net i) (dn_decode net) nameservers name value) deadline 0)"

text \<open>Every parent name is looked up, from the full name down to two labels.\<close>

lemma first_answered_eq:
  "first_answered lookup cs = (case List.find (\<lambda>c. lookup c \<noteq> None) cs of None \<Rightarrow> []
     | Some c \<Rightarrow> map (rstrip_of (\<lambda>x. x = CHR ''.'')) (the (lookup c)))"
  by (induction cs) (auto split: option.splits)

lemma visible_iff: "txt_record_visible_at lookup decode nss name value \<longleftrightarrow>
    (\<exists>ns\<in>set nss. \<exists>reply. lookup ns name = Some reply \<and> value \<in> (\<lambda>strings. decode (concat strings)) ` set reply)"
  by (induction nss) (auto split: option.splits)

text \<open>Every pass takes at least \<open>s\<close> seconds, which \<open>time.sleep(2)\<close> guarantees.\<close>

definition paced :: "rat \<Rightarrow> (nat \<Rightarrow> rat) \<Rightarrow> bool" where
  "paced s clock \<longleftrightarrow> 0 < s \<and> (\<forall>i. clock i + s \<le> clock (Suc i))"

lemma paced_step: "paced s clock \<Longrightarrow> 0 < s" "paced s clock \<Longrightarrow> clock i + s \<le> clock (Suc i)"
  by (simp_all add: paced_def)

lemma clock_mono:
  assumes "paced s clock" "k \<le> i"
  shows "clock k \<le> clock i"
  using assms(2)
proof (induction i rule: dec_induct)
  case (step i)
  then show ?case using paced_step(1)[OF assms(1)] paced_step(2)[OF assms(1), of i] by linarith
qed simp

lemma wait_loop_stops:
  assumes "paced s clock" and stop: "deadline \<le> clock k \<or> visible k"
  shows "\<exists>b n. wait_loop clock visible deadline k = Some (b, n) \<and> k \<le> n \<and>
      (b \<longleftrightarrow> (\<exists>i\<ge>k. clock i < deadline \<and> visible i)) \<and> (k < n \<longrightarrow> clock k + of_nat (n - Suc k) * s < deadline)"
proof (cases "deadline \<le> clock k")
  case True
  then have "wait_loop clock visible deadline k = Some (False, k)" by (simp add: wait_loop.simps)
  moreover have "\<not> clock i < deadline" if "k \<le> i" for i
    using clock_mono[OF assms(1) that] True by simp
  ultimately show ?thesis by auto
next
  case False
  then have "wait_loop clock visible deadline k = Some (True, Suc k)" using stop by (simp add: wait_loop.simps)
  moreover have "\<exists>i\<ge>k. clock i < deadline \<and> visible i" using False stop by auto
  moreover have "k \<le> Suc k" "clock k + of_nat (Suc k - Suc k) * s < deadline" using False by simp_all
  ultimately show ?thesis by blast
qed

lemma later:
  assumes "\<not> P (k::nat)"
  shows "(\<exists>i\<ge>Suc k. P i) = (\<exists>i\<ge>k. P i)"
proof
  assume "\<exists>i\<ge>k. P i"
  then obtain i where i: "k \<le> i" "P i" by blast
  then have "Suc k \<le> i" using assms by (cases "i = k") simp_all
  then show "\<exists>i\<ge>Suc k. P i" using i(2) by blast
qed (use Suc_leD in blast)

lemma wait_loop_returns:
  assumes paced: "paced s clock"
  shows "deadline - clock k \<le> of_nat m * s \<Longrightarrow>
    \<exists>b n. wait_loop clock visible deadline k = Some (b, n) \<and> k \<le> n \<and>
      (b \<longleftrightarrow> (\<exists>i\<ge>k. clock i < deadline \<and> visible i)) \<and> (k < n \<longrightarrow> clock k + of_nat (n - Suc k) * s < deadline)"
proof (induction m arbitrary: k)
  case 0
  then have "deadline \<le> clock k \<or> visible k" by simp
  then show ?case by (rule wait_loop_stops[OF paced])
next
  case (Suc m)
  show ?case
  proof (cases "deadline \<le> clock k \<or> visible k")
    case True
    then show ?thesis by (rule wait_loop_stops[OF paced])
  next
    case False
    have "deadline - clock (Suc k) \<le> of_nat m * s" using Suc.prems paced_step(2)[OF paced, of k] by (simp add: algebra_simps)
    from Suc.IH[OF this] obtain b n where r: "wait_loop clock visible deadline (Suc k) = Some (b, n)" "Suc k \<le> n"
      "b \<longleftrightarrow> (\<exists>i\<ge>Suc k. clock i < deadline \<and> visible i)"
      "Suc k < n \<longrightarrow> clock (Suc k) + of_nat (n - Suc (Suc k)) * s < deadline" by blast
    have "wait_loop clock visible deadline k = Some (b, n)" 
      by (subst wait_loop.simps) (use False r(1) in simp)
    moreover have "(\<exists>i\<ge>Suc k. clock i < deadline \<and> visible i) = (\<exists>i\<ge>k. clock i < deadline \<and> visible i)"
      by (rule later) (use False in simp)
    moreover have "clock k + of_nat (n - Suc k) * s < deadline"
    proof (cases "Suc k < n")
      case True
      then have "n - Suc k = Suc (n - Suc (Suc k))" by simp
      then show ?thesis using True r(4) paced_step(2)[OF paced, of k] by (simp add: algebra_simps)
    next
      case False
      then have "n = Suc k" using r(2) by simp
      then show ?thesis using \<open>\<not> (deadline \<le> clock k \<or> visible k)\<close> by simp
    qed
    ultimately show ?thesis using r(2,3) by auto
  qed
qed

text \<open>
  C16. The wait for a challenge record returns: when every pass of the loop takes at least \<open>s > 0\<close> seconds (the
  code sleeps for two), there are at most \<open>1 + (deadline - first reading) / s\<close> attempts, and the answer is yes
  exactly when a pass that began before the deadline saw the value at an authoritative name server.
\<close>

theorem propagation_wait_returns:
  assumes "paced s (dn_clock net)"
  shows "\<exists>b n. wait_for_propagation_via_authoritative_dns net name value timeout = Some (b, n) \<and>
    (b \<longleftrightarrow> (\<exists>i. dn_clock net i < fl (dn_start net + timeout) \<and>
       (\<exists>ns\<in>set (authoritative_nameservers (dn_ns net) name). \<exists>reply. dn_txt net i ns name = Some reply \<and>
          value \<in> (\<lambda>strings. dn_decode net (concat strings)) ` set reply))) \<and>
    (0 < n \<longrightarrow> dn_clock net 0 + of_nat (n - 1) * s < fl (dn_start net + timeout))"
proof (cases "authoritative_nameservers (dn_ns net) name = []")
  case True
  then show ?thesis by (auto simp: wait_for_propagation_via_authoritative_dns_def)
next
  case False
  let ?deadline = "fl (dn_start net + timeout)"
  obtain m :: nat where "(?deadline - dn_clock net 0) / s \<le> of_nat m" 
    using reals_Archimedean2 less_imp_le by blast
  then have bound: "?deadline - dn_clock net 0 \<le> of_nat m * s" using paced_step(1)[OF assms] by (simp add: pos_divide_le_eq)
  let ?visible = "\<lambda>i. txt_record_visible_at (dn_txt net i) (dn_decode net) (authoritative_nameservers (dn_ns net) name) name value"
  from wait_loop_returns[OF assms bound, of ?visible] obtain b n where r: "wait_loop (dn_clock net) ?visible ?deadline 0 = Some (b, n)"
    "b \<longleftrightarrow> (\<exists>i\<ge>0. dn_clock net i < ?deadline \<and> ?visible i)" "0 < n \<longrightarrow> dn_clock net 0 + of_nat (n - Suc 0) * s < ?deadline"
    by blast
  moreover have "wait_for_propagation_via_authoritative_dns net name value timeout = Some (b, n)"
    using False r(1) by (simp add: wait_for_propagation_via_authoritative_dns_def)
  ultimately show ?thesis unfolding visible_iff by simp
qed

definition demo_dns :: dns_net where
  "demo_dns = \<lparr>dn_ns = [''example.com'' \<mapsto> [''ns1.example.com.'']],
     dn_txt = (\<lambda>i ns name. if i = 0 then None else Some [[''tok'', ''en'']]), dn_decode = id, dn_start = 0,
     dn_clock = (\<lambda>i. 1 + 2 * of_nat i)\<rparr>"

theorem propagation_wait_returns_witness:
  "\<exists>n. wait_for_propagation_via_authoritative_dns demo_dns ''_acme-challenge.example.com'' ''token'' 20 = Some (True, n)"
proof -
  have "paced 2 (dn_clock demo_dns)" by (simp add: paced_def demo_dns_def)
  from propagation_wait_returns[OF this, of "''_acme-challenge.example.com''" "''token''" 20] obtain b n where
    r: "wait_for_propagation_via_authoritative_dns demo_dns ''_acme-challenge.example.com'' ''token'' 20 = Some (b, n)"
    "b \<longleftrightarrow> (\<exists>i. dn_clock demo_dns i < fl (dn_start demo_dns + 20) \<and>
       (\<exists>ns\<in>set (authoritative_nameservers (dn_ns demo_dns) ''_acme-challenge.example.com'').
          \<exists>reply. dn_txt demo_dns i ns ''_acme-challenge.example.com'' = Some reply \<and>
          ''token'' \<in> (\<lambda>strings. dn_decode demo_dns (concat strings)) ` set reply))" by blast
  have "authoritative_nameservers (dn_ns demo_dns) ''_acme-challenge.example.com'' = [''ns1.example.com'']"
    by (simp add: demo_dns_def authoritative_nameservers_def parent_names_def Let_def upt_rec rstrip_of_def)
  moreover have "dn_clock demo_dns 1 < fl (dn_start demo_dns + 20)"
  proof -
    have "fl 20 = 20" by code_simp
    then show ?thesis by (simp add: demo_dns_def)
  qed
  moreover have "dn_txt demo_dns 1 ''ns1.example.com'' ''_acme-challenge.example.com'' = Some [[''tok'', ''en'']]"
    "dn_decode demo_dns (concat [''tok'', ''en'']) = ''token''" by (simp_all add: demo_dns_def)
  ultimately have "b = True" using r(2) by force
  then show ?thesis using r(1) by blast
qed

section \<open>Cloudflare (\<open>core/cloudflare_dns.py\<close>)\<close>

text \<open>
  A response of the API, as \<open>requests\<close> presents it; \<open>response.json()\<close> raises where the body is not JSON.  The ids
  that Cloudflare returns are strings.
\<close>

record http_response =
  hp_status :: int
  hp_text :: pystr
  hp_content :: bool
  hp_json :: "json option"

datatype http_request = HTTP_Get pystr "(pystr \<times> pystr) list" | HTTP_Post pystr json | HTTP_Delete pystr

datatype dns_exn = CloudflareApiError pystr | RequestException pystr | DnsOther pystr

definition dns_exn_text :: "dns_exn \<Rightarrow> pystr" where
  "dns_exn_text e = (case e of CloudflareApiError t \<Rightarrow> t | RequestException t \<Rightarrow> t | DnsOther t \<Rightarrow> t)"

text \<open>
  \<open>cf_http\<close> answers a request or raises; \<open>cf_str\<close> is how a JSON value prints inside a message.
\<close>

record cloudflare =
  cf_zone_id :: "pystr option"
  cf_http :: "http_request \<Rightarrow> pystr + http_response"
  cf_str :: "json \<Rightarrow> pystr"

definition API_BASE :: pystr where "API_BASE = ''https://api.cloudflare.com/client/v4''"

definition response_is_ok :: "http_response \<Rightarrow> bool" where
  "response_is_ok r \<longleftrightarrow> \<not> (400 \<le> hp_status r \<and> hp_status r < 600)"

definition response_object :: "http_response \<Rightarrow> dns_exn + (pystr \<times> json) list" where
  "response_object r =
     (case hp_json r of None \<Rightarrow> Inl (RequestException ''JSONDecodeError'')
      | Some (JObj body) \<Rightarrow> Inr body | Some _ \<Rightarrow> Inl (DnsOther ''AttributeError''))"

text \<open>\<open>result[0]["id"]\<close>\<close>

definition id_of :: "json \<Rightarrow> dns_exn + pystr" where
  "id_of j = (case j of JObj fs \<Rightarrow> (case map_of fs ''id'' of Some (JStr i) \<Rightarrow> Inr i | _ \<Rightarrow> Inl (DnsOther (CHR 39 # ''id'' @ [CHR 39])))
     | _ \<Rightarrow> Inl (DnsOther ''TypeError''))"

definition first_id :: "json \<Rightarrow> dns_exn + pystr" where
  "first_id j = (case j of JList (x # xs) \<Rightarrow> id_of x | _ \<Rightarrow> Inl (DnsOther ''KeyError''))"

fun find_zone :: "cloudflare \<Rightarrow> pystr \<Rightarrow> pystr list \<Rightarrow> dns_exn + pystr" where
  "find_zone cf domain [] =
     Inl (CloudflareApiError (''No Cloudflare zone found for '' @ py_repr domain @
       '' or any parent domain. Set the Zone ID explicitly in Settings.''))"
| "find_zone cf domain (candidate # rest) =
     (case cf_http cf (HTTP_Get (API_BASE @ ''/zones'') [(''name'', candidate)]) of
        Inl e \<Rightarrow> Inl (CloudflareApiError (''Could not reach Cloudflare: '' @ e))
      | Inr r \<Rightarrow>
          if \<not> response_is_ok r
          then Inl (CloudflareApiError (''Cloudflare API error looking up zone '' @ py_repr candidate @ '': '' @
                 str_of_int (hp_status r)))
          else (case response_object r of
              Inl e \<Rightarrow> Inl e
            | Inr body \<Rightarrow> if truthy (jget ''result'' body) then first_id (jget ''result'' body) else find_zone cf domain rest))"

definition resolve_zone_id :: "cloudflare \<Rightarrow> pystr \<Rightarrow> dns_exn + pystr" where
  "resolve_zone_id cf domain =
     (case cf_zone_id cf of Some (c # cs) \<Rightarrow> Inr (c # cs) | _ \<Rightarrow> find_zone cf domain (parent_names domain))"

definition records_url :: "pystr \<Rightarrow> pystr" where
  "records_url zone_id = API_BASE @ ''/zones/'' @ zone_id @ ''/dns_records''"

definition verify_access :: "cloudflare \<Rightarrow> pystr \<Rightarrow> dns_exn + bool \<times> pystr" where
  "verify_access cf domain =
     (case resolve_zone_id cf domain of
        Inl (CloudflareApiError t) \<Rightarrow> Inr (False, t)
      | Inl e \<Rightarrow> Inl e
      | Inr zone_id \<Rightarrow>
          (case cf_http cf (HTTP_Get (records_url zone_id) [(''per_page'', ''1'')]) of
             Inl e \<Rightarrow> Inr (False, ''Could not reach Cloudflare: '' @ e)
           | Inr r \<Rightarrow>
               if hp_status r = 401 \<or> hp_status r = 403
               then Inr (False, ''Cloudflare rejected this token (401/403) '' @ em_dash @
                      '' check it has Zone:DNS:Edit permission.'')
               else if \<not> response_is_ok r
               then Inr (False, ''Cloudflare API error: '' @ str_of_int (hp_status r) @ '' '' @ take 200 (hp_text r))
               else Inr (True, ''Access confirmed for zone '' @ zone_id @ ''.'')))"

definition txt_record :: "pystr \<Rightarrow> pystr \<Rightarrow> json" where
  "txt_record name value =
     JObj [(''type'', JStr ''TXT''), (''name'', JStr name), (''content'', JStr value), (''ttl'', JInt 120)]"

definition create_txt_record :: "cloudflare \<Rightarrow> pystr \<Rightarrow> pystr \<Rightarrow> pystr \<Rightarrow> dns_exn + pystr" where
  "create_txt_record cf domain name value =
     (case resolve_zone_id cf domain of
        Inl e \<Rightarrow> Inl e
      | Inr zone_id \<Rightarrow>
          (case cf_http cf (HTTP_Post (records_url zone_id) (txt_record name value)) of
             Inl e \<Rightarrow> Inl (CloudflareApiError (''Could not reach Cloudflare: '' @ e))
           | Inr r \<Rightarrow>
               (case (if hp_content r then response_object r else Inr []) of
                  Inl e \<Rightarrow> Inl e
                | Inr body \<Rightarrow>
                    if \<not> response_is_ok r \<or> \<not> truthy (jget ''success'' body)
                    then Inl (CloudflareApiError (''Failed to create TXT record: '' @
                           (case map_of body ''errors'' of None \<Rightarrow> take 200 (hp_text r) | Some j \<Rightarrow> cf_str cf j)))
                    else (case map_of body ''result'' of None \<Rightarrow> Inl (DnsOther (CHR 39 # ''result'' @ [CHR 39])) | Some j \<Rightarrow> id_of j))))"

text \<open>Failures of the clean-up are swallowed, those of the two classes it names.\<close>

definition delete_txt_record :: "cloudflare \<Rightarrow> pystr \<Rightarrow> pystr \<Rightarrow> dns_exn option" where
  "delete_txt_record cf domain record_id =
     (case resolve_zone_id cf domain of
        Inl (DnsOther t) \<Rightarrow> Some (DnsOther t)
      | Inl _ \<Rightarrow> None
      | Inr zone_id \<Rightarrow>
          (case cf_http cf (HTTP_Delete (records_url zone_id @ ''/'' @ record_id)) of _ \<Rightarrow> None))"

section \<open>The protocol (\<open>core/dns_provider.py\<close>)\<close>

text \<open>
  What the issuance uses of a provider.  \<open>dp_wait\<close> is the answer of the wait, which returns
  (\<open>propagation_wait_returns\<close>).
\<close>

record dns_provider =
  dp_create :: "pystr \<Rightarrow> pystr \<Rightarrow> pystr \<Rightarrow> dns_exn + pystr"
  dp_delete :: "pystr \<Rightarrow> pystr \<Rightarrow> dns_exn option"
  dp_wait :: "pystr \<Rightarrow> pystr \<Rightarrow> bool"

definition waits :: "dns_net \<Rightarrow> rat \<Rightarrow> pystr \<Rightarrow> pystr \<Rightarrow> bool" where
  "waits net timeout_seconds name value =
     (case wait_for_propagation_via_authoritative_dns net name value timeout_seconds of Some (b, _) \<Rightarrow> b | None \<Rightarrow> False)"

text \<open>The answers of the API may differ between the two calls of one issuance, hence two of them.\<close>

definition cloudflare_provider :: "cloudflare \<Rightarrow> cloudflare \<Rightarrow> dns_net \<Rightarrow> dns_provider" where
  "cloudflare_provider cf_create cf_delete net =
     \<lparr>dp_create = create_txt_record cf_create, dp_delete = delete_txt_record cf_delete, dp_wait = waits net 60\<rparr>"

definition manual_provider :: "dns_net \<Rightarrow> rat \<Rightarrow> dns_provider" where
  "manual_provider net timeout_seconds =
     \<lparr>dp_create = (\<lambda>domain name value. Inr []), dp_delete = (\<lambda>domain record_id. None), dp_wait = waits net timeout_seconds\<rparr>"

end
