(* ===== verification/Acme_Order.thy ===== *)
theory Acme_Order
  imports Dns_Providers Secrets
begin

text \<open>
  The issuer of \<open>core/acme_tls.py\<close>, \<open>LetsEncryptAcmeIssuer\<close>.  The packages \<open>acme\<close>, \<open>josepy\<close> and \<open>cryptography\<close> are the
  record \<open>acme_net\<close> of what each of their calls returns or raises; an order of the \<open>acme\<close> package is its
  authorizations with the challenges offered in each.
\<close>

section \<open>The ACME client\<close>

text \<open>\<open>acme.errors.Error\<close>, its subclass \<open>ConflictError\<close> with its \<open>args\<close>, and any other exception.\<close>

datatype acme_exn = Acme_error pystr | Conflict "pystr list" pystr | Other_exn pystr

definition acme_exn_text :: "acme_exn \<Rightarrow> pystr" where
  "acme_exn_text e = (case e of Acme_error t \<Rightarrow> t | Conflict _ t \<Rightarrow> t | Other_exn t \<Rightarrow> t)"

record acme_challenge =
  ch_is_dns01 :: bool
  ch_token :: pystr

record acme_order =
  ao_authorizations :: "acme_challenge list list"
  ao_uri :: pystr

text \<open>
  \<open>an_query i\<close> is the \<open>i\<close>-th \<open>query_registration\<close> of a call, the two keys are what \<open>_generate_rsa_key_pem\<close> returns.
\<close>

record acme_net =
  an_account_key :: pystr
  an_cert_key :: pystr
  an_load_key :: "pystr \<Rightarrow> acme_exn option"
  an_directory :: "pystr \<Rightarrow> acme_exn option"
  an_query :: "nat \<Rightarrow> pystr \<Rightarrow> acme_exn + pystr"
  an_new_account :: "pystr option \<Rightarrow> acme_exn + pystr"
  an_make_csr :: "pystr \<Rightarrow> pystr \<Rightarrow> acme_exn + pystr"
  an_new_order :: "pystr \<Rightarrow> acme_exn + acme_order"
  an_validation :: "acme_challenge \<Rightarrow> pystr \<Rightarrow> pystr"
  an_order_dumps :: "acme_order \<Rightarrow> pystr"
  an_order_loads :: "pystr \<Rightarrow> acme_exn + acme_order"
  an_answer :: "acme_challenge \<Rightarrow> acme_exn option"
  an_finalize :: "acme_order \<Rightarrow> acme_exn + pystr"
  an_leaf_validity :: "pystr \<Rightarrow> acme_exn + datetime \<times> datetime"

text \<open>Statements one after the other, up to the first that raises.\<close>

definition next_try :: "'e + 'a \<Rightarrow> ('a \<Rightarrow> 'e + 'b) \<Rightarrow> 'e + 'b" where
  "next_try r f = (case r of Inl e \<Rightarrow> Inl e | Inr x \<Rightarrow> f x)"

definition unless_raised :: "'e option \<Rightarrow> 'e + 'b \<Rightarrow> 'e + 'b" where
  "unless_raised r rest = (case r of Some e \<Rightarrow> Inl e | None \<Rightarrow> rest)"

lemma next_try_Inr: "next_try r f = Inr y \<longleftrightarrow> (\<exists>x. r = Inr x \<and> f x = Inr y)"
  by (cases r) (simp_all add: next_try_def)

lemma unless_raised_Inr: "unless_raised r rest = Inr y \<longleftrightarrow> r = None \<and> rest = Inr y"
  by (cases r) (simp_all add: unless_raised_def)

section \<open>\<open>LetsEncryptAcmeIssuer\<close>\<close>

text \<open>The account: the stored one if the server still knows it, else a new one, else the one that conflicts.\<close>

definition stored_registration :: "acme_net \<Rightarrow> pystr option \<Rightarrow> acme_exn + pystr option" where
  "stored_registration net account_uri =
     (case account_uri of
        Some (c # cs) \<Rightarrow>
          (case an_query net 0 (c # cs) of
             Inr uri \<Rightarrow> Inr (Some uri) | Inl (Other_exn t) \<Rightarrow> Inl (Other_exn t) | Inl _ \<Rightarrow> Inr None)
      | _ \<Rightarrow> Inr None)"

definition get_or_create_registration :: "acme_net \<Rightarrow> pystr option \<Rightarrow> pystr option \<Rightarrow> acme_exn + pystr" where
  "get_or_create_registration net contact_email account_uri =
     next_try (stored_registration net account_uri) (\<lambda>regr.
       case regr of
         Some uri \<Rightarrow> Inr uri
       | None \<Rightarrow>
           (case an_new_account net contact_email of
              Inr uri \<Rightarrow> Inr uri
            | Inl (Conflict (location # _) _) \<Rightarrow> an_query net 1 location
            | Inl (Conflict [] _) \<Rightarrow> Inl (Other_exn ''tuple index out of range'')
            | Inl e \<Rightarrow> Inl e))"

fun find_dns01_challenge :: "acme_challenge list list \<Rightarrow> pystr \<Rightarrow> acme_exn + acme_challenge" where
  "find_dns01_challenge [] domain = Inl (Other_exn (''No dns-01 challenge offered for '' @ py_repr domain @ ''.''))"
| "find_dns01_challenge (challenges # rest) domain =
     (case List.find ch_is_dns01 challenges of Some c \<Rightarrow> Inr c | None \<Rightarrow> find_dns01_challenge rest domain)"

record pending_acme_order =
  po_domain :: pystr
  po_record_name :: pystr
  po_record_value :: pystr
  po_order_json :: pystr
  po_cert_key_pem :: pystr
  po_account_key_pem :: pystr
  po_account_uri :: pystr
  po_directory_url :: pystr

record issued_certificate =
  ic_cert_pem :: pystr
  ic_key_pem :: pystr
  ic_not_before :: datetime
  ic_not_after :: datetime

definition begin_order ::
  "acme_net \<Rightarrow> pystr \<Rightarrow> pystr \<Rightarrow> pystr option \<Rightarrow> pystr option \<Rightarrow> pystr option \<Rightarrow> acme_exn + pending_acme_order" where
  "begin_order net directory_url domain contact_email account_key_pem account_uri =
     (let account_key = (case account_key_pem of None \<Rightarrow> an_account_key net | Some k \<Rightarrow> k)
      in unless_raised (an_load_key net account_key) (
         unless_raised (an_directory net directory_url) (
         next_try (get_or_create_registration net contact_email account_uri) (\<lambda>uri.
         next_try (an_make_csr net (an_cert_key net) domain) (\<lambda>csr_pem.
         next_try (an_new_order net csr_pem) (\<lambda>orderr.
         next_try (find_dns01_challenge (ao_authorizations orderr) domain) (\<lambda>challenge.
         Inr \<lparr>po_domain = domain, po_record_name = ''_acme-challenge.'' @ domain,
              po_record_value = an_validation net challenge account_key, po_order_json = an_order_dumps net orderr,
              po_cert_key_pem = an_cert_key net, po_account_key_pem = account_key, po_account_uri = uri,
              po_directory_url = directory_url\<rparr>)))))))"

definition finalize_order :: "acme_net \<Rightarrow> pending_acme_order \<Rightarrow> acme_exn + issued_certificate \<times> pystr \<times> pystr" where
  "finalize_order net pending =
     unless_raised (an_load_key net (po_account_key_pem pending)) (
     unless_raised (an_directory net (po_directory_url pending)) (
     next_try (an_order_loads net (po_order_json pending)) (\<lambda>orderr.
     next_try (find_dns01_challenge (ao_authorizations orderr) (po_domain pending)) (\<lambda>challenge.
     unless_raised (an_answer net challenge) (
     next_try (an_finalize net orderr) (\<lambda>fullchain_pem.
     next_try (an_leaf_validity net fullchain_pem) (\<lambda>(not_before, not_after).
     Inr (\<lparr>ic_cert_pem = fullchain_pem, ic_key_pem = po_cert_key_pem pending, ic_not_before = not_before,
           ic_not_after = not_after\<rparr>, po_account_key_pem pending, po_account_uri pending))))))))"

text \<open>The whole flow, with the changes of the zone it makes; the record is removed whatever happens after it was created.\<close>

datatype dns_effect = Txt_created pystr pystr pystr | Txt_deleted pystr pystr

definition issue ::
  "acme_net \<Rightarrow> pystr \<Rightarrow> pystr \<Rightarrow> pystr option \<Rightarrow> pystr option \<Rightarrow> pystr option \<Rightarrow> dns_provider \<Rightarrow>
   (acme_exn + issued_certificate \<times> pystr \<times> pystr) \<times> dns_effect list" where
  "issue net directory_url domain contact_email account_key_pem account_uri provider =
     (case begin_order net directory_url domain contact_email account_key_pem account_uri of
        Inl e \<Rightarrow> (Inl e, [])
      | Inr pending \<Rightarrow>
          (case dp_create provider domain (po_record_name pending) (po_record_value pending) of
             Inl e \<Rightarrow> (Inl (Other_exn (dns_exn_text e)), [])
           | Inr record_id \<Rightarrow>
               (let outcome =
                      (if \<not> dp_wait provider (po_record_name pending) (po_record_value pending)
                       then Inl (Other_exn (''DNS-01 TXT record for '' @ py_repr (po_record_name pending) @
                              '' did not propagate in time.''))
                       else finalize_order net pending)
                in (case dp_delete provider domain record_id of None \<Rightarrow> outcome | Some e \<Rightarrow> Inl (Other_exn (dns_exn_text e)),
                    [Txt_created domain (po_record_name pending) (po_record_value pending), Txt_deleted domain record_id]))))"

text \<open>The protocol \<open>AcmeIssuer\<close>, which tests implement too.\<close>

record acme_issuer =
  ai_issue :: "pystr \<Rightarrow> pystr option \<Rightarrow> pystr option \<Rightarrow> pystr option \<Rightarrow> dns_provider \<Rightarrow>
    acme_exn + issued_certificate \<times> pystr \<times> pystr"
  ai_begin_order :: "pystr \<Rightarrow> pystr option \<Rightarrow> pystr option \<Rightarrow> pystr option \<Rightarrow> acme_exn + pending_acme_order"
  ai_finalize_order :: "pending_acme_order \<Rightarrow> acme_exn + issued_certificate \<times> pystr \<times> pystr"

definition lets_encrypt_issuer :: "acme_net \<Rightarrow> pystr \<Rightarrow> acme_issuer" where
  "lets_encrypt_issuer net directory_url =
     \<lparr>ai_issue = (\<lambda>domain contact key uri provider. fst (issue net directory_url domain contact key uri provider)),
      ai_begin_order = begin_order net directory_url, ai_finalize_order = finalize_order net\<rparr>"

section \<open>What an issued certificate rests on\<close>

text \<open>
  \<open>certifies net domain key cert\<close>: the order was placed with a request for the domain signed with the key, and the
  chain is what the server returned for that order after its DNS-01 challenge was answered.
\<close>

definition certifies :: "acme_net \<Rightarrow> acme_net \<Rightarrow> pystr \<Rightarrow> pystr \<Rightarrow> pystr \<Rightarrow> bool" where
  "certifies net net' domain key_pem cert_pem \<longleftrightarrow>
     (\<exists>csr orderr orderr' challenge. an_make_csr net key_pem domain = Inr csr \<and> an_new_order net csr = Inr orderr \<and>
        an_order_loads net' (an_order_dumps net orderr) = Inr orderr' \<and>
        find_dns01_challenge (ao_authorizations orderr') domain = Inr challenge \<and> an_answer net' challenge = None \<and>
        an_finalize net' orderr' = Inr cert_pem)"

lemma begin_finalize_certifies:
  assumes "begin_order net url domain contact key uri = Inr pending" "finalize_order net' pending = Inr (issued, k, u)"
  shows "certifies net net' domain (ic_key_pem issued) (ic_cert_pem issued) \<and> po_domain pending = domain \<and>
    k = po_account_key_pem pending \<and> u = po_account_uri pending"
  using assms
  by (auto simp: begin_order_def finalize_order_def next_try_Inr unless_raised_Inr Let_def certifies_def)

lemma issue_certifies:
  assumes "issue net url domain contact key uri provider = (Inr (issued, k, u), effects)"
  shows "certifies net net domain (ic_key_pem issued) (ic_cert_pem issued)"
proof -
  obtain pending where "begin_order net url domain contact key uri = Inr pending" "finalize_order net pending = Inr (issued, k, u)"
    using assms by (auto simp: issue_def Let_def split: sum.splits option.splits if_splits)
  then show ?thesis using begin_finalize_certifies by blast
qed

text \<open>The record that is created is deleted, in every outcome, and no other is touched.\<close>

lemma issue_cleans_up:
  "snd (issue net url domain contact key uri provider) = [] \<or>
   (\<exists>name value record_id. dp_create provider domain name value = Inr record_id \<and>
      snd (issue net url domain contact key uri provider) = [Txt_created domain name value, Txt_deleted domain record_id])"
  by (auto simp: issue_def Let_def split: sum.splits)

end
