(* ===== verification/Acme_Tls.thy ===== *)
theory Acme_Tls
  imports Acme_Order Interval_Job Senders
begin

text \<open>
  The orchestration of \<open>core/acme_tls.py\<close>, the renewal tick of \<open>core/cert_renewal.py\<close> and the routes of
  \<open>api/routes/tls_settings.py\<close>.  \<open>postfix_control.install_tls_certificate\<close> is an argument, an operation on the
  state \<open>'w\<close> of the relay, as are the issuer and the DNS provider; \<open>Certificate_Safety\<close> puts the client of the
  control surface and \<open>LetsEncryptAcmeIssuer\<close> there.
\<close>

section \<open>Recording and installing a certificate\<close>

type_synonym 'w installer = "pystr \<Rightarrow> pystr \<Rightarrow> 'w \<Rightarrow> (ctl_error + install_result) \<times> 'w"

text \<open>
  What one operation finds: the issuer, \<open>CloudflareDnsProvider(token, zone_id)\<close>, the DNS for the manual check,
  the configured key, the nonces of its two encryptions and two readings of the clock.
\<close>

record tls_env =
  te_issuer :: acme_issuer
  te_cloudflare :: "pystr \<Rightarrow> pystr option \<Rightarrow> dns_provider"
  te_dns :: dns_net
  te_aead :: aead
  te_keys :: key_settings
  te_nonce1 :: bytes
  te_nonce2 :: bytes
  te_now :: datetime
  te_recorded_at :: datetime

record issuance_result =
  cr_success :: bool
  cr_detail :: pystr
  cr_not_after :: "datetime option"

record manual_challenge_result =
  mc_success :: bool
  mc_detail :: pystr
  mc_record_name :: "pystr option"
  mc_record_value :: "pystr option"
  mc_expires_at :: "datetime option"

definition MANUAL_CHALLENGE_TTL :: timedelta where "MANUAL_CHALLENGE_TTL = hours 24"

definition MANUAL_CONFIRM_TIMEOUT :: rat where "MANUAL_CONFIRM_TIMEOUT = 20"

definition not_issued :: "pystr \<Rightarrow> issuance_result" where
  "not_issued detail = \<lparr>cr_success = False, cr_detail = detail, cr_not_after = None\<rparr>"

definition no_challenge :: "pystr \<Rightarrow> manual_challenge_result" where
  "no_challenge detail = \<lparr>mc_success = False, mc_detail = detail, mc_record_name = None, mc_record_value = None, mc_expires_at = None\<rparr>"

definition ctl_text :: "ctl_error \<Rightarrow> pystr" where
  "ctl_text e = (case e of PostfixControlError t \<Rightarrow> t)"

definition build_dns_provider :: "tls_env \<Rightarrow> pystr \<Rightarrow> pystr \<Rightarrow> pystr option \<Rightarrow> dns_provider option" where
  "build_dns_provider env provider_name api_token zone_id =
     (if provider_name = ''cloudflare'' then Some (te_cloudflare env api_token zone_id) else None)"

definition recorded_state ::
  "tls_env \<Rightarrow> pystr \<Rightarrow> issued_certificate \<Rightarrow> pystr \<Rightarrow> bytes \<Rightarrow> bytes \<Rightarrow> tls_certificate_state \<Rightarrow> tls_certificate_state" where
  "recorded_state env domain issued account_uri key_blob account_blob state =
     state\<lparr>tc_source := ''lets_encrypt'', tc_domain := Some domain, tc_cert_pem := Some (ic_cert_pem issued),
       tc_encrypted_key_pem := Some key_blob, tc_not_before := Some (ic_not_before issued),
       tc_not_after := Some (ic_not_after issued), tc_issued_at := Some (te_recorded_at env),
       tc_acme_account_key_encrypted := Some account_blob, tc_acme_account_uri := Some account_uri\<rparr>"

definition record_issued_certificate ::
  "tls_env \<Rightarrow> pystr \<Rightarrow> issued_certificate \<Rightarrow> pystr \<Rightarrow> pystr \<Rightarrow> db \<Rightarrow> secret_error + db" where
  "record_issued_certificate env domain issued account_key_pem account_uri d =
     (let (state, d1) = get_tls_certificate_state d
      in next_try (encrypt_secret (te_aead env) (te_keys env) (te_nonce1 env) (ic_key_pem issued)) (\<lambda>key_blob.
         next_try (encrypt_secret (te_aead env) (te_keys env) (te_nonce2 env) account_key_pem) (\<lambda>account_blob.
         Inr (d1\<lparr>tls_state := Some (recorded_state env domain issued account_uri key_blob account_blob state)\<rparr>))))"

text \<open>An exception carries no database: the transaction of its caller is rolled back.\<close>

definition finish_issuance ::
  "'w installer \<Rightarrow> tls_env \<Rightarrow> pystr \<Rightarrow> issued_certificate \<Rightarrow> pystr \<Rightarrow> pystr \<Rightarrow> db \<Rightarrow> 'w \<Rightarrow>
   (secret_error + issuance_result \<times> db) \<times> 'w" where
  "finish_issuance install env domain issued account_key_pem account_uri d w =
     (case install (ic_cert_pem issued) (ic_key_pem issued) w of
        (Inl exc, w') \<Rightarrow>
          (next_try (record_issued_certificate env domain issued account_key_pem account_uri d) (\<lambda>d'.
             Inr (\<lparr>cr_success = False,
                   cr_detail = ''Issued and saved, but Postfix couldn't be reached to install it ('' @ ctl_text exc @
                     ''). It will be installed automatically once Postfix is back (at the next app start or daily renewal check).'',
                   cr_not_after = Some (ic_not_after issued)\<rparr>, d')), w')
      | (Inr r, w') \<Rightarrow>
          if \<not> ir_success r
          then (Inr (not_issued (''Issued but Postfix rejected it: '' @ ir_detail r), d), w')
          else
            (next_try (record_issued_certificate env domain issued account_key_pem account_uri d) (\<lambda>d'.
               let (job, d2) = get_background_job_state d'
               in Inr (\<lparr>cr_success = True, cr_detail = ''Issued.'', cr_not_after = Some (ic_not_after issued)\<rparr>,
                       d2\<lparr>job_state := Some (job\<lparr>bj_cert_last_renewal_error := None\<rparr>)\<rparr>)), w'))"

section \<open>Issuing\<close>

text \<open>A stored account key that cannot be decrypted counts as none.\<close>

definition stored_account_key :: "tls_env \<Rightarrow> tls_certificate_state \<Rightarrow> secret_error + pystr option" where
  "stored_account_key env state =
     (case tc_acme_account_key_encrypted state of
        None \<Rightarrow> Inr None
      | Some blob \<Rightarrow>
          (case decrypt_secret (te_aead env) (te_keys env) blob of
             Inr key \<Rightarrow> Inr (Some key) | Inl UnicodeDecodeError \<Rightarrow> Inl UnicodeDecodeError | Inl _ \<Rightarrow> Inr None))"

text \<open>\<open>not value\<close> for an optional string\<close>

definition blank :: "pystr option \<Rightarrow> bool" where
  "blank s \<longleftrightarrow> s = None \<or> s = Some []"

definition issue_or_renew ::
  "'w installer \<Rightarrow> tls_env \<Rightarrow> db \<Rightarrow> 'w \<Rightarrow> (secret_error + issuance_result \<times> db) \<times> 'w" where
  "issue_or_renew install env d0 w =
     (let (settings, d) = get_relay_settings d0; fail = (\<lambda>detail. (Inr (not_issued detail, d), w))
      in if \<not> rs_tls_acme_enabled settings then fail ''Let's Encrypt issuance is not enabled.''
         else if blank (rs_tls_domain settings) then fail ''No domain configured.''
         else if rs_tls_dns_provider settings = ''manual''
         then fail (''This domain uses manual DNS-01 '' @ em_dash @ '' use \"Start DNS-01 Challenge\" instead of Issue/Renew Now.'')
         else case rs_tls_cloudflare_api_token_encrypted settings of
           None \<Rightarrow> fail ''No Cloudflare API token configured.''
         | Some blob \<Rightarrow>
             (case decrypt_secret (te_aead env) (te_keys env) blob of
                Inl UnicodeDecodeError \<Rightarrow> (Inl UnicodeDecodeError, w)
              | Inl e \<Rightarrow> fail (secret_text e)
              | Inr token \<Rightarrow>
                  (case build_dns_provider env (rs_tls_dns_provider settings) token (rs_tls_cloudflare_zone_id settings) of
                     None \<Rightarrow> fail (''Unsupported DNS provider: '' @ py_repr (rs_tls_dns_provider settings))
                   | Some provider \<Rightarrow>
                       (let (state, d1) = get_tls_certificate_state d; domain = the (rs_tls_domain settings)
                        in case stored_account_key env state of
                             Inl e \<Rightarrow> (Inl e, w)
                           | Inr account_key \<Rightarrow>
                               (case ai_issue (te_issuer env) domain (rs_tls_contact_email settings) account_key
                                       (tc_acme_account_uri state) provider of
                                  Inl exc \<Rightarrow> (Inr (not_issued (acme_exn_text exc), d1), w)
                                | Inr (issued, key, uri) \<Rightarrow> finish_issuance install env domain issued key uri d1 w)))))"

section \<open>The manual challenge\<close>

definition pending_row ::
  "pending_acme_order \<Rightarrow> pystr option \<Rightarrow> bytes \<Rightarrow> bytes \<Rightarrow> datetime \<Rightarrow> tls_pending_manual_challenge" where
  "pending_row pending contact_email cert_blob account_blob now =
     \<lparr>tp_domain = po_domain pending, tp_contact_email = contact_email, tp_record_name = po_record_name pending,
      tp_record_value = po_record_value pending, tp_order_json = po_order_json pending,
      tp_encrypted_cert_key_pem = cert_blob, tp_encrypted_account_key_pem = account_blob,
      tp_account_uri = po_account_uri pending, tp_directory_url = po_directory_url pending,
      tp_created_at = now, tp_expires_at = now + MANUAL_CHALLENGE_TTL\<rparr>"

definition challenge_of :: "pystr \<Rightarrow> tls_pending_manual_challenge \<Rightarrow> manual_challenge_result" where
  "challenge_of detail row =
     \<lparr>mc_success = True, mc_detail = detail, mc_record_name = Some (tp_record_name row),
      mc_record_value = Some (tp_record_value row), mc_expires_at = Some (tp_expires_at row)\<rparr>"

definition begin_manual_dns_challenge :: "tls_env \<Rightarrow> db \<Rightarrow> secret_error + manual_challenge_result \<times> db" where
  "begin_manual_dns_challenge env d0 =
     (let (settings, d) = get_relay_settings d0
      in if \<not> rs_tls_acme_enabled settings then Inr (no_challenge ''Let's Encrypt issuance is not enabled.'', d)
         else if blank (rs_tls_domain settings) then Inr (no_challenge ''No domain configured.'', d)
         else if rs_tls_dns_provider settings \<noteq> ''manual'' then Inr (no_challenge ''DNS provider is not set to Manual.'', d)
         else
           (let domain = the (rs_tls_domain settings); existing = get_tls_pending_manual_challenge d
            in if existing \<noteq> None \<and> tp_domain (the existing) = domain \<and> te_now env < tp_expires_at (the existing)
               then Inr (challenge_of ''A DNS-01 challenge is already in progress for this domain.'' (the existing), d)
               else
                 (let (state, d1) = get_tls_certificate_state d
                  in next_try (stored_account_key env state) (\<lambda>account_key.
                     case ai_begin_order (te_issuer env) domain (rs_tls_contact_email settings) account_key
                            (tc_acme_account_uri state) of
                       Inl exc \<Rightarrow> Inr (no_challenge (acme_exn_text exc), d1)
                     | Inr pending \<Rightarrow>
                         next_try (encrypt_secret (te_aead env) (te_keys env) (te_nonce1 env) (po_cert_key_pem pending)) (\<lambda>cert_blob.
                         next_try (encrypt_secret (te_aead env) (te_keys env) (te_nonce2 env) (po_account_key_pem pending)) (\<lambda>account_blob.
                           let row = pending_row pending (rs_tls_contact_email settings) cert_blob account_blob (te_now env)
                           in Inr (challenge_of ''Add this TXT record, then click Verify & Continue.'' row,
                                   upsert_tls_pending_manual_challenge d1 row)))))))"

definition pending_order :: "tls_pending_manual_challenge \<Rightarrow> pystr \<Rightarrow> pystr \<Rightarrow> pending_acme_order" where
  "pending_order row cert_key_pem account_key_pem =
     \<lparr>po_domain = tp_domain row, po_record_name = tp_record_name row, po_record_value = tp_record_value row,
      po_order_json = tp_order_json row, po_cert_key_pem = cert_key_pem, po_account_key_pem = account_key_pem,
      po_account_uri = tp_account_uri row, po_directory_url = tp_directory_url row\<rparr>"

definition finalize_manual_dns_challenge ::
  "'w installer \<Rightarrow> tls_env \<Rightarrow> db \<Rightarrow> 'w \<Rightarrow> (secret_error + issuance_result \<times> db) \<times> 'w" where
  "finalize_manual_dns_challenge install env d0 w =
     (case get_tls_pending_manual_challenge d0 of
        None \<Rightarrow> (Inr (not_issued ''No manual DNS-01 challenge in progress.'', d0), w)
      | Some row \<Rightarrow>
          if tp_expires_at row \<le> te_now env
          then (Inr (not_issued ''This DNS-01 challenge expired. Start a new one.'', clear_tls_pending_manual_challenge d0), w)
          else
            (let (settings, d) = get_relay_settings d0
             in if Some (tp_domain row) \<noteq> rs_tls_domain settings
                then (Inr (not_issued (''This DNS-01 challenge was for '' @ tp_domain row @ '', but the configured domain is now '' @
                        (if blank (rs_tls_domain settings) then ''unset'' else the (rs_tls_domain settings)) @ ''. Start a new challenge.''),
                        clear_tls_pending_manual_challenge d), w)
                else if \<not> dp_wait (manual_provider (te_dns env) MANUAL_CONFIRM_TIMEOUT) (tp_record_name row) (tp_record_value row)
                then (Inr (not_issued (tp_record_name row @ '' isn't visible yet '' @ em_dash @
                        '' DNS changes can take a few minutes to propagate. Wait a bit and try again.''), d), w)
                else case next_try (decrypt_secret (te_aead env) (te_keys env) (tp_encrypted_cert_key_pem row)) (\<lambda>cert_key.
                         next_try (decrypt_secret (te_aead env) (te_keys env) (tp_encrypted_account_key_pem row)) (\<lambda>account_key.
                         Inr (cert_key, account_key))) of
                    Inl UnicodeDecodeError \<Rightarrow> (Inl UnicodeDecodeError, w)
                  | Inl e \<Rightarrow> (Inr (not_issued (secret_text e), d), w)
                  | Inr (cert_key, account_key) \<Rightarrow>
                      (case ai_finalize_order (te_issuer env) (pending_order row cert_key account_key) of
                         Inl exc \<Rightarrow> (Inr (not_issued (acme_exn_text exc), clear_tls_pending_manual_challenge d), w)
                       | Inr (issued, key, uri) \<Rightarrow>
                           (case finish_issuance install env (tp_domain row) issued key uri d w of
                              (Inl e, w') \<Rightarrow> (Inl e, w')
                            | (Inr (result, d'), w') \<Rightarrow> (Inr (result, clear_tls_pending_manual_challenge d'), w')))))"

section \<open>Bringing the relay up to date\<close>

text \<open>The exception it may raise, and the relay; failures to reach Postfix are logged only.\<close>

definition sync_certificate_to_postfix ::
  "'w installer \<Rightarrow> aead \<Rightarrow> key_settings \<Rightarrow> db \<Rightarrow> 'w \<Rightarrow> secret_error option \<times> 'w" where
  "sync_certificate_to_postfix install A ks d w =
     (let (state, _) = get_tls_certificate_state d
      in case (tc_cert_pem state, tc_encrypted_key_pem state) of
           (Some cert_pem, Some blob) \<Rightarrow>
             (case decrypt_secret A ks blob of
                Inl UnicodeDecodeError \<Rightarrow> (Some UnicodeDecodeError, w)
              | Inl _ \<Rightarrow> (None, w)
              | Inr key_pem \<Rightarrow> (None, snd (install cert_pem key_pem w)))
         | _ \<Rightarrow> (None, w))"

end
