(* ===== verification/Tls_Settings.thy ===== *)
theory Tls_Settings
  imports Acme_Tls Upstream_Accounts
begin

text \<open>
  The routes of \<open>api/routes/tls_settings.py\<close> and the daily tick of \<open>core/cert_renewal.py\<close>, over the operations of
  \<open>Acme_Tls\<close>.  The renewal tick is an \<open>interval_job\<close>: however issuing ends, the next order is a day away.
\<close>

section \<open>Bodies (\<open>schemas/tls_settings.py\<close>)\<close>

record tls_settings_update =
  tu_acme_enabled :: "bool option option"
  tu_domain :: "pystr option option"
  tu_contact_email :: "pystr option option"
  tu_dns_provider :: "pystr option option"
  tu_cloudflare_zone_id :: "pystr option option"
  tu_cloudflare_api_token :: "pystr option option"

text \<open>Pydantic's \<open>EmailStr\<close> is the argument \<open>email_str\<close>: the normalised address, or none when it is refused.\<close>

definition parse_tls_settings_update :: "(pystr \<Rightarrow> pystr option) \<Rightarrow> tls_settings_update \<Rightarrow> tls_settings_update option" where
  "parse_tls_settings_update email_str p =
     (if \<not> (not_nulled (tu_acme_enabled p) \<and> not_nulled (tu_dns_provider p)) then None
      else (case tu_contact_email p of
          Some (Some raw) \<Rightarrow> map_option (\<lambda>a. p\<lparr>tu_contact_email := Some (Some a)\<rparr>) (email_str raw)
        | _ \<Rightarrow> Some p))"

record tls_settings_read =
  tr_acme_enabled :: bool
  tr_domain :: "pystr option"
  tr_contact_email :: "pystr option"
  tr_dns_provider :: pystr
  tr_cloudflare_zone_id :: "pystr option"
  tr_cloudflare_api_token_configured :: bool
  tr_cert_source :: pystr
  tr_cert_domain :: "pystr option"
  tr_cert_not_after :: "datetime option"
  tr_cert_issued_at :: "datetime option"
  tr_last_checked_at :: "datetime option"
  tr_last_renewal_attempt_at :: "datetime option"
  tr_last_renewal_error :: "pystr option"
  tr_manual_dns_pending :: bool
  tr_manual_dns_record_name :: "pystr option"
  tr_manual_dns_record_value :: "pystr option"
  tr_manual_dns_expires_at :: "datetime option"

section \<open>The routes\<close>

definition tls_to_read ::
  "datetime \<Rightarrow> relay_settings \<Rightarrow> tls_certificate_state \<Rightarrow> background_job_state \<Rightarrow> tls_pending_manual_challenge option \<Rightarrow>
   tls_settings_read" where
  "tls_to_read now settings cert_state job pending_challenge =
     (let pending = (case pending_challenge of None \<Rightarrow> None | Some p \<Rightarrow> if now < tp_expires_at p then Some p else None)
      in \<lparr>tr_acme_enabled = rs_tls_acme_enabled settings, tr_domain = rs_tls_domain settings,
          tr_contact_email = rs_tls_contact_email settings, tr_dns_provider = rs_tls_dns_provider settings,
          tr_cloudflare_zone_id = rs_tls_cloudflare_zone_id settings,
          tr_cloudflare_api_token_configured = (rs_tls_cloudflare_api_token_encrypted settings \<noteq> None),
          tr_cert_source = tc_source cert_state, tr_cert_domain = tc_domain cert_state,
          tr_cert_not_after = tc_not_after cert_state, tr_cert_issued_at = tc_issued_at cert_state,
          tr_last_checked_at = bj_cert_renewal_last_checked_at job,
          tr_last_renewal_attempt_at = bj_cert_last_renewal_attempt_at job,
          tr_last_renewal_error = bj_cert_last_renewal_error job,
          tr_manual_dns_pending = (pending \<noteq> None), tr_manual_dns_record_name = map_option tp_record_name pending,
          tr_manual_dns_record_value = map_option tp_record_value pending,
          tr_manual_dns_expires_at = map_option tp_expires_at pending\<rparr>)"

definition get_tls_settings :: "datetime \<Rightarrow> db \<Rightarrow> tls_settings_read" where
  "get_tls_settings now d =
     tls_to_read now (fst (get_relay_settings d)) (fst (get_tls_certificate_state d)) (fst (get_background_job_state d))
       (get_tls_pending_manual_challenge d)"

definition entered_token :: "tls_settings_update \<Rightarrow> pystr option" where
  "entered_token p = (case tu_cloudflare_api_token p of Some (Some (c # cs)) \<Rightarrow> Some (c # cs) | _ \<Rightarrow> None)"

text \<open>\<open>setattr(settings_row, _FIELD_MAP[field], value)\<close> for every field that was sent.\<close>

definition sent_or :: "'a option \<Rightarrow> 'a \<Rightarrow> 'a" where
  "sent_or sent old = (case sent of None \<Rightarrow> old | Some new \<Rightarrow> new)"

definition updated_settings :: "tls_settings_update \<Rightarrow> relay_settings \<Rightarrow> relay_settings" where
  "updated_settings p s =
     s\<lparr>rs_tls_acme_enabled := sent_or (map_option the (tu_acme_enabled p)) (rs_tls_acme_enabled s),
       rs_tls_domain := sent_or (tu_domain p) (rs_tls_domain s),
       rs_tls_contact_email := sent_or (tu_contact_email p) (rs_tls_contact_email s),
       rs_tls_dns_provider := sent_or (map_option the (tu_dns_provider p)) (rs_tls_dns_provider s),
       rs_tls_cloudflare_zone_id := sent_or (tu_cloudflare_zone_id p) (rs_tls_cloudflare_zone_id s)\<rparr>"

definition sent_tls_fields :: "tls_settings_update \<Rightarrow> pystr list" where
  "sent_tls_fields p =
     (if tu_acme_enabled p \<noteq> None then [''acme_enabled''] else []) @
     (if entered_token p \<noteq> None then [''cloudflare_api_token''] else []) @
     (if tu_cloudflare_zone_id p \<noteq> None then [''cloudflare_zone_id''] else []) @
     (if tu_contact_email p \<noteq> None then [''contact_email''] else []) @
     (if tu_dns_provider p \<noteq> None then [''dns_provider''] else []) @
     (if tu_domain p \<noteq> None then [''domain''] else [])"

definition update_tls_settings ::
  "aead \<Rightarrow> key_settings \<Rightarrow> admin_request \<Rightarrow> tls_settings_update \<Rightarrow> db \<Rightarrow> (http_error + tls_settings_read) \<times> db" where
  "update_tls_settings A ks rq p d0 =
     (let (s, d) = get_relay_settings d0
      in case (case entered_token p of None \<Rightarrow> Inr (rs_tls_cloudflare_api_token_encrypted s)
               | Some token \<Rightarrow> map_sum id Some (encrypt_or_503 A ks rq token)) of
           Inl e \<Rightarrow> (Inl e, d0)
         | Inr blob \<Rightarrow>
             (let s1 = (updated_settings p s)\<lparr>rs_tls_cloudflare_api_token_encrypted := blob\<rparr>;
                  d1 = audit_admin rq ''tls_settings.update'' ''relay_settings'' 1
                         [(''fields'', JList (map JStr (sent_tls_fields p)))] (d\<lparr>settings_row := Some s1\<rparr>)
              in (Inr (get_tls_settings (aq_now rq) d1), d1)))"

text \<open>An audit row without a target\<close>

definition audit_action :: "admin_request \<Rightarrow> pystr \<Rightarrow> (pystr \<times> json) list \<Rightarrow> db \<Rightarrow> db" where
  "audit_action rq action detail d =
     record_audit (aq_audit_id rq) (aq_now rq) (Some (aq_admin_id rq)) action None None (Some detail) (aq_ip rq) d"

definition optional_str :: "pystr option \<Rightarrow> json" where
  "optional_str s = (case s of None \<Rightarrow> JNull | Some t \<Rightarrow> JStr t)"

definition decrypt_or_503 :: "aead \<Rightarrow> key_settings \<Rightarrow> bytes \<Rightarrow> http_error + pystr" where
  "decrypt_or_503 A ks blob =
     (case decrypt_secret A ks blob of
        Inl UnicodeDecodeError \<Rightarrow> Inl internal_error | Inl e \<Rightarrow> Inl (HTTPException 503 (secret_text e)) | Inr t \<Rightarrow> Inr t)"

text \<open>\<open>cloudflare token zone_id\<close> is the state of Cloudflare that the provider meets.\<close>

definition verify_dns_access ::
  "(pystr \<Rightarrow> pystr option \<Rightarrow> cloudflare) \<Rightarrow> aead \<Rightarrow> key_settings \<Rightarrow> admin_request \<Rightarrow> db \<Rightarrow> (http_error + bool \<times> pystr) \<times> db" where
  "verify_dns_access cloudflare_for A ks rq d0 =
     (let (s, d) = get_relay_settings d0
      in if blank (rs_tls_domain s) then (Inl (HTTPException 400 ''Configure a domain first.''), d0)
         else if rs_tls_dns_provider s \<noteq> ''cloudflare''
         then (Inl (HTTPException 400 ''Verify is only applicable to the Cloudflare provider.''), d0)
         else case rs_tls_cloudflare_api_token_encrypted s of
           None \<Rightarrow> (Inl (HTTPException 400 ''Configure a Cloudflare API token first.''), d0)
         | Some blob \<Rightarrow>
             (case decrypt_or_503 A ks blob of
                Inl e \<Rightarrow> (Inl e, d0)
              | Inr token \<Rightarrow>
                  (case verify_access (cloudflare_for token (rs_tls_cloudflare_zone_id s)) (the (rs_tls_domain s)) of
                     Inl _ \<Rightarrow> (Inl internal_error, d0)
                   | Inr (success, detail) \<Rightarrow>
                       (Inr (success, detail), audit_action rq ''tls_settings.verify_dns_access'' [(''success'', JBool success)] d))))"

definition issue_now ::
  "'w installer \<Rightarrow> tls_env \<Rightarrow> admin_request \<Rightarrow> db \<Rightarrow> 'w \<Rightarrow> (http_error + bool \<times> pystr) \<times> db \<times> 'w" where
  "issue_now install env rq d0 w =
     (let (s, d) = get_relay_settings d0
      in if \<not> rs_tls_acme_enabled s then (Inl (HTTPException 400 ''Enable Let's Encrypt first.''), d0, w)
         else if blank (rs_tls_domain s) then (Inl (HTTPException 400 ''Configure a domain first.''), d0, w)
         else if rs_tls_dns_provider s = ''cloudflare'' \<and> rs_tls_cloudflare_api_token_encrypted s = None
         then (Inl (HTTPException 400 ''Configure a Cloudflare API token first.''), d0, w)
         else case issue_or_renew install env d w of
           (Inl _, w') \<Rightarrow> (Inl internal_error, d0, w')
         | (Inr (result, d1), w') \<Rightarrow>
             (Inr (cr_success result, cr_detail result),
              audit_action rq ''tls_certificate.manual_issue''
                [(''success'', JBool (cr_success result)), (''domain'', optional_str (rs_tls_domain s))] d1, w'))"

definition start_manual_dns_challenge ::
  "tls_env \<Rightarrow> admin_request \<Rightarrow> db \<Rightarrow> (http_error + manual_challenge_result) \<times> db" where
  "start_manual_dns_challenge env rq d0 =
     (let (s, d) = get_relay_settings d0
      in if \<not> rs_tls_acme_enabled s then (Inl (HTTPException 400 ''Enable Let's Encrypt first.''), d0)
         else if blank (rs_tls_domain s) then (Inl (HTTPException 400 ''Configure a domain first.''), d0)
         else if rs_tls_dns_provider s \<noteq> ''manual'' then (Inl (HTTPException 400 ''Set DNS provider to Manual first.''), d0)
         else case begin_manual_dns_challenge env d of
           Inl _ \<Rightarrow> (Inl internal_error, d0)
         | Inr (result, d1) \<Rightarrow>
             (Inr result,
              audit_action rq ''tls_certificate.manual_dns_start''
                [(''success'', JBool (mc_success result)), (''domain'', optional_str (rs_tls_domain s))] d1))"

definition confirm_manual_dns_challenge ::
  "'w installer \<Rightarrow> tls_env \<Rightarrow> admin_request \<Rightarrow> db \<Rightarrow> 'w \<Rightarrow> (http_error + bool \<times> pystr) \<times> db \<times> 'w" where
  "confirm_manual_dns_challenge install env rq d0 w =
     (let (s, d) = get_relay_settings d0
      in case finalize_manual_dns_challenge install env d w of
           (Inl _, w') \<Rightarrow> (Inl internal_error, d0, w')
         | (Inr (result, d1), w') \<Rightarrow>
             (Inr (cr_success result, cr_detail result),
              audit_action rq ''tls_certificate.manual_confirm''
                [(''success'', JBool (cr_success result)), (''domain'', optional_str (rs_tls_domain s))] d1, w'))"

section \<open>The renewal tick\<close>

definition RENEWAL_CHECK_INTERVAL :: timedelta where "RENEWAL_CHECK_INTERVAL = hours 24"

definition RENEWAL_THRESHOLD :: timedelta where "RENEWAL_THRESHOLD = days 30"

record cert_tick =
  ct_started :: datetime
  ct_due_at :: datetime
  ct_checked_at :: datetime
  ct_attempt_at :: datetime
  ct_env :: tls_env
  ct_audit_id :: int
  ct_audit_at :: datetime

definition certificate_due :: "datetime \<Rightarrow> tls_certificate_state \<Rightarrow> bool" where
  "certificate_due now c \<longleftrightarrow> tc_source c \<noteq> ''lets_encrypt'' \<or>
     (case tc_not_after c of None \<Rightarrow> True | Some t \<Rightarrow> t - now < RENEWAL_THRESHOLD)"

definition audit_tick :: "cert_tick \<Rightarrow> pystr \<Rightarrow> (pystr \<times> json) list \<Rightarrow> db \<Rightarrow> db" where
  "audit_tick tk action detail d = record_audit (ct_audit_id tk) (ct_audit_at tk) None action None None (Some detail) None d"

text \<open>
  The first commit closes the gate before the attempt, so an exception of \<open>issue_or_renew\<close> leaves the database
  of that commit.  The last component tells whether an order was attempted.
\<close>

definition cert_renewal_tick :: "'w installer \<Rightarrow> cert_tick \<Rightarrow> db \<Rightarrow> 'w \<Rightarrow> db \<times> 'w \<times> bool" where
  "cert_renewal_tick install tk d0 w =
     (let (settings, d1) = get_relay_settings d0
      in if \<not> rs_tls_acme_enabled settings then (d0, w, False)
         else
           (let (state, d2) = get_background_job_state d1
            in if (case bj_cert_renewal_last_checked_at state of None \<Rightarrow> False
                   | Some t \<Rightarrow> ct_started tk - t < RENEWAL_CHECK_INTERVAL)
               then (d0, w, False)
               else case sync_certificate_to_postfix install (te_aead (ct_env tk)) (te_keys (ct_env tk)) d2 w of
                   (Some _, w1) \<Rightarrow> (d0, w1, False)
                 | (None, w1) \<Rightarrow>
                     (let (cert_state, d3) = get_tls_certificate_state d2;
                          checked = state\<lparr>bj_cert_renewal_last_checked_at := Some (ct_checked_at tk)\<rparr>
                      in if \<not> certificate_due (ct_due_at tk) cert_state then (d3\<lparr>job_state := Some checked\<rparr>, w1, False)
                         else
                           (let d4 = d3\<lparr>job_state := Some (checked\<lparr>bj_cert_last_renewal_attempt_at := Some (ct_attempt_at tk)\<rparr>)\<rparr>
                            in case issue_or_renew install (ct_env tk) d4 w1 of
                                 (Inl _, w2) \<Rightarrow> (d4, w2, True)
                               | (Inr (result, d5), w2) \<Rightarrow>
                                   (if cr_success result
                                    then audit_tick tk ''tls_certificate.renewed'' [(''domain'', optional_str (rs_tls_domain settings))]
                                           (d5\<lparr>job_state := Some ((the_jobs d5)\<lparr>bj_cert_last_renewal_error := None\<rparr>)\<rparr>)
                                    else audit_tick tk ''tls_certificate.renewal_failed'' [(''detail'', JStr (cr_detail result))]
                                           (d5\<lparr>job_state := Some ((the_jobs d5)\<lparr>bj_cert_last_renewal_error := Some (cr_detail result)\<rparr>)\<rparr>),
                                    w2, True)))))"

end
