(* ===== verification/Certificate_Install.thy ===== *)
theory Certificate_Install
  imports Acme_Tls Surface_Safety
begin

text \<open>
  What the control surface does to the live certificate and key, in every outcome of \<open>install_tls_certificate\<close>,
  as the laws of the locale \<open>tls_relay\<close> that the issuing side relies on, interpreted on the client.
\<close>

section \<open>The live files\<close>

definition tls_file :: "pystr \<Rightarrow> machine \<Rightarrow> bytes option" where
  "tls_file name m = map_option fst (m_files m (TLS_DIR, name))"

text \<open>\<open>openssl\<close> as it is called here only reads.\<close>

definition tls_tools_local :: "runner \<Rightarrow> bool" where
  "tls_tools_local run \<longleftrightarrow> tools_local run \<and> (\<forall>args. touches {} (run (''openssl'' # args) None))"

text \<open>Each of the two files holds what it held or what was sent.\<close>

definition tls_between :: "bytes option \<Rightarrow> bytes option \<Rightarrow> bytes \<Rightarrow> bytes \<Rightarrow> machine \<Rightarrow> bool" where
  "tls_between old_crt old_key cert_pem key_pem m \<longleftrightarrow>
     tls_file ''relay.crt'' m \<in> {old_crt, Some cert_pem} \<and> tls_file ''relay.key'' m \<in> {old_key, Some key_pem}"

lemma between_touches:
  assumes "touches D a" "(TLS_DIR, ''relay.crt'') \<notin> D" "(TLS_DIR, ''relay.key'') \<notin> D"
  shows "keeps (tls_between oc ok c k) a"
  by (rule keepsI) (simp add: tls_between_def tls_file_def touchesD[OF assms(1,2)] touchesD[OF assms(1,3)])

lemma write_file_live:
  "m_files (snd (write_file (d, n) c mode m)) (d, n) \<in> {m_files m (d, n), Some (c, mode)}"
  by (auto simp: write_file_def andthen_def open_trunc_def write_content_def os_chmod_def os_replace_def syscall_def
      new_name_def split: option.splits prod.splits sum.splits)

lemma write_file_other:
  "p \<noteq> (d, n) \<Longrightarrow> p \<noteq> (d, n @ ''.new'') \<Longrightarrow> m_files (snd (write_file (d, n) c mode m)) p = m_files m p"
  by (rule touchesD[where D = "{(d, n), (d, n @ ''.new'')}"]) (auto intro: touches_write_file simp: new_name_def)

lemma tls_file_write: "tls_file n (snd (write_file (TLS_DIR, n) x mode m)) \<in> {tls_file n m, Some x}"
  using write_file_live[of TLS_DIR n x mode m] by (auto simp: tls_file_def)

lemma tls_file_write_other:
  "n' \<noteq> n \<Longrightarrow> n' \<noteq> n @ ''.new'' \<Longrightarrow> tls_file n' (snd (write_file (TLS_DIR, n) x mode m)) = tls_file n' m"
  using write_file_other[of "(TLS_DIR, n')" TLS_DIR n x mode m] by (simp add: tls_file_def)

lemma between_write_crt:
  assumes "Some x \<in> {oc, Some c}"
  shows "keeps (tls_between oc ok c k) (write_file (TLS_DIR, ''relay.crt'') x mode)"
proof (rule keepsI)
  fix m
  assume "tls_between oc ok c k m"
  then show "tls_between oc ok c k (snd (write_file (TLS_DIR, ''relay.crt'') x mode m))"
    using assms tls_file_write[of "''relay.crt''" x mode m]
    by (auto simp: tls_between_def tls_file_write_other)
qed

lemma between_write_key:
  assumes "Some x \<in> {ok, Some k}"
  shows "keeps (tls_between oc ok c k) (write_file (TLS_DIR, ''relay.key'') x mode)"
proof (rule keepsI)
  fix m
  assume "tls_between oc ok c k m"
  then show "tls_between oc ok c k (snd (write_file (TLS_DIR, ''relay.key'') x mode m))"
    using assms tls_file_write[of "''relay.key''" x mode m]
    by (auto simp: tls_between_def tls_file_write_other)
qed

lemma between_write: "keeps (tls_between oc ok c k) (write_tls_files c k)"
  unfolding write_tls_files_def by (intro keeps_for_each) (auto intro!: between_write_crt between_write_key)

text \<open>What is read of a file is what it holds, or nothing.\<close>

lemma read_tls_files_content:
  assumes "read_tls_files m = (Inr previous, m')"
  shows "m_files m' = m_files m" and "\<exists>crt key. previous = [(''relay.crt'', crt), (''relay.key'', key)] \<and>
    crt \<in> {None, tls_file ''relay.crt'' m} \<and> key \<in> {None, tls_file ''relay.key'' m}"
  using assms by (auto simp: read_tls_files_def andthen_Inr return_def read_file_def tls_file_def split: if_splits)

lemma between_restore:
  assumes "crt \<in> {None, oc, Some c}" "key \<in> {None, ok, Some k}"
  shows "keeps (tls_between oc ok c k) (restore_tls_files [(''relay.crt'', crt), (''relay.key'', key)])"
  unfolding restore_tls_files_def
  using assms by (intro keeps_for_each) (auto intro!: between_write_crt between_write_key keeps_rules split: option.splits)

lemma keeps_andthen_at:
  assumes "\<And>m r m'. I m \<Longrightarrow> a m = (r, m') \<Longrightarrow> I m'" "\<And>m x m'. I m \<Longrightarrow> a m = (Inr x, m') \<Longrightarrow> keeps I (f x)"
  shows "keeps I (andthen a f)"
proof (rule keepsI)
  fix m
  assume m: "I m"
  obtain r m' where a: "a m = (r, m')" by (rule prod.exhaust)
  have m': "I m'" by (rule assms(1)[OF m a])
  show "I (snd (andthen a f m))"
  proof (cases r)
    case (Inr x)
    from keepsD[OF assms(2)[OF m a[unfolded Inr]] m'] show ?thesis by (simp add: andthen_def a Inr)
  qed (simp add: andthen_def a m')
qed

lemma between_replace:
  assumes "tls_tools_local run"
  shows "keeps (tls_between oc ok c k) (replace_tls_files run c k)"
proof (unfold replace_tls_files_def Let_def, rule keeps_andthen_at, goal_cases)
  case (1 m r m')
  have "touches {} read_tls_files" unfolding read_tls_files_def by (intro touches_rules)
  from keepsD[OF between_touches[OF this] 1(1)] show ?case by (simp add: 1(2))
next
  case (2 m previous m')
  have tool: "keeps (tls_between oc ok c k) (run [''postfix'', verb] None)" for verb
    using assms unfolding tls_tools_local_def by (intro between_touches[OF tools_localD(3)[where D = "{}"]]) simp_all
  obtain crt key where p: "previous = [(''relay.crt'', crt), (''relay.key'', key)]"
    "crt \<in> {None, oc, Some c}" "key \<in> {None, ok, Some k}"
    using read_tls_files_content(2)[OF 2(2)] 2(1) by (auto simp: tls_between_def)
  show ?case
    unfolding p(1) by (intro keeps_rules between_write tool between_restore[OF p(2,3)])
qed

lemma between_install:
  assumes "tls_tools_local run" "staging \<noteq> TLS_DIR" "require_str payload ''cert_pem'' = Inr c" "require_str payload ''key_pem'' = Inr k"
  shows "keeps (tls_between oc ok c k) (install_tls_certificate run staging payload)"
proof -
  have quiet: "keeps (tls_between oc ok c k) a" if "touches {p. fst p = staging} a" for a :: "'x action"
    using assms(2) by (intro between_touches[OF that]) auto
  have openssl: "touches {p. fst p = staging} (run (''openssl'' # args) None)" for args
    using assms(1) unfolding tls_tools_local_def by (blast intro: touches_mono)
  have rm: "tls_between oc ok c k m \<Longrightarrow> tls_between oc ok c k (rmtree staging m)" for m
    using assms(2) by (simp add: rmtree_def tls_between_def tls_file_def)
  show ?thesis
    unfolding install_tls_certificate_def Let_def assms(3,4) andthen_check
    by (intro keeps_rules keeps_within[where I = "tls_between oc ok c k", OF _ rm] between_replace[OF assms(1)] quiet[OF openssl] quiet[OF touches_write_plain] quiet[OF touches_files(5)])
       simp_all
qed

text \<open>An answer of success means that both files hold what was sent.\<close>

lemma write_tls_files_Inr:
  assumes "write_tls_files c k m = (Inr (), m')"
  shows "tls_file ''relay.crt'' m' = Some c" "tls_file ''relay.key'' m' = Some k"
proof -
  obtain m1 where w: "write_file (TLS_DIR, ''relay.crt'') c (tls_mode_of ''relay.crt'') m = (Inr (), m1)"
    "write_file (TLS_DIR, ''relay.key'') k (tls_mode_of ''relay.key'') m1 = (Inr (), m')"
    using assms by (auto simp: write_tls_files_def split: prod.splits sum.splits)
  show "tls_file ''relay.key'' m' = Some k" using write_file_Inr[OF w(2)] by (simp add: tls_file_def)
  show "tls_file ''relay.crt'' m' = Some c"
    using write_file_Inr[OF w(1)] tls_file_write_other[of "''relay.crt''" "''relay.key''" k "tls_mode_of ''relay.key''" m1]
    by (simp add: tls_file_def w(2))
qed

lemma replace_success:
  assumes "tls_tools_local run" "replace_tls_files run c k m = (Inr resp, m')" "jbool ''success'' resp"
  shows "tls_file ''relay.crt'' m' = Some c \<and> tls_file ''relay.key'' m' = Some k"
proof -
  have tool: "m_files (snd (run [''postfix'', verb] None m)) p = m_files m p" for verb m p
    using assms(1) unfolding tls_tools_local_def by (intro touchesD[OF tools_localD(3)[where D = "{}"]]) simp_all
  obtain previous m1 where r: "read_tls_files m = (Inr previous, m1)"
    using assms(2) by (auto simp: replace_tls_files_def andthen_Inr)
  note read = read_tls_files_content[OF r]
  note flag = jbool_def truthy_def jget_def tls_response_def
  show ?thesis
  proof (cases "map_of previous ''relay.crt'' = Some (Some c) \<and> map_of previous ''relay.key'' = Some (Some k)")
    case True
    then have "m' = m1" using assms(2) by (simp add: replace_tls_files_def andthen_eq[of read_tls_files m previous m1, OF r] return_def)
    then show ?thesis using read True by (auto simp: tls_file_def)
  next
    case False
    then obtain m2 stop m3 start m4 where w: "write_tls_files c k m1 = (Inr (), m2)" "run [''postfix'', ''stop''] None m2 = (Inr stop, m3)"
      "run [''postfix'', ''start''] None m3 = (Inr start, m4)" and "m' = m4"
      using assms(2,3) by (auto simp: replace_tls_files_def andthen_eq[of read_tls_files m previous m1, OF r] andthen_Inr Let_def return_def flag split: if_splits)
    then show ?thesis using write_tls_files_Inr[OF w(1)] tool[of "''stop''" m2] tool[of "''start''" m3]
      by (simp add: tls_file_def)
  qed
qed

lemma install_success:
  assumes "tls_tools_local run" "staging \<noteq> TLS_DIR" "require_str payload ''cert_pem'' = Inr c" "require_str payload ''key_pem'' = Inr k"
    and "install_tls_certificate run staging payload m = (Inr resp, m')" "jbool ''success'' resp"
  shows "tls_file ''relay.crt'' m' = Some c \<and> tls_file ''relay.key'' m' = Some k"
proof -
  note flag = jbool_def truthy_def jget_def tls_response_def
  obtain m1 m2 where "replace_tls_files run c k m1 = (Inr resp, m2)" "m' = rmtree staging m2"
    using assms(5,6) unfolding install_tls_certificate_def Let_def assms(3,4) andthen_check
    by (auto simp: andthen_Inr within_Inr return_def flag split: if_splits)
  then show ?thesis using replace_success[OF assms(1) _ assms(6)] assms(2) by (auto simp: rmtree_def tls_file_def)
qed

section \<open>The relay as the issuing side sees it\<close>

text \<open>
  The laws: whatever becomes of a call, the certificate file holds the old or the sent certificate and the key
  file the old or the sent key; an answer of success means that both were sent.
\<close>

locale tls_relay =
  fixes install :: "'w installer"
    and live_cert :: "'w \<Rightarrow> bytes option"
    and live_key :: "'w \<Rightarrow> bytes option"
    and usable :: "'w \<Rightarrow> bool"
  assumes stays_usable: "usable w \<Longrightarrow> install c k w = (r, w') \<Longrightarrow> usable w'"
    and old_or_sent: "usable w \<Longrightarrow> install c k w = (r, w') \<Longrightarrow>
      live_cert w' \<in> {live_cert w, Some c} \<and> live_key w' \<in> {live_key w, Some k}"
    and installed: "usable w \<Longrightarrow> install c k w = (Inr a, w') \<Longrightarrow> ir_success a \<Longrightarrow> live_cert w' = Some c \<and> live_key w' = Some k"
begin

text \<open>A failed issuance leaves the record; a reported success has the recorded pair live.\<close>

lemma finish_success:
  assumes "usable w" "finish_issuance install env domain issued key uri d w = (Inr (result, d'), w')" "cr_success result"
  shows "\<exists>blob blob'. encrypt_secret (te_aead env) (te_keys env) (te_nonce1 env) (ic_key_pem issued) = Inr blob \<and>
    tls_state d' = Some (recorded_state env domain issued uri blob blob' (fst (get_tls_certificate_state d))) \<and>
    live_cert w' = Some (ic_cert_pem issued) \<and> live_key w' = Some (ic_key_pem issued)"
proof -
  obtain r where i: "install (ic_cert_pem issued) (ic_key_pem issued) w = (Inr r, w')" "ir_success r"
    using assms(2,3) by (auto simp: finish_issuance_def not_issued_def next_try_def split: prod.splits sum.splits if_splits)
  then show ?thesis using assms(2) installed[OF assms(1) i]
    by (auto simp: finish_issuance_def next_try_Inr record_issued_certificate_def get_background_job_state_def Let_def
        split: prod.splits)
qed

end

definition channel_cert :: "channel \<Rightarrow> bytes option" where
  "channel_cert c = tls_file ''relay.crt'' (ch_machine c)"

definition channel_key :: "channel \<Rightarrow> bytes option" where
  "channel_key c = tls_file ''relay.key'' (ch_machine c)"

definition tls_channel :: "channel \<Rightarrow> bool" where
  "tls_channel c \<longleftrightarrow> tls_tools_local (sf_run (ch_env c)) \<and> sf_staging1 (ch_env c) \<noteq> TLS_DIR"

lemma handle_install:
  "handle_request E (Some (JObj [(''op'', JStr ''install_tls_certificate''), (''cert_pem'', JStr c), (''key_pem'', JStr k)])) m =
     (case install_tls_certificate (sf_run E) (sf_staging1 E)
        [(''op'', JStr ''install_tls_certificate''), (''cert_pem'', JStr c), (''key_pem'', JStr k)] m of
        (Inl e, m') \<Rightarrow> (exn_response e, m') | (Inr r, m') \<Rightarrow> (r, m'))"
  by (simp add: handle_request_def handler_for_def jget_def)

lemma install_payload_strs:
  "require_str [(''op'', x), (''cert_pem'', JStr c), (''key_pem'', JStr k)] ''cert_pem'' = Inr c"
  "require_str [(''op'', x), (''cert_pem'', JStr c), (''key_pem'', JStr k)] ''key_pem'' = Inr k"
  by (simp_all add: require_str_def jget_def)

lemma exn_response_no_success: "\<not> truthy (jget ''ok'' (exn_response e))"
  by (cases e) (simp_all add: exn_response_def response_error_def truthy_def jget_def)

interpretation surface_tls: tls_relay ctl_install_tls_certificate channel_cert channel_key tls_channel
proof (unfold_locales, goal_cases)
  case (1 w c k r w')
  then show ?case
    by (auto simp: tls_channel_def ctl_install_tls_certificate_def ctl_call_def reading_def Let_def split: prod.splits fate.splits if_splits)
next
  case (2 w c k r w')
  let ?p = "[(''op'', JStr ''install_tls_certificate''), (''cert_pem'', JStr c), (''key_pem'', JStr k)]"
  have usable: "tls_tools_local (sf_run (ch_env w))" "sf_staging1 (ch_env w) \<noteq> TLS_DIR"
    using 2(1) by (simp_all add: tls_channel_def)
  obtain a m' where a: "install_tls_certificate (sf_run (ch_env w)) (sf_staging1 (ch_env w)) ?p (ch_machine w) = (a, m')"
    by (rule prod.exhaust)
  have "tls_between (channel_cert w) (channel_key w) c k (ch_machine w)" by (simp add: tls_between_def channel_cert_def channel_key_def)
  from keepsD[OF between_install[OF usable install_payload_strs[of "JStr ''install_tls_certificate''"]] this] have "tls_between (channel_cert w) (channel_key w) c k m'"
    by (simp add: a)
  moreover have "ch_machine w' \<in> {ch_machine w, m'}"
    using 2(2) unfolding ctl_install_tls_certificate_def ctl_call_def handle_install a
    by (cases a) (auto simp: reading_def Let_def split: prod.splits fate.splits if_splits)
  ultimately show ?case by (auto simp: tls_between_def channel_cert_def channel_key_def)
next
  case (3 w c k r w')
  let ?p = "[(''op'', JStr ''install_tls_certificate''), (''cert_pem'', JStr c), (''key_pem'', JStr k)]"
  have usable: "tls_tools_local (sf_run (ch_env w))" "sf_staging1 (ch_env w) \<noteq> TLS_DIR"
    using 3(1) by (simp_all add: tls_channel_def)
  obtain a m' where a: "install_tls_certificate (sf_run (ch_env w)) (sf_staging1 (ch_env w)) ?p (ch_machine w) = (a, m')"
    by (rule prod.exhaust)
  obtain resp where "a = Inr resp" "jbool ''success'' resp" "ch_machine w' = m'"
    using 3(2,3) unfolding ctl_install_tls_certificate_def ctl_call_def handle_install a
    by (cases a) (auto simp: reading_def Let_def exn_response_no_success split: fate.splits if_splits)
  then show ?case using install_success[OF usable install_payload_strs[of "JStr ''install_tls_certificate''"] a[unfolded \<open>a = Inr resp\<close>]]
    by (simp add: channel_cert_def channel_key_def)
qed

end
