(* ===== verification/Certificate_Safety.thy ===== *)
theory Certificate_Safety
  imports Tls_Settings Certificate_Install
begin

text \<open>
  The certificate over any run: settings changes, issuing by hand, the manual challenge and its confirmation,
  renewal ticks and starts of the application, with calls to the relay that fail or get lost.  What is recorded
  and what is live was issued for the recorded domain and key by an order of one of these operations.
\<close>

section \<open>What the tables hold\<close>

definition the_tls :: "db \<Rightarrow> tls_certificate_state" where
  "the_tls d = fst (get_tls_certificate_state d)"

lemma get_tls_eq: "get_tls_certificate_state d = (the_tls d, d\<lparr>tls_state := Some (the_tls d)\<rparr>)"
  by (cases "tls_state d") (simp_all add: get_tls_certificate_state_def the_tls_def get_or_create_singleton_def)

lemma the_tls_cong: "tls_state d' = tls_state d \<Longrightarrow> the_tls d' = the_tls d"
  by (simp add: the_tls_def get_tls_certificate_state_def get_or_create_singleton_def split: option.split)

lemma the_settings_cong: "settings_row d' = settings_row d \<Longrightarrow> the_settings d' = the_settings d"
  by (cases "settings_row d") simp_all

lemma the_tls_Some [simp]: "tls_state d = Some c \<Longrightarrow> the_tls d = c"
  by (simp add: the_tls_def get_tls_certificate_state_def get_or_create_singleton_def)

lemma the_tls_None [simp]: "tls_state d = None \<Longrightarrow> the_tls d = default_tls_state"
  by (simp add: the_tls_def get_tls_certificate_state_def get_or_create_singleton_def)

definition certified :: "acme_net set \<Rightarrow> pystr \<Rightarrow> pystr \<Rightarrow> pystr \<Rightarrow> bool" where
  "certified nets domain key_pem cert_pem \<longleftrightarrow> (\<exists>net\<in>nets. \<exists>net'\<in>nets. certifies net net' domain key_pem cert_pem)"

definition placed :: "acme_net \<Rightarrow> pystr \<Rightarrow> pystr \<Rightarrow> pystr \<Rightarrow> bool" where
  "placed net domain key_pem order_json \<longleftrightarrow>
     (\<exists>csr orderr. an_make_csr net key_pem domain = Inr csr \<and> an_new_order net csr = Inr orderr \<and>
        order_json = an_order_dumps net orderr)"

definition record_ok :: "acme_net set \<Rightarrow> aead \<Rightarrow> key_settings \<Rightarrow> tls_certificate_state \<Rightarrow> bool" where
  "record_ok nets A ks c \<longleftrightarrow>
     (\<forall>cert. tc_cert_pem c = Some cert \<longrightarrow>
        (\<exists>domain blob key. tc_domain c = Some domain \<and> tc_encrypted_key_pem c = Some blob \<and>
           decrypt_secret A ks blob = Inr key \<and> certified nets domain key cert))"

definition pending_ok :: "acme_net set \<Rightarrow> aead \<Rightarrow> key_settings \<Rightarrow> tls_pending_manual_challenge \<Rightarrow> bool" where
  "pending_ok nets A ks row \<longleftrightarrow>
     (\<exists>net\<in>nets. \<exists>key. decrypt_secret A ks (tp_encrypted_cert_key_pem row) = Inr key \<and>
        placed net (tp_domain row) key (tp_order_json row))"

definition tls_db_ok :: "acme_net set \<Rightarrow> aead \<Rightarrow> key_settings \<Rightarrow> db \<Rightarrow> bool" where
  "tls_db_ok nets A ks d \<longleftrightarrow> record_ok nets A ks (the_tls d) \<and> (\<forall>row. tls_pending d = Some row \<longrightarrow> pending_ok nets A ks row)"

definition live_ok :: "acme_net set \<Rightarrow> bytes option \<Rightarrow> bytes option \<Rightarrow> bytes option \<Rightarrow> bytes option \<Rightarrow> bool" where
  "live_ok nets cert0 key0 cert key \<longleftrightarrow>
     (cert = cert0 \<or> (\<exists>domain k c. cert = Some c \<and> certified nets domain k c)) \<and>
     (key = key0 \<or> (\<exists>domain k c. key = Some k \<and> certified nets domain k c))"

lemma tls_db_ok_cong:
  assumes "tls_state d' = tls_state d" "tls_pending d' = tls_pending d"
  shows "tls_db_ok nets A ks d' = tls_db_ok nets A ks d"
  using the_tls_cong[OF assms(1)] assms(2) by (simp add: tls_db_ok_def)

lemma tls_db_ok_read [simp]: "tls_db_ok nets A ks (d\<lparr>tls_state := Some (the_tls d)\<rparr>) = tls_db_ok nets A ks d"
  by (simp add: tls_db_ok_def)

lemma tls_db_ok_clear: "tls_db_ok nets A ks d \<Longrightarrow> tls_db_ok nets A ks (clear_tls_pending_manual_challenge d)"
  by (simp add: tls_db_ok_def clear_tls_pending_manual_challenge_def the_tls_cong[of "d\<lparr>tls_pending := None\<rparr>" d])

lemma begin_placed:
  "begin_order net url domain contact key uri = Inr p \<Longrightarrow>
   placed net (po_domain p) (po_cert_key_pem p) (po_order_json p) \<and> po_domain p = domain"
  by (auto simp: begin_order_def next_try_Inr unless_raised_Inr Let_def placed_def)

lemma placed_certifies:
  "placed net (po_domain p) (po_cert_key_pem p) (po_order_json p) \<Longrightarrow> finalize_order net' p = Inr (issued, k, u) \<Longrightarrow>
   certifies net net' (po_domain p) (ic_key_pem issued) (ic_cert_pem issued)"
  by (fastforce simp: finalize_order_def next_try_Inr unless_raised_Inr placed_def certifies_def)

section \<open>The operations\<close>

text \<open>The environment of an operation in a run: a Let's Encrypt issuer, the configured key, fresh nonces.\<close>

definition env_ok :: "acme_net set \<Rightarrow> aead \<Rightarrow> key_settings \<Rightarrow> tls_env \<Rightarrow> bool" where
  "env_ok nets A ks env \<longleftrightarrow> (\<exists>net\<in>nets. \<exists>url. te_issuer env = lets_encrypt_issuer net url) \<and> te_aead env = A \<and>
     te_keys env = ks \<and> aead_ok A \<and> length (te_nonce1 env) = NONCE_SIZE \<and> length (te_nonce2 env) = NONCE_SIZE"

lemma env_issue:
  assumes "env_ok nets A ks env" "ai_issue (te_issuer env) domain contact key uri provider = Inr (issued, k, u)"
  shows "certified nets domain (ic_key_pem issued) (ic_cert_pem issued)"
proof -
  obtain net url where n: "net \<in> nets" "te_issuer env = lets_encrypt_issuer net url" using assms(1) by (auto simp: env_ok_def)
  obtain effects where "issue net url domain contact key uri provider = (Inr (issued, k, u), effects)"
    using assms(2) n(2) by (cases "issue net url domain contact key uri provider") (simp add: lets_encrypt_issuer_def)
  from issue_certifies[OF this] n(1) show ?thesis by (auto simp: certified_def)
qed

lemma env_finalize:
  assumes "env_ok nets A ks env" "pending_ok nets A ks row" "decrypt_secret A ks (tp_encrypted_cert_key_pem row) = Inr key"
    and "ai_finalize_order (te_issuer env) (pending_order row key account_key) = Inr (issued, k, u)"
  shows "certified nets (tp_domain row) (ic_key_pem issued) (ic_cert_pem issued)"
proof -
  obtain net' url where n: "net' \<in> nets" "te_issuer env = lets_encrypt_issuer net' url" using assms(1) by (auto simp: env_ok_def)
  obtain net where p: "net \<in> nets" "placed net (tp_domain row) key (tp_order_json row)"
    using assms(2,3) by (auto simp: pending_ok_def)
  let ?p = "pending_order row key account_key"
  have "placed net (po_domain ?p) (po_cert_key_pem ?p) (po_order_json ?p)" using p(2) by (simp add: pending_order_def)
  moreover have "finalize_order net' ?p = Inr (issued, k, u)" using assms(4) n(2) by (simp add: lets_encrypt_issuer_def)
  ultimately have "certifies net net' (po_domain ?p) (ic_key_pem issued) (ic_cert_pem issued)" by (rule placed_certifies)
  then show ?thesis using n(1) p(1) by (auto simp: certified_def pending_order_def)
qed

text \<open>What no operation of issuing touches: the settings and the time of the last check.\<close>

definition last_checked :: "db \<Rightarrow> datetime option" where
  "last_checked d = bj_cert_renewal_last_checked_at (the_jobs d)"

definition issuing_frame :: "db \<Rightarrow> db \<Rightarrow> bool" where
  "issuing_frame d d' \<longleftrightarrow> the_settings d' = the_settings d \<and> last_checked d' = last_checked d"

lemma record_effect:
  assumes "record_issued_certificate env domain issued key uri d = Inr d'"
  shows "\<exists>blob blob'. encrypt_secret (te_aead env) (te_keys env) (te_nonce1 env) (ic_key_pem issued) = Inr blob \<and>
    d' = d\<lparr>tls_state := Some (recorded_state env domain issued uri blob blob' (the_tls d))\<rparr>"
  using assms by (auto simp: record_issued_certificate_def get_tls_eq next_try_Inr)

lemma finish_effect:
  assumes "finish_issuance install env domain issued key uri d w = (x, w')"
  shows "(\<exists>r. install (ic_cert_pem issued) (ic_key_pem issued) w = (r, w')) \<and>
    (\<forall>result d'. x = Inr (result, d') \<longrightarrow> issuing_frame d d' \<and> tls_pending d' = tls_pending d \<and>
       (the_tls d' = the_tls d \<or>
        (\<exists>blob blob'. encrypt_secret (te_aead env) (te_keys env) (te_nonce1 env) (ic_key_pem issued) = Inr blob \<and>
           the_tls d' = recorded_state env domain issued uri blob blob' (the_tls d))))"
proof -
  have called: "\<exists>r. install (ic_cert_pem issued) (ic_key_pem issued) w = (r, w')"
    using assms by (auto simp: finish_issuance_def split: prod.splits sum.splits if_splits)
  have "issuing_frame d d' \<and> tls_pending d' = tls_pending d \<and> (the_tls d' = the_tls d \<or>
        (\<exists>blob blob'. encrypt_secret (te_aead env) (te_keys env) (te_nonce1 env) (ic_key_pem issued) = Inr blob \<and>
           the_tls d' = recorded_state env domain issued uri blob blob' (the_tls d)))"
    if x: "x = Inr (result, d')" for result d'
  proof (cases "d' = d")
    case True
    then show ?thesis by (simp add: issuing_frame_def)
  next
    case False
    then obtain d1 where r: "record_issued_certificate env domain issued key uri d = Inr d1" and
      d': "d' = d1 \<or> d' = d1\<lparr>job_state := Some ((the_jobs d1)\<lparr>bj_cert_last_renewal_error := None\<rparr>)\<rparr>"
      using assms x by (auto simp: finish_issuance_def next_try_Inr get_background_job_state_eq Let_def not_issued_def
          split: prod.splits sum.splits if_splits)
    from record_effect[OF r] obtain blob blob' where
      "encrypt_secret (te_aead env) (te_keys env) (te_nonce1 env) (ic_key_pem issued) = Inr blob"
      "d1 = d\<lparr>tls_state := Some (recorded_state env domain issued uri blob blob' (the_tls d))\<rparr>" by blast
    moreover from this d' have "settings_row d' = settings_row d" "tls_pending d' = tls_pending d" "tls_state d' = tls_state d1"
      "last_checked d' = last_checked d1" "job_state d1 = job_state d" by (auto simp: last_checked_def)
    moreover from this have "last_checked d1 = last_checked d" using the_jobs_cong[of d1 d] by (simp add: last_checked_def)
    ultimately show ?thesis
      using the_settings_cong[of d' d] the_tls_cong[of d' d1] by (auto simp: issuing_frame_def)
  qed
  then show ?thesis using called by blast
qed

text \<open>The ways through \<open>issue_or_renew\<close>: nothing is issued, or a certificate of the issuer is handed on.\<close>

lemma issue_or_renew_cases:
  assumes "issue_or_renew install env d0 w = (x, w')" and d: "d = d0\<lparr>settings_row := Some (the_settings d0)\<rparr>"
    and d1: "d1 = d\<lparr>tls_state := Some (the_tls d)\<rparr>"
  obtains (quiet) "w' = w" "\<forall>result d'. x = Inr (result, d') \<longrightarrow> d' = d \<or> d' = d1"
    | (issued) domain contact account_key uri provider issued k u where
      "ai_issue (te_issuer env) domain contact account_key uri provider = Inr (issued, k, u)"
      "finish_issuance install env domain issued k u d1 w = (x, w')"
proof -
  let ?s = "the_settings d0"
  note body = assms(1)[unfolded issue_or_renew_def get_relay_settings_eq Let_def prod.case get_tls_eq, folded d, folded d1]
  show ?thesis
  proof (cases "\<not> rs_tls_acme_enabled ?s \<or> blank (rs_tls_domain ?s) \<or> rs_tls_dns_provider ?s = ''manual'' \<or>
      rs_tls_cloudflare_api_token_encrypted ?s = None")
    case True
    then have "w' = w \<and> (\<exists>r. x = Inr (r, d))" using body by (auto split: if_splits)
    then show ?thesis using quiet by auto
  next
    case False
    then obtain blob where blob: "rs_tls_cloudflare_api_token_encrypted ?s = Some blob" by blast
    show ?thesis
    proof (cases "decrypt_secret (te_aead env) (te_keys env) blob")
      case (Inl e)
      then have "w' = w \<and> (\<forall>result d'. x = Inr (result, d') \<longrightarrow> d' = d)"
        using body False blob by (cases e) (auto split: if_splits)
      then show ?thesis using quiet by blast
    next
      case (Inr token)
      let ?provider = "build_dns_provider env (rs_tls_dns_provider ?s) token (rs_tls_cloudflare_zone_id ?s)"
      note body2 = body[unfolded blob option.case Inr sum.case]
      show ?thesis
      proof (cases "?provider = None \<or> isl (stored_account_key env (the_tls d))")
        case True
        then have "w' = w \<and> (\<forall>result d'. x = Inr (result, d') \<longrightarrow> d' = d)"
          using body2 False by (cases ?provider; cases "stored_account_key env (the_tls d)") auto
        then show ?thesis using quiet by blast
      next
        case ready: False
        then obtain provider key where k: "?provider = Some provider" "stored_account_key env (the_tls d) = Inr key"
          by (cases "stored_account_key env (the_tls d)") auto
        note body3 = body2[unfolded k option.case sum.case]
        show ?thesis
        proof (cases "ai_issue (te_issuer env) (the (rs_tls_domain ?s)) (rs_tls_contact_email ?s) key (tc_acme_account_uri (the_tls d)) provider")
          case Inl
          then have "w' = w \<and> (\<exists>r. x = Inr (r, d1))" using body3 False by auto
          then show ?thesis using quiet by auto
        next
          case (Inr c)
          then show ?thesis using body3 False issued by (cases c) auto
        qed
      qed
    qed
  qed
qed

context tls_relay
begin

definition world_ok :: "acme_net set \<Rightarrow> bytes option \<Rightarrow> bytes option \<Rightarrow> 'w \<Rightarrow> bool" where
  "world_ok nets cert0 key0 w \<longleftrightarrow> usable w \<and> live_ok nets cert0 key0 (live_cert w) (live_key w)"

lemma install_world:
  assumes "world_ok nets cert0 key0 w" "certified nets domain k c" "install c k w = (r, w')"
  shows "world_ok nets cert0 key0 w'"
  using stays_usable[of w c k r w'] old_or_sent[of w c k r w'] assms
  by (auto simp: world_ok_def live_ok_def)

lemma finish_ok:
  assumes env: "env_ok nets A ks env" and c: "certified nets domain (ic_key_pem issued) (ic_cert_pem issued)"
    and ok: "world_ok nets cert0 key0 w" "tls_db_ok nets A ks d"
    and f: "finish_issuance install env domain issued key uri d w = (x, w')"
  shows "world_ok nets cert0 key0 w' \<and> (\<forall>result d'. x = Inr (result, d') \<longrightarrow> tls_db_ok nets A ks d' \<and> issuing_frame d d')"
proof -
  note e = finish_effect[OF f]
  obtain r where "install (ic_cert_pem issued) (ic_key_pem issued) w = (r, w')" using e by blast
  then have "world_ok nets cert0 key0 w'" by (rule install_world[OF ok(1) c])
  moreover have "tls_db_ok nets A ks d'" if x: "x = Inr (result, d')" for result d'
  proof -
    have pend: "tls_pending d' = tls_pending d" using e x by blast
    consider "the_tls d' = the_tls d" | blob blob' where
      "encrypt_secret (te_aead env) (te_keys env) (te_nonce1 env) (ic_key_pem issued) = Inr blob"
      "the_tls d' = recorded_state env domain issued uri blob blob' (the_tls d)" using e x by blast
    then show ?thesis
    proof cases
      case 2
      have "decrypt_secret A ks blob = Inr (ic_key_pem issued)"
        using env 2(1) decrypt_encrypted by (auto simp: env_ok_def)
      then show ?thesis using 2(2) c ok(2) pend by (simp add: tls_db_ok_def record_ok_def recorded_state_def)
    qed (use ok(2) pend in \<open>simp add: tls_db_ok_def\<close>)
  qed
  ultimately show ?thesis using e by blast
qed

lemma issue_ok:
  assumes env: "env_ok nets A ks env" and ok: "world_ok nets cert0 key0 w" "tls_db_ok nets A ks d"
    and i: "issue_or_renew install env d w = (x, w')"
  shows "world_ok nets cert0 key0 w' \<and> (\<forall>result d'. x = Inr (result, d') \<longrightarrow> tls_db_ok nets A ks d' \<and> issuing_frame d d')"
proof -
  define d1 where "d1 = d\<lparr>settings_row := Some (the_settings d)\<rparr>"
  define d2 where "d2 = d1\<lparr>tls_state := Some (the_tls d1)\<rparr>"
  have db: "tls_db_ok nets A ks d1" "tls_db_ok nets A ks d2"
    using ok(2) tls_db_ok_cong[of d1 d] by (simp_all add: d1_def d2_def)
  have frame: "issuing_frame d d1" "issuing_frame d d2"
    using the_jobs_cong[of d1 d] the_jobs_cong[of d2 d] by (simp_all add: issuing_frame_def last_checked_def d1_def d2_def)
  from i d1_def d2_def show ?thesis
  proof (cases rule: issue_or_renew_cases)
    case quiet
    then show ?thesis using ok(1) db frame by blast
  next
    case (issued domain contact account_key uri provider issued k u)
    have "certified nets domain (ic_key_pem issued) (ic_cert_pem issued)" by (rule env_issue[OF env issued(1)])
    from finish_ok[OF env this ok(1) db(2) issued(2)] show ?thesis
      using frame(2) by (auto simp: issuing_frame_def)
  qed
qed

end

section \<open>The manual challenge\<close>

lemma case_sum_eq: "case_sum f g r = z \<longleftrightarrow> (\<exists>e. r = Inl e \<and> f e = z) \<or> (\<exists>y. r = Inr y \<and> g y = z)"
  by (cases r) simp_all

lemma begin_manual_ok:
  assumes env: "env_ok nets A ks env" and ok: "tls_db_ok nets A ks d" and b: "begin_manual_dns_challenge env d = Inr (result, d')"
  shows "tls_db_ok nets A ks d' \<and> issuing_frame d d'"
proof -
  define d1 where "d1 = d\<lparr>settings_row := Some (the_settings d)\<rparr>"
  define d2 where "d2 = d1\<lparr>tls_state := Some (the_tls d1)\<rparr>"
  have db: "tls_db_ok nets A ks d1" "tls_db_ok nets A ks d2"
    using ok tls_db_ok_cong[of d1 d] by (simp_all add: d1_def d2_def)
  have frame: "issuing_frame d d1" "issuing_frame d d2"
    using the_jobs_cong[of d1 d] the_jobs_cong[of d2 d] by (simp_all add: issuing_frame_def last_checked_def d1_def d2_def)
  note body = b[unfolded begin_manual_dns_challenge_def get_relay_settings_eq Let_def prod.case, folded d1_def, unfolded get_tls_eq prod.case,
      folded d2_def]
  show ?thesis
  proof (cases "d' = d1 \<or> d' = d2")
    case True
    then show ?thesis using db frame by blast
  next
    case False
    let ?domain = "the (rs_tls_domain (the_settings d))"
    obtain key pending cert_blob account_blob where p:
      "ai_begin_order (te_issuer env) ?domain (rs_tls_contact_email (the_settings d)) key (tc_acme_account_uri (the_tls d1)) = Inr pending"
      "encrypt_secret (te_aead env) (te_keys env) (te_nonce1 env) (po_cert_key_pem pending) = Inr cert_blob"
      "d' = upsert_tls_pending_manual_challenge d2 (pending_row pending (rs_tls_contact_email (the_settings d)) cert_blob account_blob (te_now env))"
      using body False by (auto simp: next_try_Inr case_sum_eq split: if_splits)
    obtain net url where n: "net \<in> nets" "te_issuer env = lets_encrypt_issuer net url" using env by (auto simp: env_ok_def)
    have "begin_order net url ?domain (rs_tls_contact_email (the_settings d)) key (tc_acme_account_uri (the_tls d1)) = Inr pending"
      using p(1) n(2) by (simp add: lets_encrypt_issuer_def)
    then have "placed net (po_domain pending) (po_cert_key_pem pending) (po_order_json pending)"
      using begin_placed by blast
    moreover have "decrypt_secret A ks cert_blob = Inr (po_cert_key_pem pending)"
      using env p(2) decrypt_encrypted by (auto simp: env_ok_def)
    ultimately have "pending_ok nets A ks (pending_row pending c cert_blob account_blob now)" for c now
      using n(1) by (auto simp: pending_ok_def pending_row_def)
    then have "tls_db_ok nets A ks d'"
      using db(2) p(3) the_tls_cong[of d' d2] by (simp add: tls_db_ok_def upsert_tls_pending_manual_challenge_def)
    moreover have "issuing_frame d d'"
      using frame(2) p(3) the_settings_cong[of d' d2] the_jobs_cong[of d' d2]
      by (simp add: issuing_frame_def last_checked_def upsert_tls_pending_manual_challenge_def)
    ultimately show ?thesis by blast
  qed
qed

lemma clear_frame: "issuing_frame d d' \<Longrightarrow> issuing_frame d (clear_tls_pending_manual_challenge d')"
  using the_settings_cong[of "clear_tls_pending_manual_challenge d'" d'] the_jobs_cong[of "clear_tls_pending_manual_challenge d'" d']
  by (simp add: issuing_frame_def last_checked_def clear_tls_pending_manual_challenge_def)

text \<open>The ways through \<open>finalize_manual_dns_challenge\<close>.\<close>

lemma finalize_manual_cases:
  assumes "finalize_manual_dns_challenge install env d0 w = (x, w')" and d: "d = d0\<lparr>settings_row := Some (the_settings d0)\<rparr>"
  obtains (quiet) "w' = w" "\<forall>result d'. x = Inr (result, d') \<longrightarrow> \<not> cr_success result \<and> d' \<in> {d0, clear_tls_pending_manual_challenge d0, d, clear_tls_pending_manual_challenge d}"
    | (issued) row cert_key account_key issued k u y where "tls_pending d0 = Some row"
      "rs_tls_domain (the_settings d0) = Some (tp_domain row)"
      "decrypt_secret (te_aead env) (te_keys env) (tp_encrypted_cert_key_pem row) = Inr cert_key"
      "ai_finalize_order (te_issuer env) (pending_order row cert_key account_key) = Inr (issued, k, u)"
      "finish_issuance install env (tp_domain row) issued k u d w = (y, w')"
      "x = map_sum id (\<lambda>(result, d'). (result, clear_tls_pending_manual_challenge d')) y"
proof (cases "tls_pending d0")
  case None
  then have "w' = w \<and> (\<forall>result d'. x = Inr (result, d') \<longrightarrow> \<not> cr_success result \<and> d' = d0)"
    using assms(1) by (auto simp: not_issued_def finalize_manual_dns_challenge_def get_tls_pending_manual_challenge_def)
  then show ?thesis using quiet by blast
next
  case (Some row)
  let ?s = "the_settings d0"
  note body = assms(1)[unfolded finalize_manual_dns_challenge_def get_tls_pending_manual_challenge_def Some option.case
      get_relay_settings_eq Let_def prod.case, folded d]
  let ?keys = "next_try (decrypt_secret (te_aead env) (te_keys env) (tp_encrypted_cert_key_pem row)) (\<lambda>cert_key.
      next_try (decrypt_secret (te_aead env) (te_keys env) (tp_encrypted_account_key_pem row)) (\<lambda>account_key. Inr (cert_key, account_key)))"
  show ?thesis
  proof (cases "tp_expires_at row \<le> te_now env \<or> Some (tp_domain row) \<noteq> rs_tls_domain ?s \<or>
      \<not> dp_wait (manual_provider (te_dns env) MANUAL_CONFIRM_TIMEOUT) (tp_record_name row) (tp_record_value row)")
    case True
    then have "w' = w \<and> (\<forall>result d'. x = Inr (result, d') \<longrightarrow> \<not> cr_success result \<and>
        d' \<in> {clear_tls_pending_manual_challenge d0, d, clear_tls_pending_manual_challenge d})"
      using body by (auto simp: not_issued_def split: if_splits)
    then show ?thesis using quiet by blast
  next
    case False
    then have body2: "(case ?keys of
          Inl UnicodeDecodeError \<Rightarrow> (Inl UnicodeDecodeError, w)
        | Inl e \<Rightarrow> (Inr (not_issued (secret_text e), d), w)
        | Inr (cert_key, account_key) \<Rightarrow>
            (case ai_finalize_order (te_issuer env) (pending_order row cert_key account_key) of
               Inl exc \<Rightarrow> (Inr (not_issued (acme_exn_text exc), clear_tls_pending_manual_challenge d), w)
             | Inr (issued, key, uri) \<Rightarrow>
                 (case finish_issuance install env (tp_domain row) issued key uri d w of
                    (Inl e, w') \<Rightarrow> (Inl e, w')
                  | (Inr (result, d'), w') \<Rightarrow> (Inr (result, clear_tls_pending_manual_challenge d'), w')))) = (x, w')"
      using body by simp
    show ?thesis
    proof (cases ?keys)
      case (Inl e)
      then have "w' = w \<and> (\<forall>result d'. x = Inr (result, d') \<longrightarrow> \<not> cr_success result \<and> d' = d)"
        using body2 by (cases e) (auto simp: not_issued_def)
      then show ?thesis using quiet by blast
    next
      case (Inr keys)
      obtain cert_key account_key where keys: "keys = (cert_key, account_key)" by (rule prod.exhaust)
      have cert_key: "decrypt_secret (te_aead env) (te_keys env) (tp_encrypted_cert_key_pem row) = Inr cert_key"
        using Inr by (auto simp: keys next_try_Inr)
      note body3 = body2[unfolded Inr keys sum.case prod.case]
      show ?thesis
      proof (cases "ai_finalize_order (te_issuer env) (pending_order row cert_key account_key)")
        case (Inl e)
        then have "w' = w \<and> (\<forall>result d'. x = Inr (result, d') \<longrightarrow> \<not> cr_success result \<and> d' = clear_tls_pending_manual_challenge d)"
          using body3 by (auto simp: not_issued_def)
        then show ?thesis using quiet by blast
      next
        case (Inr c)
        obtain issued k u where c: "c = (issued, k, u)" by (rule prod_cases3)
        obtain y w1 where y: "finish_issuance install env (tp_domain row) issued k u d w = (y, w1)" by (rule prod.exhaust)
        have "w' = w1 \<and> x = map_sum id (\<lambda>(result, d'). (result, clear_tls_pending_manual_challenge d')) y"
          using body3 by (cases y) (auto simp: Inr c y)
        moreover have "rs_tls_domain ?s = Some (tp_domain row)" using False by simp
        ultimately show ?thesis using issued[OF Some _ cert_key Inr[unfolded c]] y by blast
      qed
    qed
  qed
qed

section \<open>Runs\<close>

text \<open>
  What happens to certificate and relay: the routes, the tick, a start of the application, and any other work that
  leaves the two TLS tables and the two live files alone.
\<close>

datatype 'w tls_event =
    Settings_change admin_request tls_settings_update
  | Issue_by_hand admin_request tls_env
  | Start_challenge admin_request tls_env
  | Confirm_challenge admin_request tls_env
  | Renewal_check cert_tick
  | App_start
  | Other_work "db \<Rightarrow> db" "'w \<Rightarrow> 'w"

fun tls_step :: "'w installer \<Rightarrow> aead \<Rightarrow> key_settings \<Rightarrow> 'w tls_event \<Rightarrow> db \<times> 'w \<Rightarrow> db \<times> 'w" where
  "tls_step install A ks (Settings_change rq p) (d, w) = (snd (update_tls_settings A ks rq p d), w)"
| "tls_step install A ks (Issue_by_hand rq env) (d, w) = snd (issue_now install env rq d w)"
| "tls_step install A ks (Start_challenge rq env) (d, w) = (snd (start_manual_dns_challenge env rq d), w)"
| "tls_step install A ks (Confirm_challenge rq env) (d, w) = snd (confirm_manual_dns_challenge install env rq d w)"
| "tls_step install A ks (Renewal_check tk) (d, w) = (case cert_renewal_tick install tk d w of (d', w', _) \<Rightarrow> (d', w'))"
| "tls_step install A ks App_start (d, w) = (d, snd (sync_certificate_to_postfix install A ks d w))"
| "tls_step install A ks (Other_work f g) (d, w) = (f d, g w)"

fun tls_run :: "'w installer \<Rightarrow> aead \<Rightarrow> key_settings \<Rightarrow> 'w tls_event list \<Rightarrow> db \<times> 'w \<Rightarrow> db \<times> 'w" where
  "tls_run install A ks [] s = s"
| "tls_run install A ks (ev # evs) s = tls_run install A ks evs (tls_step install A ks ev s)"

lemma sync_effect:
  assumes "sync_certificate_to_postfix install A ks d w = (e, w')"
  shows "w' = w \<or> (\<exists>cert blob key r. tc_cert_pem (the_tls d) = Some cert \<and> tc_encrypted_key_pem (the_tls d) = Some blob \<and>
    decrypt_secret A ks blob = Inr key \<and> install cert key w = (r, w'))"
  using assms
  by (cases "install (the (tc_cert_pem (the_tls d))) (projr (decrypt_secret A ks (the (tc_encrypted_key_pem (the_tls d))))) w")
     (auto simp: sync_certificate_to_postfix_def get_tls_eq split: option.splits sum.splits secret_error.splits)

text \<open>A tick that passes its gate: it has brought the relay up to date, and has issued or not.\<close>

lemma renewal_tick_cases:
  assumes t: "cert_renewal_tick install tk d0 w = (d', w', ordered)"
  obtains (idle) e where "d' = d0" "\<not> ordered" "w' = w \<or> sync_certificate_to_postfix install (te_aead (ct_env tk)) (te_keys (ct_env tk)) d0 w = (e, w')"
    | (fresh) e where "sync_certificate_to_postfix install (te_aead (ct_env tk)) (te_keys (ct_env tk)) d0 w = (e, w')" "\<not> ordered"
        "the_tls d' = the_tls d0" "tls_pending d' = tls_pending d0" "last_checked d' = Some (ct_checked_at tk)"
        "\<forall>t. last_checked d0 = Some t \<longrightarrow> RENEWAL_CHECK_INTERVAL \<le> ct_started tk - t"
    | (order) e w1 d4 x where "sync_certificate_to_postfix install (te_aead (ct_env tk)) (te_keys (ct_env tk)) d0 w = (e, w1)" "ordered"
        "the_tls d4 = the_tls d0" "tls_pending d4 = tls_pending d0" "last_checked d4 = Some (ct_checked_at tk)"
        "issue_or_renew install (ct_env tk) d4 w1 = (x, w')"
        "\<forall>t. last_checked d0 = Some t \<longrightarrow> RENEWAL_CHECK_INTERVAL \<le> ct_started tk - t"
        "d' = d4 \<or> (\<exists>result d5. x = Inr (result, d5) \<and> tls_state d' = tls_state d5 \<and> tls_pending d' = tls_pending d5 \<and>
           last_checked d' = last_checked d5)"
proof -
  define d1 where "d1 = d0\<lparr>settings_row := Some (the_settings d0)\<rparr>"
  define d2 where "d2 = d1\<lparr>job_state := Some (the_jobs d1)\<rparr>"
  define d3 where "d3 = d2\<lparr>tls_state := Some (the_tls d2)\<rparr>"
  have same: "the_jobs d1 = the_jobs d0" "the_tls d2 = the_tls d0" "the_tls d3 = the_tls d0" "tls_pending d3 = tls_pending d0"
    using the_jobs_cong[of d1 d0] the_tls_cong[of d2 d0] by (simp_all add: d1_def d2_def d3_def)
  have sync: "sync_certificate_to_postfix install A ks d2 w = sync_certificate_to_postfix install A ks d0 w" for A ks
    unfolding sync_certificate_to_postfix_def get_tls_eq prod.case Let_def same(2) ..
  note body = t[unfolded cert_renewal_tick_def get_relay_settings_eq Let_def prod.case, folded d1_def,
      unfolded get_background_job_state_eq prod.case, folded d2_def, unfolded sync get_tls_eq prod.case, folded d3_def,
      unfolded same(1)]
  let ?checked = "(the_jobs d0)\<lparr>bj_cert_renewal_last_checked_at := Some (ct_checked_at tk)\<rparr>"
  show ?thesis
  proof (cases "rs_tls_acme_enabled (the_settings d0) \<and> \<not> (case last_checked d0 of None \<Rightarrow> False
      | Some t \<Rightarrow> ct_started tk - t < RENEWAL_CHECK_INTERVAL)")
    case False
    then have "d' = d0 \<and> \<not> ordered \<and> w' = w" using body by (auto simp: last_checked_def split: if_splits)
    then show ?thesis using idle by blast
  next
    case True
    then have gate: "\<forall>t. last_checked d0 = Some t \<longrightarrow> RENEWAL_CHECK_INTERVAL \<le> ct_started tk - t"
      by (auto split: option.splits)
    obtain e w1 where s: "sync_certificate_to_postfix install (te_aead (ct_env tk)) (te_keys (ct_env tk)) d0 w = (e, w1)"
      by (rule prod.exhaust)
    show ?thesis
    proof (cases e)
      case (Some err)
      then have "d' = d0 \<and> \<not> ordered \<and> w' = w1" using body True s by (auto simp: last_checked_def)
      then show ?thesis using idle s by blast
    next
      case None
      note body2 = body[unfolded s prod.case None option.case]
      show ?thesis
      proof (cases "certificate_due (ct_due_at tk) (the_tls d2)")
        case False
        then have "d' = d3\<lparr>job_state := Some ?checked\<rparr> \<and> \<not> ordered \<and> w' = w1"
          using body2 True by (auto simp: last_checked_def)
        then have "tls_state d' = tls_state d3" "tls_pending d' = tls_pending d3" "last_checked d' = Some (ct_checked_at tk)" "\<not> ordered" "w' = w1"
          by (simp_all add: last_checked_def)
        then show ?thesis using fresh s gate same(3,4) the_tls_cong[of d' d3] by metis
      next
        case due: True
        define d4 where "d4 = d3\<lparr>job_state := Some (?checked\<lparr>bj_cert_last_renewal_attempt_at := Some (ct_attempt_at tk)\<rparr>)\<rparr>"
        have d4: "the_tls d4 = the_tls d0" "tls_pending d4 = tls_pending d0" "last_checked d4 = Some (ct_checked_at tk)"
          using same the_tls_cong[of d4 d3] by (simp_all add: d4_def last_checked_def)
        obtain x w2 where i: "issue_or_renew install (ct_env tk) d4 w1 = (x, w2)" by (rule prod.exhaust)
        have gate': "\<not> (case bj_cert_renewal_last_checked_at (the_jobs d0) of None \<Rightarrow> False
            | Some t \<Rightarrow> ct_started tk - t < RENEWAL_CHECK_INTERVAL)" "rs_tls_acme_enabled (the_settings d0)"
          using True by (simp_all add: last_checked_def)
        note body3 = body2[folded d4_def, unfolded i prod.case]
        have eff: "ordered \<and> w' = w2 \<and> (d' = d4 \<or> (\<exists>result d5. x = Inr (result, d5) \<and> tls_state d' = tls_state d5 \<and>
            tls_pending d' = tls_pending d5 \<and> last_checked d' = last_checked d5))"
        proof (cases x)
          case (Inl err)
          then show ?thesis using body3 gate' due by simp
        next
          case (Inr rd)
          obtain result d5 where rd: "rd = (result, d5)" by (rule prod.exhaust)
          let ?job = "\<lambda>err. d5\<lparr>job_state := Some ((the_jobs d5)\<lparr>bj_cert_last_renewal_error := err\<rparr>)\<rparr>"
          have "ordered \<and> w' = w2 \<and> (\<exists>err action detail. d' = audit_tick tk action detail (?job err))"
            using body3 gate' due by (cases "cr_success result") (auto simp: Inr rd)
          then show ?thesis using Inr rd
            by (auto simp: audit_tick_def last_checked_def the_jobs_simps(1))
        qed
        then show ?thesis using order[OF s _ d4] i gate by blast
      qed
    qed
  qed
qed

lemma update_settings_tables:
  "tls_state (snd (update_tls_settings A ks rq p d)) = tls_state d \<and> tls_pending (snd (update_tls_settings A ks rq p d)) = tls_pending d"
  by (simp add: update_tls_settings_def get_relay_settings_eq Let_def audit_admin_def split: sum.split)

lemma audit_action_tables [simp]:
  "tls_state (audit_action rq a x d) = tls_state d" "tls_pending (audit_action rq a x d) = tls_pending d"
  "settings_row (audit_action rq a x d) = settings_row d" "job_state (audit_action rq a x d) = job_state d"
  by (simp_all add: audit_action_def)

context tls_relay
begin

definition event_ok :: "acme_net set \<Rightarrow> aead \<Rightarrow> key_settings \<Rightarrow> 'w tls_event \<Rightarrow> bool" where
  "event_ok nets A ks ev \<longleftrightarrow>
     (case ev of
        Settings_change rq p \<Rightarrow> True
      | Issue_by_hand rq env \<Rightarrow> env_ok nets A ks env
      | Start_challenge rq env \<Rightarrow> env_ok nets A ks env
      | Confirm_challenge rq env \<Rightarrow> env_ok nets A ks env
      | Renewal_check tk \<Rightarrow> env_ok nets A ks (ct_env tk)
      | App_start \<Rightarrow> True
      | Other_work f g \<Rightarrow> (\<forall>d. tls_state (f d) = tls_state d \<and> tls_pending (f d) = tls_pending d) \<and>
          (\<forall>w. live_cert (g w) = live_cert w \<and> live_key (g w) = live_key w \<and> (usable w \<longrightarrow> usable (g w))))"

definition tls_inv :: "acme_net set \<Rightarrow> aead \<Rightarrow> key_settings \<Rightarrow> bytes option \<Rightarrow> bytes option \<Rightarrow> db \<times> 'w \<Rightarrow> bool" where
  "tls_inv nets A ks cert0 key0 s \<longleftrightarrow> tls_db_ok nets A ks (fst s) \<and> world_ok nets cert0 key0 (snd s)"

lemma sync_ok:
  assumes "world_ok nets cert0 key0 w" "tls_db_ok nets A ks d" "sync_certificate_to_postfix install A ks d w = (e, w')"
  shows "world_ok nets cert0 key0 w'"
proof (cases "w' = w")
  case False
  then obtain cert blob key r where s: "tc_cert_pem (the_tls d) = Some cert" "tc_encrypted_key_pem (the_tls d) = Some blob"
    "decrypt_secret A ks blob = Inr key" "install cert key w = (r, w')" using sync_effect[OF assms(3)] by blast
  then obtain domain where "certified nets domain key cert" using assms(2) by (auto simp: tls_db_ok_def record_ok_def)
  from install_world[OF assms(1) this s(4)] show ?thesis .
qed (use assms(1) in simp)

lemma finalize_manual_ok:
  assumes env: "env_ok nets A ks env" and ok: "world_ok nets cert0 key0 w" "tls_db_ok nets A ks d"
    and f: "finalize_manual_dns_challenge install env d w = (x, w')"
  shows "world_ok nets cert0 key0 w' \<and> (\<forall>result d'. x = Inr (result, d') \<longrightarrow> tls_db_ok nets A ks d')"
proof -
  define d1 where "d1 = d\<lparr>settings_row := Some (the_settings d)\<rparr>"
  have db: "tls_db_ok nets A ks d1" using ok(2) tls_db_ok_cong[of d1 d] by (simp add: d1_def)
  from f d1_def show ?thesis
  proof (cases rule: finalize_manual_cases)
    case quiet
    then show ?thesis using ok db tls_db_ok_clear by fast
  next
    case (issued row cert_key account_key issued k u y)
    have same: "te_aead env = A" "te_keys env = ks" using env by (simp_all add: env_ok_def)
    have "pending_ok nets A ks row" using ok(2) issued(1) by (simp add: tls_db_ok_def)
    from env_finalize[OF env this issued(3)[unfolded same] issued(4)]
    have "certified nets (tp_domain row) (ic_key_pem issued) (ic_cert_pem issued)" .
    from finish_ok[OF env this ok(1) db issued(5)] show ?thesis
      using issued(6) tls_db_ok_clear by (cases y) auto
  qed
qed

lemma renewal_ok:
  assumes env: "env_ok nets A ks (ct_env tk)" and ok: "world_ok nets cert0 key0 w" "tls_db_ok nets A ks d"
    and t: "cert_renewal_tick install tk d w = (d', w', ordered)"
  shows "tls_db_ok nets A ks d' \<and> world_ok nets cert0 key0 w'"
proof -
  have same: "te_aead (ct_env tk) = A" "te_keys (ct_env tk) = ks" using env by (simp_all add: env_ok_def)
  from t show ?thesis
  proof (cases rule: renewal_tick_cases)
    case (idle e)
    then show ?thesis using ok sync_ok[OF ok] same by auto
  next
    case (fresh e)
    then show ?thesis using ok(2) sync_ok[OF ok] same by (auto simp: tls_db_ok_def)
  next
    case (order e w1 d4 x)
    have w1: "world_ok nets cert0 key0 w1" using sync_ok[OF ok] order(1) same by auto
    have d4: "tls_db_ok nets A ks d4" using ok(2) order(3,4) by (simp add: tls_db_ok_def)
    note i = issue_ok[OF env w1 d4 order(6)]
    from order(8) have "tls_db_ok nets A ks d'"
    proof
      assume "\<exists>result d5. x = Inr (result, d5) \<and> tls_state d' = tls_state d5 \<and> tls_pending d' = tls_pending d5 \<and>
          last_checked d' = last_checked d5"
      then obtain result d5 where "x = Inr (result, d5)" "tls_state d' = tls_state d5" "tls_pending d' = tls_pending d5" by blast
      then show ?thesis using i tls_db_ok_cong by blast
    qed (simp add: d4)
    then show ?thesis using i by blast
  qed
qed

lemma step_ok:
  assumes "event_ok nets A ks ev" "tls_inv nets A ks cert0 key0 (d, w)"
  shows "tls_inv nets A ks cert0 key0 (tls_step install A ks ev (d, w))"
proof -
  have ok: "world_ok nets cert0 key0 w" "tls_db_ok nets A ks d" using assms(2) by (simp_all add: tls_inv_def)
  define d1 where "d1 = d\<lparr>settings_row := Some (the_settings d)\<rparr>"
  have db: "tls_db_ok nets A ks d1" using ok(2) tls_db_ok_cong[of d1 d] by (simp add: d1_def)
  have audit: "tls_db_ok nets A ks (audit_action rq a y d') = tls_db_ok nets A ks d'" for rq a y d'
    by (rule tls_db_ok_cong) simp_all
  show ?thesis
  proof (cases ev)
    case (Settings_change rq p)
    have "tls_db_ok nets A ks (snd (update_tls_settings A ks rq p d)) = tls_db_ok nets A ks d"
      by (rule tls_db_ok_cong) (simp_all add: update_settings_tables)
    then show ?thesis using ok by (simp add: tls_inv_def Settings_change)
  next
    case (Issue_by_hand rq env)
    then have env: "env_ok nets A ks env" using assms(1) by (simp add: event_ok_def)
    obtain x w' where i: "issue_or_renew install env d1 w = (x, w')" by (rule prod.exhaust)
    note r = issue_ok[OF env ok(1) db i]
    have "snd (issue_now install env rq d w) \<in> {(d, w), (d, w')} \<or>
      (\<exists>result d' e. x = Inr (result, d') \<and> snd (issue_now install env rq d w) = (e, w') \<and> tls_db_ok nets A ks e = tls_db_ok nets A ks d')"
      unfolding issue_now_def get_relay_settings_eq Let_def prod.case d1_def[symmetric] i by (cases x) (auto simp: audit)
    then show ?thesis using ok r by (auto simp: tls_inv_def Issue_by_hand)
  next
    case (Start_challenge rq env)
    then have env: "env_ok nets A ks env" using assms(1) by (simp add: event_ok_def)
    note r = begin_manual_ok[OF env db]
    have "snd (start_manual_dns_challenge env rq d) = d \<or>
      (\<exists>result d'. begin_manual_dns_challenge env d1 = Inr (result, d') \<and>
         tls_db_ok nets A ks (snd (start_manual_dns_challenge env rq d)) = tls_db_ok nets A ks d')"
      unfolding start_manual_dns_challenge_def get_relay_settings_eq Let_def prod.case d1_def[symmetric]
      by (cases "begin_manual_dns_challenge env d1") (auto simp: audit)
    then show ?thesis using ok r by (auto simp: tls_inv_def Start_challenge)
  next
    case (Confirm_challenge rq env)
    then have env: "env_ok nets A ks env" using assms(1) by (simp add: event_ok_def)
    obtain x w' where f: "finalize_manual_dns_challenge install env d1 w = (x, w')" by (rule prod.exhaust)
    note r = finalize_manual_ok[OF env ok(1) db f]
    have "snd (confirm_manual_dns_challenge install env rq d w) = (d, w') \<or>
      (\<exists>result d' e. x = Inr (result, d') \<and> snd (confirm_manual_dns_challenge install env rq d w) = (e, w') \<and>
         tls_db_ok nets A ks e = tls_db_ok nets A ks d')"
      unfolding confirm_manual_dns_challenge_def get_relay_settings_eq Let_def prod.case d1_def[symmetric] f by (cases x) (auto simp: audit)
    then show ?thesis using ok r by (auto simp: tls_inv_def Confirm_challenge)
  next
    case (Renewal_check tk)
    then have env: "env_ok nets A ks (ct_env tk)" using assms(1) by (simp add: event_ok_def)
    obtain d' w' ordered where t: "cert_renewal_tick install tk d w = (d', w', ordered)" by (rule prod_cases3)
    from renewal_ok[OF env ok t] show ?thesis by (simp add: tls_inv_def Renewal_check t)
  next
    case App_start
    obtain e w' where s: "sync_certificate_to_postfix install A ks d w = (e, w')" by (rule prod.exhaust)
    from sync_ok[OF ok s] show ?thesis using ok(2) by (simp add: tls_inv_def App_start s)
  next
    case (Other_work f g)
    have "tls_db_ok nets A ks (f d) = tls_db_ok nets A ks d"
      by (rule tls_db_ok_cong) (use assms(1) Other_work in \<open>simp_all add: event_ok_def\<close>)
    then show ?thesis using ok assms(1) Other_work by (simp add: tls_inv_def event_ok_def world_ok_def)
  qed
qed

lemma run_ok:
  "\<forall>ev\<in>set evs. event_ok nets A ks ev \<Longrightarrow> tls_inv nets A ks cert0 key0 s \<Longrightarrow> tls_inv nets A ks cert0 key0 (tls_run install A ks evs s)"
proof (induction evs arbitrary: s)
  case (Cons ev evs)
  have "tls_inv nets A ks cert0 key0 (tls_step install A ks ev s)" using step_ok Cons.prems by (cases s) simp
  then show ?case using Cons by simp
qed simp

text \<open>A success that is reported: the recorded pair is live, and the recorded key decrypts to it.\<close>

definition live_is_recorded :: "aead \<Rightarrow> key_settings \<Rightarrow> db \<Rightarrow> 'w \<Rightarrow> bool" where
  "live_is_recorded A ks d w \<longleftrightarrow>
     (\<exists>cert blob key. tc_cert_pem (the_tls d) = Some cert \<and> tc_encrypted_key_pem (the_tls d) = Some blob \<and>
        decrypt_secret A ks blob = Inr key \<and> live_cert w = Some cert \<and> live_key w = Some key)"

lemma finish_reports:
  assumes "env_ok nets A ks env" "usable w" "finish_issuance install env domain issued key uri d w = (Inr (result, d'), w')" "cr_success result"
  shows "live_is_recorded A ks d' w' \<and> tc_domain (the_tls d') = Some domain"
proof -
  obtain blob blob' where r: "encrypt_secret (te_aead env) (te_keys env) (te_nonce1 env) (ic_key_pem issued) = Inr blob"
    "tls_state d' = Some (recorded_state env domain issued uri blob blob' (fst (get_tls_certificate_state d)))"
    "live_cert w' = Some (ic_cert_pem issued)" "live_key w' = Some (ic_key_pem issued)"
    using finish_success[OF assms(2-4)] by blast
  have "decrypt_secret A ks blob = Inr (ic_key_pem issued)"
    using assms(1) r(1) decrypt_encrypted by (auto simp: env_ok_def)
  then show ?thesis using r by (simp add: live_is_recorded_def recorded_state_def)
qed

end

section \<open>Provenance\<close>

text \<open>
  C13. No foreign certificate: after any run of settings changes, issuing by hand, manual challenges, renewal checks and
  starts, with calls to the relay failing or getting lost, the recorded certificate was issued for the recorded
  domain and the recorded key (which still decrypts) by an order that was placed and finalized in the run; the
  certificate file of the relay holds what it held at the beginning or a certificate so issued, and its key
  file what it held or the key of one.
\<close>

theorem certificate_provenance:
  assumes "\<forall>ev\<in>set evs. surface_tls.event_ok nets A ks ev" and "tls_channel c"
    and "tls_state d = None" "tls_pending d = None"
    and "tls_run ctl_install_tls_certificate A ks evs (d, c) = (d', c')"
  shows "(\<forall>s cert. tls_state d' = Some s \<and> tc_cert_pem s = Some cert \<longrightarrow>
      (\<exists>domain blob key. tc_domain s = Some domain \<and> tc_encrypted_key_pem s = Some blob \<and>
         decrypt_secret A ks blob = Inr key \<and> certified nets domain key cert)) \<and>
    (channel_cert c' = channel_cert c \<or> (\<exists>domain key cert. channel_cert c' = Some cert \<and> certified nets domain key cert)) \<and>
    (channel_key c' = channel_key c \<or> (\<exists>domain key cert. channel_key c' = Some key \<and> certified nets domain key cert))"
proof -
  have "surface_tls.tls_inv nets A ks (channel_cert c) (channel_key c) (d, c)"
    using assms(2-4)
    by (simp add: surface_tls.tls_inv_def tls_db_ok_def record_ok_def default_tls_state_def surface_tls.world_ok_def live_ok_def)
  from surface_tls.run_ok[OF assms(1) this] show ?thesis
    unfolding assms(5) by (auto simp: surface_tls.tls_inv_def tls_db_ok_def record_ok_def surface_tls.world_ok_def live_ok_def)
qed

text \<open>Only \<open>finish_issuance\<close> reports success, for the configured domain.\<close>

lemma issue_or_renew_success:
  assumes "issue_or_renew install env d c = (Inr (result, d'), c')" "cr_success result"
  shows "\<exists>domain issued k u d1. finish_issuance install env domain issued k u d1 c = (Inr (result, d'), c') \<and>
    rs_tls_domain (the_settings d) = Some domain"
  using assms
  by (auto simp: issue_or_renew_def get_relay_settings_eq get_tls_eq Let_def not_issued_def blank_def case_sum_eq
      split: if_splits option.splits secret_error.splits) blast

lemma issue_now_success:
  assumes "issue_now install env rq d c = (Inr (True, detail), d', c')"
  shows "\<exists>domain issued k u d1 d2 result. finish_issuance install env domain issued k u d1 c = (Inr (result, d2), c') \<and>
      cr_success result \<and> tls_state d' = tls_state d2 \<and> rs_tls_domain (the_settings d) = Some domain"
proof -
  define d0 where "d0 = d\<lparr>settings_row := Some (the_settings d)\<rparr>"
  obtain x w' where i: "issue_or_renew install env d0 c = (x, w')" by (rule prod.exhaust)
  obtain result d2 where r: "x = Inr (result, d2)" "cr_success result" "tls_state d' = tls_state d2" "w' = c'"
    using assms unfolding issue_now_def get_relay_settings_eq Let_def prod.case d0_def[symmetric] i
    by (cases x) (auto split: if_splits)
  from issue_or_renew_success[OF i[unfolded r(1)] r(2)] obtain domain issued k u d1 where
    f: "finish_issuance install env domain issued k u d1 c = (Inr (result, d2), w')" "rs_tls_domain (the_settings d0) = Some domain" by blast
  have "rs_tls_domain (the_settings d) = Some domain" using f(2) by (simp add: d0_def)
  then show ?thesis using f(1) r(2-4) by blast
qed

lemma confirm_success:
  assumes "confirm_manual_dns_challenge install env rq d c = (Inr (True, detail), d', c')"
  shows "\<exists>domain issued k u d1 d2 result. finish_issuance install env domain issued k u d1 c = (Inr (result, d2), c') \<and>
      cr_success result \<and> tls_state d' = tls_state d2 \<and> rs_tls_domain (the_settings d) = Some domain"
proof -
  define d0 where "d0 = d\<lparr>settings_row := Some (the_settings d)\<rparr>"
  obtain x w' where i: "finalize_manual_dns_challenge install env d0 c = (x, w')" by (rule prod.exhaust)
  obtain result d2 where r: "x = Inr (result, d2)" "cr_success result" "tls_state d' = tls_state d2" "w' = c'"
    using assms unfolding confirm_manual_dns_challenge_def get_relay_settings_eq Let_def prod.case d0_def[symmetric] i
    by (cases x) auto
  from i refl[of "d0\<lparr>settings_row := Some (the_settings d0)\<rparr>"] show ?thesis
  proof (cases rule: finalize_manual_cases)
    case quiet
    then show ?thesis using r(1,2) by blast
  next
    case (issued row cert_key account_key issued k u y)
    obtain d3 where y: "y = Inr (result, d3)" "d2 = clear_tls_pending_manual_challenge d3"
      using issued(6) r(1) by (cases y) auto
    have "tls_state d' = tls_state d3" using r(3) y(2) by (simp add: clear_tls_pending_manual_challenge_def)
    moreover have "rs_tls_domain (the_settings d) = Some (tp_domain row)" using issued(2) by (simp add: d0_def)
    ultimately show ?thesis using issued(5) r(2,4) y(1) by blast
  qed
qed

text \<open>
  C14. A reported success is live: when issuing by hand or confirming a manual challenge answers success, the
  record names the configured domain and a certificate, its key decrypts, and the relay's two files hold exactly
  that certificate and that key.
\<close>

theorem reported_certificate_is_live:
  assumes env: "env_ok nets A ks env" and c: "tls_channel c"
    and success: "issue_now ctl_install_tls_certificate env rq d c = (Inr (True, detail), d', c') \<or>
      confirm_manual_dns_challenge ctl_install_tls_certificate env rq d c = (Inr (True, detail), d', c')"
  shows "\<exists>cert blob key. tc_cert_pem (the_tls d') = Some cert \<and> tc_encrypted_key_pem (the_tls d') = Some blob \<and>
    decrypt_secret A ks blob = Inr key \<and> channel_cert c' = Some cert \<and> channel_key c' = Some key \<and>
    tc_domain (the_tls d') = rs_tls_domain (the_settings d)"
proof -
  have "\<exists>domain issued k u d1 d2 result. finish_issuance ctl_install_tls_certificate env domain issued k u d1 c = (Inr (result, d2), c') \<and>
      cr_success result \<and> tls_state d' = tls_state d2 \<and> rs_tls_domain (the_settings d) = Some domain"
    using success issue_now_success confirm_success by metis
  then obtain domain issued k u d1 d2 result where f:
    "finish_issuance ctl_install_tls_certificate env domain issued k u d1 c = (Inr (result, d2), c')" "cr_success result"
    "tls_state d' = tls_state d2" "rs_tls_domain (the_settings d) = Some domain" by blast
  from surface_tls.finish_reports[OF env c f(1,2)] show ?thesis
    using f(3,4) the_tls_cong[of d' d2] by (auto simp: surface_tls.live_is_recorded_def)
qed

section \<open>An issuance\<close>

definition demo_acme :: acme_net where
  "demo_acme = \<lparr>an_account_key = ''account'', an_cert_key = ''key'', an_load_key = (\<lambda>_. None), an_directory = (\<lambda>_. None),
     an_query = (\<lambda>_ uri. Inr uri), an_new_account = (\<lambda>_. Inr ''uri''), an_make_csr = (\<lambda>k domain. Inr (domain @ '':'' @ k)),
     an_new_order = (\<lambda>csr. Inr \<lparr>ao_authorizations = [[\<lparr>ch_is_dns01 = True, ch_token = ''t''\<rparr>]], ao_uri = csr\<rparr>),
     an_validation = (\<lambda>c k. ch_token c @ k), an_order_dumps = ao_uri,
     an_order_loads = (\<lambda>j. Inr \<lparr>ao_authorizations = [[\<lparr>ch_is_dns01 = True, ch_token = ''t''\<rparr>]], ao_uri = j\<rparr>),
     an_answer = (\<lambda>_. None), an_finalize = (\<lambda>orderr. Inr (''cert for '' @ ao_uri orderr)), an_leaf_validity = (\<lambda>_. Inr (0, days 90))\<rparr>"

definition demo_tls_env :: tls_env where
  "demo_tls_env = \<lparr>te_issuer = lets_encrypt_issuer demo_acme ''https://acme.test'',
     te_cloudflare = (\<lambda>token zone. \<lparr>dp_create = (\<lambda>_ _ _. Inr ''1''), dp_delete = (\<lambda>_ _. None), dp_wait = (\<lambda>_ _. True)\<rparr>),
     te_dns = demo_dns, te_aead = demo_aead,
     te_keys = \<lparr>ks_key_file = None, ks_encryption_key = Some (generate_encryption_key (replicate 32 (CHR ''k'')))\<rparr>,
     te_nonce1 = replicate 12 (CHR ''n''), te_nonce2 = replicate 12 (CHR ''m''), te_now = 0, te_recorded_at = 1\<rparr>"

definition demo_tls_db :: db where
  "demo_tls_db = empty_db\<lparr>settings_row := Some (default_relay_settings\<lparr>rs_tls_acme_enabled := True, rs_tls_domain := Some ''mx.test'',
     rs_tls_cloudflare_api_token_encrypted := Some (encrypt_with_key demo_aead (replicate 12 (CHR ''o'')) ''token'' (replicate 32 (CHR ''k'')))\<rparr>)\<rparr>"

definition demo_tls_request :: admin_request where
  "demo_tls_request = \<lparr>aq_admin_id = 1, aq_ip = None, aq_now = 0, aq_new_id = 5, aq_audit_id = 1, aq_nonce = replicate 12 (CHR ''n'')\<rparr>"

lemma demo_load_key: "load_key (te_keys demo_tls_env) = Inr (replicate 32 (CHR ''k''))"
  by (simp only: demo_tls_env_def tls_env.simps) code_simp

lemma demo_env_ok: "env_ok {demo_acme} demo_aead (te_keys demo_tls_env) demo_tls_env"
  by (auto simp: env_ok_def demo_tls_env_def demo_aead_ok NONCE_SIZE_def)

lemma andthen_quiet: "andthen (quiet_tools argv inp) f = f \<lparr>cp_returncode = 0, cp_stdout = [], cp_stderr = []\<rparr>"
  by (rule ext) (simp add: andthen_def quiet_tools_def)

lemma quiet_install:
  assumes "require_str payload ''cert_pem'' = Inr cert" "require_str payload ''key_pem'' = Inr key"
  shows "succeeds (\<lambda>r. truthy (jget ''ok'' r) \<and> jbool ''success'' r) (install_tls_certificate quiet_tools staging payload)"
proof -
  have reads: "succeeds (\<lambda>_. True) read_tls_files" unfolding read_tls_files_def by (intro succeeds_rules TrueI)
  have writes: "succeeds (\<lambda>_. True) (write_tls_files cert key)"
    unfolding write_tls_files_def by (rule succeeds_for_each) (auto simp: case_prod_beta intro: succeeds_write)
  have ok: "succeeds (\<lambda>r. truthy (jget ''ok'' r) \<and> jbool ''success'' r) (return (tls_response True detail restarted))" for detail restarted
    by (rule succeeds_return) (simp add: tls_response_def jget_def truthy_def jbool_def)
  have replace: "succeeds (\<lambda>r. truthy (jget ''ok'' r) \<and> jbool ''success'' r) (replace_tls_files quiet_tools cert key)"
    unfolding replace_tls_files_def andthen_quiet
    by (rule succeeds_then[OF reads]) (auto intro!: ok succeeds_then[OF writes])
  show ?thesis
    unfolding install_tls_certificate_def assms andthen_check andthen_quiet Let_def
    by (rule succeeds_then[OF succeeds_files(5)], rule succeeds_within, rule succeeds_then[OF succeeds_write(2)],
        rule succeeds_then[OF succeeds_write(2)]) (simp add: replace)
qed

lemma demo_install:
  "\<exists>r c'. ctl_install_tls_certificate cert key demo_channel = (Inr r, c') \<and> ir_success r"
proof -
  let ?p = "[(''op'', JStr ''install_tls_certificate''), (''cert_pem'', JStr cert), (''key_pem'', JStr key)]"
  obtain resp m' where a: "install_tls_certificate quiet_tools ''/tmp/a'' ?p demo_machine = (Inr resp, m')"
    "truthy (jget ''ok'' resp)" "jbool ''success'' resp"
    using quiet_install[OF install_payload_strs[of "JStr ''install_tls_certificate''" cert key], of "''/tmp/a''"] demo_healthy
    unfolding succeeds_def by blast
  then show ?thesis
    unfolding ctl_install_tls_certificate_def ctl_call_def handle_install
    by (simp add: demo_channel_def demo_env_def handle_install reading_def)
qed

lemma demo_issue:
  "\<exists>d' c'. issue_now ctl_install_tls_certificate demo_tls_env demo_tls_request demo_tls_db demo_channel = (Inr (True, ''Issued.''), d', c')"
proof -
  obtain r c' where i: "ctl_install_tls_certificate ''cert for mx.test:key'' ''key'' demo_channel = (Inr r, c')" "ir_success r"
    using demo_install by blast
  have token: "decrypt_secret demo_aead (te_keys demo_tls_env) (encrypt_with_key demo_aead (replicate 12 (CHR ''o'')) ''token'' (replicate 32 (CHR ''k''))) = Inr ''token''"
    by (simp add: decrypt_secret_def demo_load_key decrypt_encrypt demo_aead_ok NONCE_SIZE_def)
  obtain b1 b2 where blobs: "encrypt_secret demo_aead (te_keys demo_tls_env) (replicate 12 (CHR ''n'')) ''key'' = Inr b1"
    "encrypt_secret demo_aead (te_keys demo_tls_env) (replicate 12 (CHR ''m'')) ''account'' = Inr b2"
    by (simp add: encrypt_secret_def demo_load_key)
  have env: "te_aead demo_tls_env = demo_aead" "te_nonce1 demo_tls_env = replicate 12 (CHR ''n'')" "te_nonce2 demo_tls_env = replicate 12 (CHR ''m'')"
    by (simp_all add: demo_tls_env_def)
  have settings: "the_settings demo_tls_db = default_relay_settings\<lparr>rs_tls_acme_enabled := True, rs_tls_domain := Some ''mx.test'',
     rs_tls_cloudflare_api_token_encrypted := Some (encrypt_with_key demo_aead (replicate 12 (CHR ''o'')) ''token'' (replicate 32 (CHR ''k'')))\<rparr>"
    by (simp add: demo_tls_db_def)
  let ?provider = "te_cloudflare demo_tls_env ''token'' None"
  have acme: "ai_issue (te_issuer demo_tls_env) ''mx.test'' None None None ?provider =
    Inr (\<lparr>ic_cert_pem = ''cert for mx.test:key'', ic_key_pem = ''key'', ic_not_before = 0, ic_not_after = days 90\<rparr>, ''account'', ''uri'')"
    by (simp add: demo_tls_env_def lets_encrypt_issuer_def issue_def begin_order_def finalize_order_def demo_acme_def
        get_or_create_registration_def stored_registration_def next_try_def unless_raised_def Let_def)
  have fresh: "tls_state demo_tls_db = None" by (simp add: demo_tls_db_def empty_db_def)
  show ?thesis
    using i acme
    by (simp add: issue_now_def issue_or_renew_def get_relay_settings_eq settings get_tls_eq fresh default_relay_settings_def blank_def
        env token build_dns_provider_def stored_account_key_def default_tls_state_def finish_issuance_def
        record_issued_certificate_def next_try_def blobs get_background_job_state_eq Let_def)
qed

theorem reported_certificate_is_live_witness:
  "\<exists>d' c' cert. issue_now ctl_install_tls_certificate demo_tls_env demo_tls_request demo_tls_db demo_channel = (Inr (True, ''Issued.''), d', c') \<and>
     tc_cert_pem (the_tls d') = Some cert \<and> channel_cert c' = Some cert \<and> tc_domain (the_tls d') = Some ''mx.test''"
proof -
  obtain d' c' where r: "issue_now ctl_install_tls_certificate demo_tls_env demo_tls_request demo_tls_db demo_channel = (Inr (True, ''Issued.''), d', c')"
    using demo_issue by blast
  have channel: "tls_channel demo_channel"
    by (simp add: tls_channel_def demo_channel_def demo_env_def tls_tools_local_def quiet_tools_local TLS_DIR_def)
       (auto intro!: touchesI simp: quiet_tools_def)
  from reported_certificate_is_live[OF demo_env_ok channel disjI1[OF r]] show ?thesis
    using r by (auto simp: demo_tls_db_def)
qed

theorem certificate_provenance_witness:
  "case tls_run ctl_install_tls_certificate demo_aead (te_keys demo_tls_env) [Issue_by_hand demo_tls_request demo_tls_env, App_start]
      (demo_tls_db, demo_channel) of (d', c') \<Rightarrow>
   channel_cert c' = channel_cert demo_channel \<or> (\<exists>domain key cert. channel_cert c' = Some cert \<and> certified {demo_acme} domain key cert)"
proof -
  have channel: "tls_channel demo_channel"
    by (simp add: tls_channel_def demo_channel_def demo_env_def tls_tools_local_def quiet_tools_local TLS_DIR_def)
       (auto intro!: touchesI simp: quiet_tools_def)
  have events: "\<forall>ev\<in>set [Issue_by_hand demo_tls_request demo_tls_env, App_start].
      surface_tls.event_ok {demo_acme} demo_aead (te_keys demo_tls_env) ev"
    by (simp add: surface_tls.event_ok_def demo_env_ok)
  obtain d' c' where r: "tls_run ctl_install_tls_certificate demo_aead (te_keys demo_tls_env)
      [Issue_by_hand demo_tls_request demo_tls_env, App_start] (demo_tls_db, demo_channel) = (d', c')" by (rule prod.exhaust)
  have "tls_state demo_tls_db = None" "tls_pending demo_tls_db = None" by (simp_all add: demo_tls_db_def empty_db_def)
  from certificate_provenance[OF events channel this r] show ?thesis unfolding r by simp
qed

end
