(* ===== verification/Renewal_Spacing.thy ===== *)
theory Renewal_Spacing
  imports Certificate_Safety
begin

text \<open>
  How often the renewal tick places an ACME order.  Let's Encrypt locks a domain out for a week after too many
  orders, so the spacing has to hold whatever the orders end in.
\<close>

section \<open>The orders of a sequence of ticks\<close>

text \<open>
  Between two ticks anything may happen to the database and the relay, as long as the time of the last
  check stays: no route writes that column.
\<close>

definition keeps_last_checked :: "(db \<Rightarrow> db) \<Rightarrow> bool" where
  "keeps_last_checked f \<longleftrightarrow> (\<forall>d. last_checked (f d) = last_checked d)"

fun renewal_orders :: "'w installer \<Rightarrow> ((db \<Rightarrow> db) \<times> 'w \<times> cert_tick) list \<Rightarrow> db \<Rightarrow> cert_tick list" where
  "renewal_orders install [] d = []"
| "renewal_orders install ((f, w, tk) # es) d =
     (case cert_renewal_tick install tk (f d) w of
        (d', _, ordered) \<Rightarrow> (if ordered then [tk] else []) @ renewal_orders install es d')"

text \<open>The clock does not run backwards within a tick.\<close>

definition tick_clock_ok :: "cert_tick \<Rightarrow> bool" where
  "tick_clock_ok tk \<longleftrightarrow> ct_started tk \<le> ct_checked_at tk"

lemma tick_gate:
  assumes "cert_renewal_tick install tk d w = (d', w', ordered)"
  shows "(last_checked d' = last_checked d \<and> \<not> ordered) \<or>
    (last_checked d' = Some (ct_checked_at tk) \<and> (\<forall>t. last_checked d = Some t \<longrightarrow> RENEWAL_CHECK_INTERVAL \<le> ct_started tk - t))"
  using assms
proof (cases rule: renewal_tick_cases)
  case (order e w1 d4 x)
  have "last_checked d5 = last_checked d4" if "x = Inr (result, d5)" for result d5
  proof -
    define e1 where "e1 = d4\<lparr>settings_row := Some (the_settings d4)\<rparr>"
    define e2 where "e2 = e1\<lparr>tls_state := Some (the_tls e1)\<rparr>"
    have e: "last_checked e1 = last_checked d4" "last_checked e2 = last_checked d4"
      using the_jobs_cong[of e1 d4] the_jobs_cong[of e2 d4] by (simp_all add: last_checked_def e1_def e2_def)
    from order(6) e1_def e2_def show ?thesis
    proof (cases rule: issue_or_renew_cases)
      case quiet
      then show ?thesis using that e by blast
    next
      case (issued domain contact account_key uri provider issued k u)
      have "issuing_frame e2 d5" using finish_effect[OF issued(2)] that by blast
      then show ?thesis using e(2) by (simp add: issuing_frame_def)
    qed
  qed
  then show ?thesis using order(5,7,8) by auto
qed auto

lemma orders_after:
  assumes "\<forall>(f, w, tk)\<in>set es. keeps_last_checked f \<and> tick_clock_ok tk" "last_checked d = Some t"
  shows "\<forall>tk\<in>set (renewal_orders install es d). t + RENEWAL_CHECK_INTERVAL \<le> ct_started tk"
  using assms
proof (induction es arbitrary: d t)
  case (Cons e es)
  obtain f w tk where e: "e = (f, w, tk)" by (rule prod_cases3)
  obtain d' w' ordered where step: "cert_renewal_tick install tk (f d) w = (d', w', ordered)" by (rule prod_cases3)
  have f: "last_checked (f d) = Some t" "tick_clock_ok tk" using Cons.prems e by (auto simp: keeps_last_checked_def)
  have es: "\<forall>(f, w, tk)\<in>set es. keeps_last_checked f \<and> tick_clock_ok tk" using Cons.prems(1) by simp
  from tick_gate[OF step] show ?case
  proof
    assume "last_checked d' = last_checked (f d) \<and> \<not> ordered"
    then show ?thesis using Cons.IH[OF es, of d' t] f(1) e step by simp
  next
    assume gate: "last_checked d' = Some (ct_checked_at tk) \<and>
      (\<forall>t. last_checked (f d) = Some t \<longrightarrow> RENEWAL_CHECK_INTERVAL \<le> ct_started tk - t)"
    then have "t + RENEWAL_CHECK_INTERVAL \<le> ct_started tk" using f(1) by auto
    moreover have "\<forall>tk'\<in>set (renewal_orders install es d'). ct_checked_at tk + RENEWAL_CHECK_INTERVAL \<le> ct_started tk'"
      using Cons.IH[OF es] gate by blast
    moreover have "0 \<le> RENEWAL_CHECK_INTERVAL" by (simp add: RENEWAL_CHECK_INTERVAL_def time_defs)
    ultimately show ?thesis using f(2) e step by (auto simp: tick_clock_ok_def)
  qed
qed simp


definition demo_cert_tick :: "datetime \<Rightarrow> cert_tick" where
  "demo_cert_tick t = \<lparr>ct_started = t, ct_due_at = t, ct_checked_at = t, ct_attempt_at = t, ct_env = demo_tls_env, ct_audit_id = 1, ct_audit_at = t\<rparr>"


end
