(* ===== verification/Health.thy ===== *)
theory Health
  imports Postfix_Control Interval_Job
begin

text \<open>
  \<open>core/health.py\<close>, the checks behind \<open>GET /api/health\<close>, and the route with its anonymous cache
  (\<open>api/routes/health.py\<close>).  The lemmas say what an \<open>ok\<close> means, that the configuration just applied is in sync, and that
  a later change of anything the maps are built from is reported.
\<close>

section \<open>The report\<close>

record check_result =
  ck_ok :: bool
  ck_detail :: pystr

record health_report =
  hr_status :: pystr
  hr_database :: check_result
  hr_postfix_reachable :: check_result
  hr_postfix_running :: check_result
  hr_last_generation_result :: pystr
  hr_config_in_sync :: check_result

text \<open>\<open>SELECT 1\<close> answers, or fails with the text of a \<open>SQLAlchemyError\<close>.\<close>

definition check_database :: "pystr option \<Rightarrow> check_result" where
  "check_database failure =
     (case failure of None \<Rightarrow> \<lparr>ck_ok = True, ck_detail = []\<rparr> | Some e \<Rightarrow> \<lparr>ck_ok = False, ck_detail = e\<rparr>)"

definition ctl_text :: "ctl_error \<Rightarrow> pystr" where
  "ctl_text e = (case e of PostfixControlError t \<Rightarrow> t)"

definition check_postfix :: "channel \<Rightarrow> (check_result \<times> check_result) \<times> channel" where
  "check_postfix c =
     (case ctl_status c of
        (Inr s, c') \<Rightarrow> ((\<lparr>ck_ok = True, ck_detail = []\<rparr>, \<lparr>ck_ok = ps_running s, ck_detail = ps_detail s\<rparr>), c')
      | (Inl e, c') \<Rightarrow>
          ((\<lparr>ck_ok = False, ck_detail = ctl_text e\<rparr>, \<lparr>ck_ok = False, ck_detail = ''control surface unreachable''\<rparr>), c'))"

text \<open>\<open>ValidationResult.value\<close>\<close>

definition result_value :: "validation_result \<Rightarrow> pystr" where
  "result_value r = (case r of Val_pass \<Rightarrow> ''pass'' | Val_fail \<Rightarrow> ''fail'')"

definition last_generation_result_of :: "db \<Rightarrow> pystr" where
  "last_generation_result_of d =
     (case newest_generation (generations d) of None \<Rightarrow> ''none'' | Some g \<Rightarrow> result_value (cg_validation_result g))"

text \<open>A decrypted password that is not UTF-8 raises an exception that the check does not catch.\<close>

definition check_sync :: "config_ext \<Rightarrow> db \<Rightarrow> secret_error + check_result" where
  "check_sync X d =
     (case last_good_generation d of
        None \<Rightarrow> Inr \<lparr>ck_ok = False, ck_detail = ''no configuration has ever been successfully applied yet''\<rparr>
      | Some last_good \<Rightarrow>
          (case current_state_checksums X d of
             Inl UnicodeDecodeError \<Rightarrow> Inl UnicodeDecodeError
           | Inl e \<Rightarrow> Inr \<lparr>ck_ok = False, ck_detail = ''cannot check configuration: '' @ secret_text e\<rparr>
           | Inr (main_master, maps) \<Rightarrow>
               (let in_sync = (main_master = cg_checksum last_good \<and> maps = cg_maps_checksum last_good)
                in Inr \<lparr>ck_ok = in_sync,
                        ck_detail = (if in_sync then []
                          else ''current database state differs from the last applied configuration '' @ em_dash @
                               '' regenerate to apply'')\<rparr>)))"

definition run_health_check ::
  "pystr option \<Rightarrow> config_ext \<Rightarrow> db \<Rightarrow> channel \<Rightarrow> (secret_error + health_report) \<times> channel" where
  "run_health_check db_failure X d c =
     (let database = check_database db_failure;
          ((postfix_reachable, postfix_running), c') = check_postfix c;
          last_result = last_generation_result_of d;
          never_configured = (last_good_generation d = None)
      in case check_sync X d of
           Inl e \<Rightarrow> (Inl e, c')
         | Inr config_in_sync \<Rightarrow>
             (let healthy = (ck_ok database \<and> ck_ok postfix_reachable \<and> last_result \<noteq> ''fail'' \<and>
                    (never_configured \<or> ck_ok postfix_running) \<and> (never_configured \<or> ck_ok config_in_sync))
              in (Inr \<lparr>hr_status = (if healthy then ''ok'' else ''degraded''), hr_database = database,
                       hr_postfix_reachable = postfix_reachable, hr_postfix_running = postfix_running,
                       hr_last_generation_result = last_result, hr_config_in_sync = config_in_sync\<rparr>, c')))"

section \<open>The route\<close>

text \<open>\<open>time.monotonic()\<close> is counted in microseconds; the cache is the report with the time it was made.\<close>

definition ANONYMOUS_CACHE :: timedelta where "ANONYMOUS_CACHE = seconds 5"

type_synonym health_cache = "(datetime \<times> health_report) option"

definition anonymous_report ::
  "datetime \<Rightarrow> pystr option \<Rightarrow> config_ext \<Rightarrow> db \<Rightarrow> health_cache \<Rightarrow> channel \<Rightarrow>
   (secret_error + health_report) \<times> health_cache \<times> channel" where
  "anonymous_report now db_failure X d cache c =
     (let fresh = (case run_health_check db_failure X d c of
                     (Inl e, c') \<Rightarrow> (Inl e, cache, c') | (Inr r, c') \<Rightarrow> (Inr r, Some (now, r), c'))
      in case cache of
           None \<Rightarrow> fresh
         | Some (t, r) \<Rightarrow> if now - t > ANONYMOUS_CACHE then fresh else (Inr r, cache, c))"

definition detail_for :: "bool \<Rightarrow> check_result \<Rightarrow> check_result" where
  "detail_for include_detail result = (if include_detail then result else result\<lparr>ck_detail := []\<rparr>)"

definition health_response :: "bool \<Rightarrow> health_report \<Rightarrow> health_report" where
  "health_response include_detail r =
     r\<lparr>hr_database := detail_for include_detail (hr_database r),
       hr_postfix_reachable := detail_for include_detail (hr_postfix_reachable r),
       hr_postfix_running := detail_for include_detail (hr_postfix_running r),
       hr_config_in_sync := detail_for include_detail (hr_config_in_sync r)\<rparr>"

definition health ::
  "datetime \<Rightarrow> pystr option \<Rightarrow> config_ext \<Rightarrow> admin_user option \<Rightarrow> db \<Rightarrow> health_cache \<Rightarrow> channel \<Rightarrow>
   (http_error + health_report) \<times> health_cache \<times> channel" where
  "health now db_failure X admin d cache c =
     (case (if admin \<noteq> None
            then (case run_health_check db_failure X d c of (r, c') \<Rightarrow> (r, cache, c'))
            else anonymous_report now db_failure X d cache c) of
        (Inl _, cache', c') \<Rightarrow> (Inl internal_error, cache', c')
      | (Inr report, cache', c') \<Rightarrow> (Inr (health_response (admin \<noteq> None) report), cache', c'))"

section \<open>What a report means\<close>

lemma run_health_check_Inr:
  assumes "run_health_check f X d c = (Inr r, c')"
  shows "hr_status r = ''ok'' \<longleftrightarrow>
      f = None \<and> (\<exists>s. ctl_status c = (Inr s, c') \<and> (last_good_generation d = None \<or> ps_running s)) \<and>
      last_generation_result_of d \<noteq> ''fail'' \<and>
      (\<forall>g. last_good_generation d = Some g \<longrightarrow> current_state_checksums X d = Inr (cg_checksum g, cg_maps_checksum g))"
proof -
  obtain st c1 where st: "ctl_status c = (st, c1)" by (rule prod.exhaust)
  have "c1 = c'" using assms st by (auto simp: run_health_check_def check_postfix_def Let_def split: sum.splits)
  note body = assms[unfolded run_health_check_def check_postfix_def st \<open>c1 = c'\<close>]
  show ?thesis
    using body
    by (cases "last_good_generation d"; cases f; cases st; cases "current_state_checksums X d")
      (auto simp: check_database_def check_sync_def st \<open>c1 = c'\<close> Let_def split: if_splits secret_error.splits)
qed

lemma newest_in: "newest_generation gs = Some g \<Longrightarrow> g \<in> set gs"
  by (induction gs) (auto split: option.splits if_splits)

lemma newest_generation_snoc:
  assumes "\<forall>h\<in>set gs. cg_generated_at h < cg_generated_at g"
  shows "newest_generation (gs @ [g]) = Some g"
  using assms by (induction gs) (auto split: option.splits)

text \<open>What the configuration is built from\<close>

lemma build_maps_cong:
  assumes "senders d' = senders d" "accounts d' = accounts d" "local_users d' = local_users d" "permissions d' = permissions d"
  shows "build_maps decrypt d' = build_maps decrypt d \<and> render_config X d' = render_config X d"
proof -
  have account: "account_of d' = account_of d" by (rule ext) (simp add: account_of_def assms)
  have entries: "build_entries decrypt d' ss = build_entries decrypt d ss" for decrypt ss
    by (induction ss) (simp_all add: account split: option.splits sum.splits)
  have routable: "routable d' = routable d" by (rule ext) (simp add: routable_def account)
  have working: "enabled_senders_with_upstream d' = enabled_senders_with_upstream d"
    by (simp add: enabled_senders_with_upstream_def assms routable)
  have warning: "sender_warning d' = sender_warning d"
    by (rule ext) (simp add: sender_warning_def account)
  have warnings: "build_warnings d' = build_warnings d"
    by (simp add: build_warnings_def working assms warning)
  have lines: "sender_login_lines d' = sender_login_lines d"
    unfolding sender_login_lines_def sender_login_map_def login_rows_def assms ..
  have "build_maps decrypt d' = build_maps decrypt d"
    unfolding build_maps_def entries working warnings lines ..
  moreover have "render_config X d' = render_config X d"
    unfolding render_config_def rate_limited_account_transports_def account working ..
  ultimately show ?thesis ..
qed

section \<open>Drift\<close>

text \<open>The texts that are hashed for a state.\<close>

definition config_text :: "config_ext \<Rightarrow> db \<Rightarrow> pystr" where
  "config_text X d = fst (render_config X d) @ nul # snd (render_config X d)"

definition maps_text :: "(pystr \<times> pystr) list \<Rightarrow> pystr" where
  "maps_text maps = join [nul] (map (\<lambda>(n, t). n @ nul # t) (sort_key fst maps))"

definition no_nul :: "(pystr \<times> pystr) list \<Rightarrow> bool" where
  "no_nul maps \<longleftrightarrow> (\<forall>(n, t)\<in>set maps. nul \<notin> set t)"

lemma current_state_checksums_eq:
  "current_state_checksums X d =
     (case build_maps (cx_decrypt X) d of Inl e \<Rightarrow> Inl e
      | Inr (maps, _) \<Rightarrow> Inr (cx_sha256 X (config_text X d), cx_sha256 X (maps_text maps)))"
  by (auto simp: current_state_checksums_def config_text_def maps_text_def config_checksum_def maps_checksum_def split_beta
      split: sum.splits)

lemma config_text_inj: "config_text X d = config_text X d2 \<longleftrightarrow> render_config X d = render_config X d2"
  by (simp add: config_text_def render_config_def)

lemma build_maps_cases:
  assumes "build_maps decrypt d = Inr (maps, warnings)"
  obtains a b p t l where "maps = [(''sender_login'', a), (''sender_relayhost'', b), (''sasl_passwd'', p),
    (''sender_transport'', t), (''tls_policy'', l)]"
  using assms by (auto simp: build_maps_def split: sum.splits)

lemma sorted_maps:
  "sort_key fst [(''sender_login'', a), (''sender_relayhost'', b), (''sasl_passwd'', p), (''sender_transport'', t), (''tls_policy'', l)] =
   [(''sasl_passwd'', p), (''sender_login'', a), (''sender_relayhost'', b), (''sender_transport'', t), (''tls_policy'', l :: pystr)]"
  by code_simp

lemma nul_split: "nul \<notin> set a \<Longrightarrow> nul \<notin> set b \<Longrightarrow> a @ nul # x = b @ nul # y \<longleftrightarrow> a = b \<and> x = y"
proof (induction a arbitrary: b)
  case Nil
  then show ?case by (cases b) auto
next
  case (Cons c a)
  then show ?case by (cases b) auto
qed

lemma maps_text_inj:
  assumes "build_maps decrypt d = Inr (maps, w)" "build_maps decrypt' d' = Inr (maps', w')"
    and "no_nul maps" "no_nul maps'"
  shows "maps_text maps = maps_text maps' \<longleftrightarrow> maps = maps'"
proof -
  obtain a b p t l where m: "maps = [(''sender_login'', a), (''sender_relayhost'', b), (''sasl_passwd'', p),
    (''sender_transport'', t), (''tls_policy'', l)]" using build_maps_cases[OF assms(1)] .
  obtain a' b' p' t' l' where m': "maps' = [(''sender_login'', a'), (''sender_relayhost'', b'), (''sasl_passwd'', p'),
    (''sender_transport'', t'), (''tls_policy'', l')]" using build_maps_cases[OF assms(2)] .
  have free: "nul \<notin> set a" "nul \<notin> set b" "nul \<notin> set p" "nul \<notin> set t" "nul \<notin> set a'" "nul \<notin> set b'" "nul \<notin> set p'" "nul \<notin> set t'"
    using assms(3,4) by (auto simp: no_nul_def m m')
  show ?thesis
    by (simp only: maps_text_def m m' sorted_maps) (auto simp: nul_split free)
qed

text \<open>What a successful run records\<close>

lemma recorded_generation:
  assumes "generate_and_apply X R new_id now who False d w = (Inr outcome, d', w')" "go_success outcome"
    and "\<forall>g\<in>set (generations d). cg_generated_at g < now"
  shows "\<exists>maps warnings g. build_maps (cx_decrypt X) d = Inr (maps, warnings) \<and>
     last_good_generation d' = Some g \<and> newest_generation (generations d') = Some g \<and> cg_validation_result g = Val_pass \<and>
     cg_checksum g = cx_sha256 X (config_text X d) \<and> cg_maps_checksum g = cx_sha256 X (maps_text maps)"
proof -
  obtain maps warnings where build: "build_maps (cx_decrypt X) d = Inr (maps, warnings)"
    using assms(1) by (auto simp: generate_and_apply_def split: sum.splits)
  obtain g where g: "generations d' = generations d @ [g]" "cg_validation_result g = Val_pass" "cg_applied g"
    "cg_generated_at g = now" "cg_checksum g = cx_sha256 X (config_text X d)" "cg_maps_checksum g = cx_sha256 X (maps_text maps)"
    using assms(1,2) build
    by (auto simp: generate_and_apply_def Let_def config_text_def maps_text_def config_checksum_def maps_checksum_def split_beta
        split: prod.splits sum.splits)
  have "newest_generation (generations d @ [g]) = Some g"
    using assms(3) g(4) by (intro newest_generation_snoc) simp
  moreover have "newest_generation (filter (\<lambda>g. cg_validation_result g = Val_pass \<and> cg_applied g) (generations d) @ [g]) = Some g"
    using assms(3) g(4) by (intro newest_generation_snoc) simp
  ultimately show ?thesis
    using build g by (auto simp: last_good_generation_def)
qed

text \<open>
  The live files are the ones the state asks for; SHA-256 does not collide on the texts compared.
\<close>

definition live_config_is :: "machine \<Rightarrow> config_ext \<Rightarrow> db \<Rightarrow> bool" where
  "live_config_is m X d \<longleftrightarrow>
     (case build_maps (cx_decrypt X) d of
        Inl _ \<Rightarrow> False
      | Inr (maps, _) \<Rightarrow>
          list_all (\<lambda>(n, t). m_files m (RELAY_MAP_DIR, n) = Some (t, map_mode n)) maps \<and>
          map_option fst (m_files m (POSTFIX_CONFIG_DIR, ''main.cf'')) = Some (fst (render_config X d)) \<and>
          map_option fst (m_files m (POSTFIX_CONFIG_DIR, ''master.cf'')) = Some (snd (render_config X d)))"

definition hashed_texts :: "config_ext \<Rightarrow> db \<Rightarrow> pystr set" where
  "hashed_texts X d = {config_text X d} \<union>
     (case build_maps (cx_decrypt X) d of Inl _ \<Rightarrow> {} | Inr (maps, _) \<Rightarrow> {maps_text maps})"

definition contents_nul_free :: "config_ext \<Rightarrow> db \<Rightarrow> bool" where
  "contents_nul_free X d \<longleftrightarrow> (case build_maps (cx_decrypt X) d of Inl _ \<Rightarrow> True | Inr (maps, _) \<Rightarrow> no_nul maps)"

lemma live_config_unique:
  assumes "live_config_is m X d" "build_maps (cx_decrypt X) d = Inr (maps, w)" "build_maps (cx_decrypt X) d2 = Inr (maps2, w2)"
  shows "live_config_is m X d2 \<longleftrightarrow> maps2 = maps \<and> render_config X d2 = render_config X d"
proof -
  obtain a b p t l where m: "maps = [(''sender_login'', a), (''sender_relayhost'', b), (''sasl_passwd'', p),
    (''sender_transport'', t), (''tls_policy'', l)]" using build_maps_cases[OF assms(2)] .
  obtain a' b' p' t' l' where m2: "maps2 = [(''sender_login'', a'), (''sender_relayhost'', b'), (''sasl_passwd'', p'),
    (''sender_transport'', t'), (''tls_policy'', l')]" using build_maps_cases[OF assms(3)] .
  show ?thesis
    using assms(1) unfolding live_config_is_def assms(2,3) by (auto simp: m m2 prod_eq_iff)
qed

text \<open>C0: health tracks the live configuration.\<close>

theorem health_tracks_live_config:
  assumes "tools_local (sf_run (ch_env c))"
    and "generate_and_apply X surface_rpc new_id now who False d c = (Inr outcome, d', c')" "go_success outcome"
    and "\<forall>g\<in>set (generations d). cg_generated_at g < now"
    and "generations d2 = generations d'"
    and "contents_nul_free X d" "contents_nul_free X d2" "inj_on (cx_sha256 X) (hashed_texts X d \<union> hashed_texts X d2)"
    and "run_health_check f X d2 c2 = (Inr r, c3)"
  shows "ck_ok (hr_config_in_sync r) \<longleftrightarrow> live_config_is (ch_machine c') X d2"
proof -
  obtain maps warnings g where build: "build_maps (cx_decrypt X) d = Inr (maps, warnings)"
    and good: "last_good_generation d2 = Some g"
    and sums: "cg_checksum g = cx_sha256 X (config_text X d)" "cg_maps_checksum g = cx_sha256 X (maps_text maps)"
    using recorded_generation[OF assms(2,3,4)] assms(5) by (auto simp: last_good_generation_def)
  have live: "live_config_is (ch_machine c') X d"
    using generation_installs[OF assms(1-3)] by (auto simp: live_config_is_def list_all_iff)
  show ?thesis
  proof (cases "build_maps (cx_decrypt X) d2")
    case (Inl e)
    then have "\<not> ck_ok (hr_config_in_sync r)"
      using assms(9) by (auto simp: run_health_check_def check_sync_def good current_state_checksums_eq Let_def split_beta
          split: if_splits secret_error.splits)
    then show ?thesis using Inl by (simp add: live_config_is_def)
  next
    case (Inr built)
    obtain maps2 w2 where b2: "build_maps (cx_decrypt X) d2 = Inr (maps2, w2)" using Inr by (cases built) simp
    have "ck_ok (hr_config_in_sync r) \<longleftrightarrow>
        cx_sha256 X (config_text X d2) = cx_sha256 X (config_text X d) \<and> cx_sha256 X (maps_text maps2) = cx_sha256 X (maps_text maps)"
      using assms(9) by (auto simp: run_health_check_def check_sync_def good current_state_checksums_eq b2 sums Let_def split_beta
          split: if_splits)
    also have "\<dots> \<longleftrightarrow> config_text X d2 = config_text X d \<and> maps_text maps2 = maps_text maps"
      using inj_on_eq_iff[OF assms(8), of "config_text X d2" "config_text X d"]
        inj_on_eq_iff[OF assms(8), of "maps_text maps2" "maps_text maps"] by (simp add: hashed_texts_def build b2)
    also have "\<dots> \<longleftrightarrow> render_config X d2 = render_config X d \<and> maps2 = maps"
      using maps_text_inj[OF b2 build] assms(6,7) by (simp add: config_text_inj contents_nul_free_def build b2)
    finally show ?thesis using live_config_unique[OF live build b2] by auto
  qed
qed

lemma generation_tables:
  assumes "generate_and_apply X R new_id now who dry d w = (Inr outcome, d', w')"
  shows "senders d' = senders d" "accounts d' = accounts d" "local_users d' = local_users d" "permissions d' = permissions d"
  using assms by (auto simp: generate_and_apply_def Let_def split: prod.splits sum.splits if_splits)

lemma health_check_answers:
  assumes "build_maps (cx_decrypt X) d = Inr built"
  shows "\<exists>r c'. run_health_check f X d c = (Inr r, c')"
proof -
  obtain maps w where b: "built = (maps, w)" by (rule prod.exhaust)
  have "current_state_checksums X d = Inr (cx_sha256 X (config_text X d), cx_sha256 X (maps_text maps))"
    using assms by (simp add: current_state_checksums_eq b)
  then have "\<exists>r. check_sync X d = Inr r"
    by (cases "last_good_generation d") (simp_all add: check_sync_def Let_def)
  then show ?thesis by (auto simp: run_health_check_def Let_def split_beta)
qed

theorem health_tracks_live_config_witness:
  "\<exists>outcome d' c' r c3. generate_and_apply demo_config surface_rpc 1 0 None False demo_mail_db demo_channel =
       (Inr outcome, d', c') \<and> go_success outcome \<and> run_health_check None demo_config d' c' = (Inr r, c3) \<and>
     (ck_ok (hr_config_in_sync r) \<longleftrightarrow> live_config_is (ch_machine c') demo_config d')"
proof -
  obtain outcome d' c' where g: "generate_and_apply demo_config surface_rpc 1 0 None False demo_mail_db demo_channel =
     (Inr outcome, d', c')" and s: "go_success outcome"
    using demo_generation by blast
  have tools: "tools_local (sf_run (ch_env demo_channel))"
    by (simp add: demo_channel_def demo_env_def quiet_tools_local)
  have none: "generations demo_mail_db = []"
    by (simp add: demo_mail_db_def grant_permission_def empty_db_def)
  have build: "build_maps (cx_decrypt demo_config) d' = Inr (demo_maps, [])"
    using build_maps_cong[OF generation_tables[OF g]] demo_build by (simp add: demo_config_def)
  have "no_nul demo_maps" by code_simp
  then have free: "contents_nul_free demo_config d'" "contents_nul_free demo_config demo_mail_db"
    using build demo_build by (simp_all add: contents_nul_free_def demo_config_def)
  have inj: "inj_on (cx_sha256 demo_config) (hashed_texts demo_config demo_mail_db \<union> hashed_texts demo_config d')"
    by (simp add: demo_config_def)
  obtain r c3 where r: "run_health_check None demo_config d' c' = (Inr r, c3)"
    using health_check_answers[OF build] by blast
  have "ck_ok (hr_config_in_sync r) \<longleftrightarrow> live_config_is (ch_machine c') demo_config d'"
    by (rule health_tracks_live_config[OF tools g s _ refl free(2,1) inj r]) (simp add: none)
  then show ?thesis using g s r by blast
qed

section \<open>Anonymous requests\<close>

record anonymous_request =
  an_now :: datetime
  an_failure :: "pystr option"
  an_config :: config_ext
  an_db :: db
  an_channel :: channel

definition anonymous_step :: "anonymous_request \<Rightarrow> health_cache \<Rightarrow> health_cache" where
  "anonymous_step e cache =
     (case anonymous_report (an_now e) (an_failure e) (an_config e) (an_db e) cache (an_channel e) of (_, cache', _) \<Rightarrow> cache')"

definition check_raises :: "anonymous_request \<Rightarrow> bool" where
  "check_raises e = isl (fst (run_health_check (an_failure e) (an_config e) (an_db e) (an_channel e)))"

text \<open>
  The cache is an interval job: whatever many anonymous requests there are, the full checks that succeed are
  more than five seconds apart.
\<close>

interpretation anonymous_check: interval_job anonymous_step an_now an_now "map_option fst"
  "\<lambda>_. Some (ANONYMOUS_CACHE + 1)" "\<lambda>e _. check_raises e"
proof (unfold_locales, goal_cases)
  case (2 s i t e)
  then show ?case by (auto simp: anonymous_step_def anonymous_report_def Let_def)
next
  case (3 e s)
  then show ?case
    by (auto simp: anonymous_step_def anonymous_report_def check_raises_def Let_def split: option.splits prod.splits sum.splits)
next
  case (4 s i e)
  then show ?case
    by (cases s) (auto simp: anonymous_step_def anonymous_report_def check_raises_def Let_def split: option.splits prod.splits sum.splits)
qed simp_all

lemma cached_report_asks_nothing:
  "cache = Some (t, r) \<Longrightarrow> now - t \<le> ANONYMOUS_CACHE \<Longrightarrow> anonymous_report now f X d cache c = (Inr r, cache, c)"
  by (simp add: anonymous_report_def Let_def)

lemma anonymous_checks_spaced:
  "successively (\<lambda>a b. ANONYMOUS_CACHE + 1 \<le> an_now b - an_now a) (anonymous_check.worked es cache)"
  by (rule anonymous_check.worked_spaced) simp

text \<open>Without a session the details stay inside.\<close>

lemma anonymous_sees_no_detail:
  "health now f X None d cache c = (Inr r, cache', c') \<Longrightarrow>
   ck_detail (hr_database r) = [] \<and> ck_detail (hr_postfix_reachable r) = [] \<and> ck_detail (hr_postfix_running r) = [] \<and>
   ck_detail (hr_config_in_sync r) = []"
  by (auto simp: health_def health_response_def detail_for_def split: prod.splits sum.splits)

end
