(* ===== verification/Housekeeping.thy ===== *)
theory Housekeeping
  imports Login_Limit Interval_Job Mail_Log_Parser
begin

text \<open>
  The daily jobs: \<open>core/retention.py\<close>, which deletes old log rows, and \<open>core/update_check.py\<close>, which looks for newer
  releases.  Both ticks are interval jobs.  Deleting old audit rows leaves every answer of the login rate
  limiter, whose only state they are, as it was.
\<close>

section \<open>Retention (\<open>core/retention.py\<close>)\<close>

definition RETENTION_INTERVAL :: timedelta where "RETENTION_INTERVAL = hours 24"

text \<open>\<open>now - timedelta(days=n)\<close>: an \<open>OverflowError\<close> before the year 1, the first moment a \<open>datetime\<close> has.\<close>

definition MIN_DATETIME :: datetime where "MIN_DATETIME = - days 719162"

definition minus_checked :: "datetime \<Rightarrow> timedelta \<Rightarrow> datetime option" where
  "minus_checked now t = (if now - t < MIN_DATETIME then None else Some (now - t))"

definition cutoff :: "datetime \<Rightarrow> int option \<Rightarrow> datetime option option" where
  "cutoff now retention_days =
     (case retention_days of None \<Rightarrow> Some None | Some n \<Rightarrow> map_option Some (minus_checked now (days n)))"

definition expired :: "datetime option \<Rightarrow> datetime \<Rightarrow> bool" where
  "expired limit timestamp \<longleftrightarrow> (case limit of None \<Rightarrow> False | Some t \<Rightarrow> timestamp < t)"

text \<open>The counts of deleted rows and the new database, or none for the \<open>OverflowError\<close>.\<close>

definition run_retention_cleanup :: "datetime \<Rightarrow> datetime \<Rightarrow> db \<Rightarrow> ((nat \<times> nat) \<times> db) option" where
  "run_retention_cleanup mail_now audit_now d0 =
     (let (settings, d) = get_relay_settings d0
      in case cutoff mail_now (rs_mail_log_retention_days settings) of
           None \<Rightarrow> None
         | Some mail_limit \<Rightarrow>
             (case cutoff audit_now (rs_audit_log_retention_days settings) of
                None \<Rightarrow> None
              | Some audit_limit \<Rightarrow>
                  Some ((length (filter (\<lambda>m. expired mail_limit (ml_timestamp m)) (mail_logs d)),
                         length (filter (\<lambda>a. expired audit_limit (al_timestamp a)) (audits d))),
                        d\<lparr>mail_logs := filter (\<lambda>m. \<not> expired mail_limit (ml_timestamp m)) (mail_logs d),
                          audits := filter (\<lambda>a. \<not> expired audit_limit (al_timestamp a)) (audits d)\<rparr>)))"

record retention_tick =
  rt_started :: datetime
  rt_mail_now :: datetime
  rt_audit_now :: datetime
  rt_stamped :: datetime
  rt_audit_id :: int
  rt_audit_at :: datetime

definition retention_cleanup_tick :: "retention_tick \<Rightarrow> db \<Rightarrow> db" where
  "retention_cleanup_tick e d0 =
     (let (settings, d1) = get_relay_settings d0
      in if rs_mail_log_retention_days settings = None \<and> rs_audit_log_retention_days settings = None then d0
         else
           (let (state, d2) = get_background_job_state d1
            in if (case bj_retention_cleanup_last_run_at state of None \<Rightarrow> False
                   | Some t \<Rightarrow> rt_started e - t < RETENTION_INTERVAL)
               then d0
               else case run_retention_cleanup (rt_mail_now e) (rt_audit_now e) d2 of
                   None \<Rightarrow> d0
                 | Some ((mail_deleted, audit_deleted), d3) \<Rightarrow>
                     (let d4 = d3\<lparr>job_state := Some (state\<lparr>bj_retention_cleanup_last_run_at := Some (rt_stamped e)\<rparr>)\<rparr>
                      in if mail_deleted \<noteq> 0 \<or> audit_deleted \<noteq> 0
                         then record_audit (rt_audit_id e) (rt_audit_at e) None ''retention.cleanup'' None None
                                (Some [(''mail_log_deleted'', JInt (int mail_deleted)),
                                       (''audit_log_deleted'', JInt (int audit_deleted))]) None d4
                         else d4)))"

section \<open>Update checks (\<open>core/update_check.py\<close>)\<close>

text \<open>
  \<open>\d+(\.\d+)*\<close>, matched in full: the parts between the dots are nonempty and all digits.  \<open>int\<close> refuses
  more than 4300 digits with a \<open>ValueError\<close>.
\<close>

definition MAX_STR_DIGITS :: nat where "MAX_STR_DIGITS = 4300"

definition parse_version :: "pystr \<Rightarrow> value_error + int list option" where
  "parse_version value =
     (let parts = split_on (CHR ''.'') value
      in if \<not> list_all (\<lambda>p. p \<noteq> [] \<and> list_all is_digit p) parts then Inr None
         else if list_ex (\<lambda>p. length p > MAX_STR_DIGITS) parts
         then Inl (ValueError ''Exceeds the limit (4300 digits) for integer string conversion'')
         else Inr (Some (map int_of_digits parts)))"

text \<open>
  The decoded answer of the releases API, or none when the request or the decoding failed; anything that is
  not an object with a text under \<open>tag_name\<close> raises inside the \<open>try\<close>.
\<close>

definition check_app_update :: "json option \<Rightarrow> pystr option" where
  "check_app_update answer =
     (case answer of
        Some (JObj data) \<Rightarrow>
          (case map_of data ''tag_name'' of
             None \<Rightarrow> None
           | Some (JStr tag) \<Rightarrow> (let v = lstrip_of (\<lambda>c. c = CHR ''v'') tag in if v = [] then None else Some v)
           | Some _ \<Rightarrow> None)
      | _ \<Rightarrow> None)"

definition stable_release :: pattern where
  "stable_release =
     seq [One (\<lambda>c. c = CHR ''S'' \<or> c = CHR ''s''), lit ''table release'', Many (\<lambda>c. \<not> is_digit c) 0 (Some 20),
          Group ''1'' (seq [Many is_digit 1 None, lit ''.'', Many is_digit 1 None, Maybe (seq [lit ''.'', Many is_digit 1 None])])]"

definition check_postfix_update :: "pystr option \<Rightarrow> pystr option" where
  "check_postfix_update html =
     (case html of None \<Rightarrow> None | Some page \<Rightarrow> group_of ''1'' (re_search stable_release page))"

datatype outbound = Github_releases | Postfix_download

record update_tick =
  ut_started :: datetime
  ut_now :: datetime
  ut_releases :: "json option"
  ut_download_page :: "pystr option"

definition run_checks :: "update_tick \<Rightarrow> db \<Rightarrow> db" where
  "run_checks e d0 =
     (let (state, d) = get_background_job_state d0;
          state1 = (case check_app_update (ut_releases e) of
              None \<Rightarrow> state
            | Some v \<Rightarrow> state\<lparr>bj_latest_app_version := Some v, bj_latest_app_version_checked_at := Some (ut_now e)\<rparr>);
          state2 = (case check_postfix_update (ut_download_page e) of
              None \<Rightarrow> state1
            | Some v \<Rightarrow> state1\<lparr>bj_latest_postfix_version := Some v, bj_latest_postfix_version_checked_at := Some (ut_now e)\<rparr>)
      in d\<lparr>job_state := Some (state2\<lparr>bj_update_check_last_run_at := Some (ut_now e)\<rparr>)\<rparr>)"

definition UPDATE_CHECK_INTERVAL :: timedelta where "UPDATE_CHECK_INTERVAL = hours 24"

text \<open>The second component is what the tick asks of the outside.\<close>

definition update_check_tick :: "update_tick \<Rightarrow> db \<Rightarrow> db \<times> outbound list" where
  "update_check_tick e d0 =
     (let (settings, d1) = get_relay_settings d0
      in if \<not> rs_update_check_enabled settings then (d0, [])
         else
           (let (state, d2) = get_background_job_state d1
            in if (case bj_update_check_last_run_at state of None \<Rightarrow> False
                   | Some t \<Rightarrow> ut_started e - t < UPDATE_CHECK_INTERVAL)
               then (d0, [])
               else (run_checks e d2, [Github_releases, Postfix_download])))"

section \<open>The jobs\<close>

lemma cleanup_keeps:
  "run_retention_cleanup m a d = Some (counts, d') \<Longrightarrow>
   the_settings d' = the_settings d \<and> job_state d' = job_state d"
  by (auto simp: run_retention_cleanup_def get_relay_settings_eq Let_def split: option.splits)

definition retention_wanted :: "db \<Rightarrow> bool" where
  "retention_wanted d \<longleftrightarrow>
     rs_mail_log_retention_days (the_settings d) \<noteq> None \<or> rs_audit_log_retention_days (the_settings d) \<noteq> None"

definition retention_overflows :: "retention_tick \<Rightarrow> db \<Rightarrow> bool" where
  "retention_overflows e d \<longleftrightarrow>
     cutoff (rt_mail_now e) (rs_mail_log_retention_days (the_settings d)) = None \<or>
     cutoff (rt_audit_now e) (rs_audit_log_retention_days (the_settings d)) = None"

lemma run_retention_cleanup_None:
  "the_settings d' = the_settings d \<Longrightarrow>
   run_retention_cleanup (rt_mail_now e) (rt_audit_now e) d' = None \<longleftrightarrow> retention_overflows e d"
  by (auto simp: run_retention_cleanup_def get_relay_settings_eq retention_overflows_def Let_def split: option.splits)

lemma the_jobs_with_settings [simp]: "the_jobs (d\<lparr>settings_row := r\<rparr>) = the_jobs d"
  by (cases "job_state d") simp_all

lemma the_settings_stored [simp]:
  "the_settings (d\<lparr>settings_row := Some (the_settings d), job_state := j\<rparr>) = the_settings d"
  by simp

lemma retention_tick_works:
  assumes "retention_wanted d" "\<not> retention_overflows e d"
    and "\<forall>t. bj_retention_cleanup_last_run_at (the_jobs d) = Some t \<longrightarrow> RETENTION_INTERVAL \<le> rt_started e - t"
  shows "bj_retention_cleanup_last_run_at (the_jobs (retention_cleanup_tick e d)) = Some (rt_stamped e)"
proof -
  let ?d2 = "d\<lparr>settings_row := Some (the_settings d), job_state := Some (the_jobs d)\<rparr>"
  obtain m a d3 where r: "run_retention_cleanup (rt_mail_now e) (rt_audit_now e) ?d2 = Some ((m, a), d3)"
    using run_retention_cleanup_None[of ?d2 d e] assms(2) by (cases "run_retention_cleanup (rt_mail_now e) (rt_audit_now e) ?d2") auto
  show ?thesis
    using assms(1,3) r
    by (auto simp: retention_cleanup_tick_def get_relay_settings_eq get_background_job_state_eq retention_wanted_def Let_def
        split: option.splits)
qed

lemma retention_tick_settings: "the_settings (retention_cleanup_tick e d) = the_settings d"
proof -
  let ?d2 = "d\<lparr>settings_row := Some (the_settings d), job_state := Some (the_jobs d)\<rparr>"
  show ?thesis
  proof (cases "run_retention_cleanup (rt_mail_now e) (rt_audit_now e) ?d2")
    case (Some r)
    obtain m a d3 where r: "r = ((m, a), d3)" by (metis prod.exhaust)
    have "settings_row d3 = Some (the_settings d)"
      using Some r by (auto simp: run_retention_cleanup_def get_relay_settings_eq Let_def split: option.splits)
    then show ?thesis
      using Some r by (simp add: retention_cleanup_tick_def get_relay_settings_eq get_background_job_state_eq Let_def)
  qed (simp add: retention_cleanup_tick_def get_relay_settings_eq get_background_job_state_eq Let_def)
qed

interpretation retention_job: interval_job retention_cleanup_tick rt_started rt_stamped
  "\<lambda>d. bj_retention_cleanup_last_run_at (the_jobs d)"
  "\<lambda>d. if retention_wanted d then Some RETENTION_INTERVAL else None" retention_overflows
proof (unfold_locales, goal_cases)
  case (1 s e)
  then show ?case by (simp add: retention_cleanup_tick_def get_relay_settings_eq retention_wanted_def split: if_splits)
next
  case (2 s i t e)
  then show ?case
    by (simp add: retention_cleanup_tick_def get_relay_settings_eq get_background_job_state_eq Let_def split: if_splits)
next
  case (3 e s)
  then show ?case
    using run_retention_cleanup_None[of "s\<lparr>settings_row := Some (the_settings s), job_state := Some (the_jobs s)\<rparr>" s e]
    by (simp add: retention_cleanup_tick_def get_relay_settings_eq get_background_job_state_eq Let_def)
next
  case (4 s i e)
  then show ?case using retention_tick_works[of s e] by (auto split: if_splits)
next
  case (5 e s)
  show ?case by (simp add: retention_wanted_def retention_tick_settings)
qed

interpretation update_job: interval_job "\<lambda>e d. fst (update_check_tick e d)" ut_started ut_now
  "\<lambda>d. bj_update_check_last_run_at (the_jobs d)"
  "\<lambda>d. if rs_update_check_enabled (the_settings d) then Some UPDATE_CHECK_INTERVAL else None" "\<lambda>_ _. False"
proof (unfold_locales, goal_cases)
  case (1 s e)
  then show ?case by (simp add: update_check_tick_def get_relay_settings_eq split: if_splits)
next
  case (2 s i t e)
  then show ?case
    by (simp add: update_check_tick_def get_relay_settings_eq get_background_job_state_eq split: if_splits)
next
  case (4 s i e)
  then show ?case
    by (auto simp: update_check_tick_def get_relay_settings_eq get_background_job_state_eq run_checks_def Let_def
        split: if_splits option.splits)
next
  case (5 e s)
  show ?case
    by (auto simp: update_check_tick_def get_relay_settings_eq get_background_job_state_eq run_checks_def Let_def
        split: option.splits)
qed simp

lemma no_calls_when_off: "\<not> rs_update_check_enabled (the_settings d) \<Longrightarrow> update_check_tick e d = (d, [])"
  by (simp add: update_check_tick_def get_relay_settings_eq)

text \<open>The schema has no upper bound: a retention that reaches back before the year 1 makes every tick raise, and nothing is ever deleted.\<close>

lemma huge_retention_never_cleans:
  "rs_mail_log_retention_days (the_settings d) = Some n \<Longrightarrow> rt_mail_now e - days n < MIN_DATETIME \<Longrightarrow> retention_cleanup_tick e d = d"
  by (rule retention_job.raised) (simp add: retention_overflows_def cutoff_def minus_checked_def)

section \<open>Retention and the login limiter\<close>

lemma newest_max: "xs \<noteq> [] \<Longrightarrow> newest xs = Max (set xs)"
proof -
  assume "xs \<noteq> []"
  then obtain x ys where "xs = x # ys" by (cases xs) auto
  then show ?thesis by (simp only: newest_def Max.set_eq_fold list.sel)
qed

lemma newest_window:
  assumes "\<forall>x\<in>set xs. \<not> P x \<longrightarrow> f x \<le> w"
  shows "(if filter P xs = [] then w else max (newest (map f (filter P xs))) w) = (if xs = [] then w else max (newest (map f xs)) w)"
proof (cases "filter P xs = []")
  case True
  have "Max (f ` set xs) \<le> w" if "xs \<noteq> []"
    using assms True that by (auto simp: filter_empty_conv)
  then show ?thesis using True by (auto simp: newest_max)
next
  case False
  then have ne: "xs \<noteq> []" by auto
  let ?m = "Max (f ` set (filter P xs))"
  have "max ?m w = max (Max (f ` set xs)) w"
  proof (rule antisym)
    have "?m \<le> Max (f ` set xs)" using False by (intro Max_mono) (auto simp: filter_empty_conv)
    then show "max ?m w \<le> max (Max (f ` set xs)) w" by simp
    have "Max (f ` set xs) \<in> f ` set xs" using ne by (intro Max_in) simp_all
    then obtain x where x: "x \<in> set xs" "Max (f ` set xs) = f x" by auto
    have "f x \<le> w \<or> f x \<le> ?m" using assms x(1) by (cases "P x") (auto intro: Max_ge)
    then show "max (Max (f ` set xs)) w \<le> max ?m w" using x(2) by auto
  qed
  then show ?thesis using False ne by (simp add: newest_max)
qed

lemma limiter_ignores_old_rows:
  assumes "\<forall>a. \<not> P a \<longrightarrow> al_timestamp a < now - seconds (rate_limit_window_seconds cfg)"
  shows "check_rate_limit cfg now who ip (only_rows P d) = check_rate_limit cfg now who ip d"
proof -
  let ?w = "now - seconds (rate_limit_window_seconds cfg)"
  have kept: "P a" if "?w \<le> al_timestamp a" for a using assms that by fastforce
  have worst: "worst_case cfg (\<lambda>a. Q a \<and> lo \<le> al_timestamp a) now f (only_rows P d) =
      worst_case cfg (\<lambda>a. Q a \<and> lo \<le> al_timestamp a) now f d" if "?w \<le> lo" for Q lo f
    using that kept by (intro worst_case_only) (meson order.trans)
  show ?thesis
  proof (cases who)
    case None
    then show ?thesis using worst[of ?w "\<lambda>a. al_admin_user_id a = None \<and> al_ip_address a = ip" 1]
      by (simp add: check_rate_limit_def Let_def conj_assoc)
  next
    case (Some i)
    let ?s = "\<lambda>a. al_action a = LOGIN_SUCCESS \<and> al_admin_user_id a = Some i"
    let ?since = "\<lambda>d. (let successes = map al_timestamp (filter ?s (audits d))
      in if successes = [] then ?w else max (newest successes) ?w)"
    have rows: "filter ?s (audits (only_rows P d)) = filter P (filter ?s (audits d))"
      by (simp add: only_rows_def conj_commute)
    have since: "?since (only_rows P d) = ?since d"
      unfolding Let_def rows list.map_disc_iff by (rule newest_window) (use assms less_imp_le in blast)
    have later: "?w \<le> ?since d" by (simp add: Let_def)
    show ?thesis
      using since worst[OF later, of "\<lambda>a. al_admin_user_id a = Some i" ACCOUNT_WIDE_FACTOR]
        worst[OF later, of "\<lambda>a. al_admin_user_id a = Some i \<and> al_ip_address a = ip" 1]
      by (simp add: check_rate_limit_def Some Let_def conj_ac)
  qed
qed

lemma limiter_cong:
  assumes "audits d' = audits d"
  shows "check_rate_limit cfg now who ip d' = check_rate_limit cfg now who ip d"
  unfolding check_rate_limit_def worst_case_def assms ..

text \<open>An audited action that is no login does not count.\<close>

lemma limiter_other_action:
  assumes "action \<noteq> LOGIN_FAILURE" "action \<noteq> LOGIN_SUCCESS"
  shows "check_rate_limit cfg now who ip (record_audit i t a action tt tid detail p d) = check_rate_limit cfg now who ip d"
proof -
  have "audits (only_rows (relevant_rows who ip) (record_audit i t a action tt tid detail p d)) =
      audits (only_rows (relevant_rows who ip) d)"
    using assms by (simp add: only_rows_def record_audit_def relevant_rows_def)
  then show ?thesis using limiter_cong limiter_independence by metis
qed

text \<open>What one cleanup does: exactly the rows older than their limit go.\<close>

lemma cleanup_exact:
  assumes "run_retention_cleanup m a d = Some ((n, k), d')"
  obtains mail_limit audit_limit where "cutoff m (rs_mail_log_retention_days (the_settings d)) = Some mail_limit"
    "cutoff a (rs_audit_log_retention_days (the_settings d)) = Some audit_limit"
    "mail_logs d' = filter (\<lambda>r. \<not> expired mail_limit (ml_timestamp r)) (mail_logs d)"
    "audits d' = filter (\<lambda>r. \<not> expired audit_limit (al_timestamp r)) (audits d)"
    "n = length (filter (\<lambda>r. expired mail_limit (ml_timestamp r)) (mail_logs d))"
    "k = length (filter (\<lambda>r. expired audit_limit (al_timestamp r)) (audits d))"
proof -
  obtain mail_limit audit_limit where l: "cutoff m (rs_mail_log_retention_days (the_settings d)) = Some mail_limit"
    "cutoff a (rs_audit_log_retention_days (the_settings d)) = Some audit_limit"
    using assms by (auto simp: run_retention_cleanup_def get_relay_settings_eq Let_def split: option.splits)
  have "mail_logs d' = filter (\<lambda>r. \<not> expired mail_limit (ml_timestamp r)) (mail_logs d)"
    "audits d' = filter (\<lambda>r. \<not> expired audit_limit (al_timestamp r)) (audits d)"
    "n = length (filter (\<lambda>r. expired mail_limit (ml_timestamp r)) (mail_logs d))"
    "k = length (filter (\<lambda>r. expired audit_limit (al_timestamp r)) (audits d))"
    using assms l by (auto simp: run_retention_cleanup_def get_relay_settings_eq Let_def)
  then show thesis using that l by blast
qed

definition retention_ok :: "db \<Rightarrow> bool" where
  "retention_ok d \<longleftrightarrow>
     (case rs_mail_log_retention_days (the_settings d) of None \<Rightarrow> True | Some n \<Rightarrow> 1 \<le> n) \<and>
     (case rs_audit_log_retention_days (the_settings d) of None \<Rightarrow> True | Some n \<Rightarrow> 1 \<le> n)"

lemma tick_keeps_lockout:
  assumes "retention_ok d" "rate_limit_window_seconds cfg \<le> 24 * 60 * 60" "rt_audit_now e \<le> now"
  shows "check_rate_limit cfg now who ip (retention_cleanup_tick e d) = check_rate_limit cfg now who ip d"
proof -
  let ?d2 = "d\<lparr>settings_row := Some (the_settings d), job_state := Some (the_jobs d)\<rparr>"
  have idle: ?thesis if "retention_cleanup_tick e d = d" using that by simp
  show ?thesis
  proof (cases "run_retention_cleanup (rt_mail_now e) (rt_audit_now e) ?d2")
    case None
    then show ?thesis
      by (intro idle) (simp add: retention_cleanup_tick_def get_relay_settings_eq get_background_job_state_eq Let_def)
  next
    case (Some r)
    obtain n k d3 where r: "r = ((n, k), d3)" by (metis prod.exhaust)
    obtain limit where limit: "cutoff (rt_audit_now e) (rs_audit_log_retention_days (the_settings d)) = Some limit"
      and rows: "audits d3 = filter (\<lambda>r. \<not> expired limit (al_timestamp r)) (audits d)"
      using cleanup_exact[OF Some[unfolded r]] by auto
    have window: "seconds (rate_limit_window_seconds cfg) \<le> days 1"
      using assms(2) by (simp add: time_defs)
    have old: "t < now - seconds (rate_limit_window_seconds cfg)" if "expired limit t" for t
    proof -
      note gone = that
      obtain c where c: "limit = Some c" "t < c" using gone by (cases limit) (simp_all add: expired_def)
      then obtain m where m0: "rs_audit_log_retention_days (the_settings d) = Some m" "c = rt_audit_now e - days m"
        using limit by (cases "rs_audit_log_retention_days (the_settings d)") (auto simp: cutoff_def minus_checked_def split: if_splits)
      then have m: "t < rt_audit_now e - days m" "1 \<le> m"
        using c(2) assms(1) by (simp_all add: retention_ok_def)
      have "days 1 \<le> days m" using m(2) by (simp add: time_defs)
      then show ?thesis using m(1) window assms(3) by linarith
    qed
    have "check_rate_limit cfg now who ip d3 =
        check_rate_limit cfg now who ip (only_rows (\<lambda>r. \<not> expired limit (al_timestamp r)) d)"
      by (rule limiter_cong) (simp add: rows only_rows_def)
    also have "\<dots> = check_rate_limit cfg now who ip d"
      by (rule limiter_ignores_old_rows) (use old in auto)
    finally have d3: "check_rate_limit cfg now who ip d3 = check_rate_limit cfg now who ip d" .
    have stamped: "check_rate_limit cfg now who ip (d3\<lparr>job_state := j\<rparr>) = check_rate_limit cfg now who ip d" for j
      using limiter_cong[of "d3\<lparr>job_state := j\<rparr>" d3] d3 by simp
    have other: "''retention.cleanup'' \<noteq> LOGIN_FAILURE" "''retention.cleanup'' \<noteq> LOGIN_SUCCESS"
      by (simp_all add: LOGIN_FAILURE_def LOGIN_SUCCESS_def)
    show ?thesis
      using Some r stamped limiter_other_action[OF other]
      by (simp add: retention_cleanup_tick_def get_relay_settings_eq get_background_job_state_eq Let_def)
  qed
qed

end
