(* ===== verification/Alerts.thy ===== *)
theory Alerts
  imports Health Housekeeping Tls_Settings
begin

text \<open>
  \<open>core/alerts.py\<close>: the list of active alerts, computed anew from the state on every call, and the routes of
  \<open>api/routes/alerts.py\<close>.  The lemmas say exactly which alerts a list holds; an acknowledgement changes no alert of another kind
  and never hides a later version.
\<close>

section \<open>Alerts\<close>

datatype kind = Health_degraded | Upstream_test_failure | Rate_limit_abuse | App_update_available | Postfix_update_available

definition kind_name :: "kind \<Rightarrow> pystr" where
  "kind_name k = (case k of Health_degraded \<Rightarrow> ''health_degraded'' | Upstream_test_failure \<Rightarrow> ''upstream_test_failure''
     | Rate_limit_abuse \<Rightarrow> ''rate_limit_abuse'' | App_update_available \<Rightarrow> ''app_update_available''
     | Postfix_update_available \<Rightarrow> ''postfix_update_available'')"

record alert =
  at_kind :: kind
  at_key :: pystr
  at_title :: pystr
  at_detail :: pystr
  at_target_type :: "pystr option"
  at_target_id :: "int option"
  at_acknowledgeable :: bool
  at_acknowledged :: bool

text \<open>
  What leaves \<open>compute_active_alerts\<close> as an exception: a password that is not UTF-8, a threshold that reaches
  back before the year 1, a version number too long for \<open>int\<close>.
\<close>

datatype alerts_exn = Health_exn secret_error | Overflow_exn | Version_exn

definition update_alert ::
  "kind \<Rightarrow> pystr \<Rightarrow> pystr option \<Rightarrow> pystr option \<Rightarrow> pystr option \<Rightarrow> alerts_exn + alert option" where
  "update_alert kind title_prefix installed_version latest_version acknowledged_version =
     (case (latest_version, installed_version) of
        (Some latest_text, Some installed_text) \<Rightarrow>
          (case parse_version latest_text of
             Inl _ \<Rightarrow> Inl Version_exn
           | Inr latest \<Rightarrow>
               (case parse_version installed_text of
                  Inl _ \<Rightarrow> Inl Version_exn
                | Inr installed \<Rightarrow>
                    Inr (case (latest, installed) of
                        (Some l, Some i) \<Rightarrow>
                          if l \<le> i then None
                          else Some \<lparr>at_kind = kind, at_key = kind_name kind, at_title = title_prefix @ '' update available'',
                                     at_detail = installed_text @ '' installed, '' @ latest_text @ '' available'',
                                     at_target_type = None, at_target_id = None, at_acknowledgeable = True,
                                     at_acknowledged = (acknowledged_version = Some latest_text)\<rparr>
                      | _ \<Rightarrow> None)))
      | _ \<Rightarrow> Inr None)"

definition health_alert :: alert where
  "health_alert = \<lparr>at_kind = Health_degraded, at_key = ''health_degraded'', at_title = ''Relay is degraded'',
     at_detail = ''See Settings '' @ [CHR 0xE2, CHR 0x86, CHR 0x92] @ '' System for details.'',
     at_target_type = None, at_target_id = None, at_acknowledgeable = False, at_acknowledged = False\<rparr>"

definition account_alert :: "upstream_account \<Rightarrow> alert" where
  "account_alert a = \<lparr>at_kind = Upstream_test_failure, at_key = ''upstream_test_failure:'' @ str_of_int (ua_id a),
     at_title = ''Upstream account \"'' @ ua_name a @ ''\" is failing its connection test'',
     at_detail = (case ua_last_test_error a of None \<Rightarrow> [] | Some e \<Rightarrow> e),
     at_target_type = Some ''upstream_account'', at_target_id = Some (ua_id a), at_acknowledgeable = False, at_acknowledged = False\<rparr>"

text \<open>The format \<open>%Y-%m-%d %H:%M\<close> of a datetime.\<close>

definition minute_text :: "datetime \<Rightarrow> pystr" where
  "minute_text t =
     (let (y, m, d) = civil_of_days (t div days 1); r = t mod days 1
      in padded 4 y @ ''-'' @ padded 2 m @ ''-'' @ padded 2 d @ '' '' @
         padded 2 (r div hours 1) @ '':'' @ padded 2 (r mod hours 1 div minutes 1))"

definition throttled_alert :: "local_smtp_user \<Rightarrow> datetime \<Rightarrow> alert" where
  "throttled_alert u since = \<lparr>at_kind = Rate_limit_abuse, at_key = ''rate_limit_abuse:'' @ str_of_int (lu_id u),
     at_title = ''Local user \"'' @ lu_name u @ ''\" is being throttled continuously'',
     at_detail =
       (if lu_enabled u
        then ''No messages have gone through since '' @ minute_text since @ '' UTC '' @ em_dash @
             '' investigate before it exhausts a shared upstream mailbox's tolerance.''
        else ''Automatically disabled after being throttled continuously since '' @ minute_text since @
             '' UTC. Re-enable it once the underlying issue is fixed.''),
     at_target_type = Some ''local_smtp_user'', at_target_id = Some (lu_id u), at_acknowledgeable = False, at_acknowledged = False\<rparr>"

text \<open>The loop over the throttled users: an enabled user's streak counts only while deferrals keep coming.\<close>

definition throttled_user_alert :: "datetime \<Rightarrow> datetime \<Rightarrow> local_smtp_user \<Rightarrow> alert option" where
  "throttled_user_alert since_cutoff active_cutoff u =
     (case lu_streak_started_at u of
        None \<Rightarrow> None
      | Some since \<Rightarrow>
          if since > since_cutoff then None
          else if lu_enabled u \<and> (case lu_streak_last_at u of None \<Rightarrow> True | Some t \<Rightarrow> t < active_cutoff) then None
          else Some (throttled_alert u since))"

text \<open>
  The parameters: the two clock readings, the result of \<open>SELECT 1\<close>, the generator's environment and
  \<open>version("relay")\<close>.
\<close>

record alert_env =
  ae_now :: datetime
  ae_now2 :: datetime
  ae_db_failure :: "pystr option"
  ae_config :: config_ext
  ae_app_version :: pystr

definition option_list :: "'a option \<Rightarrow> 'a list" where
  "option_list x = (case x of None \<Rightarrow> [] | Some y \<Rightarrow> [y])"

definition compute_active_alerts :: "alert_env \<Rightarrow> db \<Rightarrow> channel \<Rightarrow> (alerts_exn + alert list) \<times> channel" where
  "compute_active_alerts E d0 c =
     (case run_health_check (ae_db_failure E) (ae_config E) d0 c of
        (Inl e, c1) \<Rightarrow> (Inl (Health_exn e), c1)
      | (Inr report, c1) \<Rightarrow>
          (let (settings, d1) = get_relay_settings d0;
               degraded = (if hr_status report \<noteq> ''ok'' then [health_alert] else []);
               failing = map account_alert (filter (\<lambda>a. ua_last_test_result a = Some Test_failure) (accounts d1))
           in case minus_checked (ae_now E) (minutes (rs_rate_limit_abuse_threshold_minutes settings)) of
                None \<Rightarrow> (Inl Overflow_exn, c1)
              | Some since_cutoff \<Rightarrow>
                  (let throttled = List.map_filter (throttled_user_alert since_cutoff (ae_now2 E - DEFER_STREAK_GAP)) (local_users d1);
                       (state, d2) = get_background_job_state d1
                   in case update_alert App_update_available ''SMTP Credential Broker'' (Some (ae_app_version E))
                             (bj_latest_app_version state) (bj_app_update_acknowledged_version state) of
                        Inl e \<Rightarrow> (Inl e, c1)
                      | Inr app \<Rightarrow>
                          (let (installed, c2) = ctl_version c1
                           in case update_alert Postfix_update_available ''Postfix''
                                     (case installed of Inl _ \<Rightarrow> None | Inr v \<Rightarrow> Some v)
                                     (bj_latest_postfix_version state) (bj_postfix_update_acknowledged_version state) of
                                Inl e \<Rightarrow> (Inl e, c2)
                              | Inr postfix \<Rightarrow>
                                  (Inr (degraded @ failing @ throttled @ option_list app @ option_list postfix), c2)))))"

section \<open>The routes (\<open>api/routes/alerts.py\<close>)\<close>

definition list_alerts :: "alert_env \<Rightarrow> db \<Rightarrow> channel \<Rightarrow> (http_error + alert list \<times> nat) \<times> channel" where
  "list_alerts E d c =
     (case compute_active_alerts E d c of
        (Inl _, c') \<Rightarrow> (Inl internal_error, c')
      | (Inr alerts, c') \<Rightarrow> (Inr (alerts, length (filter (\<lambda>a. \<not> at_acknowledged a) alerts)), c'))"

definition acknowledge_alert :: "admin_request \<Rightarrow> pystr \<Rightarrow> db \<Rightarrow> (http_error + unit) \<times> db" where
  "acknowledge_alert rq kind d0 =
     (if kind \<noteq> ''app_update_available'' \<and> kind \<noteq> ''postfix_update_available''
      then (Inl (HTTPException 404 (py_repr kind @ '' is not an acknowledgeable alert kind'')), d0)
      else
        (let (state, d) = get_background_job_state d0;
             latest = (if kind = ''app_update_available'' then bj_latest_app_version state else bj_latest_postfix_version state);
             state' = (if kind = ''app_update_available'' then state\<lparr>bj_app_update_acknowledged_version := latest\<rparr>
                       else state\<lparr>bj_postfix_update_acknowledged_version := latest\<rparr>)
         in (Inr (),
             record_audit (aq_audit_id rq) (aq_now rq) (Some (aq_admin_id rq)) ''alert.acknowledge'' (Some ''alert'') None
               (Some [(''kind'', JStr kind), (''acknowledged_version'', optional_str latest)]) (aq_ip rq)
               (d\<lparr>job_state := Some state'\<rparr>))))"

section \<open>Which alerts there are\<close>

lemma update_alert_kind: "update_alert k t i l a = Inr (Some x) \<Longrightarrow> at_kind x = k"
  by (auto simp: update_alert_def split: option.splits sum.splits if_splits)

lemma update_alert_iff:
  assumes "update_alert k t installed latest acked = Inr x"
  shows "x \<noteq> None \<longleftrightarrow> (\<exists>i l vi vl. installed = Some i \<and> latest = Some l \<and> parse_version i = Inr (Some vi) \<and>
     parse_version l = Inr (Some vl) \<and> vi < vl)"
    and "x = Some y \<Longrightarrow> at_acknowledged y \<longleftrightarrow> acked = latest"
  using assms by (auto simp: update_alert_def split: option.splits sum.splits if_splits)

text \<open>An upstream alert for exactly the accounts whose last test failed\<close>

lemma throttled_user_alert_iff:
  "throttled_user_alert since recent u \<noteq> None \<longleftrightarrow>
     (\<exists>t. lu_streak_started_at u = Some t \<and> t \<le> since \<and>
        (lu_enabled u \<longrightarrow> (\<exists>l. lu_streak_last_at u = Some l \<and> recent \<le> l)))"
  by (auto simp: throttled_user_alert_def split: option.splits if_splits)

lemma throttled_kind: "throttled_user_alert since recent u = Some x \<Longrightarrow> x = throttled_alert u (the (lu_streak_started_at u))"
  by (auto simp: throttled_user_alert_def split: option.splits if_splits)

lemma kinds_of_parts [simp]:
  "at_kind health_alert = Health_degraded" "at_kind (account_alert a) = Upstream_test_failure"
  "at_kind (throttled_alert u t) = Rate_limit_abuse"
  by (simp_all add: health_alert_def account_alert_def throttled_alert_def)

lemma alerts_exact:
  assumes "compute_active_alerts E d c = (Inr alerts, c')"
  obtains report c1 app postfix version where "run_health_check (ae_db_failure E) (ae_config E) d c = (Inr report, c1)"
    "ctl_version c1 = (version, c')"
    "update_alert App_update_available ''SMTP Credential Broker'' (Some (ae_app_version E)) (bj_latest_app_version (the_jobs d))
      (bj_app_update_acknowledged_version (the_jobs d)) = Inr app"
    "update_alert Postfix_update_available ''Postfix'' (case version of Inl _ \<Rightarrow> None | Inr v \<Rightarrow> Some v)
      (bj_latest_postfix_version (the_jobs d)) (bj_postfix_update_acknowledged_version (the_jobs d)) = Inr postfix"
    "alerts = (if hr_status report \<noteq> ''ok'' then [health_alert] else []) @
      map account_alert (filter (\<lambda>a. ua_last_test_result a = Some Test_failure) (accounts d)) @
      List.map_filter (throttled_user_alert (ae_now E - minutes (rs_rate_limit_abuse_threshold_minutes (the_settings d)))
        (ae_now2 E - DEFER_STREAK_GAP)) (local_users d) @
      option_list app @ option_list postfix"
proof -
  obtain h c1 where h: "run_health_check (ae_db_failure E) (ae_config E) d c = (h, c1)" by (rule prod.exhaust)
  obtain report where r: "h = Inr report" using assms h by (cases h) (simp_all add: compute_active_alerts_def)
  let ?threshold = "minutes (rs_rate_limit_abuse_threshold_minutes (the_settings d))"
  have since: "minus_checked (ae_now E) ?threshold = Some (ae_now E - ?threshold)"
    using assms h r by (cases "minus_checked (ae_now E) ?threshold")
      (auto simp: compute_active_alerts_def get_relay_settings_eq minus_checked_def split: if_splits)
  note body = assms[unfolded compute_active_alerts_def h r, simplified get_relay_settings_eq get_background_job_state_eq Let_def
      since sum.case prod.case option.case the_jobs_settings]
  obtain app where a: "update_alert App_update_available ''SMTP Credential Broker'' (Some (ae_app_version E))
      (bj_latest_app_version (the_jobs d)) (bj_app_update_acknowledged_version (the_jobs d)) = Inr app"
    using body by (auto split: sum.splits)
  obtain version c2 where v: "ctl_version c1 = (version, c2)" by (rule prod.exhaust)
  obtain postfix where p: "update_alert Postfix_update_available ''Postfix'' (case version of Inl _ \<Rightarrow> None | Inr v \<Rightarrow> Some v)
      (bj_latest_postfix_version (the_jobs d)) (bj_postfix_update_acknowledged_version (the_jobs d)) = Inr postfix"
    using body a v by (auto split: sum.splits)
  show thesis
    by (rule that[OF h[unfolded r] _ a p]) (use body a v p in auto)
qed

text \<open>The three kinds that describe a state, in terms of the state\<close>

lemma map_filter_mem: "x \<in> set (List.map_filter f xs) \<longleftrightarrow> (\<exists>y\<in>set xs. f y = Some x)"
  by (induction xs) (auto simp: map_filter_simps split: option.splits)

lemma option_list_mem [simp]: "x \<in> set (option_list y) \<longleftrightarrow> y = Some x"
  by (auto simp: option_list_def split: option.splits)

lemma alerts_reflect_state:
  assumes "compute_active_alerts E d c = (Inr alerts, c')"
  shows "(\<exists>x\<in>set alerts. at_kind x = Health_degraded) \<longleftrightarrow>
      (\<exists>report c1. run_health_check (ae_db_failure E) (ae_config E) d c = (Inr report, c1) \<and> hr_status report \<noteq> ''ok'')"
    and "(\<exists>x\<in>set alerts. at_kind x = Upstream_test_failure \<and> at_target_id x = Some i) \<longleftrightarrow>
      (\<exists>a\<in>set (accounts d). ua_id a = i \<and> ua_last_test_result a = Some Test_failure)"
    and "(\<exists>x\<in>set alerts. at_kind x = Rate_limit_abuse \<and> at_target_id x = Some i) \<longleftrightarrow>
      (\<exists>u\<in>set (local_users d). lu_id u = i \<and> (\<exists>t. lu_streak_started_at u = Some t \<and>
         t \<le> ae_now E - minutes (rs_rate_limit_abuse_threshold_minutes (the_settings d)) \<and>
         (lu_enabled u \<longrightarrow> (\<exists>l. lu_streak_last_at u = Some l \<and> ae_now2 E - DEFER_STREAK_GAP \<le> l))))"
proof -
  let ?since = "ae_now E - minutes (rs_rate_limit_abuse_threshold_minutes (the_settings d))"
  obtain report c1 app postfix version where h: "run_health_check (ae_db_failure E) (ae_config E) d c = (Inr report, c1)"
    and v: "ctl_version c1 = (version, c')"
    and app: "update_alert App_update_available ''SMTP Credential Broker'' (Some (ae_app_version E)) (bj_latest_app_version (the_jobs d))
      (bj_app_update_acknowledged_version (the_jobs d)) = Inr app"
    and postfix: "update_alert Postfix_update_available ''Postfix'' (case version of Inl _ \<Rightarrow> None | Inr v \<Rightarrow> Some v)
      (bj_latest_postfix_version (the_jobs d)) (bj_postfix_update_acknowledged_version (the_jobs d)) = Inr postfix"
    and alerts: "alerts = (if hr_status report \<noteq> ''ok'' then [health_alert] else []) @
      map account_alert (filter (\<lambda>a. ua_last_test_result a = Some Test_failure) (accounts d)) @
      List.map_filter (throttled_user_alert ?since (ae_now2 E - DEFER_STREAK_GAP)) (local_users d) @
      option_list app @ option_list postfix"
    by (rule alerts_exact[OF assms]) (rule that, assumption+)
  have app_kind: "at_kind x = App_update_available" if "app = Some x" for x using update_alert_kind app that by blast
  have postfix_kind: "at_kind x = Postfix_update_available" if "postfix = Some x" for x using update_alert_kind postfix that by blast
  have mem: "x \<in> set alerts \<longleftrightarrow> (hr_status report \<noteq> ''ok'' \<and> x = health_alert) \<or>
      (\<exists>a\<in>set (accounts d). ua_last_test_result a = Some Test_failure \<and> x = account_alert a) \<or>
      (\<exists>u\<in>set (local_users d). throttled_user_alert ?since (ae_now2 E - DEFER_STREAK_GAP) u = Some x) \<or> app = Some x \<or> postfix = Some x" for x
    by (auto simp: alerts map_filter_mem)
  have throttled: "at_kind x = Rate_limit_abuse \<and> at_target_id x = Some (lu_id u)"
    if "throttled_user_alert ?since (ae_now2 E - DEFER_STREAK_GAP) u = Some x" for u x
    using throttled_kind[OF that] by (simp add: throttled_alert_def)
  have account: "at_target_id (account_alert a) = Some (ua_id a)" for a by (simp add: account_alert_def)
  have degraded_only: "hr_status report \<noteq> ''ok''" if "x \<in> set alerts" "at_kind x = Health_degraded" for x
    using that throttled app_kind postfix_kind unfolding mem by (elim disjE conjE bexE) auto
  have failing_only: "\<exists>a\<in>set (accounts d). ua_last_test_result a = Some Test_failure \<and> x = account_alert a"
    if "x \<in> set alerts" "at_kind x = Upstream_test_failure" for x
    using that throttled app_kind postfix_kind unfolding mem by (elim disjE conjE bexE) auto
  have throttled_only: "\<exists>u\<in>set (local_users d). throttled_user_alert ?since (ae_now2 E - DEFER_STREAK_GAP) u = Some x"
    if "x \<in> set alerts" "at_kind x = Rate_limit_abuse" for x
    using that app_kind postfix_kind unfolding mem by (elim disjE conjE bexE) auto
  have "(\<exists>x\<in>set alerts. at_kind x = Health_degraded) \<longleftrightarrow> hr_status report \<noteq> ''ok''"
    using degraded_only mem[of health_alert] kinds_of_parts(1) by blast
  then show "(\<exists>x\<in>set alerts. at_kind x = Health_degraded) \<longleftrightarrow>
      (\<exists>report c1. run_health_check (ae_db_failure E) (ae_config E) d c = (Inr report, c1) \<and> hr_status report \<noteq> ''ok'')"
    by (simp add: h)
  show "(\<exists>x\<in>set alerts. at_kind x = Upstream_test_failure \<and> at_target_id x = Some i) \<longleftrightarrow>
      (\<exists>a\<in>set (accounts d). ua_id a = i \<and> ua_last_test_result a = Some Test_failure)" (is "?l \<longleftrightarrow> ?r")
  proof
    assume ?l
    then obtain x where "x \<in> set alerts" "at_kind x = Upstream_test_failure" "at_target_id x = Some i" by blast
    then show ?r using failing_only[of x] account by force
  next
    assume ?r
    then obtain a where "a \<in> set (accounts d)" "ua_id a = i" "ua_last_test_result a = Some Test_failure" by blast
    then show ?l using mem[of "account_alert a"] account[of a] by (intro bexI[of _ "account_alert a"]) auto
  qed
  have "(\<exists>x\<in>set alerts. at_kind x = Rate_limit_abuse \<and> at_target_id x = Some i) \<longleftrightarrow>
      (\<exists>u\<in>set (local_users d). lu_id u = i \<and> throttled_user_alert ?since (ae_now2 E - DEFER_STREAK_GAP) u \<noteq> None)" (is "?l \<longleftrightarrow> ?r")
  proof
    assume ?l
    then obtain x where x: "x \<in> set alerts" "at_kind x = Rate_limit_abuse" "at_target_id x = Some i" by blast
    then obtain u where u: "u \<in> set (local_users d)" "throttled_user_alert ?since (ae_now2 E - DEFER_STREAK_GAP) u = Some x"
      using throttled_only by blast
    then have "lu_id u = i" using throttled[OF u(2)] x(3) by simp
    then show ?r using u by auto
  next
    assume ?r
    then obtain u x where "u \<in> set (local_users d)" "lu_id u = i"
      "throttled_user_alert ?since (ae_now2 E - DEFER_STREAK_GAP) u = Some x" by blast
    then show ?l using mem[of x] throttled[of u x] by (intro bexI[of _ x]) auto
  qed
  then show "(\<exists>x\<in>set alerts. at_kind x = Rate_limit_abuse \<and> at_target_id x = Some i) \<longleftrightarrow>
      (\<exists>u\<in>set (local_users d). lu_id u = i \<and> (\<exists>t. lu_streak_started_at u = Some t \<and>
         t \<le> ae_now E - minutes (rs_rate_limit_abuse_threshold_minutes (the_settings d)) \<and>
         (lu_enabled u \<longrightarrow> (\<exists>l. lu_streak_last_at u = Some l \<and> ae_now2 E - DEFER_STREAK_GAP \<le> l))))"
    by (simp only: throttled_user_alert_iff)
qed

end
