(* ===== verification/Alert_Email.thy ===== *)
theory Alert_Email
  imports Alerts Upstream_Test
begin

text \<open>
  \<open>core/alert_email.py\<close>: mail about active alerts, sent on the edge from resolved to active, or once per newly seen version.
  A run interleaves ticks with any other work; the notes a tick leaves say what it did about each kind.
\<close>

section \<open>Sending one mail\<close>

definition resolve_notification_sender :: "db \<Rightarrow> int option \<Rightarrow> (sender \<times> upstream_account) option" where
  "resolve_notification_sender d sender_id =
     (case sender_id of
        None \<Rightarrow> None
      | Some i \<Rightarrow>
          (case tbl_get sn_id i (senders d) of
             None \<Rightarrow> None
           | Some s \<Rightarrow> if \<not> sn_enabled s then None else map_option (\<lambda>a. (s, a)) (account_of d s)))"

text \<open>The network a mail meets, and the id, the random part of the queue id and the time of the row that records it.\<close>

record mail_slot =
  ms_net :: upstream_net
  ms_id :: int
  ms_uuid :: pystr
  ms_now :: datetime

definition log_mail :: "mail_slot \<Rightarrow> sender \<Rightarrow> pystr list \<Rightarrow> mail_status \<Rightarrow> pystr option \<Rightarrow> db \<Rightarrow> db" where
  "log_mail slot s recipients status error d =
     d\<lparr>mail_logs := mail_logs d @
        [\<lparr>ml_id = ms_id slot, ml_queue_id = ''ALERT-'' @ ms_uuid slot, ml_timestamp = ms_now slot, ml_local_smtp_user_id = None,
          ml_envelope_sender = sn_address s, ml_recipients = recipients, ml_upstream_account_id = Some (sn_upstream_account_id s),
          ml_status = status, ml_error = error\<rparr>]\<rparr>"

text \<open>\<open>LIKE 'ALERT-%'\<close>, which SQLite compares without regard to case.\<close>

definition like_alert :: "pystr \<Rightarrow> bool" where
  "like_alert queue_id \<longleftrightarrow> lower (take 6 queue_id) = ''alert-''"

fun newest_log :: "mail_log list \<Rightarrow> mail_log option" where
  "newest_log [] = None"
| "newest_log (m # ms) =
     (case newest_log ms of
        None \<Rightarrow> Some m
      | Some n \<Rightarrow> if (ml_timestamp m, ml_id m) < (ml_timestamp n, ml_id n) then Some n else Some m)"

definition same_as_last_alert_failure :: "sender \<Rightarrow> pystr \<Rightarrow> db \<Rightarrow> bool" where
  "same_as_last_alert_failure s error d \<longleftrightarrow>
     (case newest_log (filter (\<lambda>m. like_alert (ml_queue_id m) \<and> ml_envelope_sender m = sn_address s) (mail_logs d)) of
        None \<Rightarrow> False | Some m \<Rightarrow> ml_status m = Deferred \<and> ml_error m = Some error)"

text \<open>\<open>str(exc)\<close>; the text of a \<open>UnicodeDecodeError\<close> is cut down to its reason.\<close>

definition mail_text :: "mail_error \<Rightarrow> pystr" where
  "mail_text e = (case e of Mail_secret UnicodeDecodeError \<Rightarrow> ''invalid start byte'' | Mail_secret e \<Rightarrow> secret_text e
     | Mail_net x \<Rightarrow> exn_text x)"

text \<open>What stays the same during a tick: the cipher, \<open>formataddr\<close>, sender, recipients and the name they see.\<close>

record mail_context =
  mx_decrypt :: "bytes \<Rightarrow> secret_error + pystr"
  mx_formataddr :: "pystr \<Rightarrow> pystr \<Rightarrow> pystr"
  mx_sender :: sender
  mx_account :: upstream_account
  mx_recipients :: "pystr list"
  mx_from_name :: "pystr option"

text \<open>Success and detail, the session's database, whether it was committed, and the SMTP calls.\<close>

definition send_logged ::
  "mail_context \<Rightarrow> mail_slot \<Rightarrow> pystr \<Rightarrow> pystr \<Rightarrow> db \<Rightarrow> (bool \<times> pystr) \<times> db \<times> bool \<times> smtp_call list" where
  "send_logged M slot subject body d =
     (case send_alert_email (mx_decrypt M) (mx_formataddr M) (ms_net slot) (mx_sender M) (mx_account M) (mx_recipients M)
             subject body (mx_from_name M) of
        (Inr _, calls) \<Rightarrow> ((True, ''Sent.''), log_mail slot (mx_sender M) (mx_recipients M) Sent None d, True, calls)
      | (Inl e, calls) \<Rightarrow>
          (let error = mail_text e
           in if same_as_last_alert_failure (mx_sender M) error d then ((False, error), d, False, calls)
              else ((False, error), log_mail slot (mx_sender M) (mx_recipients M) Deferred (Some error) d, True, calls)))"

definition subject_of :: "pystr \<Rightarrow> pystr" where
  "subject_of title = ''[SMTP Credential Broker] '' @ title"

definition send_test_alert :: "mail_context \<Rightarrow> mail_slot \<Rightarrow> db \<Rightarrow> (bool \<times> pystr) \<times> db \<times> bool \<times> smtp_call list" where
  "send_test_alert M slot d =
     send_logged M slot (subject_of ''Test alert'')
       (''This is a test alert from your SMTP Credential Broker.'' @ [CHR 10, CHR 10] @
        ''If you received this, alert email is configured correctly.'') d"

section \<open>The tick\<close>

definition STATE_TRACKED :: "kind list" where
  "STATE_TRACKED = [Health_degraded, Upstream_test_failure, Rate_limit_abuse]"

definition VERSION_TRACKED :: "kind list" where
  "VERSION_TRACKED = [App_update_available, Postfix_update_available]"

definition notify_on :: "kind \<Rightarrow> relay_settings \<Rightarrow> bool" where
  "notify_on k s = (case k of Health_degraded \<Rightarrow> rs_notify_on_health_degraded s
     | Upstream_test_failure \<Rightarrow> rs_notify_on_upstream_test_failure s | Rate_limit_abuse \<Rightarrow> rs_notify_on_rate_limit_abuse s
     | App_update_available \<Rightarrow> rs_notify_on_app_update_available s
     | Postfix_update_available \<Rightarrow> rs_notify_on_postfix_update_available s)"

definition kind_active :: "kind \<Rightarrow> background_job_state \<Rightarrow> bool" where
  "kind_active k j = (case k of Health_degraded \<Rightarrow> bj_health_degraded_active j
     | Upstream_test_failure \<Rightarrow> bj_upstream_test_failure_active j | _ \<Rightarrow> bj_rate_limit_abuse_active j)"

definition set_active :: "kind \<Rightarrow> bool \<Rightarrow> background_job_state \<Rightarrow> background_job_state" where
  "set_active k b j = (case k of Health_degraded \<Rightarrow> j\<lparr>bj_health_degraded_active := b\<rparr>
     | Upstream_test_failure \<Rightarrow> j\<lparr>bj_upstream_test_failure_active := b\<rparr> | _ \<Rightarrow> j\<lparr>bj_rate_limit_abuse_active := b\<rparr>)"

definition latest_version_of :: "kind \<Rightarrow> background_job_state \<Rightarrow> pystr option" where
  "latest_version_of k j = (if k = App_update_available then bj_latest_app_version j else bj_latest_postfix_version j)"

definition last_emailed :: "kind \<Rightarrow> background_job_state \<Rightarrow> pystr option" where
  "last_emailed k j = (if k = App_update_available then bj_app_update_last_emailed_version j else bj_postfix_update_last_emailed_version j)"

definition set_emailed :: "kind \<Rightarrow> pystr \<Rightarrow> background_job_state \<Rightarrow> background_job_state" where
  "set_emailed k v j = (if k = App_update_available then j\<lparr>bj_app_update_last_emailed_version := Some v\<rparr>
     else j\<lparr>bj_postfix_update_last_emailed_version := Some v\<rparr>)"

datatype mail_note = Mailed kind pystr | Mail_failed kind pystr | Cleared kind

record mail_progress =
  mp_db :: db
  mp_committed :: db
  mp_changed :: bool
  mp_notes :: "mail_note list"
  mp_calls :: "smtp_call list"

definition upd_jobs :: "(background_job_state \<Rightarrow> background_job_state) \<Rightarrow> db \<Rightarrow> db" where
  "upd_jobs f d = d\<lparr>job_state := Some (f (the_jobs d))\<rparr>"

text \<open>A mail about kind \<open>k\<close> and, when it was sent, the bookkeeping \<open>f\<close>; \<open>label\<close> goes into the note.\<close>

definition mail_about ::
  "mail_context \<Rightarrow> (kind \<Rightarrow> mail_slot) \<Rightarrow> kind \<Rightarrow> pystr \<Rightarrow> (background_job_state \<Rightarrow> background_job_state) \<Rightarrow> pystr \<Rightarrow> pystr \<Rightarrow>
   mail_progress \<Rightarrow> mail_progress" where
  "mail_about M slots k label f title body p =
     (let ((sent, detail), d, committed, calls) = send_logged M (slots k) (subject_of title) body (mp_db p)
      in p\<lparr>mp_db := (if sent then upd_jobs f d else d), mp_committed := (if committed then d else mp_committed p),
           mp_changed := (mp_changed p \<or> sent),
           mp_notes := mp_notes p @ [if sent then Mailed k label else Mail_failed k detail], mp_calls := mp_calls p @ calls\<rparr>)"

definition state_step ::
  "mail_context \<Rightarrow> (kind \<Rightarrow> mail_slot) \<Rightarrow> relay_settings \<Rightarrow> alert list \<Rightarrow> kind \<Rightarrow> mail_progress \<Rightarrow> mail_progress" where
  "state_step M slots settings alerts k p =
     (if \<not> notify_on k settings then p
      else
        (let matching = find (\<lambda>a. at_kind a = k) alerts;
             was_active = kind_active k (the_jobs (mp_db p))
         in case matching of
              Some a \<Rightarrow> if \<not> was_active then mail_about M slots k [] (set_active k True) (at_title a) (at_detail a) p else p
            | None \<Rightarrow> if was_active
                then p\<lparr>mp_db := upd_jobs (set_active k False) (mp_db p), mp_changed := True, mp_notes := mp_notes p @ [Cleared k]\<rparr>
                else p))"

definition version_step ::
  "mail_context \<Rightarrow> (kind \<Rightarrow> mail_slot) \<Rightarrow> relay_settings \<Rightarrow> alert list \<Rightarrow> kind \<Rightarrow> mail_progress \<Rightarrow> mail_progress" where
  "version_step M slots settings alerts k p =
     (if \<not> notify_on k settings then p
      else case find (\<lambda>a. at_kind a = k) alerts of
          None \<Rightarrow> p
        | Some a \<Rightarrow>
            (case latest_version_of k (the_jobs (mp_db p)) of
               None \<Rightarrow> p
             | Some v \<Rightarrow> if last_emailed k (the_jobs (mp_db p)) = Some v then p
                 else mail_about M slots k v (set_emailed k v) (at_title a) (at_detail a) p))"

record alert_tick =
  ak_env :: alert_env
  ak_formataddr :: "pystr \<Rightarrow> pystr \<Rightarrow> pystr"
  ak_slots :: "kind \<Rightarrow> mail_slot"

text \<open>The database and the channel after the tick, and its notes.\<close>

definition alert_email_tick :: "alert_tick \<Rightarrow> db \<Rightarrow> channel \<Rightarrow> db \<times> channel \<times> mail_note list" where
  "alert_email_tick e d0 c =
     (let (settings, d1) = get_relay_settings d0
      in if rs_notify_recipients settings = [] then (d0, c, [])
         else case resolve_notification_sender d1 (rs_notify_sender_id settings) of
             None \<Rightarrow> (d0, c, [])
           | Some (s, a) \<Rightarrow>
               (case compute_active_alerts (ak_env e) d1 c of
                  (Inl _, c') \<Rightarrow> (d0, c', [])
                | (Inr alerts, c') \<Rightarrow>
                    (let (_, d2) = get_background_job_state d1;
                         M = \<lparr>mx_decrypt = cx_decrypt (ae_config (ak_env e)), mx_formataddr = ak_formataddr e, mx_sender = s,
                              mx_account = a, mx_recipients = rs_notify_recipients settings,
                              mx_from_name = rs_notify_from_name settings\<rparr>;
                         start = \<lparr>mp_db = d2, mp_committed = d0, mp_changed = False, mp_notes = [], mp_calls = []\<rparr>;
                         p = fold (version_step M (ak_slots e) settings alerts) VERSION_TRACKED
                               (fold (state_step M (ak_slots e) settings alerts) STATE_TRACKED start)
                     in (if mp_changed p then mp_db p else mp_committed p, c', mp_notes p))))"

section \<open>Runs\<close>

text \<open>
  Other work may do anything to the database but touch the five columns of \<open>background_job_state\<close> that only this job writes.
\<close>

definition keep_bookkeeping :: "background_job_state \<Rightarrow> background_job_state \<Rightarrow> background_job_state" where
  "keep_bookkeeping old new = new\<lparr>bj_health_degraded_active := bj_health_degraded_active old,
     bj_upstream_test_failure_active := bj_upstream_test_failure_active old, bj_rate_limit_abuse_active := bj_rate_limit_abuse_active old,
     bj_app_update_last_emailed_version := bj_app_update_last_emailed_version old,
     bj_postfix_update_last_emailed_version := bj_postfix_update_last_emailed_version old\<rparr>"

datatype alert_event = Alert_tick alert_tick | Other_work db channel

definition alert_event_step :: "alert_event \<Rightarrow> db \<times> channel \<Rightarrow> (db \<times> channel) \<times> mail_note list" where
  "alert_event_step ev st =
     (let (d, c) = st
      in case ev of
           Alert_tick e \<Rightarrow> (case alert_email_tick e d c of (d', c', ns) \<Rightarrow> ((d', c'), ns))
         | Other_work d' c' \<Rightarrow> ((upd_jobs (keep_bookkeeping (the_jobs d)) d', c'), []))"

fun alert_run :: "alert_event list \<Rightarrow> db \<times> channel \<Rightarrow> mail_note list" where
  "alert_run [] st = []"
| "alert_run (ev # evs) st = (let (st', ns) = alert_event_step ev st in ns @ alert_run evs st')"

section \<open>Edges\<close>

text \<open>What a run did about a state-tracked kind: mails (true) and seen resolutions (false).\<close>

fun edge_of :: "kind \<Rightarrow> mail_note \<Rightarrow> bool list" where
  "edge_of k (Mailed j v) = (if j = k then [True] else [])"
| "edge_of k (Mail_failed j v) = []"
| "edge_of k (Cleared j) = (if j = k then [False] else [])"

definition edges :: "kind \<Rightarrow> mail_note list \<Rightarrow> bool list" where
  "edges k ns = concat (map (edge_of k) ns)"

fun version_of :: "kind \<Rightarrow> mail_note \<Rightarrow> pystr list" where
  "version_of k (Mailed j v) = (if j = k then [v] else [])"
| "version_of k (Mail_failed j v) = []"
| "version_of k (Cleared j) = []"

definition mailed_versions :: "kind \<Rightarrow> mail_note list \<Rightarrow> pystr list" where
  "mailed_versions k ns = concat (map (version_of k) ns)"

lemma edges_simps [simp]: "edges k [] = []" "edges k (n # ns) = edge_of k n @ edges k ns" "edges k (a @ b) = edges k a @ edges k b"
  by (simp_all add: edges_def)

lemma mailed_simps [simp]:
  "mailed_versions k [] = []" "mailed_versions k (n # ns) = version_of k n @ mailed_versions k ns"
  "mailed_versions k (a @ b) = mailed_versions k a @ mailed_versions k b"
  by (simp_all add: mailed_versions_def)

lemma the_jobs_upd [simp]: "the_jobs (upd_jobs f d) = f (the_jobs d)"
  by (simp add: upd_jobs_def)

lemma send_logged_jobs: "send_logged M slot subject body d = (r, d', committed, calls) \<Longrightarrow> job_state d' = job_state d"
  by (auto simp: send_logged_def log_mail_def Let_def split: prod.splits sum.splits if_splits)

lemma kind_active_set [simp]:
  "k \<in> set STATE_TRACKED \<Longrightarrow> j \<in> set STATE_TRACKED \<Longrightarrow> kind_active k (set_active j b s) = (if j = k then b else kind_active k s)"
  by (auto simp: kind_active_def set_active_def STATE_TRACKED_def)

lemma kind_active_emailed [simp]: "kind_active k (set_emailed j v s) = kind_active k s"
  by (simp add: kind_active_def set_emailed_def split: kind.split)

lemma last_emailed_set [simp]:
  "k \<in> set VERSION_TRACKED \<Longrightarrow> j \<in> set VERSION_TRACKED \<Longrightarrow>
   last_emailed k (set_emailed j v s) = (if j = k then Some v else last_emailed k s)"
  by (auto simp: last_emailed_def set_emailed_def VERSION_TRACKED_def)

lemma last_emailed_active [simp]: "last_emailed k (set_active j b s) = last_emailed k s"
  by (simp add: last_emailed_def set_active_def split: kind.split)

text \<open>As long as nothing changed, what is committed has the bookkeeping of the session.\<close>

definition settled :: "mail_progress \<Rightarrow> bool" where
  "settled p \<longleftrightarrow> mp_changed p \<or> job_state (mp_committed p) = job_state (mp_db p) \<or>
     (job_state (mp_committed p) = None \<and> job_state (mp_db p) = Some default_job_state)"

lemma settled_jobs: "settled p \<Longrightarrow> \<not> mp_changed p \<Longrightarrow> the_jobs (mp_committed p) = the_jobs (mp_db p)"
  by (cases "job_state (mp_db p)") (auto simp: settled_def)

lemma mail_about_settled: "settled p \<Longrightarrow> settled (mail_about M slots k l f title body p)"
proof -
  assume p: "settled p"
  obtain sent detail d committed calls where s: "send_logged M (slots k) (subject_of title) body (mp_db p) =
    ((sent, detail), d, committed, calls)" by (metis prod.exhaust)
  show ?thesis
    using p send_logged_jobs[OF s] by (auto simp: mail_about_def s settled_def)
qed

lemma state_step_settled: "settled p \<Longrightarrow> settled (state_step M slots settings alerts k p)"
  by (auto simp: state_step_def Let_def mail_about_settled split: option.splits) (simp add: settled_def)

lemma version_step_settled: "settled p \<Longrightarrow> settled (version_step M slots settings alerts k p)"
  by (auto simp: version_step_def mail_about_settled split: option.splits)

lemma fold_settled: "(\<And>k q. settled q \<Longrightarrow> settled (f k q)) \<Longrightarrow> settled p \<Longrightarrow> settled (fold f ks p)"
  by (induction ks arbitrary: p) auto

text \<open>A sequence of values that follow one another with a change each time, from \<open>x\<close> to \<open>y\<close>.\<close>

definition chained :: "'v \<Rightarrow> 'v list \<Rightarrow> 'v \<Rightarrow> bool" where
  "chained x xs y \<longleftrightarrow> successively (\<noteq>) (x # xs) \<and> last (x # xs) = y"

lemma chained_Nil [simp]: "chained x [] y \<longleftrightarrow> y = x"
  by (auto simp: chained_def)

lemma chained_single [simp]: "chained x [v] y \<longleftrightarrow> x \<noteq> v \<and> y = v"
  by (auto simp: chained_def)

lemma chained_append: "chained x xs y \<Longrightarrow> chained y ys z \<Longrightarrow> chained x (xs @ ys) z"
  by (induction xs arbitrary: x) (auto simp: chained_def)

lemma chained_successively: "chained x xs y \<Longrightarrow> successively (\<noteq>) xs"
  by (cases xs) (auto simp: chained_def)

text \<open>
  The contract between a bookkeeping column \<open>cur\<close> and what the notes say about it, \<open>obs\<close>: each step of the tick moves the column
  exactly along what it notes.
\<close>

locale mail_track =
  fixes cur :: "background_job_state \<Rightarrow> 'v"
    and obs :: "mail_note list \<Rightarrow> 'v list"
  assumes obs_append: "obs (a @ b) = obs a @ obs b"
    and obs_Nil: "obs [] = []"
    and state_moves: "k \<in> set STATE_TRACKED \<Longrightarrow> \<exists>new. obs (mp_notes (state_step M slots settings alerts k p)) = obs (mp_notes p) @ new \<and>
      chained (cur (the_jobs (mp_db p))) new (cur (the_jobs (mp_db (state_step M slots settings alerts k p))))"
    and version_moves: "k \<in> set VERSION_TRACKED \<Longrightarrow> \<exists>new. obs (mp_notes (version_step M slots settings alerts k p)) = obs (mp_notes p) @ new \<and>
      chained (cur (the_jobs (mp_db p))) new (cur (the_jobs (mp_db (version_step M slots settings alerts k p))))"
    and keeps: "cur (keep_bookkeeping old new) = cur old"
begin

definition moved :: "mail_progress \<Rightarrow> mail_progress \<Rightarrow> bool" where
  "moved p q \<longleftrightarrow> (\<exists>new. obs (mp_notes q) = obs (mp_notes p) @ new \<and> chained (cur (the_jobs (mp_db p))) new (cur (the_jobs (mp_db q))))"

lemma moved_refl: "moved p p"
  by (simp add: moved_def)

lemma moved_trans:
  assumes "moved p q" "moved q r"
  shows "moved p r"
proof -
  obtain n1 n2 where "obs (mp_notes q) = obs (mp_notes p) @ n1" "chained (cur (the_jobs (mp_db p))) n1 (cur (the_jobs (mp_db q)))"
    "obs (mp_notes r) = obs (mp_notes q) @ n2" "chained (cur (the_jobs (mp_db q))) n2 (cur (the_jobs (mp_db r)))"
    using assms by (auto simp: moved_def)
  then show ?thesis unfolding moved_def using chained_append by (intro exI[of _ "n1 @ n2"]) auto
qed

lemma moved_fold: "(\<And>k q. k \<in> set ks \<Longrightarrow> moved q (f k q)) \<Longrightarrow> moved p (fold f ks p)"
  by (induction ks arbitrary: p) (auto intro: moved_refl moved_trans)

lemma tick_chained:
  assumes "alert_email_tick e d c = (d', c', ns)"
  shows "chained (cur (the_jobs d)) (obs ns) (cur (the_jobs d'))"
proof -
  let ?s = "the_settings d" and ?d1 = "d\<lparr>settings_row := Some (the_settings d)\<rparr>"
  let ?d2 = "?d1\<lparr>job_state := Some (the_jobs ?d1)\<rparr>"
  have jobs: "the_jobs ?d1 = the_jobs d" by simp
  consider (idle) "d' = d" "ns = []"
    | (works) s a alerts where "resolve_notification_sender ?d1 (rs_notify_sender_id ?s) = Some (s, a)"
        "compute_active_alerts (ak_env e) ?d1 c = (Inr alerts, c')"
        "rs_notify_recipients ?s \<noteq> []"
    using assms by (auto simp: alert_email_tick_def get_relay_settings_eq Let_def split: if_splits option.splits prod.splits sum.splits)
  then show ?thesis
  proof cases
    case idle
    then show ?thesis by (simp add: obs_Nil)
  next
    case works
    define M where "M = \<lparr>mx_decrypt = cx_decrypt (ae_config (ak_env e)), mx_formataddr = ak_formataddr e, mx_sender = s,
      mx_account = a, mx_recipients = rs_notify_recipients ?s, mx_from_name = rs_notify_from_name ?s\<rparr>"
    define start where "start = \<lparr>mp_db = ?d2, mp_committed = d, mp_changed = False, mp_notes = [], mp_calls = []\<rparr>"
    define p where "p = fold (version_step M (ak_slots e) ?s alerts) VERSION_TRACKED
      (fold (state_step M (ak_slots e) ?s alerts) STATE_TRACKED start)"
    have d': "d' = (if mp_changed p then mp_db p else mp_committed p)" and ns: "ns = mp_notes p"
      using assms works by (auto simp: alert_email_tick_def get_relay_settings_eq get_background_job_state_eq Let_def
          M_def start_def p_def)
    have "settled start"
      by (cases "job_state d") (simp_all add: settled_def start_def)
    then have "settled p" unfolding p_def
      by (intro fold_settled[OF version_step_settled] fold_settled[OF state_step_settled])
    then have final: "the_jobs d' = the_jobs (mp_db p)" using settled_jobs d' by auto
    have "moved start p"
      unfolding p_def
    proof (rule moved_trans[OF moved_fold moved_fold])
      show "k \<in> set STATE_TRACKED \<Longrightarrow> moved q (state_step M (ak_slots e) ?s alerts k q)" for k q
        using state_moves[of k M "ak_slots e" ?s alerts q] by (simp add: moved_def)
      show "k \<in> set VERSION_TRACKED \<Longrightarrow> moved q (version_step M (ak_slots e) ?s alerts k q)" for k q
        using version_moves[of k M "ak_slots e" ?s alerts q] by (simp add: moved_def)
    qed
    then show ?thesis
      unfolding final ns by (auto simp: moved_def start_def obs_Nil)
  qed
qed

lemma run_chained: "\<exists>y. chained (cur (the_jobs d)) (obs (alert_run evs (d, c))) y"
proof (induction evs arbitrary: d c)
  case (Cons ev evs)
  obtain d' c' ns where step: "alert_event_step ev (d, c) = ((d', c'), ns)" by (metis prod.exhaust)
  have now: "chained (cur (the_jobs d)) (obs ns) (cur (the_jobs d'))"
  proof (cases ev)
    case (Alert_tick e)
    then show ?thesis using step tick_chained by (auto simp: alert_event_step_def split: prod.splits)
  next
    case (Other_work d1 c1)
    then show ?thesis using step by (auto simp: alert_event_step_def keeps obs_Nil)
  qed
  obtain y where "chained (cur (the_jobs d')) (obs (alert_run evs (d', c'))) y"
    using Cons.IH by blast
  from chained_append[OF now this] show ?case using step by (auto simp: obs_append)
next
  case Nil
  show ?case by (rule exI[of _ "cur (the_jobs d)"]) (simp add: obs_Nil)
qed

lemma run_alternates: "successively (\<noteq>) (obs (alert_run evs (d, c)))"
proof -
  obtain y where "chained (cur (the_jobs d)) (obs (alert_run evs (d, c))) y" using run_chained by blast
  then show ?thesis by (rule chained_successively)
qed

end

section \<open>The five columns\<close>

lemma mail_about_moves:
  "mp_notes (mail_about M slots k l f title body p) =
     mp_notes p @ [if fst (fst (send_logged M (slots k) (subject_of title) body (mp_db p))) then Mailed k l
                   else Mail_failed k (snd (fst (send_logged M (slots k) (subject_of title) body (mp_db p))))]"
  "the_jobs (mp_db (mail_about M slots k l f title body p)) =
     (if fst (fst (send_logged M (slots k) (subject_of title) body (mp_db p))) then f (the_jobs (mp_db p)) else the_jobs (mp_db p))"
proof -
  obtain sent detail d committed calls where s: "send_logged M (slots k) (subject_of title) body (mp_db p) =
    ((sent, detail), d, committed, calls)" by (metis prod.exhaust)
  have "the_jobs d = the_jobs (mp_db p)"
    using send_logged_jobs[OF s] by (rule the_jobs_cong)
  then show "mp_notes (mail_about M slots k l f title body p) =
     mp_notes p @ [if fst (fst (send_logged M (slots k) (subject_of title) body (mp_db p))) then Mailed k l
                   else Mail_failed k (snd (fst (send_logged M (slots k) (subject_of title) body (mp_db p))))]"
    "the_jobs (mp_db (mail_about M slots k l f title body p)) =
     (if fst (fst (send_logged M (slots k) (subject_of title) body (mp_db p))) then f (the_jobs (mp_db p)) else the_jobs (mp_db p))"
    by (simp_all add: mail_about_def s)
qed

lemma tracked_disjoint: "k \<in> set STATE_TRACKED \<Longrightarrow> j \<in> set VERSION_TRACKED \<Longrightarrow> j \<noteq> k"
  by (auto simp: STATE_TRACKED_def VERSION_TRACKED_def)

lemma state_track: "k \<in> set STATE_TRACKED \<Longrightarrow> mail_track (kind_active k) (edges k)"
proof (unfold_locales, goal_cases)
  case (3 j M slots settings alerts p)
  then show ?case
    by (cases "j = k") (auto simp: state_step_def mail_about_moves Let_def split: option.splits)
next
  case (4 j M slots settings alerts p)
  then show ?case
    using tracked_disjoint[of k j] by (auto simp: version_step_def mail_about_moves split: option.splits)
next
  case (5 old new)
  then show ?case by (auto simp: kind_active_def keep_bookkeeping_def split: kind.split)
qed simp_all

lemma version_track: "k \<in> set VERSION_TRACKED \<Longrightarrow> mail_track (last_emailed k) (\<lambda>ns. map Some (mailed_versions k ns))"
proof (unfold_locales, goal_cases)
  case (3 j M slots settings alerts p)
  then show ?case
    using tracked_disjoint[of j k] by (auto simp: state_step_def mail_about_moves Let_def split: option.splits)
next
  case (4 j M slots settings alerts p)
  then show ?case
    by (cases "j = k") (auto simp: version_step_def mail_about_moves split: option.splits)
next
  case (5 old new)
  then show ?case by (simp add: last_emailed_def keep_bookkeeping_def)
qed simp_all

interpretation health_mail: mail_track "kind_active Health_degraded" "edges Health_degraded"
  by (rule state_track) (simp add: STATE_TRACKED_def)

interpretation upstream_mail: mail_track "kind_active Upstream_test_failure" "edges Upstream_test_failure"
  by (rule state_track) (simp add: STATE_TRACKED_def)

interpretation abuse_mail: mail_track "kind_active Rate_limit_abuse" "edges Rate_limit_abuse"
  by (rule state_track) (simp add: STATE_TRACKED_def)

interpretation app_mail: mail_track "last_emailed App_update_available" "\<lambda>ns. map Some (mailed_versions App_update_available ns)"
  by (rule version_track) (simp add: VERSION_TRACKED_def)

interpretation postfix_mail: mail_track "last_emailed Postfix_update_available" "\<lambda>ns. map Some (mailed_versions Postfix_update_available ns)"
  by (rule version_track) (simp add: VERSION_TRACKED_def)

lemma successively_Some: "successively (\<noteq>) (map Some xs) \<longleftrightarrow> successively (\<noteq>) xs"
  by (simp add: successively_map)


section \<open>New alerts, muted kinds, repeated failures\<close>

text \<open>
  A kind that just became active is mailed as soon as a mail can be sent, and is tried again at every tick until then.
\<close>

lemma new_alert_is_mailed:
  assumes "notify_on k settings" "find (\<lambda>a. at_kind a = k) alerts = Some a" "\<not> kind_active k (the_jobs (mp_db p))"
    and "fst (fst (send_logged M (slots k) (subject_of (at_title a)) (at_detail a) (mp_db p)))"
  shows "mp_notes (state_step M slots settings alerts k p) = mp_notes p @ [Mailed k []]"
    and "the_jobs (mp_db (state_step M slots settings alerts k p)) = set_active k True (the_jobs (mp_db p))"
  using assms by (simp_all add: state_step_def mail_about_moves)

lemma failed_alert_is_retried:
  assumes "k \<in> set STATE_TRACKED" "notify_on k settings" "find (\<lambda>a. at_kind a = k) alerts = Some a" "\<not> kind_active k (the_jobs (mp_db p))"
    and "\<not> fst (fst (send_logged M (slots k) (subject_of (at_title a)) (at_detail a) (mp_db p)))"
  shows "\<not> kind_active k (the_jobs (mp_db (state_step M slots settings alerts k p)))"
  using assms by (simp add: state_step_def mail_about_moves)

text \<open>
  A kind whose toggle is off keeps its column, also while it resolves: when the toggle is on again, the next
  activation is not seen as an edge and sends no mail.
\<close>

lemma muted_kind_keeps_column: "\<not> notify_on k settings \<Longrightarrow> state_step M slots settings alerts k p = p"
  by (simp add: state_step_def)

lemma muted_resolution_loses_next_mail:
  assumes "kind_active k (the_jobs (mp_db p))" "\<not> notify_on k muted"
    and "find (\<lambda>a. at_kind a = k) again = Some a"
  shows "state_step M slots settings again k (state_step M slots muted [] k p) = p"
  using assms by (simp add: state_step_def)

text \<open>The same failure once more adds no row to the mail log.\<close>

lemma newest_log_snoc:
  assumes "\<forall>n\<in>set ms. (ml_timestamp n, ml_id n) < (ml_timestamp m, ml_id m)"
  shows "newest_log (ms @ [m]) = Some m"
  using assms by (induction ms) (auto split: option.splits)

lemma repeated_failure_adds_no_row:
  assumes "send_logged M slot subject body d = ((False, error), d1, True, calls)"
    and "send_logged M slot' subject' body' d1 = ((False, error), d2, committed, calls')"
    and "\<forall>m\<in>set (mail_logs d). (ml_timestamp m, ml_id m) < (ms_now slot, ms_id slot)"
  shows "d2 = d1 \<and> \<not> committed"
proof -
  let ?row = "\<lparr>ml_id = ms_id slot, ml_queue_id = ''ALERT-'' @ ms_uuid slot, ml_timestamp = ms_now slot, ml_local_smtp_user_id = None,
          ml_envelope_sender = sn_address (mx_sender M), ml_recipients = mx_recipients M,
          ml_upstream_account_id = Some (sn_upstream_account_id (mx_sender M)), ml_status = Deferred, ml_error = Some error\<rparr>"
  have d1: "mail_logs d1 = mail_logs d @ [?row]"
    using assms(1) by (auto simp: send_logged_def log_mail_def Let_def split: prod.splits sum.splits if_splits)
  have like: "like_alert (''ALERT-'' @ ms_uuid slot)"
  proof -
    have "lower ''ALERT-'' = ''alert-''" by code_simp
    then show ?thesis by (simp add: like_alert_def)
  qed
  have "newest_log (filter (\<lambda>m. like_alert (ml_queue_id m) \<and> ml_envelope_sender m = sn_address (mx_sender M)) (mail_logs d) @ [?row]) = Some ?row"
    using assms(3) by (intro newest_log_snoc) auto
  then have "same_as_last_alert_failure (mx_sender M) error d1"
    using like by (simp add: same_as_last_alert_failure_def d1)
  then show ?thesis
    using assms(2) by (auto simp: send_logged_def Let_def split: prod.splits sum.splits if_splits)
qed

end
