(* ===== verification/Notification_Settings.thy ===== *)
theory Notification_Settings
  imports Alert_Email
begin

text \<open>
  \<open>schemas/notification_settings.py\<close> and \<open>api/routes/notification_settings.py\<close>.  The schema keeps the numbers of the settings row
  positive; from that it follows that no run of settings changes and retention ticks ever changes an answer of the login rate
  limiter.
\<close>

section \<open>Bodies\<close>

record notification_update =
  nu_connection_test_interval_minutes :: "int option option"
  nu_update_check_enabled :: "bool option option"
  nu_notify_recipients :: "pystr list option option"
  nu_notify_sender_id :: "int option option"
  nu_notify_from_name :: "pystr option option"
  nu_notify_on_health_degraded :: "bool option option"
  nu_notify_on_upstream_test_failure :: "bool option option"
  nu_notify_on_app_update_available :: "bool option option"
  nu_notify_on_postfix_update_available :: "bool option option"
  nu_notify_on_rate_limit_abuse :: "bool option option"
  nu_rate_limit_abuse_auto_disable_enabled :: "bool option option"
  nu_rate_limit_abuse_threshold_minutes :: "int option option"
  nu_mail_log_retention_days :: "int option option"
  nu_audit_log_retention_days :: "int option option"

text \<open>\<open>Field(ge=1)\<close> of a field that may be null\<close>

definition ge1 :: "int option option \<Rightarrow> bool" where
  "ge1 v \<longleftrightarrow> (case v of Some (Some n) \<Rightarrow> 1 \<le> n | _ \<Rightarrow> True)"

fun all_emails :: "(pystr \<Rightarrow> pystr option) \<Rightarrow> pystr list \<Rightarrow> pystr list option" where
  "all_emails email_str [] = Some []"
| "all_emails email_str (r # rs) =
     (case email_str r of None \<Rightarrow> None | Some a \<Rightarrow> map_option ((#) a) (all_emails email_str rs))"

definition parse_notification_update :: "(pystr \<Rightarrow> pystr option) \<Rightarrow> notification_update \<Rightarrow> notification_update option" where
  "parse_notification_update email_str p =
     (if \<not> (not_nulled (nu_update_check_enabled p) \<and> not_nulled (nu_notify_recipients p) \<and>
            not_nulled (nu_notify_on_health_degraded p) \<and> not_nulled (nu_notify_on_upstream_test_failure p) \<and>
            not_nulled (nu_notify_on_app_update_available p) \<and> not_nulled (nu_notify_on_postfix_update_available p) \<and>
            not_nulled (nu_notify_on_rate_limit_abuse p) \<and> not_nulled (nu_rate_limit_abuse_auto_disable_enabled p) \<and>
            not_nulled (nu_rate_limit_abuse_threshold_minutes p)) then None
      else if \<not> (ge1 (nu_connection_test_interval_minutes p) \<and> ge1 (nu_rate_limit_abuse_threshold_minutes p) \<and>
            ge1 (nu_mail_log_retention_days p) \<and> ge1 (nu_audit_log_retention_days p)) then None
      else (case nu_notify_recipients p of
          Some (Some raw) \<Rightarrow> map_option (\<lambda>rs. p\<lparr>nu_notify_recipients := Some (Some rs)\<rparr>) (all_emails email_str raw)
        | _ \<Rightarrow> Some p))"

record notification_read =
  nr_connection_test_interval_minutes :: "int option"
  nr_update_check_enabled :: bool
  nr_notify_recipients :: "pystr list"
  nr_notify_sender_id :: "int option"
  nr_notify_from_name :: "pystr option"
  nr_notify_on_health_degraded :: bool
  nr_notify_on_upstream_test_failure :: bool
  nr_notify_on_app_update_available :: bool
  nr_notify_on_postfix_update_available :: bool
  nr_notify_on_rate_limit_abuse :: bool
  nr_rate_limit_abuse_auto_disable_enabled :: bool
  nr_rate_limit_abuse_threshold_minutes :: int
  nr_mail_log_retention_days :: "int option"
  nr_audit_log_retention_days :: "int option"

section \<open>The routes\<close>

definition notification_to_read :: "relay_settings \<Rightarrow> notification_read" where
  "notification_to_read s =
     \<lparr>nr_connection_test_interval_minutes = rs_connection_test_interval_minutes s,
      nr_update_check_enabled = rs_update_check_enabled s, nr_notify_recipients = rs_notify_recipients s,
      nr_notify_sender_id = rs_notify_sender_id s, nr_notify_from_name = rs_notify_from_name s,
      nr_notify_on_health_degraded = rs_notify_on_health_degraded s,
      nr_notify_on_upstream_test_failure = rs_notify_on_upstream_test_failure s,
      nr_notify_on_app_update_available = rs_notify_on_app_update_available s,
      nr_notify_on_postfix_update_available = rs_notify_on_postfix_update_available s,
      nr_notify_on_rate_limit_abuse = rs_notify_on_rate_limit_abuse s,
      nr_rate_limit_abuse_auto_disable_enabled = rs_rate_limit_abuse_auto_disable_enabled s,
      nr_rate_limit_abuse_threshold_minutes = rs_rate_limit_abuse_threshold_minutes s,
      nr_mail_log_retention_days = rs_mail_log_retention_days s, nr_audit_log_retention_days = rs_audit_log_retention_days s\<rparr>"

definition get_notification_settings :: "db \<Rightarrow> notification_read" where
  "get_notification_settings d = notification_to_read (fst (get_relay_settings d))"

definition changed_settings :: "notification_update \<Rightarrow> relay_settings \<Rightarrow> relay_settings" where
  "changed_settings p s =
     s\<lparr>rs_connection_test_interval_minutes := sent_or (nu_connection_test_interval_minutes p) (rs_connection_test_interval_minutes s),
       rs_update_check_enabled := sent_or (map_option the (nu_update_check_enabled p)) (rs_update_check_enabled s),
       rs_notify_recipients := sent_or (map_option the (nu_notify_recipients p)) (rs_notify_recipients s),
       rs_notify_sender_id := sent_or (nu_notify_sender_id p) (rs_notify_sender_id s),
       rs_notify_from_name := sent_or (nu_notify_from_name p) (rs_notify_from_name s),
       rs_notify_on_health_degraded := sent_or (map_option the (nu_notify_on_health_degraded p)) (rs_notify_on_health_degraded s),
       rs_notify_on_upstream_test_failure :=
         sent_or (map_option the (nu_notify_on_upstream_test_failure p)) (rs_notify_on_upstream_test_failure s),
       rs_notify_on_app_update_available :=
         sent_or (map_option the (nu_notify_on_app_update_available p)) (rs_notify_on_app_update_available s),
       rs_notify_on_postfix_update_available :=
         sent_or (map_option the (nu_notify_on_postfix_update_available p)) (rs_notify_on_postfix_update_available s),
       rs_notify_on_rate_limit_abuse := sent_or (map_option the (nu_notify_on_rate_limit_abuse p)) (rs_notify_on_rate_limit_abuse s),
       rs_rate_limit_abuse_auto_disable_enabled :=
         sent_or (map_option the (nu_rate_limit_abuse_auto_disable_enabled p)) (rs_rate_limit_abuse_auto_disable_enabled s),
       rs_rate_limit_abuse_threshold_minutes :=
         sent_or (map_option the (nu_rate_limit_abuse_threshold_minutes p)) (rs_rate_limit_abuse_threshold_minutes s),
       rs_mail_log_retention_days := sent_or (nu_mail_log_retention_days p) (rs_mail_log_retention_days s),
       rs_audit_log_retention_days := sent_or (nu_audit_log_retention_days p) (rs_audit_log_retention_days s)\<rparr>"

definition sent_notification_fields :: "notification_update \<Rightarrow> pystr list" where
  "sent_notification_fields p =
     map fst (filter snd
       [(''connection_test_interval_minutes'', nu_connection_test_interval_minutes p \<noteq> None),
        (''update_check_enabled'', nu_update_check_enabled p \<noteq> None), (''notify_recipients'', nu_notify_recipients p \<noteq> None),
        (''notify_sender_id'', nu_notify_sender_id p \<noteq> None), (''notify_from_name'', nu_notify_from_name p \<noteq> None),
        (''notify_on_health_degraded'', nu_notify_on_health_degraded p \<noteq> None),
        (''notify_on_upstream_test_failure'', nu_notify_on_upstream_test_failure p \<noteq> None),
        (''notify_on_app_update_available'', nu_notify_on_app_update_available p \<noteq> None),
        (''notify_on_postfix_update_available'', nu_notify_on_postfix_update_available p \<noteq> None),
        (''notify_on_rate_limit_abuse'', nu_notify_on_rate_limit_abuse p \<noteq> None),
        (''rate_limit_abuse_auto_disable_enabled'', nu_rate_limit_abuse_auto_disable_enabled p \<noteq> None),
        (''rate_limit_abuse_threshold_minutes'', nu_rate_limit_abuse_threshold_minutes p \<noteq> None),
        (''mail_log_retention_days'', nu_mail_log_retention_days p \<noteq> None),
        (''audit_log_retention_days'', nu_audit_log_retention_days p \<noteq> None)])"

text \<open>A sender that does not exist violates the foreign key, an \<open>IntegrityError\<close> that nothing catches.\<close>

definition update_notification_settings ::
  "admin_request \<Rightarrow> notification_update \<Rightarrow> db \<Rightarrow> (http_error + notification_read) \<times> db" where
  "update_notification_settings rq p d0 =
     (let (s, d) = get_relay_settings d0; s1 = changed_settings p s
      in if (case nu_notify_sender_id p of Some (Some i) \<Rightarrow> tbl_get sn_id i (senders d) = None | _ \<Rightarrow> False)
         then (Inl internal_error, d0)
         else
           (let d1 = audit_admin rq ''notification_settings.update'' ''relay_settings'' 1
                  [(''fields'', JList (map JStr (sent_notification_fields p)))] (d\<lparr>settings_row := Some s1\<rparr>)
            in (Inr (get_notification_settings d1), d1)))"

definition send_test_notification ::
  "(bytes \<Rightarrow> secret_error + pystr) \<Rightarrow> (pystr \<Rightarrow> pystr \<Rightarrow> pystr) \<Rightarrow> mail_slot \<Rightarrow> admin_request \<Rightarrow> db \<Rightarrow>
   (http_error + bool \<times> pystr) \<times> db \<times> smtp_call list" where
  "send_test_notification decrypt formataddr slot rq d0 =
     (let (s, d) = get_relay_settings d0
      in if rs_notify_recipients s = [] then (Inl (HTTPException 400 ''Configure at least one recipient first.''), d0, [])
         else case resolve_notification_sender d (rs_notify_sender_id s) of
             None \<Rightarrow> (Inl (HTTPException 400 ''Select a sender with a working upstream account first.''), d0, [])
           | Some (sn, a) \<Rightarrow>
               (let M = \<lparr>mx_decrypt = decrypt, mx_formataddr = formataddr, mx_sender = sn, mx_account = a,
                         mx_recipients = rs_notify_recipients s, mx_from_name = rs_notify_from_name s\<rparr>;
                    ((success, detail), d1, _, calls) = send_test_alert M slot d
                in (Inr (success, detail),
                    audit_admin rq ''notification_settings.test_alert'' ''relay_settings'' 1 [(''success'', JBool success)] d1, calls)))"

section \<open>The row stays valid\<close>

definition settings_valid :: "relay_settings \<Rightarrow> bool" where
  "settings_valid s \<longleftrightarrow>
     (case rs_connection_test_interval_minutes s of None \<Rightarrow> True | Some n \<Rightarrow> 1 \<le> n) \<and> 1 \<le> rs_rate_limit_abuse_threshold_minutes s \<and>
     (case rs_mail_log_retention_days s of None \<Rightarrow> True | Some n \<Rightarrow> 1 \<le> n) \<and>
     (case rs_audit_log_retention_days s of None \<Rightarrow> True | Some n \<Rightarrow> 1 \<le> n)"

lemma settings_valid_retention: "settings_valid (the_settings d) \<Longrightarrow> retention_ok d"
  by (simp add: settings_valid_def retention_ok_def)

lemma default_settings_valid: "settings_valid default_relay_settings"
  by (simp add: settings_valid_def default_relay_settings_def)

lemma parsed_positive:
  assumes "parse_notification_update email_str raw = Some p"
  shows "ge1 (nu_connection_test_interval_minutes p)" "ge1 (nu_rate_limit_abuse_threshold_minutes p)"
    "ge1 (nu_mail_log_retention_days p)" "ge1 (nu_audit_log_retention_days p)"
    "nu_rate_limit_abuse_threshold_minutes p \<noteq> Some None"
  using assms by (auto simp: parse_notification_update_def not_nulled_def split: if_splits option.splits)

lemma changed_settings_valid:
  assumes "parse_notification_update email_str raw = Some p" "settings_valid s"
  shows "settings_valid (changed_settings p s)"
  using parsed_positive[OF assms(1)] assms(2)
  by (auto simp: settings_valid_def changed_settings_def sent_or_def ge1_def split: option.splits)

datatype upkeep_event = Change_settings admin_request notification_update | Retention retention_tick

fun upkeep_step :: "(pystr \<Rightarrow> pystr option) \<Rightarrow> upkeep_event \<Rightarrow> db \<Rightarrow> db" where
  "upkeep_step email_str (Change_settings rq raw) d =
     (case parse_notification_update email_str raw of None \<Rightarrow> d | Some p \<Rightarrow> snd (update_notification_settings rq p d))"
| "upkeep_step email_str (Retention e) d = retention_cleanup_tick e d"

definition upkeep_run :: "(pystr \<Rightarrow> pystr option) \<Rightarrow> upkeep_event list \<Rightarrow> db \<Rightarrow> db" where
  "upkeep_run email_str evs d = fold (upkeep_step email_str) evs d"

lemma upkeep_step_ok:
  assumes "settings_valid (the_settings d)" "rate_limit_window_seconds cfg \<le> 24 * 60 * 60"
    and "case ev of Retention e \<Rightarrow> rt_audit_now e \<le> now | _ \<Rightarrow> True"
  shows "settings_valid (the_settings (upkeep_step email_str ev d)) \<and>
    check_rate_limit cfg now who ip (upkeep_step email_str ev d) = check_rate_limit cfg now who ip d"
proof (cases ev)
  case (Retention e)
  then show ?thesis
    using assms tick_keeps_lockout[OF settings_valid_retention[OF assms(1)] assms(2), of e now who ip]
    by (simp add: retention_tick_settings)
next
  case (Change_settings rq raw)
  show ?thesis
  proof (cases "parse_notification_update email_str raw")
    case (Some p)
    have other: "''notification_settings.update'' \<noteq> LOGIN_FAILURE" "''notification_settings.update'' \<noteq> LOGIN_SUCCESS"
      by (simp_all add: LOGIN_FAILURE_def LOGIN_SUCCESS_def)
    have "check_rate_limit cfg now who ip (d\<lparr>settings_row := r\<rparr>) = check_rate_limit cfg now who ip d" for r
      by (rule limiter_cong) simp
    then show ?thesis
      using assms(1) changed_settings_valid[OF Some assms(1)] limiter_other_action[OF other]
      by (simp add: Change_settings Some update_notification_settings_def get_relay_settings_eq audit_admin_def Let_def)
  qed (use assms(1) in \<open>simp add: Change_settings\<close>)
qed

text \<open>
  C37. Deleting old audit rows never helps a guesser: over any run of settings changes and retention ticks, every answer of the
  login rate limiter at a later time is the one it would have given without them.
\<close>

theorem lockouts_survive_upkeep:
  assumes "settings_valid (the_settings d)" "rate_limit_window_seconds cfg \<le> 24 * 60 * 60"
    and "\<forall>ev\<in>set evs. case ev of Retention e \<Rightarrow> rt_audit_now e \<le> now | _ \<Rightarrow> True"
  shows "settings_valid (the_settings (upkeep_run email_str evs d)) \<and>
    check_rate_limit cfg now who ip (upkeep_run email_str evs d) = check_rate_limit cfg now who ip d"
  using assms(1,3)
proof (induction evs arbitrary: d)
  case (Cons ev evs)
  have step: "settings_valid (the_settings (upkeep_step email_str ev d)) \<and>
    check_rate_limit cfg now who ip (upkeep_step email_str ev d) = check_rate_limit cfg now who ip d"
    by (rule upkeep_step_ok) (use Cons.prems assms(2) in auto)
  then show ?case using Cons.IH[of "upkeep_step email_str ev d"] Cons.prems(2) by (simp add: upkeep_run_def)
qed (simp add: upkeep_run_def)

definition demo_retention :: retention_tick where
  "demo_retention = \<lparr>rt_started = days 100, rt_mail_now = days 100, rt_audit_now = days 100, rt_stamped = days 100,
     rt_audit_id = 9, rt_audit_at = days 100\<rparr>"

definition demo_kept_db :: db where
  "demo_kept_db = empty_db\<lparr>settings_row := Some (default_relay_settings\<lparr>rs_audit_log_retention_days := Some 1\<rparr>),
     audits := [\<lparr>al_id = 1, al_timestamp = 0, al_admin_user_id = Some 1, al_action = LOGIN_FAILURE, al_target_type = None,
       al_target_id = None, al_detail = None, al_ip_address = None\<rparr>]\<rparr>"

theorem lockouts_survive_upkeep_witness:
  "check_rate_limit default_limiter (days 101) (Some 1) None (upkeep_run (\<lambda>_. None) [Retention demo_retention] demo_kept_db) =
   check_rate_limit default_limiter (days 101) (Some 1) None demo_kept_db"
proof -
  have "settings_valid (the_settings demo_kept_db)"
    by (simp add: demo_kept_db_def settings_valid_def default_relay_settings_def)
  from lockouts_survive_upkeep[OF this, of default_limiter "[Retention demo_retention]" "days 101" "\<lambda>_. None" "Some 1" None]
  show ?thesis by (simp add: default_limiter_def demo_retention_def time_defs)
qed

end
