(* ===== verification/Log_Pages.thy ===== *)
theory Log_Pages
  imports Mail_Log_Ingest Senders "HOL-Library.Multiset"
begin

text \<open>
  The read side of the two logs: \<open>api/routes/mail_log.py\<close> and \<open>api/routes/audit_log.py\<close>, with the \<open>LIKE\<close> of SQLite.
  The pages of a listing, put together, are all matching rows, each once, newest first.
\<close>

section \<open>\<open>LIKE\<close>\<close>

text \<open>
  \<open>%\<close> matches any text and \<open>_\<close> any character; \<open>column.ilike(p)\<close> is \<open>lower(column) LIKE lower(p)\<close>.
\<close>

fun like :: "pystr \<Rightarrow> pystr \<Rightarrow> bool" where
  "like [] s \<longleftrightarrow> s = []"
| "like (p # ps) s \<longleftrightarrow>
     (if p = CHR ''%'' then like ps s \<or> (case s of [] \<Rightarrow> False | _ # t \<Rightarrow> like (p # ps) t)
      else (case s of [] \<Rightarrow> False | c # t \<Rightarrow> (p = CHR ''_'' \<or> p = c) \<and> like ps t))"

definition ilike :: "pystr \<Rightarrow> pystr \<Rightarrow> bool" where
  "ilike p s \<longleftrightarrow> like (sql_lower p) (sql_lower s)"

definition contains_pattern :: "pystr \<Rightarrow> pystr" where
  "contains_pattern s = ''%'' @ s @ ''%''"

text \<open>\<open>json.dumps\<close> of a list of strings, the text form of the column \<open>recipients\<close>.\<close>

definition json_char :: "char \<Rightarrow> pystr" where
  "json_char c =
     (let n = code c
      in if n = 34 \<or> n = 92 then [CHR 92, c]
         else if n = 10 then [CHR 92, CHR ''n''] else if n = 13 then [CHR 92, CHR ''r''] else if n = 9 then [CHR 92, CHR ''t'']
         else if n = 8 then [CHR 92, CHR ''b''] else if n = 12 then [CHR 92, CHR ''f'']
         else if 32 \<le> n \<and> n \<le> 126 then [c]
         else [CHR 92, CHR ''u'', CHR ''0'', CHR ''0'', hex_digit (n div 16), hex_digit (n mod 16)])"

definition json_strings :: "pystr list \<Rightarrow> pystr" where
  "json_strings xs = ''['' @ join '', '' (map (\<lambda>s. [CHR 34] @ concat (map json_char s) @ [CHR 34]) xs) @ '']''"

section \<open>Pages\<close>

text \<open>\<open>LIMIT\<close> and \<open>OFFSET\<close>: for SQLite a negative limit is none.\<close>

definition page_of :: "int \<Rightarrow> nat \<Rightarrow> 'r list \<Rightarrow> 'r list" where
  "page_of limit offset rows = (if limit < 0 then drop offset rows else take (nat limit) (drop offset rows))"

record 'e log_page =
  lp_entries :: "'e list"
  lp_total :: nat

datatype query_time = Naive datetime | Aware datetime timedelta

text \<open>\<open>_naive_utc\<close>: an aware value is a wall clock time and its offset from UTC.\<close>

fun naive_utc :: "query_time \<Rightarrow> datetime" where
  "naive_utc (Naive t) = t"
| "naive_utc (Aware t offset) = t - offset"

definition in_period :: "query_time option \<Rightarrow> query_time option \<Rightarrow> datetime \<Rightarrow> bool" where
  "in_period since until t \<longleftrightarrow>
     (case since of None \<Rightarrow> True | Some s \<Rightarrow> naive_utc s \<le> t) \<and> (case until of None \<Rightarrow> True | Some u \<Rightarrow> t \<le> naive_utc u)"

text \<open>\<open>if value:\<close> on an optional text\<close>

definition when_given :: "pystr option \<Rightarrow> (pystr \<Rightarrow> bool) \<Rightarrow> bool" where
  "when_given v P \<longleftrightarrow> (case v of None \<Rightarrow> True | Some [] \<Rightarrow> True | Some s \<Rightarrow> P s)"

definition page_params_ok :: "int \<Rightarrow> int \<Rightarrow> bool" where
  "page_params_ok limit offset \<longleftrightarrow> limit \<le> 500 \<and> 0 \<le> offset"

section \<open>The mail log\<close>

record mail_query =
  mq_envelope_sender :: "pystr option"
  mq_recipient :: "pystr option"
  mq_local_smtp_user_id :: "int option"
  mq_status :: "mail_status option"
  mq_since :: "query_time option"
  mq_until :: "query_time option"
  mq_limit :: int
  mq_offset :: int

definition mail_matches :: "mail_query \<Rightarrow> mail_log \<Rightarrow> bool" where
  "mail_matches q m \<longleftrightarrow>
     when_given (mq_envelope_sender q) (\<lambda>s. ilike (contains_pattern s) (ml_envelope_sender m)) \<and>
     when_given (mq_recipient q) (\<lambda>s. ilike (contains_pattern s) (json_strings (ml_recipients m))) \<and>
     (case mq_local_smtp_user_id q of None \<Rightarrow> True | Some i \<Rightarrow> ml_local_smtp_user_id m = Some i) \<and>
     (case mq_status q of None \<Rightarrow> True | Some s \<Rightarrow> ml_status m = s) \<and> in_period (mq_since q) (mq_until q) (ml_timestamp m)"

definition mail_log_rows :: "mail_query \<Rightarrow> db \<Rightarrow> mail_log list" where
  "mail_log_rows q d = sort_key (\<lambda>m. (- ml_timestamp m, - ml_id m)) (filter (mail_matches q) (mail_logs d))"

definition mail_log_page :: "mail_query \<Rightarrow> db \<Rightarrow> mail_log log_page" where
  "mail_log_page q d =
     \<lparr>lp_entries = page_of (mq_limit q) (nat (mq_offset q)) (mail_log_rows q d), lp_total = length (mail_log_rows q d)\<rparr>"

text \<open>Only an unreachable control surface is survived; another exception of the ingestion is a 500.\<close>

definition list_mail_log ::
  "'w tailer \<Rightarrow> ingest_env \<Rightarrow> mail_query \<Rightarrow> db \<Rightarrow> 'w \<Rightarrow> (http_error + mail_log log_page) \<times> db \<times> 'w" where
  "list_mail_log tailer env q d w =
     (if \<not> page_params_ok (mq_limit q) (mq_offset q) then (Inl (HTTPException 422 []), d, w)
      else case ingest_new_log_lines tailer env d w of
          (Inl (Ingest_control _), d', w') \<Rightarrow> (Inr (mail_log_page q d'), d', w')
        | (Inl _, d', w') \<Rightarrow> (Inl internal_error, d', w')
        | (Inr _, d', w') \<Rightarrow> (Inr (mail_log_page q d'), d', w'))"

definition get_mail_log_entry :: "int \<Rightarrow> db \<Rightarrow> http_error + mail_log" where
  "get_mail_log_entry entry_id d =
     (case tbl_get ml_id entry_id (mail_logs d) of
        None \<Rightarrow> Inl (HTTPException 404 ''Mail log entry not found'') | Some m \<Rightarrow> Inr m)"

section \<open>The audit log\<close>

record audit_query =
  xq_action :: "pystr option"
  xq_target_type :: "pystr option"
  xq_admin_user_id :: "int option"
  xq_since :: "query_time option"
  xq_until :: "query_time option"
  xq_limit :: int
  xq_offset :: int

definition audit_matches :: "audit_query \<Rightarrow> audit_log \<Rightarrow> bool" where
  "audit_matches q a \<longleftrightarrow>
     when_given (xq_action q) (\<lambda>s. al_action a = s) \<and> when_given (xq_target_type q) (\<lambda>s. al_target_type a = Some s) \<and>
     (case xq_admin_user_id q of None \<Rightarrow> True | Some i \<Rightarrow> al_admin_user_id a = Some i) \<and>
     in_period (xq_since q) (xq_until q) (al_timestamp a)"

definition audit_log_rows :: "audit_query \<Rightarrow> db \<Rightarrow> audit_log list" where
  "audit_log_rows q d = sort_key (\<lambda>a. (- al_timestamp a, - al_id a)) (filter (audit_matches q) (audits d))"

text \<open>An entry is the row with the address of the administrator, if there still is one.\<close>

definition list_audit_log :: "audit_query \<Rightarrow> db \<Rightarrow> http_error + (audit_log \<times> pystr option) log_page" where
  "list_audit_log q d =
     (if \<not> page_params_ok (xq_limit q) (xq_offset q) then Inl (HTTPException 422 [])
      else Inr \<lparr>lp_entries = map (\<lambda>a. (a, case al_admin_user_id a of None \<Rightarrow> None
                   | Some i \<Rightarrow> map_option ad_email (tbl_get ad_id i (admins d))))
                 (page_of (xq_limit q) (nat (xq_offset q)) (audit_log_rows q d)),
               lp_total = length (audit_log_rows q d)\<rparr>)"

section \<open>Pages put together\<close>

lemma pages_concat:
  "concat (map (\<lambda>k. page_of (int n) (k * n) rows) [0..<j]) = take (j * n) rows"
proof (induction j)
  case (Suc j)
  have "(Suc j) * n = j * n + n" by simp
  then show ?case using Suc by (simp add: page_of_def take_add del: mult_Suc)
qed simp

lemma negative_limit_uncapped: "limit < 0 \<Longrightarrow> page_params_ok limit 0 \<and> page_of limit 0 rows = rows"
  by (simp add: page_params_ok_def page_of_def)

lemma sorted_desc: "sorted_wrt (\<lambda>a b. f b \<le> f a) (sort_key (\<lambda>m. (- f m, - g m)) (xs :: 'r list))" for f g :: "'r \<Rightarrow> int"
proof -
  have "sorted (map (\<lambda>m. (- f m, - g m)) (sort_key (\<lambda>m. (- f m, - g m)) xs))" by (rule sorted_sort_key)
  then have "sorted_wrt (\<lambda>a b. (- f a, - g a) \<le> (- f b, - g b)) (sort_key (\<lambda>m. (- f m, - g m)) xs)"
    by (simp add: sorted_wrt_map)
  then show ?thesis by (rule sorted_wrt_mono_rel[rotated]) auto
qed

text \<open>
  The listing is complete: fetched page by page with any limit from 1 to 500, the entries are exactly the rows that match
  the filters, each as often as it is stored, newest first, and every page reports their number.
\<close>

lemma mail_log_pages_complete:
  assumes "1 \<le> n" "n \<le> 500" "length (mail_log_rows q d) \<le> j * n"
  shows "mset (concat (map (\<lambda>k. lp_entries (mail_log_page (q\<lparr>mq_limit := int n, mq_offset := int (k * n)\<rparr>) d)) [0..<j])) =
      mset (filter (mail_matches q) (mail_logs d)) \<and>
    sorted_wrt (\<lambda>a b. ml_timestamp b \<le> ml_timestamp a)
      (concat (map (\<lambda>k. lp_entries (mail_log_page (q\<lparr>mq_limit := int n, mq_offset := int (k * n)\<rparr>) d)) [0..<j])) \<and>
    (\<forall>k. lp_total (mail_log_page (q\<lparr>mq_limit := int n, mq_offset := int (k * n)\<rparr>) d) =
      length (filter (mail_matches q) (mail_logs d)))"
proof -
  have matches: "mail_matches (q\<lparr>mq_limit := l, mq_offset := i\<rparr>) = mail_matches q" for l i
    by (rule ext) (simp add: mail_matches_def)
  then have rows: "mail_log_rows (q\<lparr>mq_limit := l, mq_offset := i\<rparr>) d = mail_log_rows q d" for l i
    by (simp add: mail_log_rows_def)
  have "concat (map (\<lambda>k. lp_entries (mail_log_page (q\<lparr>mq_limit := int n, mq_offset := int (k * n)\<rparr>) d)) [0..<j]) = mail_log_rows q d"
    using pages_concat[of n "mail_log_rows q d" j] assms(3) by (simp add: mail_log_page_def rows del: of_nat_mult)
  moreover have "sorted_wrt (\<lambda>a b. ml_timestamp b \<le> ml_timestamp a) (mail_log_rows q d)"
    unfolding mail_log_rows_def by (rule sorted_desc)
  ultimately show ?thesis
    by (simp add: mail_log_page_def rows) (simp add: mail_log_rows_def)
qed

section \<open>What a search matches\<close>

text \<open>A \<open>_\<close> in the search text stands for any character, although the description says substring.\<close>

lemma underscore_matches_anything:
  "ilike (contains_pattern ''a_b'') ''axb@example.com''"
  by code_simp

lemma like_percent: "like (CHR ''%'' # ps) s \<longleftrightarrow> (\<exists>a b. s = a @ b \<and> like ps b)"
proof (induction s)
  case (Cons c s)
  have "(\<exists>a b. c # s = a @ b \<and> like ps b) \<longleftrightarrow> like ps (c # s) \<or> (\<exists>a b. s = a @ b \<and> like ps b)"
  proof
    assume "\<exists>a b. c # s = a @ b \<and> like ps b"
    then obtain a b where "c # s = a @ b" "like ps b" by blast
    then show "like ps (c # s) \<or> (\<exists>a b. s = a @ b \<and> like ps b)" by (cases a) auto
  next
    assume "like ps (c # s) \<or> (\<exists>a b. s = a @ b \<and> like ps b)"
    then show "\<exists>a b. c # s = a @ b \<and> like ps b" by (metis append_Cons append_Nil)
  qed
  then show ?case using Cons by simp
qed simp

lemma like_literal:
  assumes "CHR ''%'' \<notin> set p" "CHR ''_'' \<notin> set p"
  shows "like (p @ ''%'') s \<longleftrightarrow> prefix p s"
  using assms
proof (induction p arbitrary: s)
  case Nil
  show ?case using like_percent[of "[]" s] by simp
next
  case (Cons x p)
  then show ?case by (cases s) auto
qed

text \<open>Without wildcards the search is the substring match, case folded for ASCII letters.\<close>

lemma ilike_substring:
  assumes "CHR ''%'' \<notin> set (sql_lower p)" "CHR ''_'' \<notin> set (sql_lower p)"
  shows "ilike (contains_pattern p) s \<longleftrightarrow> sublist (sql_lower p) (sql_lower s)"
proof -
  have "sql_lower (contains_pattern p) = CHR ''%'' # sql_lower p @ ''%''"
    by (simp add: contains_pattern_def sql_lower_def code_def)
  then show ?thesis
    using like_percent[of "sql_lower p @ ''%''" "sql_lower s"] like_literal[OF assms]
    by (auto simp: ilike_def sublist_def prefix_def)
qed

end
