(* ===== verification/Branding.thy ===== *)
theory Branding
  imports Tls_Settings Py_Regex
begin

text \<open>
  What browsers get without a session: the branding of \<open>api/routes/branding.py\<close> and \<open>schemas/branding.py\<close>, and the headers and
  the fallback of \<open>main.py\<close>.  A stored logo is always an image of its declared type, and however it is fetched, the
  response keeps scripts from running.
\<close>

section \<open>The colour\<close>

definition is_hex :: "char \<Rightarrow> bool" where
  "is_hex c \<longleftrightarrow> is_digit c \<or> (97 \<le> code c \<and> code c \<le> 102) \<or> (65 \<le> code c \<and> code c \<le> 70)"

definition HEX_COLOR :: pattern where
  "HEX_COLOR = seq [lit ''#'', Many is_hex 6 (Some 6), At_end]"

definition accent_color_ok :: "pystr option \<Rightarrow> bool" where
  "accent_color_ok v \<longleftrightarrow> (case v of None \<Rightarrow> True | Some c \<Rightarrow> re_match HEX_COLOR c \<noteq> None)"

record branding_update =
  bu_accent_color :: "pystr option option"

definition parse_branding_update :: "branding_update \<Rightarrow> branding_update option" where
  "parse_branding_update p =
     (case bu_accent_color p of None \<Rightarrow> Some p | Some v \<Rightarrow> if accent_color_ok v then Some p else None)"

text \<open>The \<open>$\<close> of the pattern lets one line feed pass.\<close>

lemma colour_with_line_feed: "accent_color_ok (Some (''#aabbcc'' @ [CHR 10]))"
  by code_simp

section \<open>The logo\<close>

definition MAX_LOGO_BYTES :: nat where "MAX_LOGO_BYTES = 512 * 1024"

definition ALLOWED_LOGO_CONTENT_TYPES :: "pystr list" where
  "ALLOWED_LOGO_CONTENT_TYPES = [''image/png'', ''image/jpeg'', ''image/svg+xml'']"

text \<open>\<open>bytes.lstrip()\<close> removes ASCII white space, \<open>bytes.lower()\<close> folds ASCII letters.\<close>

definition bytes_space :: "char \<Rightarrow> bool" where
  "bytes_space c \<longleftrightarrow> code c \<in> {9, 10, 11, 12, 13, 32}"

definition removeprefix :: "bytes \<Rightarrow> bytes \<Rightarrow> bytes" where
  "removeprefix p s = (if prefix p s then drop (length p) s else s)"

definition PNG_MAGIC :: bytes where
  "PNG_MAGIC = [CHR 0x89, CHR ''P'', CHR ''N'', CHR ''G'', CHR 13, CHR 10, CHR 0x1A, CHR 10]"

definition detect_logo_type :: "bytes \<Rightarrow> pystr option" where
  "detect_logo_type data =
     (if prefix PNG_MAGIC data then Some ''image/png''
      else if prefix [CHR 0xFF, CHR 0xD8, CHR 0xFF] data then Some ''image/jpeg''
      else
        (let head = sql_lower (lstrip_of bytes_space (removeprefix [CHR 0xEF, CHR 0xBB, CHR 0xBF] (take 1024 data)))
         in if (prefix ''<svg'' head \<or> prefix ''<?xml'' head) \<and> sublist ''<svg'' (sql_lower (take 4096 data))
            then Some ''image/svg+xml'' else None))"

record branding_read =
  br_accent_color :: "pystr option"
  br_has_custom_logo :: bool

definition branding_to_read :: "relay_settings \<Rightarrow> branding_read" where
  "branding_to_read s = \<lparr>br_accent_color = rs_accent_color s, br_has_custom_logo = (rs_logo_image s \<noteq> None)\<rparr>"

definition get_branding :: "db \<Rightarrow> branding_read" where
  "get_branding d = branding_to_read (fst (get_relay_settings d))"

type_synonym headers = "(pystr \<times> pystr) list"

record web_response =
  wr_content :: bytes
  wr_media_type :: pystr
  wr_headers :: headers

definition LOGO_RESPONSE_HEADERS :: headers where
  "LOGO_RESPONSE_HEADERS =
     [(''Cache-Control'', ''no-cache''),
      (''Content-Security-Policy'', ''default-src 'none'; style-src 'unsafe-inline'; sandbox''),
      (''X-Content-Type-Options'', ''nosniff'')]"

definition logo_response :: "bytes \<Rightarrow> pystr option \<Rightarrow> web_response" where
  "logo_response img content_type =
     \<lparr>wr_content = img,
      wr_media_type = (case content_type of None \<Rightarrow> ''application/octet-stream'' | Some [] \<Rightarrow> ''application/octet-stream'' | Some t \<Rightarrow> t),
      wr_headers = LOGO_RESPONSE_HEADERS\<rparr>"

definition get_logo :: "db \<Rightarrow> http_error + web_response" where
  "get_logo d =
     (let s = fst (get_relay_settings d)
      in case rs_logo_image s of
           None \<Rightarrow> Inl (HTTPException 404 ''No custom logo configured'')
         | Some img \<Rightarrow> Inr (logo_response img (rs_logo_content_type s)))"

text \<open>The bundled icon is an argument.\<close>

definition get_favicon :: "bytes \<Rightarrow> db \<Rightarrow> web_response" where
  "get_favicon default_icon d =
     (let s = fst (get_relay_settings d)
      in case rs_logo_image s of
           Some img \<Rightarrow> logo_response img (rs_logo_content_type s)
         | None \<Rightarrow> \<lparr>wr_content = default_icon, wr_media_type = ''image/png'', wr_headers = [(''Cache-Control'', ''no-cache'')]\<rparr>)"

definition update_branding :: "admin_request \<Rightarrow> branding_update \<Rightarrow> db \<Rightarrow> (http_error + branding_read) \<times> db" where
  "update_branding rq p d0 =
     (let (s, d) = get_relay_settings d0;
          s1 = (case bu_accent_color p of None \<Rightarrow> s | Some c \<Rightarrow> s\<lparr>rs_accent_color := c\<rparr>);
          d1 = audit_admin rq ''branding.update'' ''relay_settings'' 1
                 [(''fields'', JList (case bu_accent_color p of None \<Rightarrow> [] | Some _ \<Rightarrow> [JStr ''accent_color'']))]
                 (d\<lparr>settings_row := Some s1\<rparr>)
      in (Inr (get_branding d1), d1))"

definition upload_logo :: "admin_request \<Rightarrow> pystr option \<Rightarrow> bytes \<Rightarrow> db \<Rightarrow> (http_error + branding_read) \<times> db" where
  "upload_logo rq content_type upload d0 =
     (if \<not> (\<exists>t\<in>set ALLOWED_LOGO_CONTENT_TYPES. content_type = Some t)
      then (Inl (HTTPException 422 ''Logo must be a PNG, JPEG, or SVG image''), d0)
      else
        (let data = take (MAX_LOGO_BYTES + 1) upload
         in if length data > MAX_LOGO_BYTES then (Inl (HTTPException 422 ''Logo must be 512 KB or smaller''), d0)
            else if detect_logo_type data \<noteq> content_type
            then (Inl (HTTPException 422 ''The file's contents don't match its declared image type''), d0)
            else
              (let (s, d) = get_relay_settings d0;
                   d1 = audit_admin rq ''branding.logo_upload'' ''relay_settings'' 1
                     [(''content_type'', optional_str content_type), (''size_bytes'', JInt (int (length data)))]
                     (d\<lparr>settings_row := Some (s\<lparr>rs_logo_image := Some data, rs_logo_content_type := content_type\<rparr>)\<rparr>)
               in (Inr (get_branding d1), d1))))"

definition delete_logo :: "admin_request \<Rightarrow> db \<Rightarrow> (http_error + branding_read) \<times> db" where
  "delete_logo rq d0 =
     (let (s, d) = get_relay_settings d0;
          d1 = audit_admin rq ''branding.logo_remove'' ''relay_settings'' 1 []
                 (d\<lparr>settings_row := Some (s\<lparr>rs_logo_image := None, rs_logo_content_type := None\<rparr>)\<rparr>)
      in (Inr (get_branding d1), d1))"

section \<open>Headers and fallback (\<open>main.py\<close>)\<close>

definition quoted :: "pystr \<Rightarrow> pystr" where
  "quoted s = [CHR 39] @ s @ [CHR 39]"

definition CONTENT_SECURITY_POLICY :: pystr where
  "CONTENT_SECURITY_POLICY = join ''; ''
     [''default-src '' @ quoted ''self'', ''script-src '' @ quoted ''self'',
      ''style-src '' @ quoted ''self'' @ '' '' @ quoted ''unsafe-inline'' @ '' https://fonts.googleapis.com'',
      ''font-src '' @ quoted ''self'' @ '' https://fonts.gstatic.com'', ''img-src '' @ quoted ''self'' @ '' data: blob:'',
      ''connect-src '' @ quoted ''self'', ''object-src '' @ quoted ''none'', ''base-uri '' @ quoted ''self'',
      ''form-action '' @ quoted ''self'', ''frame-ancestors '' @ quoted ''none'']"

definition SECURITY_HEADERS :: headers where
  "SECURITY_HEADERS =
     [(''Content-Security-Policy'', CONTENT_SECURITY_POLICY), (''X-Content-Type-Options'', ''nosniff''),
      (''X-Frame-Options'', ''DENY''), (''Referrer-Policy'', ''same-origin'')]"

text \<open>Header names are compared without regard to case.\<close>

definition header_of :: "pystr \<Rightarrow> headers \<Rightarrow> pystr option" where
  "header_of name hs = map_option snd (find (\<lambda>h. lower (fst h) = lower name) hs)"

definition setdefault :: "pystr \<times> pystr \<Rightarrow> headers \<Rightarrow> headers" where
  "setdefault h hs = (if header_of (fst h) hs = None then hs @ [h] else hs)"

definition security_headers_middleware :: "web_response \<Rightarrow> web_response" where
  "security_headers_middleware r = r\<lparr>wr_headers := fold setdefault SECURITY_HEADERS (wr_headers r)\<rparr>"

text \<open>The map of the built frontend's files is an argument; the path of the request is only ever a key into it.\<close>

definition spa_fallback :: "(pystr \<times> bytes) list \<Rightarrow> bytes \<Rightarrow> pystr \<Rightarrow> bytes" where
  "spa_fallback spa_files index full_path = (case map_of spa_files full_path of None \<Rightarrow> index | Some content \<Rightarrow> content)"

lemma spa_serves_bundle: "spa_fallback spa_files index p \<in> insert index (snd ` set spa_files)"
  by (auto simp: spa_fallback_def dest!: map_of_SomeD split: option.splits) (metis image_eqI snd_conv)

section \<open>A stored logo is what it says\<close>

definition logo_ok :: "relay_settings \<Rightarrow> bool" where
  "logo_ok s \<longleftrightarrow>
     (case rs_logo_image s of
        None \<Rightarrow> rs_logo_content_type s = None
      | Some img \<Rightarrow> length img \<le> MAX_LOGO_BYTES \<and>
          (\<exists>t\<in>set ALLOWED_LOGO_CONTENT_TYPES. rs_logo_content_type s = Some t \<and> detect_logo_type img = Some t)) \<and>
     accent_color_ok (rs_accent_color s)"

datatype branding_event = Recolour admin_request branding_update | Upload admin_request "pystr option" bytes | Unbrand admin_request

fun branding_step :: "branding_event \<Rightarrow> db \<Rightarrow> db" where
  "branding_step (Recolour rq raw) d =
     (case parse_branding_update raw of None \<Rightarrow> d | Some p \<Rightarrow> snd (update_branding rq p d))"
| "branding_step (Upload rq t data) d = snd (upload_logo rq t data d)"
| "branding_step (Unbrand rq) d = snd (delete_logo rq d)"

definition branding_run :: "branding_event list \<Rightarrow> db \<Rightarrow> db" where
  "branding_run evs d = fold branding_step evs d"

lemma branding_step_ok: "logo_ok (the_settings d) \<Longrightarrow> logo_ok (the_settings (branding_step ev d))"
proof (induction ev d rule: branding_step.induct)
  case (1 rq raw d)
  then show ?case
    by (auto simp: parse_branding_update_def update_branding_def get_relay_settings_eq audit_admin_def Let_def logo_ok_def
        split: option.splits if_splits)
next
  case (2 rq t data d)
  show ?case
  proof (cases "(\<exists>x\<in>set ALLOWED_LOGO_CONTENT_TYPES. t = Some x) \<and> length (take (MAX_LOGO_BYTES + 1) data) \<le> MAX_LOGO_BYTES \<and>
      detect_logo_type (take (MAX_LOGO_BYTES + 1) data) = t")
    case True
    then show ?thesis
      using 2 by (auto simp: upload_logo_def get_relay_settings_eq audit_admin_def Let_def logo_ok_def)
  next
    case False
    then have "branding_step (Upload rq t data) d = d"
      by (auto simp: upload_logo_def Let_def)
    then show ?thesis using 2 by simp
  qed
next
  case (3 rq d)
  then show ?case
    by (simp add: delete_logo_def get_relay_settings_eq audit_admin_def Let_def logo_ok_def)
qed

lemma branding_run_ok: "logo_ok (the_settings d) \<Longrightarrow> logo_ok (the_settings (branding_run evs d))"
  by (induction evs arbitrary: d) (auto simp: branding_run_def branding_step_ok simp del: branding_step.simps)

lemma middleware_keeps_logo_headers:
  "wr_headers r = LOGO_RESPONSE_HEADERS \<Longrightarrow>
   header_of ''Content-Security-Policy'' (wr_headers (security_headers_middleware r)) =
     Some ''default-src 'none'; style-src 'unsafe-inline'; sandbox'' \<and>
   header_of ''X-Content-Type-Options'' (wr_headers (security_headers_middleware r)) = Some ''nosniff''"
proof -
  have "header_of ''Content-Security-Policy'' (fold setdefault SECURITY_HEADERS LOGO_RESPONSE_HEADERS) =
     Some ''default-src 'none'; style-src 'unsafe-inline'; sandbox'' \<and>
   header_of ''X-Content-Type-Options'' (fold setdefault SECURITY_HEADERS LOGO_RESPONSE_HEADERS) = Some ''nosniff''"
    by code_simp
  then show "wr_headers r = LOGO_RESPONSE_HEADERS \<Longrightarrow>
   header_of ''Content-Security-Policy'' (wr_headers (security_headers_middleware r)) =
     Some ''default-src 'none'; style-src 'unsafe-inline'; sandbox'' \<and>
   header_of ''X-Content-Type-Options'' (wr_headers (security_headers_middleware r)) = Some ''nosniff''"
    by (simp add: security_headers_middleware_def)
qed

text \<open>
  C38. An uploaded logo runs no script: over any run of branding requests from a fresh installation, what the public route
  serves is of the type its bytes have, at most 512 KB, and leaves the application sandboxed and not to be sniffed.
\<close>

theorem logo_served_safely:
  assumes "logo_ok (the_settings d)" "get_logo (branding_run evs d) = Inr r"
  shows "wr_media_type r \<in> set ALLOWED_LOGO_CONTENT_TYPES \<and> detect_logo_type (wr_content r) = Some (wr_media_type r) \<and>
    length (wr_content r) \<le> MAX_LOGO_BYTES \<and>
    header_of ''Content-Security-Policy'' (wr_headers (security_headers_middleware r)) =
      Some ''default-src 'none'; style-src 'unsafe-inline'; sandbox'' \<and>
    header_of ''X-Content-Type-Options'' (wr_headers (security_headers_middleware r)) = Some ''nosniff''"
proof -
  let ?s = "the_settings (branding_run evs d)"
  obtain img where img: "rs_logo_image ?s = Some img" "r = logo_response img (rs_logo_content_type ?s)"
    using assms(2) by (auto simp: get_logo_def get_relay_settings_eq Let_def split: option.splits)
  obtain t where t: "t \<in> set ALLOWED_LOGO_CONTENT_TYPES" "rs_logo_content_type ?s = Some t" "detect_logo_type img = Some t"
    "length img \<le> MAX_LOGO_BYTES"
    using branding_run_ok[OF assms(1), of evs] img(1) by (auto simp: logo_ok_def)
  have "t \<noteq> []" using t(1) by (auto simp: ALLOWED_LOGO_CONTENT_TYPES_def)
  then have media: "wr_media_type r = t" using img(2) t(2) by (simp add: logo_response_def split: list.splits)
  moreover have "wr_content r = img" "wr_headers r = LOGO_RESPONSE_HEADERS" using img(2) by (simp_all add: logo_response_def)
  ultimately show ?thesis using t middleware_keeps_logo_headers[of r] by simp
qed

definition demo_brand_request :: admin_request where
  "demo_brand_request = \<lparr>aq_admin_id = 1, aq_ip = None, aq_now = 0, aq_new_id = 1, aq_audit_id = 1, aq_nonce = []\<rparr>"

theorem logo_served_safely_witness:
  "\<exists>r. get_logo (branding_run [Upload demo_brand_request (Some ''image/svg+xml'') '' <SVG onload=1>''] empty_db) = Inr r \<and>
     wr_media_type r = ''image/svg+xml'' \<and>
     header_of ''Content-Security-Policy'' (wr_headers (security_headers_middleware r)) =
       Some ''default-src 'none'; style-src 'unsafe-inline'; sandbox''"
proof -
  have ok: "logo_ok (the_settings empty_db)"
    by (simp add: empty_db_def logo_ok_def default_relay_settings_def accent_color_ok_def)
  have short: "take (MAX_LOGO_BYTES + 1) '' <SVG onload=1>'' = '' <SVG onload=1>''"
    by (rule take_all) (simp add: MAX_LOGO_BYTES_def)
  have len: "length '' <SVG onload=1>'' \<le> MAX_LOGO_BYTES" by (simp add: MAX_LOGO_BYTES_def)
  have parts: "take 1024 '' <SVG onload=1>'' = '' <SVG onload=1>''" "take 4096 '' <SVG onload=1>'' = '' <SVG onload=1>''"
    by simp_all
  have magic: "\<not> prefix PNG_MAGIC '' <SVG onload=1>''" "\<not> prefix [CHR 0xFF, CHR 0xD8, CHR 0xFF] '' <SVG onload=1>''"
    "removeprefix [CHR 0xEF, CHR 0xBB, CHR 0xBF] '' <SVG onload=1>'' = '' <SVG onload=1>''"
    by (simp_all add: PNG_MAGIC_def removeprefix_def)
  have svg: "sql_lower (lstrip_of bytes_space '' <SVG onload=1>'') = ''<svg onload=1>''"
    "sql_lower '' <SVG onload=1>'' = '' <svg onload=1>''" "sublist ''<svg'' '' <svg onload=1>''"
    by code_simp+
  have detected: "detect_logo_type '' <SVG onload=1>'' = Some ''image/svg+xml''"
    unfolding detect_logo_type_def parts magic(3) Let_def svg(1,2) using magic(1,2) svg(3) by simp
  define data where "data = '' <SVG onload=1>''"
  have upload: "upload_logo demo_brand_request (Some ''image/svg+xml'') data empty_db =
      (let d1 = audit_admin demo_brand_request ''branding.logo_upload'' ''relay_settings'' 1
                     [(''content_type'', optional_str (Some ''image/svg+xml'')), (''size_bytes'', JInt (int (length data)))]
                     (empty_db\<lparr>settings_row := Some ((the_settings empty_db)\<lparr>rs_logo_image := Some data, rs_logo_content_type := Some ''image/svg+xml''\<rparr>)\<rparr>)
       in (Inr (get_branding d1), d1))"
    using detected short len unfolding data_def[symmetric]
    by (simp add: upload_logo_def ALLOWED_LOGO_CONTENT_TYPES_def get_relay_settings_eq Let_def)
  have got: "get_logo (branding_run [Upload demo_brand_request (Some ''image/svg+xml'') data] empty_db) =
      Inr (logo_response data (Some ''image/svg+xml''))"
    using upload by (simp add: branding_run_def get_logo_def get_relay_settings_eq audit_admin_def Let_def)
  from logo_served_safely[OF ok got] show ?thesis using got unfolding data_def by (auto simp: logo_response_def)
qed

end
