(* ===== verification/Csv_Export.thy ===== *)
theory Csv_Export
  imports Senders Civil_Time
begin

text \<open>
  The downloads of \<open>api/routes/exports.py\<close> and \<open>core/csv_export.py\<close>, with the writer of Python's \<open>csv\<close> module in its default
  dialect and a reader for it.  What is exported reads back as it was, and no cell starts a formula.
\<close>

section \<open>Writing (\<open>core/csv_export.py\<close>)\<close>

datatype cell = Text pystr | Number int

definition formula_start :: "pystr \<Rightarrow> bool" where
  "formula_start s \<longleftrightarrow> (case s of [] \<Rightarrow> False | c # _ \<Rightarrow> c \<in> {CHR ''='', CHR ''+'', CHR ''-'', CHR ''@'', CHR 9, CHR 13})"

definition neutralize :: "cell \<Rightarrow> cell" where
  "neutralize value = (case value of Text s \<Rightarrow> if formula_start s then Text (CHR 39 # s) else value | Number n \<Rightarrow> value)"

definition cell_text :: "cell \<Rightarrow> pystr" where
  "cell_text value = (case value of Text s \<Rightarrow> s | Number n \<Rightarrow> str_of_int n)"

text \<open>\<open>QUOTE_MINIMAL\<close>, and a row that is one empty field is quoted.\<close>

definition csv_quote :: "pystr \<Rightarrow> pystr" where
  "csv_quote s = [CHR 34] @ concat (map (\<lambda>c. if c = CHR 34 then [c, c] else [c]) s) @ [CHR 34]"

definition needs_quotes :: "pystr \<Rightarrow> bool" where
  "needs_quotes s \<longleftrightarrow> CHR '','' \<in> set s \<or> CHR 34 \<in> set s \<or> CHR 13 \<in> set s \<or> CHR 10 \<in> set s"

definition csv_field :: "pystr \<Rightarrow> pystr" where
  "csv_field s = (if needs_quotes s then csv_quote s else s)"

definition csv_row :: "pystr list \<Rightarrow> pystr" where
  "csv_row row = (if row = [[]] then csv_quote [] else join '','' (map csv_field row)) @ [CHR 13, CHR 10]"

definition csv_response :: "pystr list \<Rightarrow> cell list list \<Rightarrow> pystr" where
  "csv_response header rows =
     csv_row header @ concat (map (\<lambda>row. csv_row (map (\<lambda>c. cell_text (neutralize c)) row)) rows)"

section \<open>The exports (\<open>api/routes/exports.py\<close>)\<close>

definition yes_no :: "bool \<Rightarrow> cell" where
  "yes_no b = Text (if b then ''yes'' else ''no'')"

definition text_or_empty :: "pystr option \<Rightarrow> cell" where
  "text_or_empty s = Text (case s of None \<Rightarrow> [] | Some t \<Rightarrow> t)"

definition senders_header :: "pystr list" where
  "senders_header = [''address'', ''upstream_account'', ''enabled'', ''allowed_local_user_count'', ''description'']"

definition sender_cells :: "db \<Rightarrow> sender \<Rightarrow> cell list" where
  "sender_cells d s =
     [Text (sn_address s),
      text_or_empty (map_option ua_name (tbl_get ua_id (sn_upstream_account_id s) (accounts d))), yes_no (sn_enabled s),
      Number (int (length (filter (\<lambda>p. pm_sender_id p = sn_id s) (permissions d)))), text_or_empty (sn_description s)]"

definition export_senders_csv :: "db \<Rightarrow> pystr" where
  "export_senders_csv d = csv_response senders_header (map (sender_cells d) (sort_key sn_address (senders d)))"

definition users_header :: "pystr list" where
  "users_header = [''name'', ''username'', ''enabled'', ''allowed_sender_count'', ''password_last_rotated_at'']"

definition user_cells :: "db \<Rightarrow> local_smtp_user \<Rightarrow> cell list" where
  "user_cells d u =
     [Text (lu_name u), Text (lu_username u), yes_no (lu_enabled u),
      Number (int (length (filter (\<lambda>p. pm_local_smtp_user_id p = lu_id u) (permissions d)))),
      text_or_empty (map_option isoformat (lu_password_last_rotated_at u))]"

definition export_local_users_csv :: "db \<Rightarrow> pystr" where
  "export_local_users_csv d = csv_response users_header (map (user_cells d) (sort_key lu_name (local_users d)))"

definition permissions_header :: "pystr list" where
  "permissions_header = [''sender_address'', ''local_user_name'', ''local_user_username'', ''granted_at'']"

definition granted_rows :: "db \<Rightarrow> (pystr \<times> pystr \<times> pystr \<times> datetime) list" where
  "granted_rows d =
     sort_key (\<lambda>(address, name, _, _). (address, name))
       [(sn_address s, lu_name u, lu_username u, pm_granted_at p).
          p \<leftarrow> permissions d, s \<leftarrow> senders d, sn_id s = pm_sender_id p, u \<leftarrow> local_users d, lu_id u = pm_local_smtp_user_id p]"

definition export_permissions_csv :: "db \<Rightarrow> pystr" where
  "export_permissions_csv d =
     csv_response permissions_header
       (map (\<lambda>(address, name, username, granted_at). [Text address, Text name, Text username, Text (isoformat granted_at)]) (granted_rows d))"

section \<open>Reading back\<close>

datatype csv_mode = Field_start | In_field | In_quotes | After_quote | After_cr

fun read_csv :: "csv_mode \<Rightarrow> pystr \<Rightarrow> pystr list \<Rightarrow> pystr \<Rightarrow> pystr list list" where
  "read_csv mode field row [] = (if mode = After_cr \<or> (mode = Field_start \<and> row = []) then [] else [rev (rev field # row)])"
| "read_csv In_quotes field row (c # s) =
     (if c = CHR 34 then read_csv After_quote field row s else read_csv In_quotes (c # field) row s)"
| "read_csv After_quote field row (c # s) =
     (if c = CHR 34 then read_csv In_quotes (c # field) row s
      else if c = CHR '','' then read_csv Field_start [] (rev field # row) s
      else if c = CHR 13 then rev (rev field # row) # read_csv After_cr [] [] s
      else read_csv In_field (c # field) row s)"
| "read_csv After_cr field row (c # s) =
     (if c = CHR 10 then read_csv Field_start [] [] s else read_csv In_field [c] [] s)"
| "read_csv mode field row (c # s) =
     (if mode = Field_start \<and> c = CHR 34 then read_csv In_quotes [] row s
      else if c = CHR '','' then read_csv Field_start [] (rev field # row) s
      else if c = CHR 13 then rev (rev field # row) # read_csv After_cr [] [] s
      else read_csv In_field (c # field) row s)"

definition csv_rows :: "pystr \<Rightarrow> pystr list list" where
  "csv_rows s = read_csv Field_start [] [] s"

lemma read_quoted:
  "read_csv In_quotes acc row (concat (map (\<lambda>c. if c = CHR 34 then [c, c] else [c]) f) @ CHR 34 # s) =
   read_csv After_quote (rev f @ acc) row s"
  by (induction f arbitrary: acc) auto

lemma read_plain:
  "\<not> needs_quotes f \<Longrightarrow> read_csv In_field acc row (f @ s) = read_csv In_field (rev f @ acc) row s"
  by (induction f arbitrary: acc) (auto simp: needs_quotes_def)

text \<open>What follows a field: a separator or the end of the row\<close>

definition field_end :: "char \<Rightarrow> bool" where
  "field_end c \<longleftrightarrow> c = CHR '','' \<or> c = CHR 13"

lemma read_field:
  assumes "field_end c"
  shows "read_csv Field_start [] row (csv_field f @ c # s) = read_csv In_field (rev f) row (c # s)"
proof (cases "needs_quotes f")
  case True
  then show ?thesis
    using assms read_quoted[of "[]" row f "c # s"] by (auto simp: csv_field_def csv_quote_def field_end_def)
next
  case False
  then show ?thesis
  proof (cases f)
    case Nil
    then show ?thesis using assms False by (auto simp: csv_field_def field_end_def)
  next
    case (Cons x g)
    then have "\<not> needs_quotes g" "x \<noteq> CHR 34" "x \<noteq> CHR '',''" "x \<noteq> CHR 13" using False by (auto simp: needs_quotes_def)
    then show ?thesis using Cons False read_plain[of g "[x]" row "c # s"] by (simp add: csv_field_def)
  qed
qed

lemma read_fields:
  "fs \<noteq> [] \<Longrightarrow> read_csv Field_start [] row (join '','' (map csv_field fs) @ CHR 13 # s) =
     rev (rev fs @ row) # read_csv After_cr [] [] s"
proof (induction fs arbitrary: row)
  case (Cons f fs)
  show ?case
  proof (cases "fs = []")
    case True
    then show ?thesis using read_field[of "CHR 13" row f s] by (simp add: field_end_def)
  next
    case False
    have "read_csv Field_start [] row (join '','' (map csv_field (f # fs)) @ CHR 13 # s) =
        read_csv Field_start [] row (csv_field f @ CHR '','' # join '','' (map csv_field fs) @ CHR 13 # s)"
      using False by (simp add: join_Cons)
    also have "\<dots> = read_csv Field_start [] (f # row) (join '','' (map csv_field fs) @ CHR 13 # s)"
      using read_field[of "CHR '',''" row f] by (simp add: field_end_def)
    also have "\<dots> = rev (rev fs @ f # row) # read_csv After_cr [] [] s" using Cons.IH[OF False] .
    finally show ?thesis by simp
  qed
qed simp

lemma read_row: "row \<noteq> [] \<Longrightarrow> csv_rows (csv_row row @ s) = row # csv_rows s"
  using read_fields[of row "[]" "CHR 10 # s"] read_quoted[of "[]" "[]" "[]" "CHR 13 # CHR 10 # s"]
  by (auto simp: csv_rows_def csv_row_def csv_quote_def)

lemma read_rows: "\<forall>row\<in>set rows. row \<noteq> [] \<Longrightarrow> csv_rows (concat (map csv_row rows)) = rows"
  by (induction rows) (auto simp: read_row, simp add: csv_rows_def)

lemma response_read_back:
  assumes "header \<noteq> []" "\<forall>row\<in>set rows. row \<noteq> []"
  shows "csv_rows (csv_response header rows) = header # map (map (\<lambda>c. cell_text (neutralize c))) rows"
proof -
  have "csv_response header rows = concat (map csv_row (header # map (map (\<lambda>c. cell_text (neutralize c))) rows))"
    by (simp add: csv_response_def comp_def)
  then show ?thesis using read_rows[of "header # map (map (\<lambda>c. cell_text (neutralize c))) rows"] assms by auto
qed

text \<open>A neutralized cell starts no formula; the apostrophe is all that is added.\<close>

lemma digits_no_formula: "\<not> formula_start (str_of_int (int n))"
proof -
  have "nat_digits n \<noteq> []" by (subst nat_digits.simps) simp
  then obtain c cs where c: "nat_digits n = c # cs" by (cases "nat_digits n") auto
  have "48 \<le> code c" "code c \<le> 57" using nat_digits_chars[of c n] c by simp_all
  then show ?thesis by (auto simp: formula_start_def str_of_int_def c code_def)
qed

lemma neutralized_text: "\<not> formula_start (cell_text (neutralize (Text s)))"
  by (auto simp: neutralize_def cell_text_def formula_start_def split: list.splits if_splits)


end
