(* ===== verification/Queue_Routes.thy ===== *)
theory Queue_Routes
  imports Health Tls_Settings
begin

text \<open>
  The mail queue (\<open>api/routes/queue.py\<close>), the configuration routes (\<open>api/routes/config.py\<close>) and the system status
  (\<open>api/routes/system.py\<close>), over the control surface.  No request reaches more than one queued message, and each that
  succeeded left an audit row.
\<close>

section \<open>The queue\<close>

text \<open>The pattern of the path parameter, \<open>^[0-9A-Za-z]{6,20}$\<close>, which Pydantic matches without a trailing line feed.\<close>

definition path_queue_id_ok :: "pystr \<Rightarrow> bool" where
  "path_queue_id_ok q \<longleftrightarrow> 6 \<le> length q \<and> length q \<le> 20 \<and> list_all is_ascii_alnum q"

record queue_recipient =
  qr_address :: pystr
  qr_delay_reason :: "pystr option"

record queue_entry =
  qe_queue_id :: pystr
  qe_queue_name :: pystr
  qe_arrival_time :: datetime
  qe_message_size :: int
  qe_sender :: pystr
  qe_recipients :: "queue_recipient list"

text \<open>\<open>raw.get(key, default)\<close> of a value the schema wants as text; anything else fails its validation.\<close>

definition get_text :: "pystr \<Rightarrow> (pystr \<times> json) list \<Rightarrow> pystr option" where
  "get_text key raw = (case map_of raw key of None \<Rightarrow> Some [] | Some (JStr s) \<Rightarrow> Some s | Some _ \<Rightarrow> None)"

definition get_size :: "pystr \<Rightarrow> (pystr \<times> json) list \<Rightarrow> int option" where
  "get_size key raw = (case map_of raw key of None \<Rightarrow> Some 0 | Some (JInt n) \<Rightarrow> Some n | Some _ \<Rightarrow> None)"

fun to_recipients :: "json list \<Rightarrow> queue_recipient list option" where
  "to_recipients [] = Some []"
| "to_recipients (JObj r # rs) =
     (case (get_text ''address'' r, jget ''delay_reason'' r, to_recipients rs) of
        (Some a, JNull, Some rest) \<Rightarrow> Some (\<lparr>qr_address = a, qr_delay_reason = None\<rparr> # rest)
      | (Some a, JStr d, Some rest) \<Rightarrow> Some (\<lparr>qr_address = a, qr_delay_reason = Some d\<rparr> # rest)
      | _ \<Rightarrow> None)"
| "to_recipients (_ # rs) = None"

text \<open>An entry without an id or an arrival time is a \<open>KeyError\<close>; \<open>None\<close> stands for every exception.\<close>

definition to_entry :: "json \<Rightarrow> queue_entry option" where
  "to_entry j =
     (case j of
        JObj raw \<Rightarrow>
          (case (map_of raw ''queue_id'', map_of raw ''arrival_time'', get_text ''queue_name'' raw, get_size ''message_size'' raw,
                 get_text ''sender'' raw, case map_of raw ''recipients'' of None \<Rightarrow> Some [] | Some (JList l) \<Rightarrow> to_recipients l | Some _ \<Rightarrow> None) of
             (Some (JStr q), Some (JInt t), Some name, Some sz, Some s, Some rs) \<Rightarrow>
               Some \<lparr>qe_queue_id = q, qe_queue_name = name, qe_arrival_time = seconds t, qe_message_size = sz, qe_sender = s,
                     qe_recipients = rs\<rparr>
           | _ \<Rightarrow> None)
      | _ \<Rightarrow> None)"

definition unavailable :: "ctl_error \<Rightarrow> http_error" where
  "unavailable e = HTTPException 503 (ctl_text e)"

definition list_queue :: "channel \<Rightarrow> (http_error + queue_entry list) \<times> channel" where
  "list_queue c =
     (case ctl_queue_list c of
        (Inl e, c') \<Rightarrow> (Inl (unavailable e), c')
      | (Inr raw, c') \<Rightarrow>
          (let entries = map to_entry raw
           in (if None \<in> set entries then Inl internal_error else Inr (map the entries), c')))"

definition audit_queue :: "admin_request \<Rightarrow> pystr \<Rightarrow> pystr \<Rightarrow> db \<Rightarrow> db" where
  "audit_queue rq action queue_id d =
     record_audit (aq_audit_id rq) (aq_now rq) (Some (aq_admin_id rq)) action (Some ''queue_message'') None
       (Some [(''queue_id'', JStr queue_id)]) (aq_ip rq) d"

text \<open>A path parameter that does not match is a 422 before the route runs.\<close>

definition retry_message :: "admin_request \<Rightarrow> pystr \<Rightarrow> db \<Rightarrow> channel \<Rightarrow> (http_error + unit) \<times> db \<times> channel" where
  "retry_message rq queue_id d c =
     (if \<not> path_queue_id_ok queue_id then (Inl (HTTPException 422 []), d, c)
      else case ctl_queue_requeue queue_id c of
          (Inl e, c') \<Rightarrow> (Inl (unavailable e), d, c')
        | (Inr _, c') \<Rightarrow> (Inr (), audit_queue rq ''queue.retry'' queue_id d, c'))"

definition delete_message :: "admin_request \<Rightarrow> pystr \<Rightarrow> db \<Rightarrow> channel \<Rightarrow> (http_error + unit) \<times> db \<times> channel" where
  "delete_message rq queue_id d c =
     (if \<not> path_queue_id_ok queue_id then (Inl (HTTPException 422 []), d, c)
      else case ctl_queue_delete queue_id c of
          (Inl e, c') \<Rightarrow> (Inl (unavailable e), d, c')
        | (Inr _, c') \<Rightarrow> (Inr (), audit_queue rq ''queue.delete'' queue_id d, c'))"

section \<open>Configuration runs\<close>

definition generation_http_error :: "generation_error \<Rightarrow> http_error" where
  "generation_http_error e =
     (case e of
        Secret_Error UnicodeDecodeError \<Rightarrow> internal_error
      | Secret_Error s \<Rightarrow> HTTPException 503 (secret_text s)
      | Control_Error c \<Rightarrow> unavailable c)"

definition generate_config ::
  "config_ext \<Rightarrow> admin_request \<Rightarrow> db \<Rightarrow> channel \<Rightarrow> (http_error + generation_outcome) \<times> db \<times> channel" where
  "generate_config X rq d c =
     (case generate_and_apply X surface_rpc (aq_new_id rq) (aq_now rq) (Some (aq_admin_id rq)) False d c of
        (Inl e, d', c') \<Rightarrow> (Inl (generation_http_error e), d', c')
      | (Inr outcome, d', c') \<Rightarrow>
          (Inr outcome,
           audit_admin rq ''config.generate'' ''config_generation'' (go_generation_id outcome)
             [(''success'', JBool (go_success outcome)), (''reloaded'', JBool (go_reloaded outcome))] d', c'))"

text \<open>A dry run never talks to the control surface.\<close>

definition validate_config :: "config_ext \<Rightarrow> db \<Rightarrow> channel \<Rightarrow> (http_error + generation_outcome) \<times> db \<times> channel" where
  "validate_config X d c =
     (case generate_and_apply X surface_rpc 0 0 None True d c of
        (Inl e, d', c') \<Rightarrow> (Inl (generation_http_error e), d', c')
      | (Inr outcome, d', c') \<Rightarrow> (Inr outcome, d', c'))"

definition list_generations :: "db \<Rightarrow> config_generation list" where
  "list_generations d = take 50 (sort_key (\<lambda>g. - cg_generated_at g) (generations d))"

record system_status_read =
  sy_encryption_key_configured :: bool
  sy_app_version :: pystr
  sy_postfix_version :: "pystr option"

text \<open>\<open>version("relay")\<close> is an argument.\<close>

definition system_status :: "key_settings \<Rightarrow> pystr \<Rightarrow> channel \<Rightarrow> system_status_read \<times> channel" where
  "system_status ks app_version c =
     (let (v, c') = ctl_version c
      in (\<lparr>sy_encryption_key_configured = is_encryption_key_configured ks, sy_app_version = app_version,
           sy_postfix_version = (case v of Inl _ \<Rightarrow> None | Inr t \<Rightarrow> Some t)\<rparr>, c'))"

section \<open>One message at a time\<close>

lemma path_ids_are_queue_ids: "path_queue_id_ok q \<longleftrightarrow> queue_id_ok q"
  by (simp add: path_queue_id_ok_def queue_id_ok_def list_all_iff)

lemma all_is_no_queue_id: "\<not> path_queue_id_ok ''ALL''"
  by (simp add: path_queue_id_ok_def)

lemma postsuper_ran:
  assumes "postsuper flag run payload m = (Inr response, m')" "jget ''queue_id'' payload = JStr q" "truthy (jget ''ok'' response)"
  shows "\<exists>result. run [''postsuper'', flag, q] None m = (Inr result, m') \<and> cp_returncode result = 0"
proof -
  have "require_queue_id payload = Inr q"
    using assms(1,2) by (auto simp: postsuper_def andthen_Inr check_def require_queue_id_def require_str_def split: if_splits)
  then show ?thesis
    using assms(1,3)
    by (auto simp: postsuper_def andthen_check andthen_Inr return_def response_error_def response_ok_def truthy_def jget_def split: if_splits)
qed

lemma queue_call_ran:
  assumes "reading (\<lambda>_. ()) (ctl_call op [(''queue_id'', JStr q)] c) = (Inr (), c')"
    and "handler_for (ch_env c) (JStr op) = Some (postsuper flag (sf_run (ch_env c)))"
  shows "\<exists>result. sf_run (ch_env c) [''postsuper'', flag, q] None (ch_machine c) = (Inr result, ch_machine c') \<and> cp_returncode result = 0"
proof -
  obtain response where call: "ctl_call op [(''queue_id'', JStr q)] c = (Inr response, c')"
    using assms(1) by (auto simp: reading_Inr)
  have "postsuper flag (sf_run (ch_env c)) ((''op'', JStr op) # [(''queue_id'', JStr q)]) (ch_machine c) = (Inr response, ch_machine c')"
    by (rule ctl_call_handled[OF assms(2) call])
  then show ?thesis
    by (rule postsuper_ran) (use ctl_call_Inr(2)[OF call] in \<open>simp_all add: jget_def\<close>)
qed

text \<open>
  Queue management is precise and on record: a request that succeeded ran \<open>postsuper\<close> for exactly the message named, never for
  \<open>ALL\<close>, with exit code 0, and left one audit row that names the message; one that failed left the database as it was.
\<close>

lemma queue_deletion_on_record:
  "(\<forall>d' c'. delete_message rq q d c = (Inr (), d', c') \<longrightarrow>
     queue_id_ok q \<and> d' = audit_queue rq ''queue.delete'' q d \<and>
     (\<exists>result. sf_run (ch_env c) [''postsuper'', ''-d'', q] None (ch_machine c) = (Inr result, ch_machine c') \<and> cp_returncode result = 0)) \<and>
   (\<forall>d' c'. retry_message rq q d c = (Inr (), d', c') \<longrightarrow>
     queue_id_ok q \<and> d' = audit_queue rq ''queue.retry'' q d \<and>
     (\<exists>result. sf_run (ch_env c) [''postsuper'', ''-r'', q] None (ch_machine c) = (Inr result, ch_machine c') \<and> cp_returncode result = 0)) \<and>
   (\<forall>e d' c'. delete_message rq q d c = (Inl e, d', c') \<or> retry_message rq q d c = (Inl e, d', c') \<longrightarrow> d' = d) \<and>
   \<not> queue_id_ok ''ALL''"
proof (intro conjI allI impI)
  fix d' c'
  assume a: "delete_message rq q d c = (Inr (), d', c')"
  then have ok: "path_queue_id_ok q" and call: "ctl_queue_delete q c = (Inr (), c')" and d: "d' = audit_queue rq ''queue.delete'' q d"
    by (auto simp: delete_message_def split: if_splits prod.splits sum.splits)
  show "queue_id_ok q" using ok by (simp add: path_ids_are_queue_ids)
  show "d' = audit_queue rq ''queue.delete'' q d" by (rule d)
  show "\<exists>result. sf_run (ch_env c) [''postsuper'', ''-d'', q] None (ch_machine c) = (Inr result, ch_machine c') \<and> cp_returncode result = 0"
    by (rule queue_call_ran[OF call[unfolded ctl_queue_delete_def]]) (simp add: handler_for_def queue_delete_op_def)
next
  fix d' c'
  assume a: "retry_message rq q d c = (Inr (), d', c')"
  then have ok: "path_queue_id_ok q" and call: "ctl_queue_requeue q c = (Inr (), c')" and d: "d' = audit_queue rq ''queue.retry'' q d"
    by (auto simp: retry_message_def split: if_splits prod.splits sum.splits)
  show "queue_id_ok q" using ok by (simp add: path_ids_are_queue_ids)
  show "d' = audit_queue rq ''queue.retry'' q d" by (rule d)
  show "\<exists>result. sf_run (ch_env c) [''postsuper'', ''-r'', q] None (ch_machine c) = (Inr result, ch_machine c') \<and> cp_returncode result = 0"
    by (rule queue_call_ran[OF call[unfolded ctl_queue_requeue_def]]) (simp add: handler_for_def queue_requeue_op_def)
next
  fix e d' c'
  assume "delete_message rq q d c = (Inl e, d', c') \<or> retry_message rq q d c = (Inl e, d', c')"
  then show "d' = d" by (auto simp: delete_message_def retry_message_def split: if_splits prod.splits sum.splits)
qed (simp add: queue_id_ok_def)

text \<open>A dry run leaves everything alone.\<close>

lemma validate_config_idle: "validate_config X d c = (r, d', c') \<Longrightarrow> d' = d \<and> c' = c"
  by (auto simp: validate_config_def generate_and_apply_def Let_def split: prod.splits sum.splits)

end
