(* ===== verification/Operator_Cli.thy ===== *)
theory Operator_Cli
  imports Queue_Routes Upstream_Test
begin

text \<open>
  The operator's commands of \<open>cli.py\<close> that do without the web interface: the connection test, the two configuration runs, the queue and
  the doctor.  A command is the lines it prints, to standard output and to standard error, and its exit code.
\<close>

section \<open>Output\<close>

datatype echo = Out pystr | Err pystr

record command_result =
  cm_echo :: "echo list"
  cm_exit :: int

text \<open>An exception that no command catches is a traceback, with exit code 1.\<close>

definition crashed :: command_result where
  "crashed = \<lparr>cm_echo = [], cm_exit = 1\<rparr>"

section \<open>The commands\<close>

definition step_line :: "step_result \<Rightarrow> echo" where
  "step_line s = Out (''['' @ (if st_passed s then ''PASS'' else ''FAIL'') @ ''] '' @ st_name s @ '': '' @ st_detail s)"

definition cli_test_upstream ::
  "(bytes \<Rightarrow> secret_error + pystr) \<Rightarrow> upstream_net \<Rightarrow> int \<Rightarrow> db \<Rightarrow> command_result \<times> smtp_call list" where
  "cli_test_upstream decrypt N account_id d =
     (case tbl_get ua_id account_id (accounts d) of
        None \<Rightarrow> (\<lparr>cm_echo = [Err (''No upstream account with id '' @ str_of_int account_id @ ''.'')], cm_exit = 1\<rparr>, [])
      | Some a \<Rightarrow>
          (case decrypt (ua_encrypted_password a) of
             Inl UnicodeDecodeError \<Rightarrow> (crashed, [])
           | Inl e \<Rightarrow> (\<lparr>cm_echo = [Err (secret_text e)], cm_exit = 1\<rparr>, [])
           | Inr password \<Rightarrow>
               (case test_upstream_connection N (ua_host a) (ua_port a) (ua_tls_mode a) (ua_username a) password (ua_tls_skip_verify a) of
                  (Inl _, calls) \<Rightarrow> (crashed, calls)
                | (Inr report, calls) \<Rightarrow>
                    (\<lparr>cm_echo = map step_line report, cm_exit = (if succeeded report then 0 else 1)\<rparr>, calls))))"

definition warning_lines :: "pystr list \<Rightarrow> echo list" where
  "warning_lines ws = map (\<lambda>w. Out (''WARNING: '' @ w)) ws"

definition cli_validate_config :: "config_ext \<Rightarrow> db \<Rightarrow> channel \<Rightarrow> command_result" where
  "cli_validate_config X d c =
     (case generate_and_apply X surface_rpc 0 0 None True d c of
        (Inl _, _, _) \<Rightarrow> crashed
      | (Inr outcome, _, _) \<Rightarrow> \<lparr>cm_echo = Out (go_validation_detail outcome) # warning_lines (go_warnings outcome), cm_exit = 0\<rparr>)"

definition not_reached :: "ctl_error \<Rightarrow> command_result" where
  "not_reached e = \<lparr>cm_echo = [Err (''Could not reach the Postfix control surface: '' @ ctl_text e)], cm_exit = 1\<rparr>"

definition python_bool :: "bool \<Rightarrow> pystr" where
  "python_bool b = (if b then ''True'' else ''False'')"

text \<open>A missing or wrong key is not caught here.\<close>

definition cli_generate_config :: "config_ext \<Rightarrow> int \<Rightarrow> datetime \<Rightarrow> db \<Rightarrow> channel \<Rightarrow> command_result \<times> db \<times> channel" where
  "cli_generate_config X new_id now d c =
     (case generate_and_apply X surface_rpc new_id now None False d c of
        (Inl (Control_Error e), d', c') \<Rightarrow> (not_reached e, d', c')
      | (Inl (Secret_Error _), d', c') \<Rightarrow> (crashed, d', c')
      | (Inr outcome, d', c') \<Rightarrow>
          (\<lparr>cm_echo = [Out (''Generation #'' @ str_of_int (go_generation_id outcome) @ '': '' @
                         (if go_success outcome then ''PASS'' else ''FAIL''))] @
              (if go_validation_detail outcome = [] then [] else [Out (go_validation_detail outcome)]) @
              warning_lines (go_warnings outcome) @ [Out (''Reloaded: '' @ python_bool (go_reloaded outcome))],
            cm_exit = (if go_success outcome then 0 else 1)\<rparr>, d', c'))"

text \<open>
  The entries are read as they come; a missing id is a \<open>KeyError\<close>, after the lines printed so far.  The other values are the texts that
  \<open>postqueue -j\<close> prints; a value of another shape is treated like a missing id.  The names of a queue are padded to ten characters.
\<close>

definition ljust :: "nat \<Rightarrow> pystr \<Rightarrow> pystr" where
  "ljust n s = s @ replicate (n - length s) (CHR '' '')"

fun recipient_lines :: "queue_recipient list \<Rightarrow> echo list" where
  "recipient_lines [] = []"
| "recipient_lines (r # rs) =
     Out (''    -> '' @ qr_address r @ (case qr_delay_reason r of None \<Rightarrow> [] | Some [] \<Rightarrow> [] | Some reason \<Rightarrow> '' ('' @ reason @ '')''))
       # recipient_lines rs"

definition queue_entry_lines :: "json \<Rightarrow> echo list option" where
  "queue_entry_lines j =
     (case j of
        JObj raw \<Rightarrow>
          (case (map_of raw ''queue_id'', get_text ''queue_name'' raw, get_text ''sender'' raw,
                 case map_of raw ''recipients'' of None \<Rightarrow> Some [] | Some (JList l) \<Rightarrow> to_recipients l | Some _ \<Rightarrow> None) of
             (Some (JStr q), Some name, Some s, Some rs) \<Rightarrow>
               Some (Out (q @ ''  '' @ ljust 10 name @ ''  '' @ s) # recipient_lines rs)
           | _ \<Rightarrow> None)
      | _ \<Rightarrow> None)"

fun queue_lines :: "json list \<Rightarrow> echo list \<times> bool" where
  "queue_lines [] = ([], True)"
| "queue_lines (e # es) =
     (case queue_entry_lines e of
        None \<Rightarrow> ([], False)
      | Some ls \<Rightarrow> (case queue_lines es of (rest, ok) \<Rightarrow> (ls @ rest, ok)))"

definition cli_queue :: "channel \<Rightarrow> command_result \<times> channel" where
  "cli_queue c =
     (case ctl_queue_list c of
        (Inl e, c') \<Rightarrow> (not_reached e, c')
      | (Inr [], c') \<Rightarrow> (\<lparr>cm_echo = [Out ''Queue is empty.''], cm_exit = 0\<rparr>, c')
      | (Inr entries, c') \<Rightarrow>
          (let (ls, ok) = queue_lines entries in (\<lparr>cm_echo = ls, cm_exit = (if ok then 0 else 1)\<rparr>, c')))"

definition doctor_line :: "pystr \<Rightarrow> bool \<Rightarrow> pystr \<Rightarrow> echo" where
  "doctor_line label ok detail =
     Out (''['' @ (if ok then ''PASS'' else ''FAIL'') @ ''] '' @ label @ (if detail = [] then [] else '': '' @ detail))"

definition cli_doctor :: "pystr option \<Rightarrow> config_ext \<Rightarrow> db \<Rightarrow> channel \<Rightarrow> command_result \<times> channel" where
  "cli_doctor db_failure X d c =
     (case run_health_check db_failure X d c of
        (Inl _, c') \<Rightarrow> (crashed, c')
      | (Inr r, c') \<Rightarrow>
          (\<lparr>cm_echo =
              [doctor_line ''Database reachable'' (ck_ok (hr_database r)) (ck_detail (hr_database r)),
               doctor_line ''Postfix control surface reachable'' (ck_ok (hr_postfix_reachable r)) (ck_detail (hr_postfix_reachable r)),
               doctor_line ''Postfix running'' (ck_ok (hr_postfix_running r)) (ck_detail (hr_postfix_running r)),
               doctor_line ''Last config generation attempt'' (hr_last_generation_result r \<noteq> ''fail'')
                 (''result: '' @ hr_last_generation_result r),
               doctor_line ''Config in sync with database'' (ck_ok (hr_config_in_sync r)) (ck_detail (hr_config_in_sync r)),
               Out (''Overall: '' @ hr_status r)],
            cm_exit = (if hr_status r \<noteq> ''ok'' then 1 else 0)\<rparr>, c'))"

section \<open>Exit codes\<close>

text \<open>The doctor exits with 0 exactly when the health route reports \<open>ok\<close> for the same state.\<close>

lemma doctor_agrees_with_health:
  "cm_exit (fst (cli_doctor f X d c)) = 0 \<longleftrightarrow> (\<exists>r c'. run_health_check f X d c = (Inr r, c') \<and> hr_status r = ''ok'')"
  by (auto simp: cli_doctor_def crashed_def split: prod.splits sum.splits)

lemma generate_exit_code:
  "cm_exit (fst (cli_generate_config X i now d c)) = 0 \<longleftrightarrow>
   (\<exists>outcome d' c'. generate_and_apply X surface_rpc i now None False d c = (Inr outcome, d', c') \<and> go_success outcome)"
  by (auto simp: cli_generate_config_def crashed_def not_reached_def split: prod.splits sum.splits generation_error.splits)

lemma test_exit_code:
  assumes "tbl_get ua_id i (accounts d) = Some a" "decrypt (ua_encrypted_password a) = Inr password"
    and "test_upstream_connection N (ua_host a) (ua_port a) (ua_tls_mode a) (ua_username a) password (ua_tls_skip_verify a) = (Inr report, t)"
  shows "cli_test_upstream decrypt N i d = (\<lparr>cm_echo = map step_line report, cm_exit = (if succeeded report then 0 else 1)\<rparr>, t)"
  using assms by (simp add: cli_test_upstream_def)

end
