(* ===== verification/Startup.thy ===== *)
theory Startup
  imports Certificate_Safety Credential_Safety
begin

text \<open>
  How the jobs run: the periodic loop of \<open>core/scheduler.py\<close> that isolates a tick from the exceptions of the
  tick before, and the start of the application (\<open>main.py\<close>), which repairs the certificate files and the
  credentials of the relay from the database before any job runs.  The two repairs share one machine; the
  lemmas show that neither undoes the other.
\<close>

section \<open>The periodic loop\<close>

text \<open>
  \<open>run_periodic\<close> never ends; the argument lists what the turns so far were given.  A tick that raises is
  logged, and the loop goes on with what it left, which is nothing: its session is rolled back.
\<close>

fun run_periodic :: "('e \<Rightarrow> 's \<Rightarrow> 'x option \<times> 's) \<Rightarrow> 'e list \<Rightarrow> 's \<Rightarrow> 'x list \<times> 's" where
  "run_periodic tick [] s = ([], s)"
| "run_periodic tick (e # es) s =
     (case tick e s of (raised, s') \<Rightarrow>
        (case run_periodic tick es s' of (logged, s'') \<Rightarrow>
           (case raised of None \<Rightarrow> logged | Some x \<Rightarrow> x # logged, s'')))"

context interval_job begin

text \<open>So the loop is what the locale calls a sequence of attempts, and the log has those that raised.\<close>

lemma periodic_is_run_ticks:
  "snd (run_periodic (\<lambda>e s. (if raises e s then Some e else None, tick e s)) es s) = run_ticks es s"
proof (induction es arbitrary: s)
  case (Cons e es)
  from Cons[of "tick e s"] show ?case by (auto split: prod.split)
qed simp

lemma raising_turns_logged:
  "raises e s \<Longrightarrow> run_periodic (\<lambda>e s. (if raises e s then Some e else None, tick e s)) (e # es) s =
    (e # fst (run_periodic (\<lambda>e s. (if raises e s then Some e else None, tick e s)) es s),
     snd (run_periodic (\<lambda>e s. (if raises e s then Some e else None, tick e s)) es s))"
  by (simp add: raised split: prod.splits)

end

section \<open>The start of the application\<close>

text \<open>\<open>lifespan\<close> up to the creation of the tasks; an exception keeps the application from coming up.\<close>

definition lifespan_start ::
  "'w installer \<Rightarrow> 'w sasl_rpc \<Rightarrow> aead \<Rightarrow> key_settings \<Rightarrow> db \<Rightarrow> 'w \<Rightarrow> secret_error option \<times> 'w" where
  "lifespan_start install R A ks d w =
     (case sync_certificate_to_postfix install A ks d w of
        (Some e, w1) \<Rightarrow> (Some e, w1)
      | (None, w1) \<Rightarrow> (None, snd (reconcile_sasldb R d w1)))"

text \<open>The tools of the user database write only the database.\<close>

definition sasl_tools_local :: "runner \<Rightarrow> bool" where
  "sasl_tools_local run \<longleftrightarrow>
     (\<forall>args inp. touches {SASLDB} (run (''saslpasswd2'' # args) inp)) \<and> touches {} (run [''sasldblistusers2''] None)"

lemma touches_sync: "touches {SASLDB, SASLDB_COPY} (sync_or_error what)"
proof (rule touchesI)
  fix m p
  assume p: "p \<notin> {SASLDB, SASLDB_COPY}"
  have "touches {SASLDB_COPY} (andthen (open_trunc SASLDB_COPY 420) (\<lambda>_. write_content SASLDB_COPY c))" for c
    by (intro touches_rules) simp_all
  from touchesD[OF this] p have "m_files (snd (sync_sasldb_to_volume m)) p = m_files m p"
    by (simp add: sync_sasldb_to_volume_def split: option.split)
  then show "m_files (snd (sync_or_error what m)) p = m_files m p"
    by (simp add: sync_or_error_def split: prod.split sum.split exn.split) fastforce
qed

lemma touches_delete_user:
  assumes "sasl_tools_local run"
  shows "touches {SASLDB, SASLDB_COPY} (sasl_delete_user run payload)"
proof -
  have "touches {SASLDB, SASLDB_COPY} (run (''saslpasswd2'' # args) inp)" "touches {SASLDB, SASLDB_COPY} (run [''sasldblistusers2''] None)" for args inp
    using assms unfolding sasl_tools_local_def by (blast intro: touches_mono)+
  from this show ?thesis unfolding sasl_delete_user_def sasl_user_exists_def by (intro touches_rules touches_sync)
qed

lemma touches_list_users:
  assumes "sasl_tools_local run"
  shows "touches {} (sasl_list_users run payload)"
  using assms unfolding sasl_list_users_def sasl_tools_local_def by (intro touches_rules) simp_all

text \<open>A call changes at most the files its handler touches.\<close>

lemma call_touches:
  assumes "handler_for (ch_env c) (JStr op) = Some h" "\<And>payload. touches D (h payload)"
    and "ctl_call op payload c = (r, c')" "p \<notin> D"
  shows "m_files (ch_machine c') p = m_files (ch_machine c) p"
proof -
  obtain ans m' where a: "h ((''op'', JStr op) # payload) (ch_machine c) = (ans, m')" by fastforce
  have "m_files m' p = m_files (ch_machine c) p"
    using touchesD[OF assms(2,4), of "(''op'', JStr op) # payload" "ch_machine c"] by (simp add: a)
  then show ?thesis using ctl_call_machine(1)[OF assms(1,3) a] by auto
qed

lemma reading_call: "reading f call = (r, c') \<Longrightarrow> \<exists>r0. call = (r0, c')"
  by (cases call) (auto simp: reading_def split: sum.splits)

lemma delete_call_touches:
  assumes "sasl_tools_local (sf_run (ch_env c))" "ctl_sasl_delete_user u c = (r, c')" "p \<notin> {SASLDB, SASLDB_COPY}"
  shows "m_files (ch_machine c') p = m_files (ch_machine c) p" "ch_env c' = ch_env c"
proof -
  obtain r0 where "ctl_call ''sasl_delete_user'' [(''username'', JStr u)] c = (r0, c')"
    using reading_call assms(2) unfolding ctl_sasl_delete_user_def by blast
  then show "m_files (ch_machine c') p = m_files (ch_machine c) p" "ch_env c' = ch_env c"
    using call_touches[where op = "''sasl_delete_user''", OF _ touches_delete_user[OF assms(1)] _ assms(3)] ctl_call_env'
    by (auto simp: handler_for_def)
qed

lemma list_call_touches:
  assumes "sasl_tools_local (sf_run (ch_env c))" "ctl_sasl_list_users c = (r, c')"
  shows "m_files (ch_machine c') p = m_files (ch_machine c) p" "ch_env c' = ch_env c"
proof -
  obtain r0 where "ctl_call ''sasl_list_users'' [] c = (r0, c')"
    using reading_call assms(2) unfolding ctl_sasl_list_users_def by blast
  then show "m_files (ch_machine c') p = m_files (ch_machine c) p" "ch_env c' = ch_env c"
    using call_touches[where op = "''sasl_list_users''", OF _ touches_list_users[OF assms(1)], where p = p] ctl_call_env'
    by (auto simp: handler_for_def)
qed

lemma remove_stale_touches:
  assumes "sasl_tools_local (sf_run (ch_env c))" "remove_stale surface_sasl allowed live c = (removed, c')"
    and "p \<notin> {SASLDB, SASLDB_COPY}"
  shows "m_files (ch_machine c') p = m_files (ch_machine c) p"
  using assms
proof (induction live arbitrary: c removed)
  case (Cons u live)
  show ?case
  proof (cases "u \<in> set allowed")
    case False
    obtain r c1 where d: "ctl_sasl_delete_user u c = (r, c1)" by fastforce
    note step = delete_call_touches[OF Cons.prems(1) d Cons.prems(3)]
    obtain removed1 where "remove_stale surface_sasl allowed live c1 = (removed1, c')"
      using Cons.prems(2) False d by (auto split: sum.splits prod.splits)
    from Cons.IH[OF _ this Cons.prems(3)] Cons.prems(1) step show ?thesis by simp
  qed (use Cons in simp)
qed simp

lemma reconcile_touches:
  assumes "sasl_tools_local (sf_run (ch_env c))" "p \<notin> {SASLDB, SASLDB_COPY}"
  shows "m_files (ch_machine (snd (reconcile_sasldb surface_sasl d c))) p = m_files (ch_machine c) p"
proof -
  obtain r c1 where l: "ctl_sasl_list_users c = (r, c1)" by fastforce
  note list = list_call_touches[OF assms(1) l]
  obtain removed c2 where s: "remove_stale surface_sasl (enabled_names d) (projr r) c1 = (removed, c2)" by fastforce
  have "m_files (ch_machine c2) p = m_files (ch_machine c1) p"
    using remove_stale_touches[OF _ s assms(2)] assms(1) list(2) by simp
  then show ?thesis using l s list(1) by (cases r) (simp_all add: reconcile_sasldb_def)
qed

text \<open>The installation of a certificate, in turn, leaves the credentials alone.\<close>

lemma touches_install_tls:
  assumes "tls_tools_local run" "staging \<noteq> fst SASLDB"
  shows "touches (- {SASLDB}) (install_tls_certificate run staging payload)"
proof -
  have tool: "touches (- {SASLDB}) (run (''openssl'' # args) None)" "touches (- {SASLDB}) (run [''postfix'', verb] None)" for args verb
    using assms(1) tools_localD(3) unfolding tls_tools_local_def by (blast intro: touches_mono)+
  have files: "touches (- {SASLDB}) (write_file (TLS_DIR, n) x mode)" for n x mode
    by (intro touches_rules) (simp_all add: TLS_DIR_def SASLDB_def new_name_def)
  have plain: "touches (- {SASLDB}) (write_plain (staging, n) x)" for n x
    using assms(2) by (intro touches_rules) (auto simp: SASLDB_def)
  have replace: "touches (- {SASLDB}) (replace_tls_files run c k)" for c k
    unfolding replace_tls_files_def write_tls_files_def restore_tls_files_def read_tls_files_def Let_def
    by (intro touches_rules tool files) (auto intro!: touches_rules files split: option.splits)
  have "{p. fst p = staging} \<subseteq> - {SASLDB}" using assms(2) by auto
  then show ?thesis
    unfolding install_tls_certificate_def Let_def by (intro touches_rules tool plain replace)
qed

lemma install_call_creds:
  assumes "tls_channel c" "sf_staging1 (ch_env c) \<noteq> fst SASLDB" "ctl_install_tls_certificate cert key c = (r, c')"
  shows "live_creds users_in c' = live_creds users_in c" "ch_env c' = ch_env c"
proof -
  obtain r0 where call: "ctl_call ''install_tls_certificate'' [(''cert_pem'', JStr cert), (''key_pem'', JStr key)] c = (r0, c')"
    using reading_call assms(3) unfolding ctl_install_tls_certificate_def by blast
  have "m_files (ch_machine c') SASLDB = m_files (ch_machine c) SASLDB"
    using call_touches[where op = "''install_tls_certificate''", OF _ touches_install_tls[OF _ assms(2)] call, where p = SASLDB] assms(1)
    by (simp add: handler_for_def tls_channel_def)
  then show "live_creds users_in c' = live_creds users_in c" by (simp add: live_creds_def machine_creds_def)
  show "ch_env c' = ch_env c" by (rule ctl_call_env'[OF call])
qed

section \<open>Both repairs together\<close>

definition startup_channel :: "channel \<Rightarrow> bool" where
  "startup_channel c \<longleftrightarrow> tls_channel c \<and> sasl_tools_local (sf_run (ch_env c)) \<and> sf_staging1 (ch_env c) \<noteq> fst SASLDB"

lemma reconcile_keeps_certificate:
  assumes "sasl_tools_local (sf_run (ch_env c))"
  shows "channel_cert (snd (reconcile_sasldb surface_sasl d c)) = channel_cert c"
    "channel_key (snd (reconcile_sasldb surface_sasl d c)) = channel_key c"
  using reconcile_touches[OF assms, where d = d]
  by (simp_all add: channel_cert_def channel_key_def tls_file_def TLS_DIR_def SASLDB_def SASLDB_COPY_def)

text \<open>
  A start never touches the credential of an enabled user and adds no stale one, whatever the installation
  of the certificate ends in.
\<close>

lemma sync_keeps_credentials:
  assumes "startup_channel c" "sync_certificate_to_postfix ctl_install_tls_certificate A ks d c = (e, c')"
  shows "live_creds users_in c' = live_creds users_in c" "ch_env c' = ch_env c"
  using sync_effect[OF assms(2)] install_call_creds assms(1) unfolding startup_channel_def by blast+

lemma start_keeps_credentials:
  assumes "store_ok users_in c" "startup_channel c"
    and start: "lifespan_start ctl_install_tls_certificate surface_sasl A ks d c = (e, c')"
  shows "\<forall>u\<in>set (enabled_names d). live_creds users_in c' u = live_creds users_in c u"
    and "stale (live_creds users_in c') d \<subseteq> stale (live_creds users_in c) d"
proof -
  obtain e1 c1 where sync: "sync_certificate_to_postfix ctl_install_tls_certificate A ks d c = (e1, c1)" by fastforce
  note keeps = sync_keeps_credentials[OF assms(2) sync]
  have ok: "store_ok users_in c1" using assms(1) keeps by (simp add: store_ok_def)
  obtain removed c2 where r: "reconcile_sasldb surface_sasl d c1 = (removed, c2)" by fastforce
  note facts = surface_facts(3,4)[OF ok r]
  have "c' = c1 \<or> c' = c2" using start sync r by (cases e1) (auto simp: lifespan_start_def)
  then show "\<forall>u\<in>set (enabled_names d). live_creds users_in c' u = live_creds users_in c u"
    "stale (live_creds users_in c') d \<subseteq> stale (live_creds users_in c) d"
    using facts keeps(1)[of users_in] by auto
qed

text \<open>When the relay says that the recorded pair is installed, that pair is what is live after the start.\<close>

lemma start_installs_recorded_pair:
  assumes "startup_channel c" "tc_cert_pem (the_tls d) = Some cert" "tc_encrypted_key_pem (the_tls d) = Some blob"
    and "decrypt_secret A ks blob = Inr key" "ctl_install_tls_certificate cert key c = (Inr report, c1)" "ir_success report"
    and start: "lifespan_start ctl_install_tls_certificate surface_sasl A ks d c = (e, c')"
  shows "e = None \<and> channel_cert c' = Some cert \<and> channel_key c' = Some key"
proof -
  have "tls_channel c" "sf_staging1 (ch_env c) \<noteq> fst SASLDB" "sasl_tools_local (sf_run (ch_env c))"
    using assms(1) by (simp_all add: startup_channel_def)
  note live = surface_tls.installed[OF this(1) assms(5,6)] and env = install_call_creds(2)[OF this(1,2) assms(5)]
  have "sync_certificate_to_postfix ctl_install_tls_certificate A ks d c = (None, c1)"
    using assms(2-5) by (simp add: sync_certificate_to_postfix_def get_tls_eq)
  then have "e = None" "c' = snd (reconcile_sasldb surface_sasl d c1)" using start by (simp_all add: lifespan_start_def)
  then show ?thesis using live reconcile_keeps_certificate[of c1 d] env \<open>sasl_tools_local _\<close> by simp
qed

text \<open>A stored key that does not decode is the one failure that keeps the application from starting.\<close>

lemma start_raises:
  "fst (lifespan_start install R A ks d w) = Some e \<Longrightarrow> e = UnicodeDecodeError \<and>
    (\<exists>blob. tc_encrypted_key_pem (the_tls d) = Some blob \<and> decrypt_secret A ks blob = Inl UnicodeDecodeError)"
  by (auto simp: lifespan_start_def sync_certificate_to_postfix_def get_tls_eq
      split: option.splits sum.splits secret_error.splits prod.splits)

end
