(* ===== verification/Spec2Isabelle.thy ===== *)
theory Spec2Isabelle
  imports Key_Rotation Admin_Safety Config_Generator Policy_Service Rate_Limit_Jobs Credential_Safety Username_Reuse Password_Binding Mail_Log_Exact Renewal_Spacing
    Health Housekeeping Alerts Alert_Email Notification_Settings Log_Pages Branding Csv_Export Queue_Routes
    Operator_Cli Startup
begin

text \<open>
  SMTP Credential Broker: a verification development for the Python sources under \<open>backend/app/\<close> and
  \<open>postfix/control_surface.py\<close>.

  \<^bold>\<open>The program.\<close>  Services of an internal network send mail through Postfix with a credential of their own and under
  the addresses they were granted; Postfix relays it to upstream accounts whose passwords the services never see.
  Two processes do the work.  The application (FastAPI, SQLite) holds the database, answers the admin's requests,
  runs the periodic jobs, and answers Postfix's policy queries.  The control surface is a small root process in the
  Postfix container that executes a fixed set of requests: it applies configurations, sets and deletes credentials,
  installs the certificate, hands out the log and handles the queue.  They talk over a socket; every call may be
  refused, fail half way, or succeed with the answer lost.

  \<^bold>\<open>How it is modelled.\<close>  The database is the record \<open>db\<close> of lists of row records (\<open>Models\<close>).  A route is a function of
  the request, the database and what it calls, to an answer or \<open>HTTPException\<close> and the committed database; a rollback is
  the old database.  A tick of a job is such a function too.  The Postfix container is the record \<open>machine\<close> (files
  with modes, a fault oracle for system calls, the log); handlers are actions \<open>machine \<Rightarrow> (exn + 'a) \<times> machine\<close>, commands
  are run by a parameter \<open>runner\<close>.  The application's view of it is a \<open>channel\<close>, which gives each call one of its fates.
  Time is an integer number of microseconds, passed in with the request.  Text is a list of characters; JSON is a
  datatype.  Floats are rationals rounded as IEEE doubles are (\<open>Py_Float\<close>).

  \<^bold>\<open>Theories, in the order of the code.\<close>
  \<^item> \<open>Prelude\<close>, \<open>Models\<close>, \<open>Civil_Time\<close>, \<open>Py_Float\<close>, \<open>Py_Regex\<close>: tables with keys, strings and lines, the rows of \<open>models/\<close>,
    \<open>core/settings_store.py\<close> and \<open>core/audit.py\<close>, dates, floats and the patterns of \<open>re\<close> the code uses.
  \<^item> \<open>Rate_Limit_Policy\<close>, \<open>Policy_Service\<close>, \<open>Interval_Job\<close>, \<open>Rate_Limit_Jobs\<close>: the decision of \<open>core/rate_limit_policy.py\<close> for
    one message, the protocol around it, and the cleanup and abuse jobs.  Ceilings, the token bucket bound, the streak
    columns as a summary of the log of decisions, and that the cleanup cannot be observed.
  \<^item> \<open>Secrets\<close>, \<open>Key_Rotation\<close>: \<open>core/encryption.py\<close> and the key commands.  Rotation is all or nothing.
  \<^item> \<open>Sessions\<close>, \<open>Login_Limit\<close>, \<open>Admin_Auth\<close>, \<open>Admin_Safety\<close>: sessions, the limiter whose state is the audit log, TOTP, the
    routes of \<open>auth.py\<close> and \<open>admins.py\<close>.  Who gets a session, how many guesses there are, that codes are not accepted
    twice, and that an active administrator always remains.
  \<^item> \<open>Schemas\<close>, \<open>Senders\<close>, \<open>Upstream_Accounts\<close>, \<open>Permissions\<close>, \<open>Config_Generator\<close>: the tables the configuration is made of and the
    maps made of them; \<open>Broker_Events\<close> and \<open>Password_Binding\<close> treat every sequence of these requests, tests and jobs.
  \<^item> \<open>Upstream_Test\<close>: the SMTP sessions of the application (\<open>smtp_transport.py\<close>, \<open>test_connection.py\<close>, \<open>mailer.py\<close>,
    \<open>scheduled_tests.py\<close>) with a trace of what leaves it.
  \<^item> \<open>Control_Surface\<close>, \<open>Config_Install\<close>, \<open>Surface_Safety\<close>, \<open>Log_Tail\<close>, \<open>Postfix_Control\<close>: the handlers of the root process, what
    an apply guarantees in every outcome, and the client.  The abstract specification of a configuration run is the
    authorization relation \<open>may_send\<close> of the database; the live maps refine it.
  \<^item> \<open>Local_Users\<close>, \<open>Credential_Store\<close>, \<open>User_Events\<close>, \<open>Credential_Safety\<close>, \<open>Username_Reuse\<close>: the SMTP users.  The locale
    \<open>credential_store\<close> is the contract of the three \<open>sasl_*\<close> calls, interpreted on the channel to the control surface; on it rest
    the statements on live credentials over any run.
  \<^item> \<open>Mail_Log_Parser\<close>, \<open>Mail_Log_Ingest\<close>, \<open>Mail_Log_Story\<close>, \<open>Mail_Log_Exact\<close>, \<open>Log_Pages\<close>: from the log line to the page.  Rows are
    the stories of their queue ids, and every complete line is ingested exactly once.
  \<^item> \<open>Dns_Providers\<close>, \<open>Acme_Order\<close>, \<open>Acme_Tls\<close>, \<open>Tls_Settings\<close>, \<open>Certificate_Install\<close>, \<open>Certificate_Safety\<close>, \<open>Renewal_Spacing\<close>: the relay's
    certificate, from the DNS challenge to the live files, by hand and by the daily tick.
  \<^item> \<open>Startup\<close>: the repairs of \<open>lifespan\<close> on one machine, and the periodic loop.
  \<^item> \<open>Health\<close>, \<open>Housekeeping\<close>, \<open>Alerts\<close>, \<open>Alert_Email\<close>, \<open>Notification_Settings\<close>: what the operator is told, and retention.
  \<^item> \<open>Branding\<close>, \<open>Csv_Export\<close>, \<open>Queue_Routes\<close>, \<open>Operator_Cli\<close>: the remaining routes, the response headers and the commands.

  \<^bold>\<open>Interfaces.\<close>  A locale states what one side relies on, and is interpreted on the definitions of the other:
  \<open>singleton_store\<close> (\<open>Models\<close>), \<open>float_rounding\<close> (\<open>Py_Float\<close>), \<open>column_family\<close> (\<open>Key_Rotation\<close>), \<open>interval_job\<close> (four jobs
  and the anonymous health check), \<open>credential_store\<close>, \<open>maillog_source\<close> and \<open>tls_relay\<close> (the channel), \<open>mail_track\<close> (the five
  tracked kinds of alert mail).

  \<^bold>\<open>Bounds.\<close>  A tick of the ingestion takes at most 50 chunks, as the code does; what is left over is read by the next.
  The wait for a challenge record is a \<open>partial_function\<close>: that it returns, and after how many attempts, is proved from the
  progress of the clock.  Reading and serving policy requests recurses over the bytes that are left, removing the matches of a pattern over the
  text; everything else is structural recursion.  Numbers of Python are unbounded, as in the model.

  \<^bold>\<open>What is assumed of code outside the repository.\<close>  It enters as arguments with named hypotheses: AES-GCM decrypts what it
  encrypted (\<open>aead_ok\<close>); the Postfix and SASL tools write the files they are called for (\<open>tools_local\<close>, \<open>tls_tools_local\<close>,
  \<open>sasl_tools\<close>, \<open>sasl_tools_local\<close>); Argon2, SHA-256, the TOTP digest, Jinja, the ACME and DNS packages and the HTTP clients are
  functions of their inputs or of the environment of the call.  Each is shown to be satisfiable where a property uses it.

  \<^bold>\<open>Not modelled.\<close>  Concurrency inside the application: requests and ticks are steps that do not overlap, and the lock of
  the ingestion is the order of its calls.  Reading the environment (\<open>config.py\<close>; settings are arguments), log output
  (\<open>logging_config.py\<close>, \<open>request_context.py\<close>), one-line wrappers of library calls (\<open>security.py\<close>, \<open>clock.py\<close>), the
  database engine (\<open>db/\<close>) and the DDL of the migrations, the text of the Jinja templates, the wiring of routers in
  \<open>main.py\<close>, the creation and cancellation of its tasks, the accept loop of the control surface, the TypeScript client, and the test and screenshot scripts.
\<close>

end
